(* ===== verification/Json.thy ===== *)
theory Json
  imports Pystr
begin

text \<open>
  JSON values (the \<^verbatim>\<open>Any\<close> of tool arguments, token payloads and policies), their text as
  \<^verbatim>\<open>json.dumps\<close> with compact separators writes it, the parser \<^verbatim>\<open>json.loads\<close>, and
  \<^verbatim>\<open>str()\<close> of a value. Numbers are the integers: a float has no value here and the parser
  rejects its text. The parser carries a fuel argument that bounds the nesting; \<open>loads\<close>
  gives it the length of the text, which is always enough for a text that \<open>dumps\<close> wrote.
\<close>

section \<open>Values\<close>

datatype json =
    JNull
  | JBool bool
  | JInt int
  | JStr string
  | JList "json list"
  | JDict "(string \<times> json) list"

fun json_wf :: "json \<Rightarrow> bool" and json_wf_list :: "json list \<Rightarrow> bool"
  and json_wf_items :: "(string \<times> json) list \<Rightarrow> bool" where
  "json_wf (JList xs) = json_wf_list xs"
| "json_wf (JDict kvs) = (dict_wf kvs \<and> json_wf_items kvs)"
| "json_wf _ = True"
| "json_wf_list [] = True"
| "json_wf_list (x # xs) = (json_wf x \<and> json_wf_list xs)"
| "json_wf_items [] = True"
| "json_wf_items ((k, v) # kvs) = (json_wf v \<and> json_wf_items kvs)"

lemma json_wf_list_iff [simp]: "json_wf_list xs \<longleftrightarrow> (\<forall>x \<in> set xs. json_wf x)"
  by (induction xs) auto

lemma json_wf_items_iff [simp]: "json_wf_items kvs \<longleftrightarrow> (\<forall>(k, v) \<in> set kvs. json_wf v)"
  by (induction kvs) auto

section \<open>Text of a value\<close>

definition hex_char :: "nat \<Rightarrow> char" where
  "hex_char d = char_of (if d < 10 then 48 + d else 87 + d)"

definition hex_val :: "char \<Rightarrow> nat option" where
  "hex_val c = (let n = of_char c :: nat in
     if 48 \<le> n \<and> n \<le> 57 then Some (n - 48)
     else if 97 \<le> n \<and> n \<le> 102 then Some (n - 87)
     else if 65 \<le> n \<and> n \<le> 70 then Some (n - 55) else None)"

text \<open>One character inside a string literal; the flag is \<^verbatim>\<open>ensure_ascii\<close>.\<close>

definition esc_char :: "bool \<Rightarrow> char \<Rightarrow> string" where
  "esc_char ascii c = (let n = of_char c :: nat in
     if c = CHR 0x22 then [CHR 0x5C, CHR 0x22]
     else if c = CHR 0x5C then [CHR 0x5C, CHR 0x5C]
     else if c = CHR 0x0A then [CHR 0x5C, CHR ''n'']
     else if c = CHR 0x0D then [CHR 0x5C, CHR ''r'']
     else if c = CHR 0x09 then [CHR 0x5C, CHR ''t'']
     else if c = CHR 0x08 then [CHR 0x5C, CHR ''b'']
     else if c = CHR 0x0C then [CHR 0x5C, CHR ''f'']
     else if n < 32 \<or> (ascii \<and> 127 \<le> n)
       then [CHR 0x5C, CHR ''u'', CHR ''0'', CHR ''0'', hex_char (n div 16), hex_char (n mod 16)]
     else [c])"

definition quote :: "bool \<Rightarrow> string \<Rightarrow> string" where
  "quote ascii s = CHR 0x22 # concat (map (esc_char ascii) s) @ [CHR 0x22]"

fun dumps :: "bool \<Rightarrow> json \<Rightarrow> string" and dumps_elems :: "bool \<Rightarrow> json list \<Rightarrow> string"
  and dumps_items :: "bool \<Rightarrow> (string \<times> json) list \<Rightarrow> string" where
  "dumps a JNull = ''null''"
| "dumps a (JBool b) = (if b then ''true'' else ''false'')"
| "dumps a (JInt i) = show_int i"
| "dumps a (JStr s) = quote a s"
| "dumps a (JList xs) = CHR ''['' # (case xs of [] \<Rightarrow> '']'' | y # ys \<Rightarrow> dumps a y @ dumps_elems a ys)"
| "dumps a (JDict kvs) = CHR ''{'' # (case kvs of [] \<Rightarrow> ''}''
     | (k, v) # r \<Rightarrow> quote a k @ CHR '':'' # dumps a v @ dumps_items a r)"
| "dumps_elems a [] = '']''"
| "dumps_elems a (x # xs) = CHR '','' # dumps a x @ dumps_elems a xs"
| "dumps_items a [] = ''}''"
| "dumps_items a ((k, v) # kvs) = CHR '','' # quote a k @ CHR '':'' # dumps a v @ dumps_items a kvs"

text \<open>\<^verbatim>\<open>sort_keys=True\<close>: every dictionary is written in the order of its keys.\<close>

fun sort_keys :: "json \<Rightarrow> json" and sort_keys_list :: "json list \<Rightarrow> json list"
  and sort_keys_items :: "(string \<times> json) list \<Rightarrow> (string \<times> json) list" where
  "sort_keys (JList xs) = JList (sort_keys_list xs)"
| "sort_keys (JDict kvs) = JDict (sort_key fst (sort_keys_items kvs))"
| "sort_keys v = v"
| "sort_keys_list [] = []"
| "sort_keys_list (x # xs) = sort_keys x # sort_keys_list xs"
| "sort_keys_items [] = []"
| "sort_keys_items ((k, v) # kvs) = (k, sort_keys v) # sort_keys_items kvs"

lemma fst_sort_keys_items [simp]: "map fst (sort_keys_items kvs) = map fst kvs"
  by (induction kvs) auto

lemma sort_keys_wf:
  "json_wf v \<Longrightarrow> json_wf (sort_keys v)"
  "json_wf_list xs \<Longrightarrow> json_wf_list (sort_keys_list xs)"
  "json_wf_items kvs \<Longrightarrow> json_wf_items (sort_keys_items kvs)"
proof (induction v and xs and kvs rule: sort_keys_sort_keys_list_sort_keys_items.induct)
  case (2 kvs)
  from 2 have "distinct (map fst kvs)" by (simp add: dict_wf_def)
  then have "distinct (map fst (sort_keys_items kvs))" by (simp only: fst_sort_keys_items)
  then have "distinct (map fst (sort_key fst (sort_keys_items kvs)))"
    by (simp add: distinct_map del: fst_sort_keys_items)
  with 2 show ?case by (auto simp: dict_wf_def)
qed (auto simp: dict_wf_def)

section \<open>Parsing\<close>

definition json_ws :: "char \<Rightarrow> bool" where
  "json_ws c \<longleftrightarrow> (let n = of_char c :: nat in n = 32 \<or> n = 9 \<or> n = 10 \<or> n = 13)"

abbreviation skip_ws :: "string \<Rightarrow> string" where
  "skip_ws \<equiv> dropWhile json_ws"

fun parse_hex4 :: "string \<Rightarrow> (char \<times> string) option" where
  "parse_hex4 (a # b # c # d # s) =
     (case (hex_val a, hex_val b, hex_val c, hex_val d) of
        (Some w, Some x, Some y, Some z) \<Rightarrow>
          (if w = 0 \<and> x = 0 then Some (char_of (16 * y + z), s) else None)
      | _ \<Rightarrow> None)"
| "parse_hex4 _ = None"

definition short_escape :: "char \<Rightarrow> char option" where
  "short_escape c =
     (if c = CHR 0x22 then Some CHR 0x22 else if c = CHR 0x5C then Some CHR 0x5C
      else if c = CHR ''/'' then Some CHR ''/'' else if c = CHR ''b'' then Some CHR 0x08
      else if c = CHR ''f'' then Some CHR 0x0C else if c = CHR ''n'' then Some CHR 0x0A
      else if c = CHR ''r'' then Some CHR 0x0D else if c = CHR ''t'' then Some CHR 0x09 else None)"

text \<open>The body of a string literal, after the opening quote; \<^verbatim>\<open>\u\<close> escapes above
  \<^verbatim>\<open>00ff\<close> name characters the model does not have.\<close>

function parse_str :: "string \<Rightarrow> (string \<times> string) option" where
  "parse_str [] = None"
| "parse_str (c # s) =
     (if c = CHR 0x22 then Some ([], s)
      else if c = CHR 0x5C then
        (case s of [] \<Rightarrow> None
         | e # s' \<Rightarrow>
             if e = CHR ''u'' then
               (case parse_hex4 s' of None \<Rightarrow> None
                | Some (d, r) \<Rightarrow>
                    if length r < length s' then map_option (apfst (Cons d)) (parse_str r) else None)
             else (case short_escape e of None \<Rightarrow> None
                   | Some d \<Rightarrow> map_option (apfst (Cons d)) (parse_str s')))
      else if (of_char c :: nat) < 32 then None
      else map_option (apfst (Cons c)) (parse_str s))"
  by pat_completeness auto
termination
  by (relation "measure length") auto

definition parse_nat :: "string \<Rightarrow> (nat \<times> string) option" where
  "parse_nat s = (let d = takeWhile is_digit s; r = dropWhile is_digit s in
     if d = [] then None
     else if hd d = CHR ''0'' then Some (0, tl s)
     else Some (read_nat d, r))"

definition float_mark :: "string \<Rightarrow> bool" where
  "float_mark s \<longleftrightarrow> (case s of [] \<Rightarrow> False | c # _ \<Rightarrow> c = CHR ''.'' \<or> c = CHR ''e'' \<or> c = CHR ''E'')"

definition parse_num :: "string \<Rightarrow> (json \<times> string) option" where
  "parse_num s =
     (let (neg, t) = (case s of [] \<Rightarrow> (False, []) | c # r \<Rightarrow> if c = CHR ''-'' then (True, r) else (False, s))
      in case parse_nat t of None \<Rightarrow> None
         | Some (n, r) \<Rightarrow> if float_mark r then None
                          else Some (JInt (if neg then - int n else int n), r))"

fun parse_value :: "nat \<Rightarrow> string \<Rightarrow> (json \<times> string) option"
  and parse_elems :: "nat \<Rightarrow> string \<Rightarrow> (json list \<times> string) option"
  and parse_items :: "nat \<Rightarrow> string \<Rightarrow> ((string \<times> json) list \<times> string) option" where
  "parse_value 0 s = None"
| "parse_value (Suc n) s = (case s of [] \<Rightarrow> None
     | c # r \<Rightarrow>
        if c = CHR 0x22 then map_option (apfst JStr) (parse_str r)
        else if c = CHR ''{'' then
          (case skip_ws r of [] \<Rightarrow> None
           | d # r' \<Rightarrow> if d = CHR ''}'' then Some (JDict [], r')
                       else map_option (apfst (\<lambda>kvs. JDict (dict_of kvs []))) (parse_items n (d # r')))
        else if c = CHR ''['' then
          (case skip_ws r of [] \<Rightarrow> None
           | d # r' \<Rightarrow> if d = CHR '']'' then Some (JList [], r')
                       else map_option (apfst JList) (parse_elems n (d # r')))
        else if startswith s ''null'' then Some (JNull, drop 4 s)
        else if startswith s ''true'' then Some (JBool True, drop 4 s)
        else if startswith s ''false'' then Some (JBool False, drop 5 s)
        else parse_num s)"
| "parse_elems 0 s = None"
| "parse_elems (Suc n) s = (case parse_value n s of None \<Rightarrow> None
     | Some (v, r) \<Rightarrow> (case skip_ws r of [] \<Rightarrow> None
        | c # r' \<Rightarrow> if c = CHR '']'' then Some ([v], r')
                    else if c = CHR '','' then map_option (apfst (Cons v)) (parse_elems n (skip_ws r'))
                    else None))"
| "parse_items 0 s = None"
| "parse_items (Suc n) s = (case s of [] \<Rightarrow> None
     | q # s' \<Rightarrow> if q \<noteq> CHR 0x22 then None else
        (case parse_str s' of None \<Rightarrow> None
         | Some (k, r) \<Rightarrow> (case skip_ws r of [] \<Rightarrow> None
            | c # r' \<Rightarrow> if c \<noteq> CHR '':'' then None else
               (case parse_value n (skip_ws r') of None \<Rightarrow> None
                | Some (v, t) \<Rightarrow> (case skip_ws t of [] \<Rightarrow> None
                   | e # t' \<Rightarrow> if e = CHR ''}'' then Some ([(k, v)], t')
                               else if e = CHR '','' then
                                 map_option (apfst (Cons (k, v))) (parse_items n (skip_ws t'))
                               else None)))))"

definition loads :: "string \<Rightarrow> json option" where
  "loads s = (case parse_value (Suc (length s)) (skip_ws s) of
     Some (v, r) \<Rightarrow> if skip_ws r = [] then Some v else None
   | None \<Rightarrow> None)"

section \<open>Reading back what was written\<close>

lemma hex_val_char [simp]: "d < 16 \<Longrightarrow> hex_val (hex_char d) = Some d"
  by (auto simp: hex_val_def hex_char_def Let_def)

lemma hex_val_0 [simp]: "hex_val CHR ''0'' = Some 0"
  by (simp add: hex_val_def)

lemma parse_hex4_esc:
  "parse_hex4 (CHR ''0'' # CHR ''0'' # hex_char (of_char c div 16) # hex_char (of_char c mod 16) # t) = Some (c, t)"
proof -
  have "(of_char c :: nat) < 256" by simp
  then have "(of_char c :: nat) div 16 < 16" "(of_char c :: nat) mod 16 < 16" by presburger+
  then show ?thesis by simp
qed

lemma esc_plain: "esc_char a c = [c] \<or> (\<exists>e. esc_char a c = [CHR 0x5C, e] \<and> short_escape e = Some c \<and> e \<noteq> CHR ''u'')
   \<or> esc_char a c = [CHR 0x5C, CHR ''u'', CHR ''0'', CHR ''0'', hex_char (of_char c div 16), hex_char (of_char c mod 16)]"
  unfolding esc_char_def short_escape_def Let_def
  by simp

lemma esc_plain_char: "esc_char a c = [c] \<Longrightarrow> c \<noteq> CHR 0x22 \<and> c \<noteq> CHR 0x5C \<and> \<not> (of_char c :: nat) < 32"
  unfolding esc_char_def Let_def by (auto split: if_splits)

lemma parse_str_esc: "parse_str (esc_char a c @ t) = map_option (apfst (Cons c)) (parse_str t)"
proof -
  consider "esc_char a c = [c]"
    | e where "esc_char a c = [CHR 0x5C, e]" "short_escape e = Some c" "e \<noteq> CHR ''u''"
    | "esc_char a c = [CHR 0x5C, CHR ''u'', CHR ''0'', CHR ''0'', hex_char (of_char c div 16), hex_char (of_char c mod 16)]"
    using esc_plain [of a c] by blast
  then show ?thesis
  proof cases
    case 1
    then show ?thesis by (simp add: esc_plain_char)
  next
    case 2
    then show ?thesis by simp
  next
    case 3
    then show ?thesis by (simp add: parse_hex4_esc del: parse_hex4.simps)
  qed
qed

lemma parse_str_quote:
  "parse_str (concat (map (esc_char a) s) @ CHR 0x22 # r) = Some (s, r)"
  by (induction s) (auto simp: parse_str_esc simp del: parse_str.simps(2), simp)

definition num_end :: "string \<Rightarrow> bool" where
  "num_end r \<longleftrightarrow> (case r of [] \<Rightarrow> True | c # _ \<Rightarrow> \<not> is_digit c \<and> c \<noteq> CHR ''.'' \<and> c \<noteq> CHR ''e'' \<and> c \<noteq> CHR ''E'')"

lemma num_end_simps [simp]:
  "num_end []" "num_end (CHR '','' # r)" "num_end (CHR '']'' # r)" "num_end (CHR ''}'' # r)"
  by (simp_all add: num_end_def is_digit_def)

lemma show_nat_small: "n < 10 \<Longrightarrow> show_nat n = [digit_char n]"
  by (subst show_nat.simps) simp

lemma show_nat_big: "\<not> n < 10 \<Longrightarrow> show_nat n = show_nat (n div 10) @ [digit_char (n mod 10)]"
  by (subst show_nat.simps) simp

lemma digit_char_0: "digit_char 0 = CHR ''0''"
  by code_simp

lemma digit_char_0_iff: "n < 10 \<Longrightarrow> digit_char n = CHR ''0'' \<longleftrightarrow> n = 0"
  by (metis digit_char_0 digit_val_char zero_less_numeral)

lemma hd_show_nat: "hd (show_nat n) = CHR ''0'' \<longleftrightarrow> n = 0"
proof (induction n rule: show_nat.induct)
  case (1 n)
  show ?case
  proof (cases "n < 10")
    case True
    then show ?thesis by (simp add: show_nat_small digit_char_0_iff)
  next
    case False
    then show ?thesis using 1 by (simp add: show_nat_big)
  qed
qed

lemma parse_nat_show:
  assumes "num_end r"
  shows "parse_nat (show_nat n @ r) = Some (n, r)"
proof -
  have all: "\<forall>c \<in> set (show_nat n). is_digit c" by (blast intro: show_nat_digits)
  have r: "takeWhile is_digit r = []" "dropWhile is_digit r = r"
    using assms by (cases r; simp add: num_end_def)+
  have t: "takeWhile is_digit (show_nat n @ r) = show_nat n" "dropWhile is_digit (show_nat n @ r) = r"
    using all r by (simp_all add: takeWhile_append dropWhile_append)
  have "n = 0 \<Longrightarrow> tl (show_nat n @ r) = r" by (simp add: show_nat_small)
  with t hd_show_nat [of n] show ?thesis by (simp add: parse_nat_def Let_def)
qed

lemma show_int_hd: "\<exists>c s. show_int i = c # s \<and> (is_digit c \<or> c = CHR ''-'')"
proof (cases "i < 0")
  case True then show ?thesis by (simp add: show_int_def)
next
  case False
  obtain c s where "show_nat (nat i) = c # s" by (meson list.exhaust show_nat_ne)
  with False show_nat_digits [of c "nat i"] show ?thesis by (simp add: show_int_def)
qed

lemma parse_num_show: "num_end r \<Longrightarrow> parse_num (show_int i @ r) = Some (JInt i, r)"
proof -
  assume r: "num_end r"
  then have nf: "\<not> float_mark r" by (auto simp: float_mark_def num_end_def split: list.splits)
  obtain c s where c: "show_nat (nat i) = c # s" by (meson list.exhaust show_nat_ne)
  then have "c \<noteq> CHR ''-''" using show_nat_digits [of c "nat i"] by (auto simp: is_digit_def)
  then show ?thesis
    using r nf c parse_nat_show [OF r, of "nat i"]
    by (auto simp: parse_num_def show_int_def Let_def parse_nat_show)
qed

lemma dumps_hd: "\<exists>c s. dumps a v = c # s \<and> \<not> json_ws c \<and> c \<noteq> CHR '']'' \<and> c \<noteq> CHR ''}''"
proof (cases v)
  case (JInt i)
  with show_int_hd [of i] show ?thesis
    by (auto simp: json_ws_def is_digit_def Let_def)
qed (auto simp: json_ws_def quote_def)

definition reads :: "bool \<Rightarrow> json \<Rightarrow> bool" where
  "reads a v \<longleftrightarrow> (\<forall>n r. num_end r \<longrightarrow> length (dumps a v) \<le> n \<longrightarrow> parse_value n (dumps a v @ r) = Some (v, r))"

lemma readsI:
  assumes "\<And>m r. num_end r \<Longrightarrow> length (dumps a v) \<le> Suc m \<Longrightarrow>
      parse_value (Suc m) (dumps a v @ r) = Some (v, r)"
  shows "reads a v"
  unfolding reads_def
proof (intro allI impI)
  fix n r assume "num_end r" and le: "length (dumps a v) \<le> n"
  from le dumps_hd [of a v] obtain m where "n = Suc m" by (cases n) auto
  with assms \<open>num_end r\<close> le show "parse_value n (dumps a v @ r) = Some (v, r)" by simp
qed

lemma readsD: "reads a v \<Longrightarrow> num_end r \<Longrightarrow> length (dumps a v) \<le> n \<Longrightarrow> parse_value n (dumps a v @ r) = Some (v, r)"
  by (simp add: reads_def)

lemma skip_dumps [simp]: "skip_ws (dumps a v @ r) = dumps a v @ r"
  using dumps_hd [of a v] by auto

lemma num_end_elems [simp]: "num_end (dumps_elems a xs @ r)" by (cases xs) auto
lemma num_end_items [simp]: "num_end (dumps_items a xs @ r)" by (cases xs) auto

lemma parse_elems_dumps:
  assumes "\<forall>x \<in> set (y # ys). reads a x" and "length (dumps a y @ dumps_elems a ys) \<le> n"
  shows "parse_elems n (dumps a y @ dumps_elems a ys @ r) = Some (y # ys, r)"
  using assms
proof (induction ys arbitrary: y n)
  case Nil
  then obtain m where "n = Suc m" by (cases n) auto
  with Nil show ?case by (simp add: readsD json_ws_def)
next
  case (Cons z zs)
  then obtain m where n: "n = Suc m" by (cases n) auto
  with Cons.prems have "parse_value m (dumps a y @ dumps_elems a (z # zs) @ r) = Some (y, dumps_elems a (z # zs) @ r)"
    by (intro readsD) auto
  moreover have "parse_elems m (dumps a z @ dumps_elems a zs @ r) = Some (z # zs, r)"
    using Cons.prems n by (intro Cons.IH) auto
  ultimately show ?case using n by (simp add: json_ws_def)
qed

lemma parse_items_dumps:
  assumes "\<forall>(k, x) \<in> set ((k, v) # kvs). reads a x"
    and "length (quote a k @ dumps a v @ dumps_items a kvs) \<le> n"
  shows "parse_items n (quote a k @ CHR '':'' # dumps a v @ dumps_items a kvs @ r) = Some ((k, v) # kvs, r)"
  using assms
proof (induction kvs arbitrary: k v n)
  case Nil
  then obtain m where "n = Suc m" by (cases n) auto
  with Nil show ?case by (simp add: readsD json_ws_def quote_def parse_str_quote)
next
  case (Cons p kvs)
  obtain k' v' where p: "p = (k', v')" by (cases p)
  from Cons obtain m where n: "n = Suc m" by (cases n) auto
  with Cons.prems p have "parse_value m (dumps a v @ dumps_items a (p # kvs) @ r) = Some (v, dumps_items a (p # kvs) @ r)"
    by (intro readsD) auto
  moreover have "parse_items m (quote a k' @ CHR '':'' # dumps a v' @ dumps_items a kvs @ r) = Some ((k', v') # kvs, r)"
    using Cons.prems n p by (intro Cons.IH) (auto simp: quote_def)
  moreover have "skip_ws (quote a k' @ s) = quote a k' @ s" for s
    by (simp add: quote_def json_ws_def)
  ultimately show ?case using n p by (simp add: json_ws_def quote_def parse_str_quote)
qed

lemma parse_value_dumps: "json_wf v \<Longrightarrow> reads a v"
proof (induction v)
  case (JInt i)
  show ?case unfolding reads_def
  proof (intro allI impI)
    fix n r assume r: "num_end r" and le: "length (dumps a (JInt i)) \<le> n"
    obtain c s where c: "show_int i = c # s" "is_digit c \<or> c = CHR ''-''" using show_int_hd by blast
    from le c obtain m where n: "n = Suc m" by (cases n) auto
    from c(2) have nc: "c \<noteq> CHR 0x22" "c \<noteq> CHR ''{''" "c \<noteq> CHR ''[''" "c \<noteq> CHR ''n''" "c \<noteq> CHR ''t''" "c \<noteq> CHR ''f''"
      by (auto simp: is_digit_def)
    show "parse_value n (dumps a (JInt i) @ r) = Some (JInt i, r)"
      using parse_num_show [OF r, of i] by (simp add: n c(1) nc)
  qed
next
  case (JList xs)
  show ?case unfolding reads_def
  proof (intro allI impI)
    fix n r assume r: "num_end r" and le: "length (dumps a (JList xs)) \<le> n"
    then obtain m where n: "n = Suc m" by (cases n) auto
    show "parse_value n (dumps a (JList xs) @ r) = Some (JList xs, r)"
    proof (cases xs)
      case Nil
      then show ?thesis using n by (simp add: json_ws_def)
    next
      case (Cons y ys)
      obtain c s where c: "dumps a y = c # s" "\<not> json_ws c" "c \<noteq> CHR '']''" using dumps_hd by blast
      have "parse_elems m (dumps a y @ dumps_elems a ys @ r) = Some (y # ys, r)"
        using JList le n Cons by (intro parse_elems_dumps) auto
      with c n Cons show ?thesis by simp
    qed
  qed
next
  case (JDict kvs)
  show ?case unfolding reads_def
  proof (intro allI impI)
    fix n r assume r: "num_end r" and le: "length (dumps a (JDict kvs)) \<le> n"
    then obtain m where n: "n = Suc m" by (cases n) auto
    show "parse_value n (dumps a (JDict kvs) @ r) = Some (JDict kvs, r)"
    proof (cases kvs)
      case Nil
      then show ?thesis using n by (simp add: json_ws_def)
    next
      case (Cons p ps)
      obtain k v where p: "p = (k, v)" by (cases p)
      have "\<forall>(k, x) \<in> set ((k, v) # ps). reads a x"
        using JDict p Cons by (fastforce simp: Basic_BNFs.snds.simps)
      then have i: "parse_items m (quote a k @ CHR '':'' # dumps a v @ dumps_items a ps @ r) = Some ((k, v) # ps, r)"
        using le n Cons p by (intro parse_items_dumps) auto
      have d: "dict_of kvs [] = kvs" using JDict.prems by (simp add: dict_wf_def dict_of_distinct)
      show ?thesis using i d n Cons p by (simp add: quote_def json_ws_def)
    qed
  qed
qed (auto intro!: readsI simp: quote_def parse_str_quote)

theorem loads_dumps:
  assumes "json_wf v"
  shows "loads (dumps a v) = Some v"
proof -
  have "parse_value (Suc (length (dumps a v))) (dumps a v @ []) = Some (v, [])"
    using parse_value_dumps [OF assms] by (intro readsD) auto
  then show ?thesis using skip_dumps [of a v "[]"] by (simp add: loads_def)
qed

text \<open>Two values with the same sorted text are the same up to the order of their keys.\<close>

lemma dumps_inject:
  assumes "json_wf v" and "json_wf w" and "dumps a v = dumps b w"
  shows "v = w"
  using loads_dumps [OF assms(1), of a] loads_dumps [OF assms(2), of b] assms(3) by simp

section \<open>Equality and \<^verbatim>\<open>str()\<close>\<close>

text \<open>\<^verbatim>\<open>==\<close>: a boolean equals the integer 0 or 1, dictionaries compare without order.\<close>

fun py_eq :: "json \<Rightarrow> json \<Rightarrow> bool" and py_eq_list :: "json list \<Rightarrow> json list \<Rightarrow> bool"
  and py_eq_items :: "(string \<times> json) list \<Rightarrow> (string \<times> json) list \<Rightarrow> bool" where
  "py_eq JNull w = (w = JNull)"
| "py_eq (JBool b) w = (case w of JBool c \<Rightarrow> b = c | JInt i \<Rightarrow> i = of_bool b | _ \<Rightarrow> False)"
| "py_eq (JInt i) w = (case w of JInt j \<Rightarrow> i = j | JBool c \<Rightarrow> i = of_bool c | _ \<Rightarrow> False)"
| "py_eq (JStr s) w = (w = JStr s)"
| "py_eq (JList xs) w = (case w of JList ys \<Rightarrow> py_eq_list xs ys | _ \<Rightarrow> False)"
| "py_eq (JDict d) w = (case w of JDict e \<Rightarrow> length d = length e \<and> py_eq_items d e | _ \<Rightarrow> False)"
| "py_eq_list [] ys = (ys = [])"
| "py_eq_list (x # xs) ys = (case ys of [] \<Rightarrow> False | y # ys' \<Rightarrow> py_eq x y \<and> py_eq_list xs ys')"
| "py_eq_items [] e = True"
| "py_eq_items ((k, v) # d) e =
     ((case map_of e k of None \<Rightarrow> False | Some w \<Rightarrow> py_eq v w) \<and> py_eq_items d e)"

definition repr_char :: "char \<Rightarrow> char \<Rightarrow> string" where
  "repr_char q c = (let n = of_char c :: nat in
     if c = q \<or> c = CHR 0x5C then [CHR 0x5C, c]
     else if n = 10 then [CHR 0x5C, CHR ''n''] else if n = 13 then [CHR 0x5C, CHR ''r'']
     else if n = 9 then [CHR 0x5C, CHR ''t'']
     else if n < 32 \<or> n = 127 then [CHR 0x5C, CHR ''x'', hex_char (n div 16), hex_char (n mod 16)]
     else [c])"

definition repr_str :: "string \<Rightarrow> string" where
  "repr_str s = (let q = (if CHR 0x27 \<in> set s \<and> CHR 0x22 \<notin> set s then CHR 0x22 else CHR 0x27)
     in q # concat (map (repr_char q) s) @ [q])"

fun py_repr :: "json \<Rightarrow> string" and py_repr_list :: "json list \<Rightarrow> string list"
  and py_repr_items :: "(string \<times> json) list \<Rightarrow> string list" where
  "py_repr JNull = ''None''"
| "py_repr (JBool b) = (if b then ''True'' else ''False'')"
| "py_repr (JInt i) = show_int i"
| "py_repr (JStr s) = repr_str s"
| "py_repr (JList xs) = ''['' @ str_join '', '' (py_repr_list xs) @ '']''"
| "py_repr (JDict d) = ''{'' @ str_join '', '' (py_repr_items d) @ ''}''"
| "py_repr_list [] = []"
| "py_repr_list (x # xs) = py_repr x # py_repr_list xs"
| "py_repr_items [] = []"
| "py_repr_items ((k, v) # d) = (repr_str k @ '': '' @ py_repr v) # py_repr_items d"

definition py_str :: "json \<Rightarrow> string" where
  "py_str v = (case v of JStr s \<Rightarrow> s | _ \<Rightarrow> py_repr v)"

end
