(* ===== verification/Models.thy ===== *)
theory Models
  imports Json
begin

text \<open>
  The data model of \<^verbatim>\<open>models.py\<close>: the enumerations with their wire values, the records the
  operations exchange, the validation that a field declaration imposes on a value, and the
  JSON form of the records that are hashed, signed or stored. A field that may be
  \<^verbatim>\<open>None\<close> is an option; a time is a \<open>time\<close>.
\<close>

section \<open>Enumerations\<close>

datatype decision = ALLOW | DENY | REQUIRE_APPROVAL

fun decision_value :: "decision \<Rightarrow> string" where
  "decision_value ALLOW = ''allow''"
| "decision_value DENY = ''deny''"
| "decision_value REQUIRE_APPROVAL = ''require_approval''"

definition decision_of :: "string \<Rightarrow> decision option" where
  "decision_of s = (if s = ''allow'' then Some ALLOW else if s = ''deny'' then Some DENY
     else if s = ''require_approval'' then Some REQUIRE_APPROVAL else None)"

datatype enforcement_mode = OBSERVE | WARN | ENFORCE

datatype trust_level = TRUSTED | MIXED | UNTRUSTED

fun trust_value :: "trust_level \<Rightarrow> string" where
  "trust_value TRUSTED = ''trusted''"
| "trust_value MIXED = ''mixed''"
| "trust_value UNTRUSTED = ''untrusted''"

definition trust_of :: "string \<Rightarrow> trust_level option" where
  "trust_of s = (if s = ''trusted'' then Some TRUSTED else if s = ''mixed'' then Some MIXED
     else if s = ''untrusted'' then Some UNTRUSTED else None)"

datatype data_classification = PUBLIC | INTERNAL | CONFIDENTIAL | RESTRICTED

fun classification_value :: "data_classification \<Rightarrow> string" where
  "classification_value PUBLIC = ''public''"
| "classification_value INTERNAL = ''internal''"
| "classification_value CONFIDENTIAL = ''confidential''"
| "classification_value RESTRICTED = ''restricted''"

definition classification_of :: "string \<Rightarrow> data_classification option" where
  "classification_of s = (if s = ''public'' then Some PUBLIC
     else if s = ''internal'' then Some INTERNAL
     else if s = ''confidential'' then Some CONFIDENTIAL
     else if s = ''restricted'' then Some RESTRICTED else None)"

datatype containment_mode = MONITOR | RESTRICT | QUARANTINE | REVOKE

fun containment_mode_value :: "containment_mode \<Rightarrow> string" where
  "containment_mode_value MONITOR = ''monitor''"
| "containment_mode_value RESTRICT = ''restrict''"
| "containment_mode_value QUARANTINE = ''quarantine''"
| "containment_mode_value REVOKE = ''revoke''"

lemma decision_of_value [simp]: "decision_of (decision_value d) = Some d"
  by (cases d) (simp_all add: decision_of_def)

lemma trust_of_value [simp]: "trust_of (trust_value t) = Some t"
  by (cases t) (simp_all add: trust_of_def)

lemma classification_of_value [simp]: "classification_of (classification_value c) = Some c"
  by (cases c) (simp_all add: classification_of_def)

lemma decision_value_inject [simp]: "decision_value a = decision_value b \<longleftrightarrow> a = b"
  by (metis decision_of_value option.inject)

section \<open>Exceptions and cryptography\<close>

text \<open>
  The exceptions the source raises, with their messages. \<^verbatim>\<open>TokenError\<close>, \<^verbatim>\<open>FieldTaintError\<close>,
  \<^verbatim>\<open>ToolValidationError\<close> and \<^verbatim>\<open>WatchTaskNotFound\<close> are kinds of \<^verbatim>\<open>ValueError\<close>; a failed
  validation of a model is a plain one.
\<close>

datatype exc =
    TokenError string
  | FieldTaintError string
  | ToolValidationError string
  | WatchTaskNotFound string
  | ValueError string
  | KeyError string
  | ToolExecutionError string
  | StorageIntegrityError string
  | PolicyConfigurationError string
  | AttributeError string
  | IntegrityError string
  | TypeError string
  | UpstreamMCPError string
  | RuntimeError string
  | AdminIdentityError string
  | HTTPException int string

fun is_value_error :: "exc \<Rightarrow> bool" where
  "is_value_error (TokenError m) = True"
| "is_value_error (FieldTaintError m) = True"
| "is_value_error (ToolValidationError m) = True"
| "is_value_error (WatchTaskNotFound m) = True"
| "is_value_error (ValueError m) = True"
| "is_value_error _ = False"

text \<open>\<^verbatim>\<open>str(exc)\<close>\<close>

fun exc_text :: "exc \<Rightarrow> string" where
  "exc_text (TokenError m) = m"
| "exc_text (FieldTaintError m) = m"
| "exc_text (ToolValidationError m) = m"
| "exc_text (WatchTaskNotFound m) = m"
| "exc_text (ValueError m) = m"
| "exc_text (KeyError m) = CHR 0x27 # m @ [CHR 0x27]"
| "exc_text (ToolExecutionError m) = m"
| "exc_text (StorageIntegrityError m) = m"
| "exc_text (PolicyConfigurationError m) = m"
| "exc_text (AttributeError m) = m"
| "exc_text (IntegrityError m) = m"
| "exc_text (TypeError m) = m"
| "exc_text (UpstreamMCPError m) = m"
| "exc_text (RuntimeError m) = m"
| "exc_text (AdminIdentityError m) = m"
| "exc_text (HTTPException c m) = show_int c @ '': '' @ m"

text \<open>
  The primitives of \<^verbatim>\<open>hashlib\<close>, \<^verbatim>\<open>hmac\<close> and the AES-GCM cipher are parameters of the model:
  the hexadecimal SHA-256 of a text, the HMAC-SHA-256 of a key and a text as bytes and as
  hexadecimal digits, and authenticated encryption under a key (nonce, text, purpose).
\<close>

record crypto =
  sha256 :: "string \<Rightarrow> string"
  hmac_digest :: "string \<Rightarrow> string \<Rightarrow> string"
  hmac_hex :: "string \<Rightarrow> string \<Rightarrow> string"
  aead_encrypt :: "string \<Rightarrow> string \<Rightarrow> string \<Rightarrow> string \<Rightarrow> string"
  aead_decrypt :: "string \<Rightarrow> string \<Rightarrow> string \<Rightarrow> string \<Rightarrow> string option"

section \<open>Field patterns\<close>

text \<open>\<^verbatim>\<open>^[a-zA-Z0-9_.:-]{1,n}$\<close>\<close>

definition ident_char :: "char \<Rightarrow> bool" where
  "ident_char c \<longleftrightarrow> is_alnum c \<or> c \<in> set ''_.:-''"

definition ident_ok :: "nat \<Rightarrow> string \<Rightarrow> bool" where
  "ident_ok n s \<longleftrightarrow> 1 \<le> length s \<and> length s \<le> n \<and> list_all ident_char s"

definition taint_label_ok :: "string \<Rightarrow> bool" where
  "taint_label_ok s = ident_ok 64 s"

text \<open>\<^verbatim>\<open>^[a-zA-Z][a-zA-Z0-9_.:-]{0,127}$\<close>\<close>

definition tool_name_ok :: "string \<Rightarrow> bool" where
  "tool_name_ok s \<longleftrightarrow> (case s of [] \<Rightarrow> False
     | c # r \<Rightarrow> is_alnum c \<and> \<not> is_digit c \<and> length r \<le> 127 \<and> list_all ident_char r)"

text \<open>\<^verbatim>\<open>^(?:/(?:[^~/]|~[01])*)*$\<close>, at most 1024 characters\<close>

fun pointer_chars_ok :: "string \<Rightarrow> bool" where
  "pointer_chars_ok [] = True"
| "pointer_chars_ok (c # s) =
     (if c = CHR ''~'' then
        (case s of [] \<Rightarrow> False
         | d # r \<Rightarrow> (d = CHR ''0'' \<or> d = CHR ''1'') \<and> pointer_chars_ok r)
      else pointer_chars_ok s)"

definition json_pointer_ok :: "string \<Rightarrow> bool" where
  "json_pointer_ok s \<longleftrightarrow> length s \<le> 1024 \<and> (s = [] \<or> hd s = CHR ''/'') \<and> pointer_chars_ok s"

definition hex_lower :: "char \<Rightarrow> bool" where
  "hex_lower c \<longleftrightarrow> is_digit c \<or> c \<in> set ''abcdef''"

text \<open>\<^verbatim>\<open>^[a-f0-9]{64}$\<close>\<close>

definition digest_ok :: "string \<Rightarrow> bool" where
  "digest_ok s \<longleftrightarrow> length s = 64 \<and> list_all hex_lower s"

section \<open>Identities and taint\<close>

record agent_principal =
  pr_agent_id :: string
  pr_tenant_id :: string
  pr_scopes :: "string list"
  pr_token_id :: string
  pr_expires_at :: time

record field_taint =
  ft_digest :: string
  ft_trust :: trust_level
  ft_classification :: data_classification
  ft_labels :: "string list"
  ft_lineage_ids :: "string list"

text \<open>Constructing a \<^verbatim>\<open>FieldTaint\<close> validates it; \<^verbatim>\<open>model_copy\<close> does not.\<close>

definition field_taint_ok :: "field_taint \<Rightarrow> bool" where
  "field_taint_ok f \<longleftrightarrow> digest_ok (ft_digest f) \<and> length (ft_labels f) \<le> 50
     \<and> list_all taint_label_ok (ft_labels f) \<and> length (ft_lineage_ids f) \<le> 100"

record verified_provenance =
  vp_source_id :: string
  vp_digest :: string
  vp_trust :: trust_level
  vp_signals :: "string list"
  vp_classification :: data_classification
  vp_labels :: "string list"
  vp_lineage_id :: "string option"
  vp_trace_id :: "string option"
  vp_parent_ids :: "string list"
  vp_field_taint :: "(string, field_taint) dict"

record attestation =
  at_token :: string
  at_digest :: string
  at_trust :: trust_level
  at_signals :: "string list"
  at_classification :: data_classification
  at_labels :: "string list"
  at_lineage_id :: string
  at_trace_id :: "string option"
  at_expires_at :: time
  at_field_taint :: "(string, field_taint) dict"

section \<open>Calls and decisions\<close>

record field_reference =
  fr_token :: string
  fr_pointer :: string

record tool_call =
  tc_request_id :: string
  tc_user_id :: string
  tc_tool_name :: string
  tc_arguments :: "(string, json) dict"
  tc_provenance_tokens :: "string list"
  tc_field_provenance :: "(string, field_reference list) dict"
  tc_purpose :: string
  tc_trace_id :: string
  tc_task_id :: "string option"
  tc_mcp_server_id :: "string option"

record security_finding =
  sf_code :: string
  sf_severity :: string
  sf_path :: string
  sf_fingerprint :: string

record policy_decision =
  pd_request_id :: string
  pd_request_hash :: string
  pd_agent_id :: string
  pd_tenant_id :: string
  pd_decision :: decision
  pd_reasons :: "string list"
  pd_risk :: string
  pd_policy_version :: string
  pd_findings :: "security_finding list"
  pd_approval_id :: "string option"
  pd_audit_event_id :: string
  pd_quarantined :: bool
  pd_mode :: enforcement_mode
  pd_enforced :: bool

record execution_result =
  xr_request_id :: string
  xr_status :: string
  xr_decision :: "policy_decision option"
  xr_output :: "json option"
  xr_approval_id :: "string option"
  xr_token :: "string option"
  xr_classification :: "data_classification option"
  xr_labels :: "string list"
  xr_trace_id :: "string option"
  xr_field_taint :: "(string, field_taint) dict"

end
