(* ===== verification/Wire.thy ===== *)
theory Wire
  imports Models
begin

text \<open>
  The JSON forms of the records of \<^verbatim>\<open>models.py\<close> that are hashed, signed or stored
  (\<^verbatim>\<open>model_dump(mode="json")\<close>) and the validation that reads them back
  (\<^verbatim>\<open>model_validate\<close>), with the round trips the stored records rest on.
\<close>

section \<open>Strings and options\<close>

definition jstrs :: "string list \<Rightarrow> json" where
  "jstrs ss = JList (map JStr ss)"

definition jopt :: "string option \<Rightarrow> json" where
  "jopt v = (case v of None \<Rightarrow> JNull | Some s \<Rightarrow> JStr s)"

fun as_str :: "json \<Rightarrow> string option" where
  "as_str (JStr s) = Some s"
| "as_str _ = None"

fun collect :: "('a \<Rightarrow> 'b option) \<Rightarrow> 'a list \<Rightarrow> 'b list option" where
  "collect f [] = Some []"
| "collect f (x # xs) =
     (case f x of None \<Rightarrow> None | Some y \<Rightarrow> map_option (Cons y) (collect f xs))"

fun as_strs :: "json \<Rightarrow> string list option" where
  "as_strs (JList xs) = collect as_str xs"
| "as_strs _ = None"

fun as_opt_str :: "json \<Rightarrow> string option option" where
  "as_opt_str JNull = Some None"
| "as_opt_str (JStr s) = Some (Some s)"
| "as_opt_str _ = None"

fun as_dict :: "json \<Rightarrow> (string, json) dict option" where
  "as_dict (JDict d) = Some d"
| "as_dict _ = None"

text \<open>Reading with a default, and the truth of a value.\<close>

definition jget :: "(string, json) dict \<Rightarrow> string \<Rightarrow> json" where
  "jget d k = dget d k JNull"

fun falsy :: "json \<Rightarrow> bool" where
  "falsy JNull = True"
| "falsy (JBool b) = (\<not> b)"
| "falsy (JInt i) = (i = 0)"
| "falsy (JStr s) = (s = [])"
| "falsy (JList xs) = (xs = [])"
| "falsy (JDict d) = (d = [])"

definition or_else :: "json \<Rightarrow> json \<Rightarrow> json" where
  "or_else v d = (if falsy v then d else v)"

lemma collect_map [simp]: "(\<And>x. x \<in> set xs \<Longrightarrow> f (g x) = Some x) \<Longrightarrow> collect f (map g xs) = Some xs"
  by (induction xs) auto

lemma collect_Some_iff: "collect f xs = Some ys \<longleftrightarrow> list_all2 (\<lambda>x y. f x = Some y) xs ys"
  by (induction xs arbitrary: ys) (auto simp: list_all2_Cons1 split: option.splits)

lemma as_strs_jstrs [simp]: "as_strs (jstrs ss) = Some ss"
  by (simp add: jstrs_def)

lemma as_opt_str_jopt [simp]: "as_opt_str (jopt v) = Some v"
  by (cases v) (simp_all add: jopt_def)

lemma jstrs_wf [simp]: "json_wf (jstrs ss)"
  by (simp add: jstrs_def)

lemma jopt_wf [simp]: "json_wf (jopt v)"
  by (cases v) (simp_all add: jopt_def)

section \<open>Field taint\<close>

definition field_taint_json :: "field_taint \<Rightarrow> json" where
  "field_taint_json f = JDict
     [(''content_digest'', JStr (ft_digest f)),
      (''trust'', JStr (trust_value (ft_trust f))),
      (''classification'', JStr (classification_value (ft_classification f))),
      (''labels'', jstrs (ft_labels f)),
      (''lineage_ids'', jstrs (ft_lineage_ids f))]"

definition field_taint_of_json :: "json \<Rightarrow> field_taint option" where
  "field_taint_of_json j = (case as_dict j of None \<Rightarrow> None | Some d \<Rightarrow>
     (case (Option.bind (map_of d ''content_digest'') as_str,
            Option.bind (Option.bind (map_of d ''trust'') as_str) trust_of,
            Option.bind (as_str (dget d ''classification'' (JStr ''public''))) classification_of,
            as_strs (dget d ''labels'' (JList [])),
            as_strs (dget d ''lineage_ids'' (JList []))) of
        (Some g, Some t, Some c, Some ls, Some ids) \<Rightarrow>
          (let f = \<lparr>ft_digest = g, ft_trust = t, ft_classification = c,
                    ft_labels = ls, ft_lineage_ids = ids\<rparr>
           in if field_taint_ok f then Some f else None)
      | _ \<Rightarrow> None))"

lemma field_taint_roundtrip: "field_taint_ok f \<Longrightarrow> field_taint_of_json (field_taint_json f) = Some f"
  by (cases f) (simp add: field_taint_of_json_def field_taint_json_def dget_def Let_def)

lemma field_taint_of_json_ok: "field_taint_of_json j = Some f \<Longrightarrow> field_taint_ok f"
  by (auto simp: field_taint_of_json_def Let_def split: option.splits if_splits)

lemma field_taint_json_wf [simp]: "json_wf (field_taint_json f)"
  by (simp add: field_taint_json_def dict_wf_def)

text \<open>A dictionary of field taints, in the order it was built.\<close>

definition fields_json :: "(string, field_taint) dict \<Rightarrow> json" where
  "fields_json d = JDict (map (\<lambda>(p, f). (p, field_taint_json f)) d)"

definition fields_of_items :: "(string, json) dict \<Rightarrow> (string, field_taint) dict option" where
  "fields_of_items d = collect (\<lambda>(p, j). map_option (Pair p) (field_taint_of_json j)) d"

lemma fields_roundtrip:
  "(\<And>p f. (p, f) \<in> set d \<Longrightarrow> field_taint_ok f) \<Longrightarrow>
   as_dict (fields_json d) = Some (map (\<lambda>(p, f). (p, field_taint_json f)) d) \<and>
   fields_of_items (map (\<lambda>(p, f). (p, field_taint_json f)) d) = Some d"
  by (auto simp: fields_json_def fields_of_items_def field_taint_roundtrip intro!: collect_map)

lemma fields_json_wf [simp]: "dict_wf d \<Longrightarrow> json_wf (fields_json d)"
  by (auto simp: fields_json_def dict_wf_def comp_def case_prod_beta)

section \<open>Tool calls\<close>

definition field_reference_json :: "field_reference \<Rightarrow> json" where
  "field_reference_json r = JDict [(''token'', JStr (fr_token r)), (''source_pointer'', JStr (fr_pointer r))]"

definition field_reference_ok :: "field_reference \<Rightarrow> bool" where
  "field_reference_ok r \<longleftrightarrow> 20 \<le> length (fr_token r) \<and> length (fr_token r) \<le> 16384
     \<and> json_pointer_ok (fr_pointer r)"

definition field_reference_of_json :: "json \<Rightarrow> field_reference option" where
  "field_reference_of_json j = (case as_dict j of None \<Rightarrow> None | Some d \<Rightarrow>
     (case (Option.bind (map_of d ''token'') as_str, Option.bind (map_of d ''source_pointer'') as_str) of
        (Some t, Some p) \<Rightarrow>
          (let r = \<lparr>fr_token = t, fr_pointer = p\<rparr> in if field_reference_ok r then Some r else None)
      | _ \<Rightarrow> None))"

definition references_json :: "(string, field_reference list) dict \<Rightarrow> json" where
  "references_json d = JDict (map (\<lambda>(p, rs). (p, JList (map field_reference_json rs))) d)"

definition references_of_json :: "json \<Rightarrow> (string, field_reference list) dict option" where
  "references_of_json j = (case as_dict j of None \<Rightarrow> None | Some d \<Rightarrow>
     collect (\<lambda>(p, v). case v of JList rs \<Rightarrow> map_option (Pair p) (collect field_reference_of_json rs)
                                | _ \<Rightarrow> None) d)"

definition tool_call_ok :: "tool_call \<Rightarrow> bool" where
  "tool_call_ok c \<longleftrightarrow>
     1 \<le> length (tc_user_id c) \<and> length (tc_user_id c) \<le> 128
     \<and> tool_name_ok (tc_tool_name c)
     \<and> length (tc_provenance_tokens c) \<le> 50
     \<and> list_all (\<lambda>(p, rs). json_pointer_ok p \<and> list_all field_reference_ok rs) (tc_field_provenance c)
     \<and> length (tc_purpose c) \<le> 1000
     \<and> ident_ok 128 (tc_trace_id c)
     \<and> (case tc_task_id c of None \<Rightarrow> True | Some t \<Rightarrow> ident_ok 128 t)
     \<and> (case tc_mcp_server_id c of None \<Rightarrow> True | Some s \<Rightarrow> ident_ok 128 s)"

definition call_json :: "tool_call \<Rightarrow> json" where
  "call_json c = JDict
     [(''request_id'', JStr (tc_request_id c)),
      (''user_id'', JStr (tc_user_id c)),
      (''tool_name'', JStr (tc_tool_name c)),
      (''arguments'', JDict (tc_arguments c)),
      (''provenance_tokens'', jstrs (tc_provenance_tokens c)),
      (''field_provenance'', references_json (tc_field_provenance c)),
      (''purpose'', JStr (tc_purpose c)),
      (''trace_id'', JStr (tc_trace_id c)),
      (''task_id'', jopt (tc_task_id c)),
      (''mcp_server_id'', jopt (tc_mcp_server_id c))]"

definition call_of_json :: "json \<Rightarrow> tool_call option" where
  "call_of_json j = (case as_dict j of None \<Rightarrow> None | Some d \<Rightarrow>
     (case (Option.bind (map_of d ''request_id'') as_str, Option.bind (map_of d ''user_id'') as_str,
            Option.bind (map_of d ''tool_name'') as_str, Option.bind (map_of d ''arguments'') as_dict,
            Option.bind (map_of d ''provenance_tokens'') as_strs,
            Option.bind (map_of d ''field_provenance'') references_of_json,
            Option.bind (map_of d ''purpose'') as_str, Option.bind (map_of d ''trace_id'') as_str,
            Option.bind (map_of d ''task_id'') as_opt_str,
            Option.bind (map_of d ''mcp_server_id'') as_opt_str) of
        (Some r, Some u, Some t, Some a, Some ps, Some fp, Some pu, Some tr, Some ta, Some m) \<Rightarrow>
          (let c = \<lparr>tc_request_id = r, tc_user_id = u, tc_tool_name = t, tc_arguments = a,
                    tc_provenance_tokens = ps, tc_field_provenance = fp, tc_purpose = pu,
                    tc_trace_id = tr, tc_task_id = ta, tc_mcp_server_id = m\<rparr>
           in if tool_call_ok c then Some c else None)
      | _ \<Rightarrow> None))"

definition tool_call_wf :: "tool_call \<Rightarrow> bool" where
  "tool_call_wf c \<longleftrightarrow> json_wf (JDict (tc_arguments c)) \<and> dict_wf (tc_field_provenance c)"

lemma field_reference_roundtrip:
  "field_reference_ok r \<Longrightarrow> field_reference_of_json (field_reference_json r) = Some r"
  by (cases r) (simp add: field_reference_of_json_def field_reference_json_def Let_def)

lemma references_roundtrip:
  "list_all (\<lambda>(p, rs). json_pointer_ok p \<and> list_all field_reference_ok rs) d \<Longrightarrow>
   references_of_json (references_json d) = Some d"
  unfolding references_of_json_def references_json_def
  by (auto simp: list_all_iff field_reference_roundtrip intro!: collect_map)

theorem call_roundtrip: "tool_call_ok c \<Longrightarrow> call_of_json (call_json c) = Some c"
  by (simp add: call_of_json_def call_json_def references_roundtrip tool_call_ok_def)

lemma call_of_json_ok: "call_of_json j = Some c \<Longrightarrow> tool_call_ok c"
  by (auto simp: call_of_json_def Let_def split: option.splits if_splits)

lemma references_json_wf: "dict_wf d \<Longrightarrow> json_wf (references_json d)"
  by (auto simp: references_json_def field_reference_json_def dict_wf_def comp_def case_prod_beta)

lemma call_json_wf: "tool_call_wf c \<Longrightarrow> json_wf (call_json c)"
  using references_json_wf [of "tc_field_provenance c"]
  by (simp add: call_json_def tool_call_wf_def dict_wf_def)

section \<open>Properties\<close>

text \<open>
  A stored tool call reads back as the same call: writing a valid call as JSON text, parsing
  the text and validating the fields returns every field as it was.
\<close>

theorem stored_call_roundtrip:
  assumes "tool_call_ok c" "tool_call_wf c"
  shows "Option.bind (loads (dumps ascii (call_json c))) call_of_json = Some c"
  using assms by (simp add: loads_dumps call_json_wf call_roundtrip)

definition demo_stored_call :: tool_call where
  "demo_stored_call = \<lparr>tc_request_id = ''r1'', tc_user_id = ''u1'', tc_tool_name = ''mail.send'',
     tc_arguments = [(''to'', JStr ''b\"c''), (''n'', JInt (-3))], tc_provenance_tokens = [''t''],
     tc_field_provenance = [(''/to'', [\<lparr>fr_token = replicate 20 CHR ''k'', fr_pointer = ''/a~1b''\<rparr>])],
     tc_purpose = [], tc_trace_id = ''t1'', tc_task_id = Some ''j:1'', tc_mcp_server_id = None\<rparr>"

theorem stored_call_roundtrip_witness:
  "Option.bind (loads (dumps False (call_json demo_stored_call))) call_of_json = Some demo_stored_call"
proof (rule stored_call_roundtrip)
  show "tool_call_ok demo_stored_call" by code_simp
  show "tool_call_wf demo_stored_call"
    by (simp add: tool_call_wf_def demo_stored_call_def dict_wf_def)
qed

end
