(* ===== verification/Taint.thy ===== *)
theory Taint
  imports Wire
begin

text \<open>
  The two taint orders of \<^verbatim>\<open>taint.py\<close>: classifications
  (\<open>PUBLIC < INTERNAL < CONFIDENTIAL < RESTRICTED\<close>) and trust
  (\<open>TRUSTED < MIXED < UNTRUSTED\<close>, the larger the less trusted). The code takes
  \<^verbatim>\<open>max(values, key=RANK.get, default=...)\<close>; the locale \<open>ranked\<close> states what such a maximum
  is once, for any injective rank with a bottom, and is interpreted on both tables. The types
  are made linear orders by their rank.
\<close>

section \<open>Maximum by a rank\<close>

text \<open>\<^verbatim>\<open>max(values, key=k, default=d)\<close> keeps the first value of the greatest key.\<close>

fun max_from :: "('a \<Rightarrow> nat) \<Rightarrow> 'a \<Rightarrow> 'a list \<Rightarrow> 'a" where
  "max_from k m [] = m"
| "max_from k m (x # xs) = max_from k (if k m < k x then x else m) xs"

fun max_by :: "('a \<Rightarrow> nat) \<Rightarrow> 'a \<Rightarrow> 'a list \<Rightarrow> 'a" where
  "max_by k d [] = d"
| "max_by k d (x # xs) = max_from k x xs"

lemma max_from_in: "max_from k m xs \<in> insert m (set xs)"
  by (induction k m xs rule: max_from.induct) (auto split: if_splits)

lemma max_from_ge: "y \<in> insert m (set xs) \<Longrightarrow> k y \<le> k (max_from k m xs)"
proof (induction k m xs arbitrary: y rule: max_from.induct)
  case (1 k m)
  then show ?case by simp
next
  case (2 k m x xs)
  have m: "k m \<le> k (max_from k (if k m < k x then x else m) xs)"
    using "2.IH" [of m] "2.IH" [of x] by (cases "k m < k x") auto
  have "k x \<le> k (max_from k (if k m < k x then x else m) xs)"
    using "2.IH" [of m] "2.IH" [of x] by (cases "k m < k x") auto
  with m "2.IH" [of y] "2.prems" show ?case by auto
qed

locale ranked =
  fixes rank :: "'a \<Rightarrow> nat" and bottom :: 'a
  assumes rank_inj: "rank a = rank b \<Longrightarrow> a = b"
    and rank_bottom: "rank bottom = 0"
begin

lemma max_by_in: "xs \<noteq> [] \<Longrightarrow> max_by rank bottom xs \<in> set xs"
  using max_from_in [of rank "hd xs" "tl xs"] by (cases xs) auto

lemma max_by_upper: "x \<in> set xs \<Longrightarrow> rank x \<le> rank (max_by rank bottom xs)"
  by (cases xs) (auto intro: max_from_ge)

lemma max_by_least:
  assumes "\<And>x. x \<in> set xs \<Longrightarrow> rank x \<le> n"
  shows "rank (max_by rank bottom xs) \<le> n"
proof (cases "xs = []")
  case True then show ?thesis by (simp add: rank_bottom)
next
  case False
  then show ?thesis using assms max_by_in by blast
qed

lemma max_by_mono:
  assumes "set xs \<subseteq> set ys"
  shows "rank (max_by rank bottom xs) \<le> rank (max_by rank bottom ys)"
  by (rule max_by_least) (use assms max_by_upper in blast)

lemma max_by_cong: "set xs = set ys \<Longrightarrow> max_by rank bottom xs = max_by rank bottom ys"
  by (rule rank_inj) (metis max_by_mono order_antisym subset_refl)

lemma max_by_le_iff: "rank (max_by rank bottom xs) \<le> n \<longleftrightarrow> (\<forall>x \<in> set xs. rank x \<le> n)"
  by (auto intro: max_by_least order_trans [OF max_by_upper])

end

section \<open>The two tables\<close>

definition CLASSIFICATION_RANK :: "data_classification \<Rightarrow> nat" where
  "CLASSIFICATION_RANK c = (case c of PUBLIC \<Rightarrow> 0 | INTERNAL \<Rightarrow> 1 | CONFIDENTIAL \<Rightarrow> 2 | RESTRICTED \<Rightarrow> 3)"

definition TRUST_RANK :: "trust_level \<Rightarrow> nat" where
  "TRUST_RANK t = (case t of TRUSTED \<Rightarrow> 0 | MIXED \<Rightarrow> 1 | UNTRUSTED \<Rightarrow> 2)"

definition highest_classification :: "data_classification list \<Rightarrow> data_classification" where
  "highest_classification values = max_by CLASSIFICATION_RANK PUBLIC values"

definition least_trusted :: "trust_level list \<Rightarrow> trust_level" where
  "least_trusted values = max_by TRUST_RANK TRUSTED values"

definition classification_exceeds :: "data_classification \<Rightarrow> data_classification \<Rightarrow> bool" where
  "classification_exceeds actual maximum \<longleftrightarrow> CLASSIFICATION_RANK actual > CLASSIFICATION_RANK maximum"

interpretation classification: ranked CLASSIFICATION_RANK PUBLIC
  by unfold_locales (auto simp: CLASSIFICATION_RANK_def split: data_classification.splits)

interpretation trust: ranked TRUST_RANK TRUSTED
  by unfold_locales (auto simp: TRUST_RANK_def split: trust_level.splits)

instantiation data_classification :: linorder
begin

definition less_eq_data_classification :: "data_classification \<Rightarrow> data_classification \<Rightarrow> bool" where
  "a \<le> b \<longleftrightarrow> CLASSIFICATION_RANK a \<le> CLASSIFICATION_RANK b"

definition less_data_classification :: "data_classification \<Rightarrow> data_classification \<Rightarrow> bool" where
  "a < b \<longleftrightarrow> CLASSIFICATION_RANK a < CLASSIFICATION_RANK b"

instance
  by standard
     (auto simp: less_eq_data_classification_def less_data_classification_def
           intro: classification.rank_inj)

end

instantiation trust_level :: linorder
begin

definition less_eq_trust_level :: "trust_level \<Rightarrow> trust_level \<Rightarrow> bool" where
  "a \<le> b \<longleftrightarrow> TRUST_RANK a \<le> TRUST_RANK b"

definition less_trust_level :: "trust_level \<Rightarrow> trust_level \<Rightarrow> bool" where
  "a < b \<longleftrightarrow> TRUST_RANK a < TRUST_RANK b"

instance
  by standard
     (auto simp: less_eq_trust_level_def less_trust_level_def intro: trust.rank_inj)

end

section \<open>Bounds in the linear orders\<close>

lemma classification_exceeds_iff [simp]: "classification_exceeds a m \<longleftrightarrow> m < a"
  by (simp add: classification_exceeds_def less_data_classification_def)

lemma highest_upper: "c \<in> set cs \<Longrightarrow> c \<le> highest_classification cs"
  by (simp add: highest_classification_def less_eq_data_classification_def classification.max_by_upper)

lemma highest_in: "cs \<noteq> [] \<Longrightarrow> highest_classification cs \<in> set cs"
  by (simp add: highest_classification_def classification.max_by_in)

lemma highest_mono: "set as \<subseteq> set bs \<Longrightarrow> highest_classification as \<le> highest_classification bs"
  by (simp add: highest_classification_def less_eq_data_classification_def classification.max_by_mono)

lemma highest_le_iff: "highest_classification cs \<le> m \<longleftrightarrow> (\<forall>c \<in> set cs. c \<le> m)"
  by (simp add: highest_classification_def less_eq_data_classification_def classification.max_by_le_iff)

lemma highest_exceeds_iff: "m < highest_classification cs \<longleftrightarrow> (\<exists>c \<in> set cs. m < c)"
  by (metis highest_le_iff not_le)

lemma highest_cong: "set as = set bs \<Longrightarrow> highest_classification as = highest_classification bs"
  unfolding highest_classification_def by (rule classification.max_by_cong)

lemma least_trusted_upper: "t \<in> set ts \<Longrightarrow> t \<le> least_trusted ts"
  by (simp add: least_trusted_def less_eq_trust_level_def trust.max_by_upper)

lemma least_trusted_in: "ts \<noteq> [] \<Longrightarrow> least_trusted ts \<in> set ts"
  by (simp add: least_trusted_def trust.max_by_in)

lemma least_trusted_mono: "set as \<subseteq> set bs \<Longrightarrow> least_trusted as \<le> least_trusted bs"
  by (simp add: least_trusted_def less_eq_trust_level_def trust.max_by_mono)

lemma least_trusted_le_iff: "least_trusted ts \<le> m \<longleftrightarrow> (\<forall>t \<in> set ts. t \<le> m)"
  by (simp add: least_trusted_def less_eq_trust_level_def trust.max_by_le_iff)

lemma least_trusted_cong: "set as = set bs \<Longrightarrow> least_trusted as = least_trusted bs"
  unfolding least_trusted_def by (rule trust.max_by_cong)

lemma PUBLIC_least [simp]: "PUBLIC \<le> c"
  by (simp add: less_eq_data_classification_def classification.rank_bottom)

lemma TRUSTED_least [simp]: "TRUSTED \<le> t"
  by (simp add: less_eq_trust_level_def trust.rank_bottom)

lemma UNTRUSTED_greatest [simp]: "t \<le> UNTRUSTED"
  by (cases t) (simp_all add: less_eq_trust_level_def TRUST_RANK_def)

text \<open>The code's maxima are the maxima of the orders, with the bottom for no value.\<close>

lemma highest_classification_Max: "highest_classification cs = Max (insert PUBLIC (set cs))"
proof (rule order_antisym)
  have "highest_classification cs \<in> insert PUBLIC (set cs)"
    by (cases "cs = []") (auto simp: highest_in, simp add: highest_classification_def)
  then show "highest_classification cs \<le> Max (insert PUBLIC (set cs))" by (intro Max_ge) auto
  show "Max (insert PUBLIC (set cs)) \<le> highest_classification cs"
    by (subst Max_le_iff) (auto intro: highest_upper)
qed

lemma least_trusted_Max: "least_trusted ts = Max (insert TRUSTED (set ts))"
proof (rule order_antisym)
  have "least_trusted ts \<in> insert TRUSTED (set ts)"
    by (cases "ts = []") (auto simp: least_trusted_in, simp add: least_trusted_def)
  then show "least_trusted ts \<le> Max (insert TRUSTED (set ts))" by (intro Max_ge) auto
  show "Max (insert TRUSTED (set ts)) \<le> least_trusted ts"
    by (subst Max_le_iff) (auto intro: least_trusted_upper)
qed

end
