(* ===== verification/Field_Taint.thy ===== *)
theory Field_Taint
  imports Taint
begin

text \<open>
  \<^verbatim>\<open>field_taint.py\<close>: the digest of a value, JSON pointers (RFC 6901), the leaves of a value
  by pointer, and the taint records bound to the digest of each leaf. \<open>paths\<close> is the
  specification of the leaves by decoded path; the pointer of every leaf resolves to it, and
  two leaves never share a pointer.
\<close>

section \<open>Digests\<close>

definition canonical_value :: "json \<Rightarrow> string" where
  "canonical_value v = dumps True (sort_keys v)"

definition value_digest :: "crypto \<Rightarrow> json \<Rightarrow> string" where
  "value_digest cr v = sha256 cr (canonical_value v)"

lemma canonical_value_inject:
  "json_wf v \<Longrightarrow> json_wf w \<Longrightarrow> canonical_value v = canonical_value w \<Longrightarrow> sort_keys v = sort_keys w"
  unfolding canonical_value_def by (rule dumps_inject) (auto simp: sort_keys_wf)

section \<open>Pointer escapes\<close>

definition escape_pointer :: "string \<Rightarrow> string" where
  "escape_pointer s = str_replace ''/'' ''~1'' (str_replace ''~'' ''~0'' s)"

definition unescape_pointer :: "string \<Rightarrow> string" where
  "unescape_pointer s = str_replace ''~0'' ''~'' (str_replace ''~1'' ''/'' s)"

definition esc1 :: "char \<Rightarrow> string" where
  "esc1 c = (if c = CHR ''~'' then ''~0'' else if c = CHR ''/'' then ''~1'' else [c])"

lemma escape_pointer_map: "escape_pointer s = concat (map esc1 s)"
  unfolding escape_pointer_def str_replace_single
  by (induction s) (auto simp: esc1_def)

lemma escape_no_slash: "CHR ''/'' \<notin> set (escape_pointer s)"
  by (auto simp: escape_pointer_map esc1_def)

lemma unescape_step1:
  "str_replace ''~1'' ''/'' (concat (map esc1 s)) = concat (map (\<lambda>c. if c = CHR ''~'' then ''~0'' else [c]) s)"
  by (induction s) (auto simp: esc1_def)

lemma unescape_step2:
  "str_replace ''~0'' ''~'' (concat (map (\<lambda>c. if c = CHR ''~'' then ''~0'' else [c]) s)) = s"
  by (induction s) auto

lemma unescape_escape [simp]: "unescape_pointer (escape_pointer s) = s"
  by (simp add: unescape_pointer_def escape_pointer_map unescape_step1 unescape_step2)

lemma escape_pointer_inject [simp]: "escape_pointer s = escape_pointer t \<longleftrightarrow> s = t"
  by (metis unescape_escape)

lemma escape_plain: "(\<And>c. c \<in> set s \<Longrightarrow> esc1 c = [c]) \<Longrightarrow> escape_pointer s = s"
  unfolding escape_pointer_map by (induction s) auto

lemma escape_digits [simp]: "escape_pointer (show_nat n) = show_nat n"
  by (rule escape_plain) (auto simp: esc1_def dest!: show_nat_digits)

section \<open>Leaves\<close>

text \<open>
  A nonempty dictionary or list is descended into, everything else is a leaf; the results of
  the children are merged with \<^verbatim>\<open>dict.update\<close>, in the order of the value.
\<close>

fun leaf_values :: "json \<Rightarrow> string \<Rightarrow> (string, json) dict"
  and leaf_items :: "(string \<times> json) list \<Rightarrow> string \<Rightarrow> (string, json) dict \<Rightarrow> (string, json) dict"
  and leaf_elems :: "nat \<Rightarrow> json list \<Rightarrow> string \<Rightarrow> (string, json) dict \<Rightarrow> (string, json) dict" where
  "leaf_values (JDict kvs) p = (if kvs \<noteq> [] then leaf_items kvs p [] else [(p, JDict kvs)])"
| "leaf_values (JList xs) p = (if xs \<noteq> [] then leaf_elems 0 xs p [] else [(p, JList xs)])"
| "leaf_values v p = [(p, v)]"
| "leaf_items [] p acc = acc"
| "leaf_items ((k, v) # kvs) p acc =
     leaf_items kvs p (dict_of (leaf_values v (p @ ''/'' @ escape_pointer k)) acc)"
| "leaf_elems i [] p acc = acc"
| "leaf_elems i (x # xs) p acc =
     leaf_elems (Suc i) xs p (dict_of (leaf_values x (p @ ''/'' @ show_nat i)) acc)"

fun paths :: "json \<Rightarrow> (string list \<times> json) list"
  and paths_items :: "(string \<times> json) list \<Rightarrow> (string list \<times> json) list"
  and paths_elems :: "nat \<Rightarrow> json list \<Rightarrow> (string list \<times> json) list" where
  "paths (JDict kvs) = (if kvs \<noteq> [] then paths_items kvs else [([], JDict kvs)])"
| "paths (JList xs) = (if xs \<noteq> [] then paths_elems 0 xs else [([], JList xs)])"
| "paths v = [([], v)]"
| "paths_items [] = []"
| "paths_items ((k, v) # kvs) = map (apfst (Cons k)) (paths v) @ paths_items kvs"
| "paths_elems i [] = []"
| "paths_elems i (x # xs) = map (apfst (Cons (show_nat i))) (paths x) @ paths_elems (Suc i) xs"

definition render :: "string list \<Rightarrow> string" where
  "render segs = concat (map (\<lambda>s. CHR ''/'' # escape_pointer s) segs)"

lemma render_simps [simp]: "render [] = []" "render (s # ss) = CHR ''/'' # escape_pointer s @ render ss"
  by (simp_all add: render_def)

lemma render_join: "ss \<noteq> [] \<Longrightarrow> render ss = CHR ''/'' # str_join ''/'' (map escape_pointer ss)"
  by (induction "''/''" ss rule: str_join.induct) auto

lemma split_render:
  assumes "ss \<noteq> []" shows "str_split CHR ''/'' (tl (render ss)) = map escape_pointer ss"
  using assms escape_no_slash by (auto simp: render_join intro!: str_split_join)

lemma render_inject [simp]: "render ss = render ts \<longleftrightarrow> ss = ts"
proof
  assume eq: "render ss = render ts"
  show "ss = ts"
  proof (cases "ss = [] \<or> ts = []")
    case True
    with eq show ?thesis by (cases ss; cases ts) auto
  next
    case False
    with eq have "map escape_pointer ss = map escape_pointer ts" by (metis split_render)
    then show ?thesis by (simp add: inj_map_eq_map inj_def)
  qed
qed simp

lemma paths_heads:
  "segs \<in> fst ` set (paths_items kvs) \<Longrightarrow> \<exists>k ss. segs = k # ss \<and> k \<in> fst ` set kvs"
proof (induction kvs)
  case (Cons kv kvs)
  obtain k v where kv: "kv = (k, v)" by force
  from Cons.prems consider ss where "segs = k # ss" | "segs \<in> fst ` set (paths_items kvs)"
    by (auto simp: kv image_Un image_image)
  then show ?case
  proof cases
    case 1
    then show ?thesis by (simp add: kv)
  next
    case 2
    then show ?thesis using Cons.IH by auto
  qed
qed simp

lemma paths_elems_heads:
  "segs \<in> fst ` set (paths_elems i xs) \<Longrightarrow> \<exists>j ss. segs = show_nat j # ss \<and> i \<le> j"
proof (induction xs arbitrary: i)
  case (Cons x xs)
  then consider ss where "segs = show_nat i # ss" | "segs \<in> fst ` set (paths_elems (Suc i) xs)"
    by (auto simp: image_Un image_image)
  then show ?case
  proof cases
    case 2
    then show ?thesis using Cons.IH Suc_leD by blast
  qed blast
qed simp

lemma distinct_Cons_append:
  assumes "distinct (map fst ps)" "distinct (map fst qs)" "\<And>ss. k # ss \<notin> fst ` set qs"
  shows "distinct (map fst (map (apfst (Cons k)) ps @ qs))"
proof -
  have "map fst (map (apfst (Cons k)) ps) = map (Cons k) (map fst ps)" by simp
  moreover have "distinct (map (Cons k) (map fst ps))" 
    using assms(1) unfolding distinct_map [of "Cons k"] by (simp add: inj_on_def)
  ultimately have "distinct (map fst (map (apfst (Cons k)) ps))" by metis
  moreover have "fst ` set (map (apfst (Cons k)) ps) \<inter> fst ` set qs = {}"
    using assms(3) by force
  ultimately show ?thesis using assms(2) by (simp only: map_append distinct_append set_map simp_thms)
qed

lemma distinct_paths:
  "json_wf v \<Longrightarrow> distinct (map fst (paths v))"
  "dict_wf kvs \<Longrightarrow> json_wf_items kvs \<Longrightarrow> distinct (map fst (paths_items kvs))"
  "json_wf_list xs \<Longrightarrow> distinct (map fst (paths_elems i xs))"
proof (induction v and kvs and i xs rule: paths_paths_items_paths_elems.induct)
  case (5 k v kvs)
  have new: "k # ss \<notin> fst ` set (paths_items kvs)" for ss
    using 5(3) paths_heads [of "k # ss" kvs] by (auto simp: dict_wf_def)
  have "distinct (map fst (paths v))" "distinct (map fst (paths_items kvs))"
    using 5 by (simp_all add: dict_wf_def)
  with new show ?case unfolding paths_items.simps paths_elems.simps by (intro distinct_Cons_append)
next
  case (7 i x xs)
  have new: "show_nat i # ss \<notin> fst ` set (paths_elems (Suc i) xs)" for ss
    using paths_elems_heads [of "show_nat i # ss" "Suc i" xs] by auto
  have "distinct (map fst (paths x))" "distinct (map fst (paths_elems (Suc i) xs))"
    using 7 by simp_all
  with new show ?case unfolding paths_items.simps paths_elems.simps by (intro distinct_Cons_append)
qed auto

definition at_pointer :: "string \<Rightarrow> string list \<times> json \<Rightarrow> string \<times> json" where
  "at_pointer p = (\<lambda>(segs, x). (p @ render segs, x))"

lemma fst_at_pointer: "fst (at_pointer p sx) = p @ render (fst sx)"
  by (simp add: at_pointer_def case_prod_beta)

lemma distinct_at_pointer:
  "distinct (map fst ps) \<Longrightarrow> distinct (map fst (map (at_pointer p) ps))"
proof -
  assume "distinct (map fst ps)"
  then have "distinct (map (\<lambda>s. p @ render s) (map fst ps))" by (simp add: distinct_map inj_on_def)
  then show ?thesis by (simp add: comp_def fst_at_pointer)
qed

lemma leaf_values_paths:
  "json_wf v \<Longrightarrow> leaf_values v p = map (at_pointer p) (paths v)"
  "dict_wf kvs \<Longrightarrow> json_wf_items kvs \<Longrightarrow> fst ` set (map (at_pointer p) (paths_items kvs)) \<inter> fst ` set acc = {} \<Longrightarrow>
     leaf_items kvs p acc = acc @ map (at_pointer p) (paths_items kvs)"
  "json_wf_list xs \<Longrightarrow> fst ` set (map (at_pointer p) (paths_elems i xs)) \<inter> fst ` set acc = {} \<Longrightarrow>
     leaf_elems i xs p acc = acc @ map (at_pointer p) (paths_elems i xs)"
proof (induction v p and kvs p acc and i xs p acc rule: leaf_values_leaf_items_leaf_elems.induct)
  case (5 k v kvs p acc)
  let ?q = "p @ ''/'' @ escape_pointer k"
  have sub: "map (at_pointer ?q) (paths v) = map (at_pointer p) (map (apfst (Cons k)) (paths v))"
    by (simp add: at_pointer_def case_prod_beta)
  have d: "distinct (map fst (map (at_pointer p) (paths_items ((k, v) # kvs))))"
    using 5 by (intro distinct_at_pointer distinct_paths) auto
  have "leaf_values v ?q = map (at_pointer ?q) (paths v)" using 5 by simp
  moreover have "dict_of (map (at_pointer ?q) (paths v)) acc = acc @ map (at_pointer ?q) (paths v)"
    using d 5(5) unfolding sub by (intro dict_of_distinct) (auto simp: image_Un)
  ultimately have eq: "dict_of (leaf_values v ?q) acc = acc @ map (at_pointer ?q) (paths v)" by simp
  have "dict_wf kvs" using 5(3) by (simp add: dict_wf_def)
  moreover have "fst ` set (map (at_pointer p) (paths_items kvs)) \<inter>
      fst ` set (acc @ map (at_pointer ?q) (paths v)) = {}"
    using d 5(5) unfolding sub by (simp only: paths_items.simps map_append distinct_append set_append image_Un set_map Int_Un_distrib Int_Un_distrib2 Un_empty Int_commute)
  ultimately have "leaf_items kvs p (acc @ map (at_pointer ?q) (paths v)) =
      (acc @ map (at_pointer ?q) (paths v)) @ map (at_pointer p) (paths_items kvs)"
    using 5(2) 5(4) unfolding eq by simp
  then show ?case using eq sub by simp
next
  case (7 i x xs p acc)
  let ?q = "p @ ''/'' @ show_nat i"
  have sub: "map (at_pointer ?q) (paths x) = map (at_pointer p) (map (apfst (Cons (show_nat i))) (paths x))"
    by (simp add: at_pointer_def case_prod_beta)
  have d: "distinct (map fst (map (at_pointer p) (paths_elems i (x # xs))))"
    using 7 by (intro distinct_at_pointer distinct_paths) auto
  have "leaf_values x ?q = map (at_pointer ?q) (paths x)" using 7 by simp
  moreover have "dict_of (map (at_pointer ?q) (paths x)) acc = acc @ map (at_pointer ?q) (paths x)"
    using d 7(4) unfolding sub by (intro dict_of_distinct) (auto simp: image_Un)
  ultimately have eq: "dict_of (leaf_values x ?q) acc = acc @ map (at_pointer ?q) (paths x)" by simp
  moreover have "fst ` set (map (at_pointer p) (paths_elems (Suc i) xs)) \<inter>
      fst ` set (acc @ map (at_pointer ?q) (paths x)) = {}"
    using d 7(4) unfolding sub by (simp only: paths_elems.simps map_append distinct_append set_append image_Un set_map Int_Un_distrib Int_Un_distrib2 Un_empty Int_commute)
  ultimately have "leaf_elems (Suc i) xs p (acc @ map (at_pointer ?q) (paths x)) =
      (acc @ map (at_pointer ?q) (paths x)) @ map (at_pointer p) (paths_elems (Suc i) xs)"
    using 7(2) 7(3) unfolding eq by simp
  then show ?case using eq sub by simp
qed (auto simp: at_pointer_def)

lemma leaf_values_wf: "json_wf v \<Longrightarrow> dict_wf (leaf_values v p)"
  by (simp add: leaf_values_paths dict_wf_def distinct_at_pointer distinct_paths del: map_map)

section \<open>Following a pointer\<close>

fun follow :: "json \<Rightarrow> string list \<Rightarrow> json option" where
  "follow cur [] = Some cur"
| "follow (JDict kvs) (part # rest) =
     (case map_of kvs part of Some v \<Rightarrow> follow v rest | None \<Rightarrow> None)"
| "follow (JList xs) (part # rest) =
     (if part \<noteq> [] \<and> list_all is_digit part \<and> read_nat part < length xs
      then follow (xs ! read_nat part) rest else None)"
| "follow _ (part # rest) = None"

definition resolve_pointer :: "json \<Rightarrow> string \<Rightarrow> exc + json" where
  "resolve_pointer v pointer =
     (if pointer = [] then Inr v
      else if \<not> startswith pointer ''/'' then
        Inl (FieldTaintError ''JSON pointer must be empty or start with a slash'')
      else case follow v (map unescape_pointer (str_split CHR ''/'' (tl pointer))) of
        Some x \<Rightarrow> Inr x
      | None \<Rightarrow> Inl (FieldTaintError (''JSON pointer does not resolve: '' @ pointer)))"

lemma resolve_render:
  "resolve_pointer v (render segs) = (case follow v segs of Some x \<Rightarrow> Inr x
     | None \<Rightarrow> Inl (FieldTaintError (''JSON pointer does not resolve: '' @ render segs)))"
proof (cases segs)
  case (Cons s ss)
  have "map unescape_pointer (str_split CHR ''/'' (tl (render segs))) = segs"
    using Cons by (subst split_render) (simp_all add: comp_def)
  then show ?thesis using Cons by (simp add: resolve_pointer_def split: option.splits)
qed (simp add: resolve_pointer_def)

lemma follow_paths:
  "json_wf v \<Longrightarrow> (segs, x) \<in> set (paths v) \<Longrightarrow> follow v segs = Some x"
  "dict_wf kvs \<Longrightarrow> json_wf_items kvs \<Longrightarrow> (segs, x) \<in> set (paths_items kvs) \<Longrightarrow>
     follow (JDict kvs) segs = Some x"
  "json_wf_list xs \<Longrightarrow> (segs, x) \<in> set (paths_elems i xs) \<Longrightarrow>
     \<exists>j rest. segs = show_nat (i + j) # rest \<and> j < length xs \<and> follow (xs ! j) rest = Some x"
proof (induction v and kvs and i xs arbitrary: segs x and segs x and segs x
       rule: paths_paths_items_paths_elems.induct)
  case (2 xs)
  show ?case
  proof (cases "xs = []")
    case False
    then obtain j rest where "segs = show_nat j # rest" "j < length xs" "follow (xs ! j) rest = Some x"
      using 2 by fastforce
    then show ?thesis by (auto simp: list_all_iff dest: show_nat_digits)
  qed (use 2 in simp)
next
  case (5 k v kvs)
  from 5(5) consider (here) ss where "segs = k # ss" "(ss, x) \<in> set (paths v)"
    | (later) "(segs, x) \<in> set (paths_items kvs)" by auto
  then show ?case
  proof cases
    case here
    then show ?thesis using 5(1) 5(4) by simp
  next
    case later
    moreover have "dict_wf kvs" "json_wf_items kvs" using 5(3,4) by (simp_all add: dict_wf_def)
    ultimately have f: "follow (JDict kvs) segs = Some x" by (intro 5(2))
    have "segs \<in> fst ` set (paths_items kvs)" using later imageI [of "(segs, x)" _ fst] by simp
    from paths_heads [OF this] obtain k' ss where s: "segs = k' # ss" "k' \<in> fst ` set kvs" by blast
    then have "k' \<noteq> k" using 5(3) unfolding dict_wf_def by auto
    with f show ?thesis unfolding s(1) by simp
  qed
next
  case (7 i x' xs)
  from 7(4) consider (here) ss where "segs = show_nat i # ss" "(ss, x) \<in> set (paths x')"
    | (later) "(segs, x) \<in> set (paths_elems (Suc i) xs)" by auto
  then show ?case
  proof cases
    case here
    then show ?thesis using 7 by (auto intro: exI [of _ 0])
  next
    case later
    then obtain j rest where "segs = show_nat (Suc i + j) # rest" "j < length xs" "follow (xs ! j) rest = Some x"
      using 7 by fastforce
    then show ?thesis by (auto intro!: exI [of _ "Suc j"])
  qed
qed (auto split: if_splits)

text \<open>The pointer of a leaf resolves to that leaf.\<close>

lemma resolve_leaf:
  assumes "json_wf v" "(q, x) \<in> set (leaf_values v [])"
  shows "resolve_pointer v q = Inr x"
proof -
  from assms obtain segs where "q = render segs" "(segs, x) \<in> set (paths v)"
    by (auto simp: leaf_values_paths at_pointer_def)
  then show ?thesis using assms(1) by (simp add: resolve_render follow_paths(1))
qed

section \<open>Taint records\<close>

definition mk_field_taint :: "field_taint \<Rightarrow> exc + field_taint" where
  "mk_field_taint f = (if field_taint_ok f then Inr f else Inl (ValueError ''invalid FieldTaint''))"

definition build_uniform_field_taint ::
  "crypto \<Rightarrow> json \<Rightarrow> trust_level \<Rightarrow> data_classification \<Rightarrow> string list \<Rightarrow> string list \<Rightarrow>
   exc + (string, field_taint) dict" where
  "build_uniform_field_taint cr v trust cls labels lineage_ids =
     traverse (\<lambda>(pointer, item).
       ebind (mk_field_taint \<lparr>ft_digest = value_digest cr item, ft_trust = trust, ft_classification = cls,
                ft_labels = sorted_set labels, ft_lineage_ids = sorted_set lineage_ids\<rparr>)
             (\<lambda>f. Inr (pointer, f)))
       (leaf_values v [])"

definition combine_field_taint :: "crypto \<Rightarrow> json \<Rightarrow> field_taint list \<Rightarrow> exc + field_taint" where
  "combine_field_taint cr v items =
     mk_field_taint
       \<lparr>ft_digest = value_digest cr v,
        ft_trust = least_trusted (map ft_trust items),
        ft_classification = highest_classification (map ft_classification items),
        ft_labels = sorted_set (concat (map ft_labels items)),
        ft_lineage_ids = sorted_set (concat (map ft_lineage_ids items))\<rparr>"

text \<open>
  \<open>taint_le a b\<close>: \<open>b\<close> is at least as restricted as \<open>a\<close> (no more trusted, no lower
  classification, every label and every lineage id).
\<close>

definition taint_le :: "field_taint \<Rightarrow> field_taint \<Rightarrow> bool" where
  "taint_le a b \<longleftrightarrow> ft_trust a \<le> ft_trust b \<and> ft_classification a \<le> ft_classification b
     \<and> set (ft_labels a) \<subseteq> set (ft_labels b) \<and> set (ft_lineage_ids a) \<subseteq> set (ft_lineage_ids b)"

lemma taint_le_refl [simp]: "taint_le a a"
  by (simp add: taint_le_def)

lemma taint_le_trans: "taint_le a b \<Longrightarrow> taint_le b c \<Longrightarrow> taint_le a c"
  by (auto simp: taint_le_def)

lemma mk_field_taint_Inr [simp]: "mk_field_taint f = Inr g \<longleftrightarrow> g = f \<and> field_taint_ok f"
  by (auto simp: mk_field_taint_def)

lemma combine_digest: "combine_field_taint cr v items = Inr f \<Longrightarrow> ft_digest f = value_digest cr v"
  by (auto simp: combine_field_taint_def)

lemma combine_upper: "combine_field_taint cr v items = Inr f \<Longrightarrow> g \<in> set items \<Longrightarrow> taint_le g f"
  by (auto simp: combine_field_taint_def taint_le_def intro!: least_trusted_upper highest_upper)

lemma combine_least:
  assumes "combine_field_taint cr v items = Inr f" and "\<And>g. g \<in> set items \<Longrightarrow> taint_le g h"
  shows "taint_le f h"
  using assms by (auto simp: combine_field_taint_def taint_le_def least_trusted_le_iff highest_le_iff)

lemma build_uniform_rel:
  assumes "build_uniform_field_taint cr v t c ls ids = Inr d"
  shows "list_all2 (\<lambda>(p, x) (q, f). p = q \<and> field_taint_ok f \<and> f =
      \<lparr>ft_digest = value_digest cr x, ft_trust = t, ft_classification = c,
       ft_labels = sorted_set ls, ft_lineage_ids = sorted_set ids\<rparr>) (leaf_values v []) d"
  using assms unfolding build_uniform_field_taint_def traverse_Inr_iff
  by (rule list_all2_mono) (auto simp: ebind_Inr_iff)

lemma build_uniform_pointers:
  "build_uniform_field_taint cr v t c ls ids = Inr d \<Longrightarrow> map fst d = map fst (leaf_values v [])"
  by (drule build_uniform_rel, induction rule: list_all2_induct) auto

lemma build_uniform_field:
  assumes "build_uniform_field_taint cr v t c ls ids = Inr d" "(p, f) \<in> set d"
  shows "\<exists>x. (p, x) \<in> set (leaf_values v []) \<and> field_taint_ok f \<and> f =
      \<lparr>ft_digest = value_digest cr x, ft_trust = t, ft_classification = c,
       ft_labels = sorted_set ls, ft_lineage_ids = sorted_set ids\<rparr>"
proof -
  obtain n where "n < length d" "d ! n = (p, f)" using assms(2) by (auto simp: in_set_conv_nth)
  moreover from this build_uniform_rel [OF assms(1)] have "n < length (leaf_values v [])"
    by (simp add: list_all2_lengthD)
  ultimately show ?thesis
    using list_all2_nthD [OF build_uniform_rel [OF assms(1)], of n] nth_mem by fastforce
qed

section \<open>Properties\<close>

text \<open>
  The leaves of a value have distinct pointers, and each pointer resolves, through the escapes,
  the splitting and the indexing of \<^verbatim>\<open>resolve_pointer\<close>, to the leaf it was made for.
\<close>

theorem leaf_pointers_resolve:
  assumes "json_wf v"
  shows "distinct (map fst (leaf_values v [])) \<and>
    list_all (\<lambda>(pointer, x). resolve_pointer v pointer = Inr x) (leaf_values v [])"
  using leaf_values_wf [OF assms, of "[]"] resolve_leaf [OF assms]
  by (auto simp: dict_wf_def list_all_iff)

definition demo_value :: json where
  "demo_value = JDict [(''a/b'', JList [JInt 1, JDict [(''~'', JStr ''x'')]]), ([], JBool True)]"

theorem leaf_pointers_resolve_witness:
  "leaf_values demo_value [] = [(''/a~1b/0'', JInt 1), (''/a~1b/1/~0'', JStr ''x''), (''/'', JBool True)]
   \<and> list_all (\<lambda>(pointer, x). resolve_pointer demo_value pointer = Inr x) (leaf_values demo_value [])"
proof
  show "leaf_values demo_value [] = [(''/a~1b/0'', JInt 1), (''/a~1b/1/~0'', JStr ''x''), (''/'', JBool True)]"
    by code_simp
  have "json_wf demo_value" by (simp add: demo_value_def dict_wf_def)
  then show "list_all (\<lambda>(pointer, x). resolve_pointer demo_value pointer = Inr x) (leaf_values demo_value [])"
    by (rule leaf_pointers_resolve [THEN conjunct2])
qed

text \<open>
  C26. Combining the taints of several sources gives their least upper bound: it is at least as
  restricted as every source (trust, classification, labels, lineage), no more restricted than
  anything that is, and it is bound to the digest of the combined value.
\<close>

theorem combine_is_join:
  assumes "combine_field_taint cr v items = Inr f"
  shows "ft_digest f = value_digest cr v \<and>
    (taint_le f h = list_all (\<lambda>g. taint_le g h) items)"
proof
  show "ft_digest f = value_digest cr v" using assms by (rule combine_digest)
  show "taint_le f h = list_all (\<lambda>g. taint_le g h) items"
  proof
    assume "taint_le f h"
    then show "list_all (\<lambda>g. taint_le g h) items"
      unfolding list_all_iff using combine_upper [OF assms] taint_le_trans by blast
  next
    assume "list_all (\<lambda>g. taint_le g h) items"
    then show "taint_le f h" by (intro combine_least [OF assms]) (simp add: list_all_iff)
  qed
qed

definition demo_crypto :: crypto where
  "demo_crypto = \<lparr>sha256 = (\<lambda>s. replicate 64 CHR ''a''), hmac_digest = (\<lambda>k s. k @ s),
     hmac_hex = (\<lambda>k s. k @ s), aead_encrypt = (\<lambda>k n s p. k @ n @ p @ s),
     aead_decrypt = (\<lambda>k n s p. if startswith s (k @ n @ p) then Some (drop (length (k @ n @ p)) s) else None)\<rparr>"

definition demo_taint :: "trust_level \<Rightarrow> string \<Rightarrow> field_taint" where
  "demo_taint t l = \<lparr>ft_digest = replicate 64 CHR ''a'', ft_trust = t, ft_classification = INTERNAL,
     ft_labels = [l], ft_lineage_ids = [l]\<rparr>"

theorem combine_is_join_witness:
  "taint_le (\<lparr>ft_digest = replicate 64 CHR ''a'', ft_trust = MIXED, ft_classification = INTERNAL,
     ft_labels = [''pii'', ''web''], ft_lineage_ids = [''pii'', ''web'']\<rparr>)
     (demo_taint UNTRUSTED ''web'') = list_all (\<lambda>g. taint_le g (demo_taint UNTRUSTED ''web''))
       [demo_taint MIXED ''web'', demo_taint TRUSTED ''pii'']"
proof -
  have "combine_field_taint demo_crypto (JInt 1) [demo_taint MIXED ''web'', demo_taint TRUSTED ''pii''] =
    Inr \<lparr>ft_digest = replicate 64 CHR ''a'', ft_trust = MIXED, ft_classification = INTERNAL,
     ft_labels = [''pii'', ''web''], ft_lineage_ids = [''pii'', ''web'']\<rparr>"
    by code_simp
  then show ?thesis by (rule combine_is_join [THEN conjunct2])
qed

text \<open>
  C28. A value digest binds the value: two values with the same digest are equal up to the order of
  the keys of their dictionaries, unless the hash function collides on their canonical texts.
\<close>

theorem value_digest_binds:
  assumes "json_wf v" "json_wf w" "value_digest cr v = value_digest cr w"
  shows "sort_keys v = sort_keys w \<or>
    (canonical_value v \<noteq> canonical_value w \<and> sha256 cr (canonical_value v) = sha256 cr (canonical_value w))"
  using assms canonical_value_inject unfolding value_digest_def by blast

theorem value_digest_binds_witness:
  "sort_keys (JDict [(''b'', JInt 1), (''a'', JNull)]) = sort_keys (JDict [(''a'', JNull), (''b'', JInt 1)])
   \<or> (canonical_value (JDict [(''b'', JInt 1), (''a'', JNull)]) \<noteq> canonical_value (JDict [(''a'', JNull), (''b'', JInt 1)])
     \<and> sha256 (demo_crypto\<lparr>sha256 := rev\<rparr>) (canonical_value (JDict [(''b'', JInt 1), (''a'', JNull)])) =
       sha256 (demo_crypto\<lparr>sha256 := rev\<rparr>) (canonical_value (JDict [(''a'', JNull), (''b'', JInt 1)])))"
proof (rule value_digest_binds)
  show "value_digest (demo_crypto\<lparr>sha256 := rev\<rparr>) (JDict [(''b'', JInt 1), (''a'', JNull)]) =
        value_digest (demo_crypto\<lparr>sha256 := rev\<rparr>) (JDict [(''a'', JNull), (''b'', JInt 1)])"
    by code_simp
qed (simp_all add: dict_wf_def)

end
