(* ===== verification/Policy.thy ===== *)
theory Policy
  imports Field_Taint
begin

text \<open>
  \<^verbatim>\<open>policy.py\<close>: the policy document, the shell patterns of \<^verbatim>\<open>fnmatch\<close>, and the authorization
  decision of \<^verbatim>\<open>PolicyEngine.evaluate\<close> with its field rules. A key that the code reads with a
  default is an option field; a value the code tests for its type or its spelling at run time
  (a tool entry, the field policies, an effect, a classification) keeps the wrong forms.
  \<open>permits\<close> is the specification of an allowed call, and \<open>evaluate\<close> is proved to allow exactly
  those.
\<close>

section \<open>Shell patterns\<close>

text \<open>\<^verbatim>\<open>[...]\<close>: single characters and ranges, read from the left.\<close>

fun class_items :: "string \<Rightarrow> (char \<times> char) list" where
  "class_items (c # m # d # r) =
     (if m = CHR ''-'' then (c, d) # class_items r else (c, c) # class_items (m # d # r))"
| "class_items (c # r) = (c, c) # class_items r"
| "class_items [] = []"

definition in_class :: "string \<Rightarrow> char \<Rightarrow> bool" where
  "in_class stuff c = (case stuff of
      CHR ''!'' # r \<Rightarrow> \<not> list_ex (\<lambda>(a, b). a \<le> c \<and> c \<le> b) (class_items r)
    | _ \<Rightarrow> list_ex (\<lambda>(a, b). a \<le> c \<and> c \<le> b) (class_items stuff))"

text \<open>The end of a bracket expression: a \<^verbatim>\<open>]\<close> right after \<^verbatim>\<open>[\<close> or \<^verbatim>\<open>[!\<close> is a member.\<close>

fun find_close :: "string \<Rightarrow> (string \<times> string) option" where
  "find_close [] = None"
| "find_close (c # s) = (if c = CHR '']'' then Some ([], s) else map_option (apfst (Cons c)) (find_close s))"

definition bracket :: "string \<Rightarrow> (string \<times> string) option" where
  "bracket s =
     (let (neg, s1) = (case s of CHR ''!'' # r \<Rightarrow> (''!'', r) | _ \<Rightarrow> ([], s));
          (own, s2) = (case s1 of CHR '']'' # r \<Rightarrow> ('']'', r) | _ \<Rightarrow> ([], s1))
      in map_option (apfst (\<lambda>b. neg @ own @ b)) (find_close s2))"

datatype glob = Any | One | Class string | Lit char

lemma find_close_shorter: "find_close s = Some (b, r) \<Longrightarrow> length r < length s"
  by (induction s arbitrary: b) (auto split: if_splits)

lemma bracket_shorter: "bracket s = Some (b, r) \<Longrightarrow> length r < length s"
proof -
  assume b: "bracket s = Some (b, r)"
  obtain neg s1 where 1: "(case s of CHR ''!'' # r \<Rightarrow> (''!'', r) | _ \<Rightarrow> ([], s)) = (neg, s1)" by force
  obtain own s2 where 2: "(case s1 of CHR '']'' # r \<Rightarrow> ('']'', r) | _ \<Rightarrow> ([], s1)) = (own, s2)" by force
  have "length s1 \<le> length s" using 1 by (auto split: list.splits char.splits bool.splits)
  moreover have "length s2 \<le> length s1" using 2 by (auto split: list.splits char.splits bool.splits)
  moreover have "length r < length s2"
    using b 1 2 by (auto simp: bracket_def Let_def dest: find_close_shorter)
  ultimately show ?thesis by simp
qed

function globs :: "string \<Rightarrow> glob list" where
  "globs [] = []"
| "globs (c # s) =
     (if c = CHR ''*'' then Any # globs s
      else if c = CHR ''?'' then One # globs s
      else if c = CHR ''['' then
        (case bracket s of None \<Rightarrow> Lit c # globs s | Some (b, r) \<Rightarrow> Class b # globs r)
      else Lit c # globs s)"
  by pat_completeness auto
termination
  by (relation "measure length") (auto dest: bracket_shorter)

fun glob_match :: "glob list \<Rightarrow> string \<Rightarrow> bool" where
  "glob_match [] s = (s = [])"
| "glob_match (Any # gs) [] = glob_match gs []"
| "glob_match (Any # gs) (c # s) = (glob_match gs (c # s) \<or> glob_match (Any # gs) s)"
| "glob_match (One # gs) (c # s) = glob_match gs s"
| "glob_match (Class b # gs) (c # s) = (in_class b c \<and> glob_match gs s)"
| "glob_match (Lit d # gs) (c # s) = (c = d \<and> glob_match gs s)"
| "glob_match (_ # gs) [] = False"

definition fnmatch :: "string \<Rightarrow> string \<Rightarrow> bool" where
  "fnmatch s pat = glob_match (globs pat) s"

text \<open>A star stands for any text.\<close>

lemma glob_match_Any: "glob_match (Any # gs) s \<longleftrightarrow> (\<exists>u v. s = u @ v \<and> glob_match gs v)"
proof (induction s)
  case (Cons c s)
  show ?case
  proof
    assume "glob_match (Any # gs) (c # s)"
    then show "\<exists>u v. c # s = u @ v \<and> glob_match gs v"
      using Cons.IH by (metis append_Cons append_Nil glob_match.simps(3))
  next
    assume "\<exists>u v. c # s = u @ v \<and> glob_match gs v"
    then obtain u v where "c # s = u @ v" "glob_match gs v" by blast
    then show "glob_match (Any # gs) (c # s)" using Cons.IH by (cases u) auto
  qed
qed simp

lemma glob_match_Lits: "glob_match (map Lit p @ gs) s \<longleftrightarrow> (\<exists>v. s = p @ v \<and> glob_match gs v)"
proof (induction p arbitrary: s)
  case (Cons c p)
  then show ?case by (cases s) auto
qed simp

definition plain :: "char \<Rightarrow> bool" where
  "plain c \<longleftrightarrow> c \<notin> {CHR ''*'', CHR ''?'', CHR ''[''}"

lemma globs_plain: "list_all plain p \<Longrightarrow> globs (p @ q) = map Lit p @ globs q"
  by (induction p) (auto simp: plain_def)

lemma fnmatch_plain: "list_all plain p \<Longrightarrow> fnmatch s p \<longleftrightarrow> s = p"
  using globs_plain [of p "[]"] glob_match_Lits [of p "[]" s] by (auto simp: fnmatch_def)

lemma fnmatch_contains:
  "list_all plain p \<Longrightarrow> fnmatch s (''*'' @ p @ ''*'') \<longleftrightarrow> str_in p s"
proof -
  assume p: "list_all plain p"
  have "glob_match [Any] v" for v using glob_match_Any [of "[]" v] by auto
  then show ?thesis
    using globs_plain [OF p, of "''*''"]
    by (auto simp: fnmatch_def glob_match_Any glob_match_Lits str_in_iff simp del: glob_match.simps(2,3))
qed

section \<open>The policy document\<close>

record field_rule =
  rl_requires_provenance :: "bool option"
  rl_blocked_labels :: "string list"
  rl_action :: "string option"
  rl_deny_untrusted :: bool
  rl_max_classification :: "string option"

datatype rule_entry = RuleNotDict | Rule field_rule

datatype field_policies = PoliciesNotDict | Policies "(string, rule_entry) dict"

record tool_config =
  tl_risk :: "string option"
  tl_effect :: "string option"
  tl_allowed_agents :: "string list"
  tl_required_scopes :: "string list"
  tl_sensitive :: bool
  tl_egress :: bool
  tl_category :: "string option"
  tl_requires_provenance :: bool
  tl_max_input_classification :: "string option"
  tl_classification_violation_action :: "string option"
  tl_blocked_taint_labels :: "string list"
  tl_blocked_argument_patterns :: "(string, string list) dict"
  tl_field_policies :: field_policies
  tl_max_string_length :: "int option"
  tl_max_egress_bytes :: "int option"
  tl_hourly_egress_bytes :: "int option"
  tl_dlp_action :: "string option"
  tl_mcp_server_id :: "string option"
  tl_mcp_tool_name :: "string option"

datatype tool_entry = ToolNotDict | Tool tool_config

record policy_defaults =
  df_max_string_length :: "int option"
  df_requests_per_minute :: "int option"
  df_approval_ttl :: "int option"
  df_quarantine_threshold :: "int option"
  df_quarantine_window :: "int option"
  df_max_egress_bytes :: "int option"
  df_hourly_egress_bytes :: "int option"
  df_cross_trace_window :: "int option"
  df_mcp_observation_ttl :: "int option"

record policy =
  po_version :: string
  po_defaults :: policy_defaults
  po_tools :: "(string, tool_entry) dict"
  po_runtime :: "(string, tool_config) dict"

definition opt :: "'a option \<Rightarrow> 'a \<Rightarrow> 'a" where
  "opt v d = (case v of None \<Rightarrow> d | Some x \<Rightarrow> x)"

lemma opt_simps [simp]: "opt None d = d" "opt (Some x) d = x"
  by (simp_all add: opt_def)

definition validate_policy :: "policy \<Rightarrow> exc + unit" where
  "validate_policy p =
     (if po_version p = [] then Inl (PolicyConfigurationError ''Policy requires version and tools'')
      else if length (po_tools p) > 500 then
        Inl (PolicyConfigurationError ''Policy contains too many tools'')
      else Inr ())"

definition tool_config :: "policy \<Rightarrow> string \<Rightarrow> tool_config option" where
  "tool_config p name = (case map_of (po_runtime p) name of
      Some t \<Rightarrow> Some t
    | None \<Rightarrow> (case map_of (po_tools p) name of Some (Tool t) \<Rightarrow> Some t | _ \<Rightarrow> None))"

definition register_runtime_tool :: "policy \<Rightarrow> string \<Rightarrow> tool_config \<Rightarrow> exc + policy" where
  "register_runtime_tool p name cfg =
     (if map_of (po_tools p) name \<noteq> None then
        Inl (PolicyConfigurationError (''Runtime tool collides with configured tool: '' @ name))
      else if \<exists>old. map_of (po_runtime p) name = Some old \<and> old \<noteq> cfg then
        Inl (PolicyConfigurationError (''Runtime tool policy changed during process lifetime: '' @ name))
      else Inr (p\<lparr>po_runtime := AList.update name cfg (po_runtime p)\<rparr>))"

lemma register_keeps:
  assumes "register_runtime_tool p name cfg = Inr p'"
  shows "po_tools p' = po_tools p \<and> po_version p' = po_version p \<and> po_defaults p' = po_defaults p
    \<and> tool_config p' name = Some cfg
    \<and> (\<forall>n t. tool_config p n = Some t \<longrightarrow> tool_config p' n = Some t)"
  using assms
  by (auto simp: register_runtime_tool_def tool_config_def update_conv' split: if_splits option.splits tool_entry.splits)

section \<open>Evaluation\<close>

record evaluation =
  ev_decision :: decision
  ev_reasons :: "string list"
  ev_risk :: string
  ev_version :: string

definition mk_ev :: "policy \<Rightarrow> decision \<Rightarrow> string list \<Rightarrow> string \<Rightarrow> evaluation" where
  "mk_ev p d rs risk = \<lparr>ev_decision = d, ev_reasons = rs, ev_risk = risk, ev_version = po_version p\<rparr>"

definition deny :: "policy \<Rightarrow> string \<Rightarrow> string \<Rightarrow> evaluation" where
  "deny p reason risk = mk_ev p DENY [reason] risk"

lemma mk_ev_sel [simp]:
  "ev_decision (mk_ev p d rs k) = d" "ev_reasons (mk_ev p d rs k) = rs"
  "ev_risk (mk_ev p d rs k) = k" "ev_version (mk_ev p d rs k) = po_version p"
  by (simp_all add: mk_ev_def)

lemma deny_sel [simp]:
  "ev_decision (deny p r k) = DENY" "ev_reasons (deny p r k) = [r]"
  "ev_risk (deny p r k) = k" "ev_version (deny p r k) = po_version p"
  by (simp_all add: deny_def)

text \<open>\<^verbatim>\<open>DENY\<close>, or approval when the rule says so\<close>

definition violation_decision :: "string option \<Rightarrow> decision" where
  "violation_decision action = (if opt action ''deny'' = ''require_approval'' then REQUIRE_APPROVAL else DENY)"

lemma violation_not_allow [simp]: "violation_decision a \<noteq> ALLOW"
  by (simp add: violation_decision_def)

fun oversized :: "int \<Rightarrow> json \<Rightarrow> bool" and oversized_list :: "int \<Rightarrow> json list \<Rightarrow> bool"
  and oversized_items :: "int \<Rightarrow> (string \<times> json) list \<Rightarrow> bool" where
  "oversized limit (JStr s) = (int (length s) > limit)"
| "oversized limit (JDict kvs) = oversized_items limit kvs"
| "oversized limit (JList xs) = oversized_list limit xs"
| "oversized limit _ = False"
| "oversized_list limit [] = False"
| "oversized_list limit (x # xs) = (oversized limit x \<or> oversized_list limit xs)"
| "oversized_items limit [] = False"
| "oversized_items limit ((k, v) # kvs) = (oversized limit v \<or> oversized_items limit kvs)"

definition blocked_arguments :: "tool_config \<Rightarrow> (string, json) dict \<Rightarrow> string list" where
  "blocked_arguments tool args =
     map (\<lambda>(field, _). ''BLOCKED_ARGUMENT:'' @ field)
       (filter (\<lambda>(field, patterns).
          list_ex (\<lambda>p. fnmatch (casefold (py_str (dget args field (JStr [])))) (casefold p)) patterns)
        (tl_blocked_argument_patterns tool))"

definition field_context :: "verified_provenance \<Rightarrow> exc + field_taint" where
  "field_context item = mk_field_taint
     \<lparr>ft_digest = replicate 64 CHR ''0'', ft_trust = vp_trust item,
      ft_classification = vp_classification item, ft_labels = vp_labels item,
      ft_lineage_ids = (case vp_lineage_id item of Some i \<Rightarrow> if i = [] then [] else [i] | None \<Rightarrow> [])\<rparr>"

definition rule_contexts ::
  "string \<Rightarrow> verified_provenance list \<Rightarrow> (string, field_taint list) dict \<Rightarrow> exc + field_taint list" where
  "rule_contexts pointer provenance field_prov =
     (let contexts = dget field_prov pointer []
      in if contexts = [] then traverse field_context provenance else Inr contexts)"

definition nonempty :: "string option \<Rightarrow> string option" where
  "nonempty v = (case v of Some s \<Rightarrow> if s = [] then None else Some s | None \<Rightarrow> None)"

definition eval_rule :: "policy \<Rightarrow> string \<Rightarrow> field_rule \<Rightarrow> field_taint list \<Rightarrow> string \<Rightarrow> evaluation option" where
  "eval_rule p pointer rule contexts risk =
     (let labels = concat (map ft_labels contexts);
          matched = sorted_set (filter (\<lambda>l. l \<in> set (rl_blocked_labels rule)) labels)
      in if opt (rl_requires_provenance rule) True \<and> contexts = [] then
           Some (deny p (''FIELD_MISSING_PROVENANCE:'' @ pointer) risk)
         else if matched \<noteq> [] then
           Some (mk_ev p (violation_decision (rl_action rule))
             (map (\<lambda>l. ''FIELD_TAINT_LABEL:'' @ pointer @ '':'' @ l) matched) ''critical'')
         else if rl_deny_untrusted rule \<and> list_ex (\<lambda>i. ft_trust i = UNTRUSTED) contexts then
           Some (deny p (''FIELD_UNTRUSTED:'' @ pointer) risk)
         else case nonempty (rl_max_classification rule) of
           None \<Rightarrow> None
         | Some m \<Rightarrow> (if contexts = [] then None else case classification_of m of
               None \<Rightarrow> Some (deny p ''INVALID_FIELD_MAX_CLASSIFICATION'' ''critical'')
             | Some limit \<Rightarrow>
                 (let actual = highest_classification (map ft_classification contexts)
                  in if classification_exceeds actual limit then
                       Some (mk_ev p (violation_decision (rl_action rule))
                         [''FIELD_CLASSIFICATION_BLOCKED:'' @ pointer,
                          ''CLASSIFICATION:'' @ classification_value actual,
                          ''MAX_ALLOWED:'' @ classification_value limit] ''critical'')
                     else None)))"

fun eval_rules :: "policy \<Rightarrow> (string, rule_entry) dict \<Rightarrow> verified_provenance list \<Rightarrow>
    (string, field_taint list) dict \<Rightarrow> string \<Rightarrow> exc + evaluation option" where
  "eval_rules p [] provenance field_prov risk = Inr None"
| "eval_rules p ((pointer, RuleNotDict) # rules) provenance field_prov risk =
     Inr (Some (deny p ''INVALID_FIELD_POLICY'' ''critical''))"
| "eval_rules p ((pointer, Rule rule) # rules) provenance field_prov risk =
     ebind (rule_contexts pointer provenance field_prov) (\<lambda>contexts.
       case eval_rule p pointer rule contexts risk of
         Some e \<Rightarrow> Inr (Some e)
       | None \<Rightarrow> eval_rules p rules provenance field_prov risk)"

definition evaluate_field_policies :: "policy \<Rightarrow> tool_config \<Rightarrow> verified_provenance list \<Rightarrow>
    (string, field_taint list) dict \<Rightarrow> string \<Rightarrow> exc + evaluation option" where
  "evaluate_field_policies p tool provenance field_prov risk = (case tl_field_policies tool of
      PoliciesNotDict \<Rightarrow> Inr (Some (deny p ''INVALID_FIELD_POLICY'' ''critical''))
    | Policies rules \<Rightarrow> eval_rules p rules provenance field_prov risk)"

text \<open>The part of \<^verbatim>\<open>evaluate\<close> after the field policies.\<close>

definition evaluate_flow :: "policy \<Rightarrow> tool_config \<Rightarrow> verified_provenance list \<Rightarrow>
    security_finding list \<Rightarrow> string \<Rightarrow> evaluation" where
  "evaluate_flow p tool provenance findings risk =
     (let labels = concat (map vp_labels provenance);
          matched = sorted_set (filter (\<lambda>l. l \<in> set (tl_blocked_taint_labels tool)) labels);
          actual = highest_classification (map vp_classification provenance);
          final = (\<lambda>_ :: unit.
            if findings \<noteq> [] \<and> tl_egress tool then
              (let codes = sorted_set (map (\<lambda>f. ''DLP:'' @ sf_code f) findings)
               in if opt (tl_dlp_action tool) ''require_approval'' = ''deny''
                  then mk_ev p DENY codes ''critical''
                  else mk_ev p REQUIRE_APPROVAL codes risk)
            else case decision_of (opt (tl_effect tool) ''deny'') of
                None \<Rightarrow> deny p ''INVALID_POLICY_EFFECT'' risk
              | Some effect \<Rightarrow>
                  if tl_sensitive tool \<and> list_ex (\<lambda>i. vp_trust i = MIXED) provenance
                  then mk_ev p REQUIRE_APPROVAL
                         [''POLICY_EFFECT:'' @ decision_value effect, ''MIXED_TRUST_REQUIRES_APPROVAL''] risk
                  else mk_ev p effect [''POLICY_EFFECT:'' @ decision_value effect] risk)
      in if matched \<noteq> [] then mk_ev p DENY (map (\<lambda>l. ''TAINT_LABEL:'' @ l) matched) ''critical''
         else case nonempty (tl_max_input_classification tool) of
           None \<Rightarrow> final ()
         | Some m \<Rightarrow> (if provenance = [] then final () else case classification_of m of
               None \<Rightarrow> deny p ''INVALID_MAX_INPUT_CLASSIFICATION'' ''critical''
             | Some maximum \<Rightarrow>
                 if classification_exceeds actual maximum then
                   mk_ev p (violation_decision (tl_classification_violation_action tool))
                     [''CLASSIFICATION_FLOW_BLOCKED'', ''CLASSIFICATION:'' @ classification_value actual,
                      ''MAX_ALLOWED:'' @ classification_value maximum] ''critical''
                 else final ()))"

definition evaluate :: "policy \<Rightarrow> tool_call \<Rightarrow> agent_principal \<Rightarrow> verified_provenance list \<Rightarrow>
    security_finding list \<Rightarrow> (string, field_taint list) dict \<Rightarrow> exc + evaluation" where
  "evaluate p call agent provenance findings field_prov = (case tool_config p (tc_tool_name call) of
      None \<Rightarrow> Inr (deny p ''UNKNOWN_TOOL'' ''critical'')
    | Some tool \<Rightarrow>
       (let risk = opt (tl_risk tool) ''high'';
            missing = sorted_set (filter (\<lambda>s. s \<notin> set (pr_scopes agent)) (tl_required_scopes tool));
            max_length = opt (tl_max_string_length tool) (opt (df_max_string_length (po_defaults p)) 10000);
            blocked = blocked_arguments tool (tc_arguments call)
        in if pr_agent_id agent \<notin> set (tl_allowed_agents tool) then
             Inr (deny p ''AGENT_NOT_AUTHORIZED'' risk)
           else if missing \<noteq> [] then
             Inr (mk_ev p DENY (map (\<lambda>s. ''MISSING_SCOPE:'' @ s) missing) risk)
           else if oversized max_length (JDict (tc_arguments call)) then
             Inr (deny p ''ARGUMENT_TOO_LARGE'' risk)
           else if blocked \<noteq> [] then Inr (mk_ev p DENY blocked risk)
           else if tl_requires_provenance tool \<and> provenance = [] \<and> field_prov = [] then
             Inr (deny p ''MISSING_PROVENANCE'' risk)
           else if tl_sensitive tool \<and> list_ex (\<lambda>i. vp_trust i = UNTRUSTED) provenance then
             Inr (deny p ''UNTRUSTED_SOURCE_TO_SENSITIVE_TOOL'' risk)
           else if tl_sensitive tool \<and> list_ex (\<lambda>i. vp_signals i \<noteq> []) provenance then
             Inr (mk_ev p DENY (''PROMPT_INJECTION_SIGNAL'' #
               map (\<lambda>s. ''SIGNAL:'' @ s) (sorted_set (concat (map vp_signals provenance)))) risk)
           else ebind (evaluate_field_policies p tool provenance field_prov risk) (\<lambda>r. case r of
               Some e \<Rightarrow> Inr e
             | None \<Rightarrow> Inr (evaluate_flow p tool provenance findings risk))))"

section \<open>What is allowed\<close>

definition label_blocked :: "string list \<Rightarrow> string list \<Rightarrow> bool" where
  "label_blocked blocked labels \<longleftrightarrow> set labels \<inter> set blocked \<noteq> {}"

definition class_within :: "string option \<Rightarrow> data_classification list \<Rightarrow> bool" where
  "class_within m cs \<longleftrightarrow> (case nonempty m of None \<Rightarrow> True
     | Some name \<Rightarrow> cs = [] \<or> (case classification_of name of None \<Rightarrow> False
         | Some limit \<Rightarrow> (\<forall>c \<in> set cs. c \<le> limit)))"

definition rule_ok :: "field_rule \<Rightarrow> field_taint list \<Rightarrow> bool" where
  "rule_ok rule contexts \<longleftrightarrow>
     (opt (rl_requires_provenance rule) True \<longrightarrow> contexts \<noteq> [])
     \<and> (\<forall>c \<in> set contexts. \<not> label_blocked (rl_blocked_labels rule) (ft_labels c))
     \<and> (rl_deny_untrusted rule \<longrightarrow> (\<forall>c \<in> set contexts. ft_trust c \<noteq> UNTRUSTED))
     \<and> class_within (rl_max_classification rule) (map ft_classification contexts)"

definition rule_entry_ok ::
  "verified_provenance list \<Rightarrow> (string, field_taint list) dict \<Rightarrow> string \<times> rule_entry \<Rightarrow> bool" where
  "rule_entry_ok provenance field_prov e \<longleftrightarrow> (case e of (pointer, RuleNotDict) \<Rightarrow> False
     | (pointer, Rule rule) \<Rightarrow> (case rule_contexts pointer provenance field_prov of
           Inr cs \<Rightarrow> rule_ok rule cs | Inl _ \<Rightarrow> False))"

definition field_policies_ok ::
  "tool_config \<Rightarrow> verified_provenance list \<Rightarrow> (string, field_taint list) dict \<Rightarrow> bool" where
  "field_policies_ok tool provenance field_prov \<longleftrightarrow> (case tl_field_policies tool of
      PoliciesNotDict \<Rightarrow> False
    | Policies rules \<Rightarrow> (\<forall>e \<in> set rules. rule_entry_ok provenance field_prov e))"

definition caller_ok :: "policy \<Rightarrow> tool_config \<Rightarrow> tool_call \<Rightarrow> agent_principal \<Rightarrow> bool" where
  "caller_ok p tool call agent \<longleftrightarrow>
     pr_agent_id agent \<in> set (tl_allowed_agents tool)
     \<and> set (tl_required_scopes tool) \<subseteq> set (pr_scopes agent)
     \<and> \<not> oversized (opt (tl_max_string_length tool) (opt (df_max_string_length (po_defaults p)) 10000))
         (JDict (tc_arguments call))
     \<and> blocked_arguments tool (tc_arguments call) = []"

definition sources_ok :: "tool_config \<Rightarrow> verified_provenance list \<Rightarrow> bool" where
  "sources_ok tool provenance \<longleftrightarrow>
     (tl_sensitive tool \<longrightarrow> (\<forall>i \<in> set provenance. vp_trust i = TRUSTED \<and> vp_signals i = []))
     \<and> (\<forall>i \<in> set provenance. \<not> label_blocked (tl_blocked_taint_labels tool) (vp_labels i))
     \<and> class_within (tl_max_input_classification tool) (map vp_classification provenance)"

definition permits :: "policy \<Rightarrow> tool_call \<Rightarrow> agent_principal \<Rightarrow> verified_provenance list \<Rightarrow>
    security_finding list \<Rightarrow> (string, field_taint list) dict \<Rightarrow> bool" where
  "permits p call agent provenance findings field_prov \<longleftrightarrow>
     (\<exists>tool. tool_config p (tc_tool_name call) = Some tool
        \<and> caller_ok p tool call agent
        \<and> (tl_requires_provenance tool \<longrightarrow> provenance \<noteq> [] \<or> field_prov \<noteq> [])
        \<and> sources_ok tool provenance
        \<and> field_policies_ok tool provenance field_prov
        \<and> (tl_egress tool \<longrightarrow> findings = [])
        \<and> decision_of (opt (tl_effect tool) ''deny'') = Some ALLOW)"

definition allowed :: "exc + evaluation \<Rightarrow> bool" where
  "allowed r = (case r of Inr e \<Rightarrow> ev_decision e = ALLOW | Inl _ \<Rightarrow> False)"

lemma matched_Nil: "sorted_set (filter (\<lambda>l. l \<in> set blocked) (concat (map f xs))) = [] \<longleftrightarrow>
    (\<forall>x \<in> set xs. \<not> label_blocked blocked (f x))"
  by (auto simp: label_blocked_def filter_empty_conv)

lemma eval_rule_None: "eval_rule p pointer rule cs risk = None \<longleftrightarrow> rule_ok rule cs"
  unfolding eval_rule_def Let_def rule_ok_def class_within_def matched_Nil
  by (auto simp: list_ex_iff highest_le_iff highest_exceeds_iff not_le split: option.splits)

lemma eval_rule_not_allow: "eval_rule p pointer rule cs risk = Some e \<Longrightarrow> ev_decision e \<noteq> ALLOW"
  by (auto simp: eval_rule_def Let_def split: if_splits option.splits)

lemma eval_rules_None:
  "eval_rules p rules provenance field_prov risk = Inr None \<longleftrightarrow>
     (\<forall>e \<in> set rules. rule_entry_ok provenance field_prov e)"
proof (induction p rules provenance field_prov risk rule: eval_rules.induct)
  case (3 p pointer rule rules provenance field_prov risk)
  show ?case
  proof (cases "rule_contexts pointer provenance field_prov")
    case (Inr cs)
    then show ?thesis
      using 3 [of cs] eval_rule_None [of p pointer rule cs risk]
      by (cases "eval_rule p pointer rule cs risk") (auto simp: rule_entry_ok_def)
  qed (simp add: rule_entry_ok_def)
qed (simp_all add: rule_entry_ok_def)

lemma eval_rules_not_allow:
  "eval_rules p rules provenance field_prov risk = Inr (Some e) \<Longrightarrow> ev_decision e \<noteq> ALLOW"
proof (induction p rules provenance field_prov risk rule: eval_rules.induct)
  case (3 p pointer rule rules provenance field_prov risk)
  then obtain cs where "rule_contexts pointer provenance field_prov = Inr cs"
    by (auto simp: ebind_Inr_iff)
  with 3 show ?case
    by (cases "eval_rule p pointer rule cs risk") (auto simp: eval_rule_not_allow)
qed auto

lemma evaluate_field_policies_None:
  "evaluate_field_policies p tool provenance field_prov risk = Inr None \<longleftrightarrow>
     field_policies_ok tool provenance field_prov"
  by (auto simp: evaluate_field_policies_def field_policies_ok_def eval_rules_None split: field_policies.splits)

lemma evaluate_field_policies_not_allow:
  "evaluate_field_policies p tool provenance field_prov risk = Inr (Some e) \<Longrightarrow> ev_decision e \<noteq> ALLOW"
  by (auto simp: evaluate_field_policies_def eval_rules_not_allow split: field_policies.splits)

lemma trusted_iff: "t = TRUSTED \<longleftrightarrow> t \<noteq> UNTRUSTED \<and> t \<noteq> MIXED"
  by (cases t) auto

lemma evaluate_flow_allow:
  "ev_decision (evaluate_flow p tool provenance findings risk) = ALLOW \<longleftrightarrow>
     (tl_sensitive tool \<longrightarrow> (\<forall>i \<in> set provenance. vp_trust i \<noteq> MIXED))
     \<and> (\<forall>i \<in> set provenance. \<not> label_blocked (tl_blocked_taint_labels tool) (vp_labels i))
     \<and> class_within (tl_max_input_classification tool) (map vp_classification provenance)
     \<and> (tl_egress tool \<longrightarrow> findings = [])
     \<and> decision_of (opt (tl_effect tool) ''deny'') = Some ALLOW"
  unfolding evaluate_flow_def Let_def class_within_def matched_Nil
  by (auto simp: list_ex_iff highest_le_iff highest_exceeds_iff not_le split: option.splits)

lemma evaluate_allow:
  "allowed (evaluate p call agent provenance findings field_prov) \<longleftrightarrow>
     permits p call agent provenance findings field_prov"
proof (cases "tool_config p (tc_tool_name call)")
  case None
  then show ?thesis by (simp add: evaluate_def permits_def allowed_def)
next
  case (Some tool)
  let ?risk = "opt (tl_risk tool) ''high''"
  let ?fields = "evaluate_field_policies p tool provenance field_prov ?risk"
  have scopes: "sorted_set (filter (\<lambda>s. s \<notin> set (pr_scopes agent)) (tl_required_scopes tool)) = [] \<longleftrightarrow>
      set (tl_required_scopes tool) \<subseteq> set (pr_scopes agent)"
    by (auto simp: filter_empty_conv)
  have flow: "allowed (ebind ?fields (\<lambda>r. case r of Some e \<Rightarrow> Inr e
        | None \<Rightarrow> Inr (evaluate_flow p tool provenance findings ?risk))) \<longleftrightarrow>
      field_policies_ok tool provenance field_prov
      \<and> ev_decision (evaluate_flow p tool provenance findings ?risk) = ALLOW"
    using evaluate_field_policies_not_allow [of p tool provenance field_prov ?risk]
      evaluate_field_policies_None [of p tool provenance field_prov ?risk]
    by (cases ?fields) (auto simp: allowed_def split: option.splits)
  show ?thesis
    unfolding evaluate_def Some option.case Let_def scopes permits_def caller_ok_def sources_ok_def
    using flow Some evaluate_flow_allow [of p tool provenance findings ?risk]
    by (auto simp: allowed_def list_ex_iff trusted_iff split: if_splits)
qed

section \<open>More provenance never helps\<close>

lemma class_within_subset: "class_within m cs \<Longrightarrow> set ds \<subseteq> set cs \<Longrightarrow> class_within m ds"
  by (cases "nonempty m"; cases "ds = []") (auto simp: class_within_def split: option.splits)

lemma rule_ok_subset: "rule_ok rule cs \<Longrightarrow> set ds \<subseteq> set cs \<Longrightarrow> ds \<noteq> [] \<Longrightarrow> rule_ok rule ds"
  unfolding rule_ok_def
  using class_within_subset [of "rl_max_classification rule" "map ft_classification cs" "map ft_classification ds"]
  by auto

lemma rule_entry_ok_subset:
  assumes "rule_entry_ok qs field_prov e" "set ps \<subseteq> set qs" "ps \<noteq> []"
  shows "rule_entry_ok ps field_prov e"
proof -
  obtain pointer rule where e: "e = (pointer, Rule rule)" and
    "\<exists>cs. rule_contexts pointer qs field_prov = Inr cs \<and> rule_ok rule cs"
    using assms(1) by (auto simp: rule_entry_ok_def split: prod.splits rule_entry.splits sum.splits)
  then obtain cs where cs: "rule_contexts pointer qs field_prov = Inr cs" "rule_ok rule cs" by blast
  show ?thesis
  proof (cases "dget field_prov pointer [] = []")
    case True
    with cs have "traverse field_context qs = Inr cs" by (simp add: rule_contexts_def)
    from traverse_subset [OF this assms(2)] obtain ds where
      "traverse field_context ps = Inr ds" "set ds \<subseteq> set cs" "length ds = length ps"
      by blast
    moreover from this assms(3) have "ds \<noteq> []" by auto
    ultimately show ?thesis using True rule_ok_subset [OF cs(2), of ds]
      by (auto simp: e rule_entry_ok_def rule_contexts_def)
  next
    case False
    with cs show ?thesis by (auto simp: e rule_entry_ok_def rule_contexts_def)
  qed
qed

lemma permits_subset:
  assumes "permits p call agent qs findings field_prov" "set ps \<subseteq> set qs" "ps \<noteq> []"
  shows "permits p call agent ps findings field_prov"
proof -
  obtain tool where t: "tool_config p (tc_tool_name call) = Some tool" "caller_ok p tool call agent"
    "sources_ok tool qs" "field_policies_ok tool qs field_prov" "tl_egress tool \<longrightarrow> findings = []"
    "decision_of (opt (tl_effect tool) ''deny'') = Some ALLOW"
    using assms(1) by (auto simp: permits_def)
  have "sources_ok tool ps"
    using t(3) assms(2) class_within_subset [of "tl_max_input_classification tool"
      "map vp_classification qs" "map vp_classification ps"]
    unfolding sources_ok_def by auto
  moreover have "field_policies_ok tool ps field_prov"
    using t(4) rule_entry_ok_subset [OF _ assms(2,3)]
    by (auto simp: field_policies_ok_def split: field_policies.splits)
  ultimately show ?thesis using t assms(3) by (auto simp: permits_def)
qed

section \<open>Escalation of a denied effect\<close>

text \<open>
  The mixed-trust rule is applied after the effect is read, whatever the effect is.
\<close>

lemma evaluate_flow_mixed:
  assumes "tl_sensitive tool" "\<exists>i \<in> set provenance. vp_trust i = MIXED"
    and "\<forall>i \<in> set provenance. \<not> label_blocked (tl_blocked_taint_labels tool) (vp_labels i)"
    and "class_within (tl_max_input_classification tool) (map vp_classification provenance)"
    and "findings = [] \<or> \<not> tl_egress tool"
    and "decision_of (opt (tl_effect tool) ''deny'') = Some effect"
  shows "evaluate_flow p tool provenance findings risk =
    mk_ev p REQUIRE_APPROVAL
      [''POLICY_EFFECT:'' @ decision_value effect, ''MIXED_TRUST_REQUIRES_APPROVAL''] risk"
proof -
  have m: "sorted_set (filter (\<lambda>l. l \<in> set (tl_blocked_taint_labels tool)) (concat (map vp_labels provenance))) = []"
    using assms(3) by (simp only: matched_Nil)
  have x: "list_ex (\<lambda>i. vp_trust i = MIXED) provenance" using assms(2) by (auto simp: list_ex_iff)
  have c: "\<not> limit < highest_classification (map vp_classification provenance)"
    if "nonempty (tl_max_input_classification tool) = Some name" "classification_of name = Some limit"
      "provenance \<noteq> []" for name limit
    using assms(4) that by (auto simp: class_within_def not_less highest_le_iff)
  have n: "classification_of name \<noteq> None"
    if "nonempty (tl_max_input_classification tool) = Some name" "provenance \<noteq> []" for name
    using assms(4) that by (auto simp: class_within_def split: option.splits)
  have ne: "provenance \<noteq> []" using assms(2) by auto
  have e: "(findings \<noteq> [] \<and> tl_egress tool) = False" using assms(5) by auto
  show ?thesis
    unfolding evaluate_flow_def Let_def m e if_False
    using assms(1,6) x c ne by (auto split: option.splits dest: n)
qed

text \<open>
  A tool for one agent: public text only, no blocked label, trusted input, and a field rule on
  \<^verbatim>\<open>/to\<close>; its policy, a call, and two sources.
\<close>

definition demo_tool :: tool_config where
  "demo_tool = \<lparr>tl_risk = Some ''high'', tl_effect = Some ''allow'', tl_allowed_agents = [''a1''],
     tl_required_scopes = [''mail''], tl_sensitive = True, tl_egress = True, tl_category = None,
     tl_requires_provenance = True, tl_max_input_classification = Some ''internal'',
     tl_classification_violation_action = None, tl_blocked_taint_labels = [''secret''],
     tl_blocked_argument_patterns = [(''to'', [''*evil*''])],
     tl_field_policies = Policies [(''/to'', Rule \<lparr>rl_requires_provenance = None, rl_blocked_labels = [''pii''],
        rl_action = None, rl_deny_untrusted = True, rl_max_classification = Some ''internal''\<rparr>)],
     tl_max_string_length = Some 50, tl_max_egress_bytes = None, tl_hourly_egress_bytes = None,
     tl_dlp_action = None, tl_mcp_server_id = None, tl_mcp_tool_name = None\<rparr>"

definition demo_defaults :: policy_defaults where
  "demo_defaults = \<lparr>df_max_string_length = None, df_requests_per_minute = None, df_approval_ttl = None,
     df_quarantine_threshold = None, df_quarantine_window = None, df_max_egress_bytes = None,
     df_hourly_egress_bytes = None, df_cross_trace_window = None, df_mcp_observation_ttl = None\<rparr>"

definition demo_policy :: policy where
  "demo_policy = \<lparr>po_version = ''v1'', po_defaults = demo_defaults,
     po_tools = [(''mail'', Tool demo_tool),
       (''frozen'', Tool (demo_tool\<lparr>tl_effect := Some ''deny'', tl_egress := False\<rparr>))], po_runtime = []\<rparr>"

definition demo_call :: "string \<Rightarrow> tool_call" where
  "demo_call name = \<lparr>tc_request_id = ''r1'', tc_user_id = ''u1'', tc_tool_name = name,
     tc_arguments = [(''to'', JStr ''bob'')], tc_provenance_tokens = [], tc_field_provenance = [],
     tc_purpose = [], tc_trace_id = ''t1'', tc_task_id = None, tc_mcp_server_id = None\<rparr>"

definition demo_agent :: agent_principal where
  "demo_agent = \<lparr>pr_agent_id = ''a1'', pr_tenant_id = ''acme'', pr_scopes = [''mail''],
     pr_token_id = ''tok'', pr_expires_at = 0\<rparr>"

definition demo_source :: "trust_level \<Rightarrow> data_classification \<Rightarrow> verified_provenance" where
  "demo_source t c = \<lparr>vp_source_id = ''s'', vp_digest = ''d'', vp_trust = t, vp_signals = [],
     vp_classification = c, vp_labels = [''web''], vp_lineage_id = Some ''l1'', vp_trace_id = None,
     vp_parent_ids = [], vp_field_taint = []\<rparr>"

lemmas demo_defs = demo_tool_def demo_defaults_def demo_policy_def demo_call_def demo_agent_def demo_source_def

section \<open>Properties\<close>

text \<open>
  C4. The policy engine allows a call exactly when the specification \<open>permits\<close> does: the tool is
  known, the agent is listed and holds every scope, no argument is oversized or blocked, required
  provenance is there, a sensitive tool sees only trusted input without injection signals, no
  source carries a blocked label or a classification above the maximum, every field rule holds,
  an egress tool has no secret in its arguments, and the configured effect is \<^verbatim>\<open>allow\<close>.
\<close>

theorem policy_allows_exactly:
  "allowed (evaluate p call agent provenance findings field_prov) =
     permits p call agent provenance findings field_prov"
  by (rule evaluate_allow)

text \<open>
  C13. Once a call declares a source, declaring more of them never turns a refusal into an allowed
  call: a call that is allowed with some sources is allowed with any nonempty part of them. (The
  first source can: a tool that requires provenance refuses a call that has none.)
\<close>

theorem policy_antitone:
  assumes "allowed (evaluate p call agent qs findings field_prov)"
    and "set ps \<subseteq> set qs" and "ps \<noteq> []"
  shows "allowed (evaluate p call agent ps findings field_prov)"
  using assms permits_subset by (simp add: evaluate_allow)

theorem policy_antitone_witness:
  "allowed (evaluate demo_policy (demo_call ''mail'') demo_agent [demo_source TRUSTED PUBLIC] [] [])"
proof -
  have "allowed (evaluate demo_policy (demo_call ''mail'') demo_agent
          [demo_source TRUSTED INTERNAL, demo_source TRUSTED PUBLIC] [] [])"
    by code_simp
  then show ?thesis
    by (rule policy_antitone) simp_all
qed

text \<open>
  The mixed-trust rule comes after the effect of the tool and replaces it: a sensitive tool
  whose effect is \<^verbatim>\<open>deny\<close> (or anything else) asks for an approval instead when one of the
  sources is of mixed trust and no other rule objects.
\<close>

theorem mixed_trust_replaces_effect:
  assumes "tool_config p (tc_tool_name call) = Some tool" "caller_ok p tool call agent"
    and "tl_sensitive tool" "\<exists>i \<in> set provenance. vp_trust i = MIXED"
    and "\<forall>i \<in> set provenance. vp_trust i \<noteq> UNTRUSTED \<and> vp_signals i = []"
    and "\<forall>i \<in> set provenance. \<not> label_blocked (tl_blocked_taint_labels tool) (vp_labels i)"
    and "class_within (tl_max_input_classification tool) (map vp_classification provenance)"
    and "field_policies_ok tool provenance field_prov"
    and "findings = [] \<or> \<not> tl_egress tool"
    and "decision_of (opt (tl_effect tool) ''deny'') = Some effect"
  shows "evaluate p call agent provenance findings field_prov =
    Inr (mk_ev p REQUIRE_APPROVAL
      [''POLICY_EFFECT:'' @ decision_value effect, ''MIXED_TRUST_REQUIRES_APPROVAL'']
      (opt (tl_risk tool) ''high''))"
proof -
  let ?risk = "opt (tl_risk tool) ''high''"
  have flow: "evaluate_flow p tool provenance findings ?risk = mk_ev p REQUIRE_APPROVAL
      [''POLICY_EFFECT:'' @ decision_value effect, ''MIXED_TRUST_REQUIRES_APPROVAL''] ?risk"
    using assms(3,4,6,7,9,10) by (rule evaluate_flow_mixed)
  have f: "evaluate_field_policies p tool provenance field_prov ?risk = Inr None"
    using assms(8) by (simp only: evaluate_field_policies_None)
  have c: "(pr_agent_id agent \<notin> set (tl_allowed_agents tool)) = False"
    "(sorted_set (filter (\<lambda>s. s \<notin> set (pr_scopes agent)) (tl_required_scopes tool)) \<noteq> []) = False"
    "oversized (opt (tl_max_string_length tool) (opt (df_max_string_length (po_defaults p)) 10000))
       (JDict (tc_arguments call)) = False"
    "(blocked_arguments tool (tc_arguments call) \<noteq> []) = False"
    using assms(2) by (auto simp: caller_ok_def filter_empty_conv)
  have s: "list_ex (\<lambda>i. vp_trust i = UNTRUSTED) provenance = False"
    "list_ex (\<lambda>i. vp_signals i \<noteq> []) provenance = False" "(provenance = []) = False"
    using assms(4,5) by (auto simp: list_ex_iff)
  show ?thesis
    unfolding evaluate_def assms(1) option.case Let_def c s if_False f ebind.simps flow by simp
qed

theorem mixed_trust_replaces_effect_witness:
  "evaluate demo_policy (demo_call ''frozen'') demo_agent [demo_source MIXED PUBLIC] [] [] =
     Inr (mk_ev demo_policy REQUIRE_APPROVAL
       [''POLICY_EFFECT:'' @ decision_value DENY, ''MIXED_TRUST_REQUIRES_APPROVAL''] ''high'')"
proof -
  let ?t = "demo_tool\<lparr>tl_effect := Some ''deny'', tl_egress := False\<rparr>"
  have "evaluate demo_policy (demo_call ''frozen'') demo_agent [demo_source MIXED PUBLIC] [] [] =
     Inr (mk_ev demo_policy REQUIRE_APPROVAL
       [''POLICY_EFFECT:'' @ decision_value DENY, ''MIXED_TRUST_REQUIRES_APPROVAL'']
       (opt (tl_risk ?t) ''high''))"
  proof (rule mixed_trust_replaces_effect)
    show "tool_config demo_policy (tc_tool_name (demo_call ''frozen'')) = Some ?t"
      by (simp add: tool_config_def demo_defs)
    show "caller_ok demo_policy ?t (demo_call ''frozen'') demo_agent" by code_simp
    show "field_policies_ok ?t [demo_source MIXED PUBLIC] []" by code_simp
    show "class_within (tl_max_input_classification ?t) (map vp_classification [demo_source MIXED PUBLIC])"
      by code_simp
    show "\<forall>i \<in> set [demo_source MIXED PUBLIC]. \<not> label_blocked (tl_blocked_taint_labels ?t) (vp_labels i)"
      by code_simp
  qed (simp_all add: demo_defs decision_of_def)
  then show ?thesis by (simp add: demo_tool_def)
qed

end
