(* ===== verification/Regex.thy ===== *)
theory Regex
  imports Pystr
begin

text \<open>
  The part of Python's \<^verbatim>\<open>re\<close> that \<^verbatim>\<open>security.py\<close> uses: a backtracking matcher that
  enumerates the ends of a match in the order Python tries them, on a position given by the
  previous character and the rest of the text. \<open>reach\<close> is the declarative meaning of an
  expression; the matcher is proved to enumerate exactly it.
\<close>

section \<open>Expressions\<close>

datatype re =
    Eps
  | Chars bool "(char \<times> char) list"  \<comment> \<open>one character of the ranges; \<open>True\<close> ignores case\<close>
  | Dot
  | Space
  | Bound
  | Seq re re
  | Alt re re
  | Star re

type_synonym position = "char option \<times> string"

definition word_char :: "char \<Rightarrow> bool" where
  "word_char c \<longleftrightarrow> is_alnum c \<or> c = CHR ''_''"

definition in_ranges :: "(char \<times> char) list \<Rightarrow> char \<Rightarrow> bool" where
  "in_ranges rs c = list_ex (\<lambda>(a, b). a \<le> c \<and> c \<le> b) rs"

definition char_ok :: "bool \<Rightarrow> (char \<times> char) list \<Rightarrow> char \<Rightarrow> bool" where
  "char_ok ci rs c \<longleftrightarrow> in_ranges rs c \<or> (ci \<and> in_ranges (map (map_prod fold_char fold_char) rs) (fold_char c))"

definition boundary :: "position \<Rightarrow> bool" where
  "boundary st \<longleftrightarrow>
     (case fst st of None \<Rightarrow> False | Some c \<Rightarrow> word_char c) \<noteq>
     (case snd st of [] \<Rightarrow> False | c # _ \<Rightarrow> word_char c)"

definition step_if :: "(char \<Rightarrow> bool) \<Rightarrow> position \<Rightarrow> position list" where
  "step_if P st = (case snd st of [] \<Rightarrow> [] | c # s \<Rightarrow> if P c then [(Some c, s)] else [])"

section \<open>Meaning\<close>

inductive reach :: "re \<Rightarrow> position \<Rightarrow> position \<Rightarrow> bool" where
  Eps: "reach Eps st st"
| Chars: "char_ok ci rs c \<Longrightarrow> reach (Chars ci rs) (q, c # s) (Some c, s)"
| Dot: "c \<noteq> CHR 0x0A \<Longrightarrow> reach Dot (q, c # s) (Some c, s)"
| Space: "is_space c \<Longrightarrow> reach Space (q, c # s) (Some c, s)"
| Bound: "boundary st \<Longrightarrow> reach Bound st st"
| Seq: "reach a st u \<Longrightarrow> reach b u v \<Longrightarrow> reach (Seq a b) st v"
| AltL: "reach a st u \<Longrightarrow> reach (Alt a b) st u"
| AltR: "reach b st u \<Longrightarrow> reach (Alt a b) st u"
| Stop: "reach (Star a) st st"
| Loop: "reach a st u \<Longrightarrow> length (snd u) < length (snd st) \<Longrightarrow> reach (Star a) u v \<Longrightarrow> reach (Star a) st v"

inductive_cases EpsE: "reach Eps st u"
inductive_cases CharsE: "reach (Chars ci rs) st u"
inductive_cases DotE: "reach Dot st u"
inductive_cases SpaceE: "reach Space st u"
inductive_cases BoundE: "reach Bound st u"
inductive_cases SeqE: "reach (Seq a b) st u"
inductive_cases AltE: "reach (Alt a b) st u"
inductive_cases StarE: "reach (Star a) st u"

lemmas reach_elims = EpsE CharsE DotE SpaceE BoundE SeqE AltE

section \<open>The matcher\<close>

text \<open>Repetition is greedy: one more round is tried before stopping.\<close>

function ends :: "re \<Rightarrow> position \<Rightarrow> position list" where
  "ends Eps st = [st]"
| "ends (Chars ci rs) st = step_if (char_ok ci rs) st"
| "ends Dot st = step_if (\<lambda>c. c \<noteq> CHR 0x0A) st"
| "ends Space st = step_if is_space st"
| "ends Bound st = (if boundary st then [st] else [])"
| "ends (Seq a b) st = concat (map (ends b) (ends a st))"
| "ends (Alt a b) st = ends a st @ ends b st"
| "ends (Star a) st =
     concat (map (\<lambda>u. if length (snd u) < length (snd st) then ends (Star a) u else []) (ends a st)) @ [st]"
  by pat_completeness auto
termination
  by (relation "inv_image (less_than <*lex*> less_than) (\<lambda>(r, st). (size r, length (snd st)))") auto

declare ends.simps(8) [simp del]

lemma ends_Star: "set (ends (Star a) st) =
    insert st (\<Union>v \<in> {v \<in> set (ends a st). length (snd v) < length (snd st)}. set (ends (Star a) v))"
  by (subst ends.simps(8)) (auto split: if_splits)

lemma reach_ends: "reach r st u \<Longrightarrow> u \<in> set (ends r st)"
proof (induction rule: reach.induct)
  case (Seq a st u b v)
  then show ?case unfolding ends.simps set_concat set_map by blast
next
  case (Loop a st u v)
  then show ?case by (subst ends_Star) blast
next
  case (Stop a st)
  show ?case by (subst ends_Star) blast
qed (simp_all add: step_if_def)

lemma step_if_D: "u \<in> set (step_if P st) \<Longrightarrow> \<exists>q c s. st = (q, c # s) \<and> P c \<and> u = (Some c, s)"
  by (cases st) (auto simp: step_if_def split: list.splits if_splits)

lemma ends_reach: "u \<in> set (ends r st) \<Longrightarrow> reach r st u"
proof (induction r st arbitrary: u rule: ends.induct)
  case (2 ci rs st)
  then show ?case by (auto dest!: step_if_D intro: reach.Chars)
next
  case (3 st)
  then show ?case by (auto dest!: step_if_D intro: reach.Dot)
next
  case (4 st)
  then show ?case by (auto dest!: step_if_D intro: reach.Space)
next
  case (5 st)
  then show ?case by (auto split: if_splits intro: reach.Bound)
next
  case (6 a b st)
  from 6(3) obtain v where "v \<in> set (ends a st)" "u \<in> set (ends b v)"
    unfolding ends.simps set_concat set_map by blast
  then show ?case using 6(1,2) by (blast intro: reach.Seq)
next
  case (7 a b st)
  from 7(3) have "u \<in> set (ends a st) \<or> u \<in> set (ends b st)" by simp
  then show ?case using 7(1,2) by (blast intro: reach.AltL reach.AltR)
next
  case (8 a st)
  from 8(3) [THEN subsetD [OF equalityD1 [OF ends_Star]]] consider "u = st"
    | v where "v \<in> set (ends a st)" "length (snd v) < length (snd st)" "u \<in> set (ends (Star a) v)"
    by blast
  then show ?case
  proof cases
    case 2
    then show ?thesis using 8(1,2) by (blast intro: reach.Loop)
  qed (simp add: reach.Stop)
qed (simp add: reach.Eps)

lemma ends_iff: "u \<in> set (ends r st) \<longleftrightarrow> reach r st u"
  using reach_ends ends_reach by blast

text \<open>A match moves forward over a part of the rest.\<close>

lemma reach_shrinks: "reach r st u \<Longrightarrow> length (snd u) \<le> length (snd st)"
  by (induction rule: reach.induct) auto

section \<open>Searching\<close>

definition match_here :: "re \<Rightarrow> position \<Rightarrow> position option" where
  "match_here r st = (case ends r st of [] \<Rightarrow> None | u # _ \<Rightarrow> Some u)"

fun search_from :: "re \<Rightarrow> char option \<Rightarrow> string \<Rightarrow> bool" where
  "search_from r q [] = (match_here r (q, []) \<noteq> None)"
| "search_from r q (c # s) = (match_here r (q, c # s) \<noteq> None \<or> search_from r (Some c) s)"

text \<open>\<^verbatim>\<open>pattern.search(s)\<close>\<close>

definition search :: "re \<Rightarrow> string \<Rightarrow> bool" where
  "search r s = search_from r None s"

lemma match_here_iff: "match_here r st \<noteq> None \<longleftrightarrow> (\<exists>u. reach r st u)"
  unfolding ends_iff [symmetric] by (cases "ends r st") (auto simp: match_here_def)

definition prev_char :: "char option \<Rightarrow> string \<Rightarrow> char option" where
  "prev_char q a = (if a = [] then q else Some (last a))"

lemma prev_char_simps [simp]: "prev_char q [] = q" "prev_char q (c # a) = prev_char (Some c) a"
  by (simp_all add: prev_char_def)

lemma search_from_iff: "search_from r q s \<longleftrightarrow> (\<exists>a b. s = a @ b \<and> match_here r (prev_char q a, b) \<noteq> None)"
proof (induction r q s rule: search_from.induct)
  case (2 r q c s)
  show ?case
  proof
    assume "search_from r q (c # s)"
    then consider "match_here r (q, c # s) \<noteq> None" | "search_from r (Some c) s" by auto
    then show "\<exists>a b. c # s = a @ b \<and> match_here r (prev_char q a, b) \<noteq> None"
    proof cases
      case 1
      then show ?thesis by (intro exI [of _ "[]"] exI [of _ "c # s"]) (simp del: not_None_eq)
    next
      case 2
      then obtain a b where "s = a @ b" "match_here r (prev_char (Some c) a, b) \<noteq> None"
        using "2.IH" by blast
      then show ?thesis by (intro exI [of _ "c # a"] exI [of _ b]) (simp del: not_None_eq)
    qed
  next
    assume "\<exists>a b. c # s = a @ b \<and> match_here r (prev_char q a, b) \<noteq> None"
    then obtain a b where "c # s = a @ b" "match_here r (prev_char q a, b) \<noteq> None" by blast
    then consider "match_here r (q, c # s) \<noteq> None"
      | a' where "s = a' @ b" "match_here r (prev_char (Some c) a', b) \<noteq> None"
      by (cases a) (auto simp del: not_None_eq)
    then show "search_from r q (c # s)"
    proof cases
      case 1
      then show ?thesis by (simp only: search_from.simps simp_thms)
    next
      case (2 a')
      then have "search_from r (Some c) s" using "2.IH" by blast
      then show ?thesis by simp
    qed
  qed
qed simp

text \<open>A search succeeds exactly when the expression matches at some position of the text.\<close>

lemma search_iff: "search r s \<longleftrightarrow> (\<exists>a b u. s = a @ b \<and> reach r (prev_char None a, b) u)"
  unfolding search_def search_from_iff match_here_iff by blast

text \<open>
  \<^verbatim>\<open>pattern.finditer(s)\<close> and \<^verbatim>\<open>pattern.sub(t, s)\<close> for a pattern that matches no empty text: the
  matched texts, from the left and not overlapping, and the text with each of them replaced.
\<close>

definition matched :: "position \<Rightarrow> position \<Rightarrow> string" where
  "matched st u = take (length (snd st) - length (snd u)) (snd st)"

function find_all :: "re \<Rightarrow> char option \<Rightarrow> string \<Rightarrow> string list" where
  "find_all r q [] = []"
| "find_all r q (c # s) = (case match_here r (q, c # s) of
      Some u \<Rightarrow> if length (snd u) < length (c # s)
        then matched (q, c # s) u # find_all r (fst u) (snd u) else find_all r (Some c) s
    | None \<Rightarrow> find_all r (Some c) s)"
  by pat_completeness auto
termination
  by (relation "measure (\<lambda>(r, q, s). length s)") auto

function replace_all :: "re \<Rightarrow> string \<Rightarrow> char option \<Rightarrow> string \<Rightarrow> string" where
  "replace_all r t q [] = []"
| "replace_all r t q (c # s) = (case match_here r (q, c # s) of
      Some u \<Rightarrow> if length (snd u) < length (c # s)
        then t @ replace_all r t (fst u) (snd u) else c # replace_all r t (Some c) s
    | None \<Rightarrow> c # replace_all r t (Some c) s)"
  by pat_completeness auto
termination
  by (relation "measure (\<lambda>(r, t, q, s). length s)") auto

definition nonnull :: "re \<Rightarrow> bool" where
  "nonnull r \<longleftrightarrow> (\<forall>st u. reach r st u \<longrightarrow> length (snd u) < length (snd st))"

lemma match_here_reach: "match_here r st = Some u \<Longrightarrow> reach r st u"
  unfolding ends_iff [symmetric] by (cases "ends r st") (auto simp: match_here_def)

lemma nonnullD: "nonnull r \<Longrightarrow> reach r st u \<Longrightarrow> length (snd u) < length (snd st)"
  unfolding nonnull_def by blast

lemma match_here_Nil: "nonnull r \<Longrightarrow> match_here r (q, []) = None"
  using match_here_reach [of r "(q, [])"] nonnullD [of r "(q, [])"]
  by (cases "match_here r (q, [])") auto

lemma find_all_Nil_iff: "nonnull r \<Longrightarrow> find_all r q s = [] \<longleftrightarrow> \<not> search_from r q s"
proof (induction r q s rule: find_all.induct)
  case (1 r q)
  then show ?case by (simp add: match_here_Nil)
next
  case (2 r q c s)
  show ?case
  proof (cases "match_here r (q, c # s)")
    case None
    then show ?thesis using 2 by simp
  next
    case (Some u)
    then have "length (snd u) < length (snd (q, c # s))"
      by (intro nonnullD [OF 2(4)] match_here_reach)
    then show ?thesis using Some by simp
  qed
qed

text \<open>Without a match nothing is replaced.\<close>

lemma replace_all_absent: "\<not> search_from r q s \<Longrightarrow> replace_all r t q s = s"
proof (induction r q s rule: search_from.induct)
  case (2 r q c s)
  then have "match_here r (q, c # s) = None" by (cases "match_here r (q, c # s)") auto
  with 2 show ?case by simp
qed simp

section \<open>Building expressions\<close>

fun lits :: "bool \<Rightarrow> string \<Rightarrow> re" where
  "lits ci [] = Eps"
| "lits ci (c # s) = Seq (Chars ci [(c, c)]) (lits ci s)"

fun alts :: "re list \<Rightarrow> re" where
  "alts [r] = r"
| "alts (r # rs) = Alt r (alts rs)"
| "alts [] = Alt Eps Eps"

fun seqs :: "re list \<Rightarrow> re" where
  "seqs [] = Eps"
| "seqs (r # rs) = Seq r (seqs rs)"

definition optional :: "re \<Rightarrow> re" where
  "optional r = Alt r Eps"

fun up_to :: "nat \<Rightarrow> re \<Rightarrow> re" where
  "up_to 0 r = Eps"
| "up_to (Suc n) r = Alt (Seq r (up_to n r)) Eps"

definition at_least :: "nat \<Rightarrow> re \<Rightarrow> re" where
  "at_least n r = Seq (seqs (replicate n r)) (Star r)"

definition exactly :: "nat \<Rightarrow> re \<Rightarrow> re" where
  "exactly n r = seqs (replicate n r)"

fun nonnull_re :: "re \<Rightarrow> bool" where
  "nonnull_re (Chars ci rs) = True"
| "nonnull_re Dot = True"
| "nonnull_re Space = True"
| "nonnull_re (Seq a b) = (nonnull_re a \<or> nonnull_re b)"
| "nonnull_re (Alt a b) = (nonnull_re a \<and> nonnull_re b)"
| "nonnull_re _ = False"

lemma nonnull_re_sound: "nonnull_re r \<Longrightarrow> nonnull r"
proof (induction r)
  case (Seq a b)
  show ?case unfolding nonnull_def
  proof (intro allI impI)
    fix st u assume "reach (Seq a b) st u"
    then obtain v where v: "reach a st v" "reach b v u" by (auto elim: SeqE)
    then have "length (snd v) \<le> length (snd st)" "length (snd u) \<le> length (snd v)" by (auto intro: reach_shrinks)
    moreover have "length (snd v) < length (snd st) \<or> length (snd u) < length (snd v)"
      using Seq nonnullD v by (metis nonnull_re.simps(4))
    ultimately show "length (snd u) < length (snd st)" by auto
  qed
next
  case (Alt a b)
  then have "nonnull a" "nonnull b" by auto
  then show ?case unfolding nonnull_def by (blast elim: AltE)
next
  case (Chars ci rs)
  show ?case unfolding nonnull_def by (auto elim: CharsE)
next
  case Dot
  show ?case unfolding nonnull_def by (auto elim: DotE)
next
  case Space
  show ?case unfolding nonnull_def by (auto elim: SpaceE)
qed auto

end
