(* ===== verification/Security.thy ===== *)
theory Security
  imports Policy Regex
begin

text \<open>
  \<^verbatim>\<open>security.py\<close>: the canonical text and the hash of a request, the secret scanner with its
  patterns, the injection signals and the redaction of logged values. \<open>clean\<close> is the declarative
  meaning of a value without secrets; the scanner is proved to report nothing exactly then.
\<close>

section \<open>Canonical text and request hash\<close>

definition canonical_json :: "json \<Rightarrow> string" where
  "canonical_json v = dumps False (sort_keys v)"

definition request_body :: "tool_call \<Rightarrow> agent_principal \<Rightarrow> json" where
  "request_body call agent = JDict
     [(''agent_id'', JStr (pr_agent_id agent)), (''tenant_id'', JStr (pr_tenant_id agent)),
      (''call'', call_json call)]"

definition request_hash :: "crypto \<Rightarrow> tool_call \<Rightarrow> agent_principal \<Rightarrow> string" where
  "request_hash cr call agent = sha256 cr (canonical_json (request_body call agent))"

definition fingerprint :: "crypto \<Rightarrow> string \<Rightarrow> string" where
  "fingerprint cr s = take 16 (sha256 cr s)"

lemma canonical_json_inject:
  "json_wf v \<Longrightarrow> json_wf w \<Longrightarrow> canonical_json v = canonical_json w \<Longrightarrow> sort_keys v = sort_keys w"
  unfolding canonical_json_def by (rule dumps_inject) (auto simp: sort_keys_wf)

lemma request_body_wf: "tool_call_wf call \<Longrightarrow> json_wf (request_body call agent)"
  by (simp add: request_body_def call_json_wf dict_wf_def)

section \<open>Patterns\<close>

definition any_of :: "string \<Rightarrow> (char \<times> char) list" where
  "any_of s = map (\<lambda>c. (c, c)) s"

definition upper_range :: "(char \<times> char) list" where "upper_range = [(CHR ''A'', CHR ''Z'')]"
definition lower_range :: "(char \<times> char) list" where "lower_range = [(CHR ''a'', CHR ''z'')]"
definition digit_range :: "(char \<times> char) list" where "digit_range = [(CHR ''0'', CHR ''9'')]"

definition SECRET_KEY_NAMES :: re where
  "SECRET_KEY_NAMES = alts
     [lits True ''password'', lits True ''passwd'', lits True ''secret'',
      seqs [lits True ''api'', optional (Chars True (any_of ''_-'')), lits True ''key''],
      seqs [optional (seqs [lits True ''access'', optional (Chars True (any_of ''_-''))]),
            lits True ''token'', optional (lits True ''s'')],
      seqs [lits True ''private'', optional (Chars True (any_of ''_-'')), lits True ''key'']]"

definition SECRET_PATTERNS :: "(string \<times> re) list" where
  "SECRET_PATTERNS =
     [(''PRIVATE_KEY'', seqs [lits False ''-----BEGIN '',
         optional (alts [lits False ''RSA '', lits False ''EC '', lits False ''OPENSSH '']),
         lits False ''PRIVATE KEY-----'']),
      (''OPENAI_KEY'', seqs [Bound, lits False ''sk-'',
         at_least 16 (Chars False (upper_range @ lower_range @ digit_range @ any_of ''_-'')), Bound]),
      (''GITHUB_TOKEN'', seqs [Bound, lits False ''gh'', Chars False (any_of ''opusr''), lits False ''_'',
         at_least 20 (Chars False (upper_range @ lower_range @ digit_range)), Bound]),
      (''AWS_ACCESS_KEY'', seqs [Bound, alts [lits False ''AKIA'', lits False ''ASIA''],
         exactly 16 (Chars False (upper_range @ digit_range)), Bound]),
      (''BEARER_TOKEN'', seqs [Bound, lits True ''Bearer'', at_least 1 Space,
         at_least 20 (Chars True (upper_range @ lower_range @ digit_range @ any_of ''._~+/=-''))])]"

definition INJECTION_PATTERNS :: "(string \<times> re) list" where
  "INJECTION_PATTERNS =
     [(''IGNORE_INSTRUCTIONS'', seqs [Bound, lits True ''ignore'', at_least 1 Space,
         optional (seqs [lits True ''all'', at_least 1 Space]),
         alts [lits True ''previous'', lits True ''prior'', lits True ''above''], at_least 1 Space,
         lits True ''instruction'', optional (lits True ''s''), Bound]),
      (''SYSTEM_PROMPT_REQUEST'', seqs [Bound,
         alts [lits True ''reveal'', lits True ''print'', lits True ''show'', lits True ''exfiltrate''], Bound,
         up_to 30 Dot, Bound, alts [lits True ''system'', lits True ''developer''], at_least 1 Space,
         lits True ''prompt'', Bound]),
      (''SECRET_EXFILTRATION'', seqs [Bound,
         alts [lits True ''send'', lits True ''upload'', lits True ''post'', lits True ''email''], Bound,
         up_to 40 Dot, Bound,
         alts [lits True ''secret'', lits True ''credential'', lits True ''token'', lits True ''api key''],
         optional (lits True ''s''), Bound]),
      (''TOOL_OVERRIDE'', seqs [Bound,
         alts [lits True ''call'', lits True ''invoke'', lits True ''use''], Bound, up_to 30 Dot, Bound,
         alts [lits True ''admin'', lits True ''delete'', lits True ''shell'', lits True ''email''], Bound,
         up_to 30 Dot, Bound, lits True ''tool'', Bound])]"

lemma secret_patterns_nonnull: "(code, r) \<in> set SECRET_PATTERNS \<Longrightarrow> nonnull r"
proof -
  have "list_all (\<lambda>(code, r). nonnull_re r) SECRET_PATTERNS" by code_simp
  then show "(code, r) \<in> set SECRET_PATTERNS \<Longrightarrow> nonnull r"
    by (auto simp: list_all_iff intro: nonnull_re_sound)
qed

definition injection_signals :: "string \<Rightarrow> string list" where
  "injection_signals content =
     sorted_set (map fst (filter (\<lambda>(code, r). search r content) INJECTION_PATTERNS))"

section \<open>Scanning\<close>

definition finding_key :: "security_finding \<Rightarrow> string \<times> string \<times> string" where
  "finding_key f = (sf_code f, sf_path f, sf_fingerprint f)"

definition unique_findings :: "security_finding list \<Rightarrow> security_finding list" where
  "unique_findings fs = map snd (dict_of (map (\<lambda>f. (finding_key f, f)) fs) [])"

definition scan_text :: "crypto \<Rightarrow> string \<Rightarrow> string \<Rightarrow> security_finding list" where
  "scan_text cr s path = concat (map (\<lambda>(code, r).
     map (\<lambda>m. \<lparr>sf_code = code, sf_severity = ''critical'', sf_path = path, sf_fingerprint = fingerprint cr m\<rparr>)
       (find_all r None s)) SECRET_PATTERNS)"

fun sensitive_field :: "crypto \<Rightarrow> string \<Rightarrow> json \<Rightarrow> string \<Rightarrow> security_finding list" where
  "sensitive_field cr key (JStr s) child_path =
     (if search SECRET_KEY_NAMES key \<and> s \<noteq> [] then
        [\<lparr>sf_code = ''SENSITIVE_FIELD'', sf_severity = ''high'', sf_path = child_path,
          sf_fingerprint = fingerprint cr s\<rparr>] else [])"
| "sensitive_field cr key _ child_path = []"

fun scan_secrets :: "crypto \<Rightarrow> json \<Rightarrow> string \<Rightarrow> security_finding list"
  and scan_items :: "crypto \<Rightarrow> (string \<times> json) list \<Rightarrow> string \<Rightarrow> security_finding list"
  and scan_elems :: "crypto \<Rightarrow> nat \<Rightarrow> json list \<Rightarrow> string \<Rightarrow> security_finding list" where
  "scan_secrets cr (JDict kvs) path = unique_findings (scan_items cr kvs path)"
| "scan_secrets cr (JList xs) path = unique_findings (scan_elems cr 0 xs path)"
| "scan_secrets cr (JStr s) path = unique_findings (scan_text cr s path)"
| "scan_secrets cr _ path = []"
| "scan_items cr [] path = []"
| "scan_items cr ((k, v) # kvs) path =
     sensitive_field cr k v (path @ ''.'' @ k) @ scan_secrets cr v (path @ ''.'' @ k) @ scan_items cr kvs path"
| "scan_elems cr i [] path = []"
| "scan_elems cr i (x # xs) path =
     scan_secrets cr x (path @ ''['' @ show_nat i @ '']'') @ scan_elems cr (Suc i) xs path"

lemma dict_of_Nil: "dict_of kvs d = [] \<longleftrightarrow> kvs = [] \<and> d = []"
proof (induction kvs d rule: dict_of.induct)
  case (2 k v kvs d)
  have "AList.update k v d \<noteq> []" by (cases d) auto
  with 2 show ?case by simp
qed simp

lemma unique_findings_Nil [simp]: "unique_findings fs = [] \<longleftrightarrow> fs = []"
  by (simp add: unique_findings_def dict_of_Nil)

fun clean :: "json \<Rightarrow> bool" and clean_items :: "(string \<times> json) list \<Rightarrow> bool"
  and clean_elems :: "json list \<Rightarrow> bool" where
  "clean (JDict kvs) = clean_items kvs"
| "clean (JList xs) = clean_elems xs"
| "clean (JStr s) = list_all (\<lambda>(code, r). \<not> search r s) SECRET_PATTERNS"
| "clean _ = True"
| "clean_items [] = True"
| "clean_items ((k, v) # kvs) =
     ((search SECRET_KEY_NAMES k \<longrightarrow> (case v of JStr s \<Rightarrow> s = [] | _ \<Rightarrow> True)) \<and> clean v \<and> clean_items kvs)"
| "clean_elems [] = True"
| "clean_elems (x # xs) = (clean x \<and> clean_elems xs)"

lemma scan_text_Nil: "scan_text cr s path = [] \<longleftrightarrow> list_all (\<lambda>(code, r). \<not> search r s) SECRET_PATTERNS"
  using secret_patterns_nonnull
  by (auto simp: scan_text_def list_all_iff search_def find_all_Nil_iff)

lemma sensitive_field_Nil:
  "sensitive_field cr k v p = [] \<longleftrightarrow> (search SECRET_KEY_NAMES k \<longrightarrow> (case v of JStr s \<Rightarrow> s = [] | _ \<Rightarrow> True))"
  by (cases v) auto

lemma scan_clean:
  "scan_secrets cr v path = [] \<longleftrightarrow> clean v"
  "scan_items cr kvs path = [] \<longleftrightarrow> clean_items kvs"
  "scan_elems cr i xs path = [] \<longleftrightarrow> clean_elems xs"
  by (induction v path and kvs path and i xs path rule: scan_secrets_scan_items_scan_elems.induct)
     (simp_all add: scan_text_Nil sensitive_field_Nil)

section \<open>Redaction\<close>

definition redact_text :: "string \<Rightarrow> string" where
  "redact_text s = fold (\<lambda>(code, r) t. replace_all r ''[REDACTED]'' None t) SECRET_PATTERNS s"

fun redact :: "json \<Rightarrow> json" and redact_items :: "(string \<times> json) list \<Rightarrow> (string \<times> json) list"
  and redact_elems :: "json list \<Rightarrow> json list" where
  "redact (JDict kvs) = JDict (redact_items kvs)"
| "redact (JList xs) = JList (redact_elems xs)"
| "redact (JStr s) = JStr (redact_text s)"
| "redact v = v"
| "redact_items [] = []"
| "redact_items ((k, v) # kvs) =
     (k, if search SECRET_KEY_NAMES k then JStr ''[REDACTED]'' else redact v) # redact_items kvs"
| "redact_elems [] = []"
| "redact_elems (x # xs) = redact x # redact_elems xs"

fun hidden :: "json \<Rightarrow> bool" and hidden_items :: "(string \<times> json) list \<Rightarrow> bool"
  and hidden_elems :: "json list \<Rightarrow> bool" where
  "hidden (JDict kvs) = hidden_items kvs"
| "hidden (JList xs) = hidden_elems xs"
| "hidden _ = True"
| "hidden_items [] = True"
| "hidden_items ((k, v) # kvs) =
     ((if search SECRET_KEY_NAMES k then v = JStr ''[REDACTED]'' else hidden v) \<and> hidden_items kvs)"
| "hidden_elems [] = True"
| "hidden_elems (x # xs) = (hidden x \<and> hidden_elems xs)"

lemma redact_hidden:
  "hidden (redact v)" "hidden_items (redact_items kvs)" "hidden_elems (redact_elems xs)"
  by (induction v and kvs and xs rule: redact_redact_items_redact_elems.induct) auto

lemma fst_redact_items [simp]: "map fst (redact_items kvs) = map fst kvs"
  by (induction kvs) auto

lemma redact_wf:
  "json_wf v \<Longrightarrow> json_wf (redact v)"
  "json_wf_items kvs \<Longrightarrow> json_wf_items (redact_items kvs)"
  "json_wf_list xs \<Longrightarrow> json_wf_list (redact_elems xs)"
  by (induction v and kvs and xs rule: redact_redact_items_redact_elems.induct)
     (auto simp: dict_wf_def simp del: json_wf_items_iff json_wf_list_iff)

lemma redact_text_clean: "list_all (\<lambda>(code, r). \<not> search r s) SECRET_PATTERNS \<Longrightarrow> redact_text s = s"
proof -
  have "list_all (\<lambda>(code, r). \<not> search r s) ps \<Longrightarrow>
      fold (\<lambda>(code, r) t. replace_all r ''[REDACTED]'' None t) ps s = s" for ps
    by (induction ps) (auto simp: search_def replace_all_absent)
  then show "list_all (\<lambda>(code, r). \<not> search r s) SECRET_PATTERNS \<Longrightarrow> redact_text s = s"
    by (simp add: redact_text_def)
qed

definition finding_json :: "security_finding \<Rightarrow> json" where
  "finding_json f = JDict [(''code'', JStr (sf_code f)), (''severity'', JStr (sf_severity f)),
     (''path'', JStr (sf_path f)), (''fingerprint'', JStr (sf_fingerprint f))]"

lemma finding_json_wf [simp]: "json_wf (finding_json f)"
  by (simp add: finding_json_def dict_wf_def)

section \<open>Properties\<close>

text \<open>
  The secret scanner reports nothing exactly when no string of the value, at any depth,
  contains a text of one of the secret patterns (by the declarative meaning of the expression) and
  no dictionary key with a secret's name holds a nonempty string.
\<close>

theorem scan_reports_exactly:
  "(scan_secrets cr v path = []) = clean v"
  by (rule scan_clean)

text \<open>
  After redaction every key with a secret's name, at any depth, holds the placeholder, and the
  keys of each dictionary are unchanged.
\<close>

theorem redact_hides_keys:
  "hidden (redact v) \<and> map fst (redact_items kvs) = map fst kvs"
  using redact_hidden by simp

text \<open>
  A request hash binds the request: two well-formed calls with the same hash were made by the
  same agent of the same tenant with the same fields (up to the key order of the arguments),
  unless the hash function collides on their canonical texts.
\<close>

theorem request_hash_binds:
  assumes "tool_call_wf c" "tool_call_wf d" "request_hash cr c a = request_hash cr d b"
  shows "(pr_agent_id a = pr_agent_id b \<and> pr_tenant_id a = pr_tenant_id b
      \<and> sort_keys (call_json c) = sort_keys (call_json d))
    \<or> (canonical_json (request_body c a) \<noteq> canonical_json (request_body d b)
      \<and> sha256 cr (canonical_json (request_body c a)) = sha256 cr (canonical_json (request_body d b)))"
proof (cases "canonical_json (request_body c a) = canonical_json (request_body d b)")
  case True
  then have "sort_keys (request_body c a) = sort_keys (request_body d b)"
    using assms(1,2) by (intro canonical_json_inject request_body_wf)
  then show ?thesis by (simp add: request_body_def)
next
  case False
  then show ?thesis using assms(3) by (simp add: request_hash_def)
qed

theorem request_hash_binds_witness:
  "sort_keys (call_json (demo_call ''mail''\<lparr>tc_arguments := [(''b'', JInt 1), (''a'', JNull)]\<rparr>)) =
   sort_keys (call_json (demo_call ''mail''\<lparr>tc_arguments := [(''a'', JNull), (''b'', JInt 1)]\<rparr>))"
proof -
  let ?cr = "\<lparr>sha256 = rev, hmac_digest = (\<lambda>k s. k @ s), hmac_hex = (\<lambda>k s. k @ s),
     aead_encrypt = (\<lambda>k n s p. s), aead_decrypt = (\<lambda>k n s p. Some s)\<rparr>"
  let ?c = "demo_call ''mail''\<lparr>tc_arguments := [(''b'', JInt 1), (''a'', JNull)]\<rparr>"
  let ?d = "demo_call ''mail''\<lparr>tc_arguments := [(''a'', JNull), (''b'', JInt 1)]\<rparr>"
  have wf: "tool_call_wf ?c" "tool_call_wf ?d" by (simp_all add: tool_call_wf_def demo_call_def dict_wf_def)
  have "request_hash ?cr ?c demo_agent = request_hash ?cr ?d demo_agent" by code_simp
  from request_hash_binds [OF wf this] show ?thesis by (simp del: sort_keys.simps)
qed

end
