(* ===== verification/Identity.thy ===== *)
theory Identity
  imports Policy
begin

text \<open>
  \<^verbatim>\<open>identity.py\<close>: the URL-safe base64 without padding, and the HMAC token of
  \<^verbatim>\<open>TokenSigner\<close>: three encoded parts (header, payload, signature) joined by dots. A byte is
  an 8-bit \<open>char\<close>; the time of a call is an argument, in microseconds, of which the code uses the
  whole seconds. The locale \<open>sealing\<close> states what the rest of the program relies on: what was
  sealed is read back, and what is read back carries the signature of the key.
\<close>

section \<open>Base64\<close>

definition sextet_char :: "nat \<Rightarrow> char" where
  "sextet_char n = char_of (if n < 26 then 65 + n else if n < 52 then 71 + n
     else if n < 62 then n - 4 else if n = 62 then 45 else 95)"

text \<open>The decoder also reads the standard alphabet.\<close>

definition sextet_val :: "char \<Rightarrow> nat option" where
  "sextet_val c = (let n = of_char c in
     if 65 \<le> n \<and> n \<le> 90 then Some (n - 65) else if 97 \<le> n \<and> n \<le> 122 then Some (n - 71)
     else if 48 \<le> n \<and> n \<le> 57 then Some (n + 4) else if n = 43 \<or> n = 45 then Some 62
     else if n = 47 \<or> n = 95 then Some 63 else None)"

fun b64_encode :: "nat list \<Rightarrow> nat list" where
  "b64_encode (a # b # c # r) =
     (a div 4) # ((a mod 4) * 16 + b div 16) # ((b mod 16) * 4 + c div 64) # (c mod 64) # b64_encode r"
| "b64_encode [a, b] = [a div 4, (a mod 4) * 16 + b div 16, (b mod 16) * 4]"
| "b64_encode [a] = [a div 4, (a mod 4) * 16]"
| "b64_encode [] = []"

fun b64_decode :: "nat list \<Rightarrow> nat list option" where
  "b64_decode (x # y # z # w # r) =
     map_option (\<lambda>t. (x * 4 + y div 16) # ((y mod 16) * 16 + z div 4) # ((z mod 4) * 64 + w) # t) (b64_decode r)"
| "b64_decode [x, y, z] = Some [x * 4 + y div 16, (y mod 16) * 16 + z div 4]"
| "b64_decode [x, y] = Some [x * 4 + y div 16]"
| "b64_decode [x] = None"
| "b64_decode [] = Some []"

definition encode :: "string \<Rightarrow> string" where
  "encode s = map sextet_char (b64_encode (map of_char s))"

definition decode_part :: "string \<Rightarrow> string option" where
  "decode_part v = (case Option.bind (collect sextet_val v) b64_decode of
      None \<Rightarrow> None
    | Some bytes \<Rightarrow> (let decoded = map char_of bytes in if encode decoded = v then Some decoded else None))"

lemma sextet_val_char [simp]: "n < 64 \<Longrightarrow> sextet_val (sextet_char n) = Some n"
  by (auto simp: sextet_val_def sextet_char_def Let_def)

lemma sextet_val_dot: "sextet_val CHR ''.'' = None"
  by (simp add: sextet_val_def)

lemma sextet_char_dot: "n < 64 \<Longrightarrow> sextet_char n \<noteq> CHR ''.''"
  by (metis sextet_val_char sextet_val_dot option.distinct(1))

lemma b64_encode_bound: "\<forall>a \<in> set bs. a < 256 \<Longrightarrow> \<forall>x \<in> set (b64_encode bs). x < 64"
  by (induction bs rule: b64_encode.induct) auto

lemma b64_roundtrip: "\<forall>a \<in> set bs. a < 256 \<Longrightarrow> b64_decode (b64_encode bs) = Some bs"
  by (induction bs rule: b64_encode.induct) auto

lemma bytes_bound: "\<forall>a \<in> set (map of_char s). a < (256 :: nat)"
  by simp

lemma collect_sextets: "\<forall>x \<in> set xs. x < 64 \<Longrightarrow> collect sextet_val (map sextet_char xs) = Some xs"
  by (rule collect_map) simp

lemma decode_encode [simp]: "decode_part (encode s) = Some s"
proof -
  have "collect sextet_val (encode s) = Some (b64_encode (map of_char s))"
    unfolding encode_def by (rule collect_sextets [OF b64_encode_bound [OF bytes_bound]])
  then show ?thesis
    by (simp add: decode_part_def b64_roundtrip [OF bytes_bound] comp_def)
qed

lemma decode_canonical: "decode_part v = Some s \<Longrightarrow> encode s = v"
  by (auto simp: decode_part_def Let_def split: option.splits if_splits)

lemma encode_no_dot: "CHR ''.'' \<notin> set (encode s)"
  using b64_encode_bound [OF bytes_bound, of s] sextet_char_dot by (fastforce simp: encode_def)

section \<open>Tokens\<close>

record signer =
  sg_key :: string
  sg_issuer :: string

definition mk_signer :: "string \<Rightarrow> string \<Rightarrow> exc + signer" where
  "mk_signer key issuer =
     (if length key < 24 then Inl (ValueError ''Token signing key must be at least 24 characters'')
      else Inr \<lparr>sg_key = key, sg_issuer = issuer\<rparr>)"

definition token_header :: json where
  "token_header = JDict [(''alg'', JStr ''HS256''), (''typ'', JStr ''SGT'')]"

definition reserved_claims :: "string list" where
  "reserved_claims = [''iss'', ''sub'', ''aud'', ''iat'', ''exp'', ''jti'']"

definition seal :: "crypto \<Rightarrow> signer \<Rightarrow> json \<Rightarrow> string" where
  "seal cr sg payload =
     (let encoded = encode (dumps True token_header) @ ''.'' @ encode (dumps True payload)
      in encoded @ ''.'' @ encode (hmac_digest cr (sg_key sg) encoded))"

definition whole_seconds :: "time \<Rightarrow> int" where
  "whole_seconds now = now div 1000000"

text \<open>\<open>issue\<close> takes the random token id as an argument.\<close>

definition issue :: "crypto \<Rightarrow> signer \<Rightarrow> time \<Rightarrow> string \<Rightarrow> string \<Rightarrow> string \<Rightarrow> int \<Rightarrow>
    (string, json) dict \<Rightarrow> exc + string \<times> time" where
  "issue cr sg now jti subject audience ttl claims =
     (if list_ex (\<lambda>(k, _). k \<in> set reserved_claims) claims then
        Inl (ValueError ''Custom claims cannot override reserved token claims'')
      else let issued = whole_seconds now; expires = issued + ttl;
               payload = JDict ([(''iss'', JStr (sg_issuer sg)), (''sub'', JStr subject),
                 (''aud'', JStr audience), (''iat'', JInt issued), (''exp'', JInt expires),
                 (''jti'', JStr jti)] @ claims)
           in Inr (seal cr sg payload, seconds expires))"

text \<open>The signature is compared before the parts are read.\<close>

definition unseal :: "crypto \<Rightarrow> signer \<Rightarrow> string \<Rightarrow> exc + json" where
  "unseal cr sg token = (case str_split CHR ''.'' token of
      [header_part, payload_part, signature_part] \<Rightarrow>
        (case decode_part signature_part of
           None \<Rightarrow> Inl (TokenError ''Malformed token'')
         | Some supplied \<Rightarrow>
             if supplied \<noteq> hmac_digest cr (sg_key sg) (header_part @ ''.'' @ payload_part)
             then Inl (TokenError ''Invalid token signature'')
             else (case (Option.bind (decode_part header_part) loads,
                         Option.bind (decode_part payload_part) loads) of
                 (Some header, Some payload) \<Rightarrow>
                   if py_eq header token_header then Inr payload
                   else Inl (TokenError ''Unsupported token header'')
               | _ \<Rightarrow> Inl (TokenError ''Malformed token'')))
    | _ \<Rightarrow> Inl (TokenError ''Malformed token''))"

fun int_value :: "json \<Rightarrow> int option" where
  "int_value (JInt i) = Some i"
| "int_value (JBool b) = Some (if b then 1 else 0)"
| "int_value _ = None"

definition check_payload :: "signer \<Rightarrow> time \<Rightarrow> string \<Rightarrow> json \<Rightarrow> exc + (string, json) dict" where
  "check_payload sg now audience payload = (case payload of
      JDict d \<Rightarrow>
        if map_of d ''iss'' \<noteq> Some (JStr (sg_issuer sg)) \<or> map_of d ''aud'' \<noteq> Some (JStr audience)
        then Inl (TokenError ''Invalid issuer or audience'')
        else (case Option.bind (map_of d ''exp'') int_value of
            None \<Rightarrow> Inl (TokenError ''Token expired'')
          | Some e \<Rightarrow> if e \<le> whole_seconds now then Inl (TokenError ''Token expired'') else Inr d)
    | _ \<Rightarrow> Inl (AttributeError ''get''))"

definition decode :: "crypto \<Rightarrow> signer \<Rightarrow> time \<Rightarrow> string \<Rightarrow> string \<Rightarrow> exc + (string, json) dict" where
  "decode cr sg now token audience = ebind (unseal cr sg token) (check_payload sg now audience)"

definition key_of :: "(string, json) dict \<Rightarrow> string \<Rightarrow> exc + json" where
  "key_of d k = (case map_of d k of Some v \<Rightarrow> Inr v | None \<Rightarrow> Inl (KeyError k))"

definition issue_agent :: "crypto \<Rightarrow> signer \<Rightarrow> time \<Rightarrow> string \<Rightarrow> string \<Rightarrow> string \<Rightarrow> string list \<Rightarrow> int \<Rightarrow>
    exc + string \<times> time \<times> string" where
  "issue_agent cr sg now jti agent_id tenant_id scopes ttl =
     ebind (issue cr sg now jti agent_id ''sentinelgate-agent'' ttl
        [(''tenant_id'', JStr tenant_id), (''scopes'', jstrs (sorted_set scopes))]) (\<lambda>(token, expires).
     ebind (decode cr sg now token ''sentinelgate-agent'') (\<lambda>d.
     ebind (key_of d ''jti'') (\<lambda>j. Inr (token, expires, py_str j))))"

definition agent_principal_of :: "crypto \<Rightarrow> signer \<Rightarrow> time \<Rightarrow> string \<Rightarrow> exc + agent_principal" where
  "agent_principal_of cr sg now token =
     ebind (decode cr sg now token ''sentinelgate-agent'') (\<lambda>d.
     case Option.bind (map_of d ''scopes'') as_strs of
       None \<Rightarrow> Inl (TokenError ''Invalid scopes'')
     | Some scopes \<Rightarrow>
         ebind (key_of d ''sub'') (\<lambda>sub. ebind (key_of d ''tenant_id'') (\<lambda>ten.
         ebind (key_of d ''jti'') (\<lambda>jti. ebind (key_of d ''exp'') (\<lambda>e.
           Inr \<lparr>pr_agent_id = py_str sub, pr_tenant_id = py_str ten, pr_scopes = scopes,
                pr_token_id = py_str jti, pr_expires_at = seconds (the (int_value e))\<rparr>)))))"

section \<open>Sealing\<close>

locale sealing =
  fixes seal_op :: "json \<Rightarrow> string" and unseal_op :: "string \<Rightarrow> exc + json" and sealed :: "string \<Rightarrow> bool"
  assumes unseal_seal: "json_wf v \<Longrightarrow> unseal_op (seal_op v) = Inr v"
    and unseal_sealed: "unseal_op t = Inr v \<Longrightarrow> sealed t"
    and unseal_errors: "unseal_op t = Inl e \<Longrightarrow> \<exists>m. e = TokenError m"
begin

lemma seal_inject: "json_wf v \<Longrightarrow> json_wf w \<Longrightarrow> seal_op v = seal_op w \<Longrightarrow> v = w"
  by (metis unseal_seal sum.inject(2))

lemma unsealed_rejected: "\<not> sealed t \<Longrightarrow> \<exists>m. unseal_op t = Inl (TokenError m)"
  using unseal_sealed unseal_errors by (metis sum.exhaust)

lemma read_sealed: "json_wf v \<Longrightarrow> ebind (unseal_op (seal_op v)) f = f v"
  by (simp add: unseal_seal)

end

text \<open>A token is sealed when its third part is the canonical text of the key's HMAC of the rest.\<close>

definition signed_by :: "crypto \<Rightarrow> signer \<Rightarrow> string \<Rightarrow> bool" where
  "signed_by cr sg token \<longleftrightarrow> (case str_split CHR ''.'' token of
      [h, p, s] \<Rightarrow> s = encode (hmac_digest cr (sg_key sg) (h @ ''.'' @ p))
    | _ \<Rightarrow> False)"

lemma split_three:
  assumes "CHR ''.'' \<notin> set a" "CHR ''.'' \<notin> set b" "CHR ''.'' \<notin> set c"
  shows "str_split CHR ''.'' (a @ ''.'' @ b @ ''.'' @ c) = [a, b, c]"
  using assms by (simp add: str_split_append str_split_no)

lemma py_eq_header [simp]: "py_eq token_header token_header"
  by (simp add: token_header_def)

lemma token_header_wf [simp]: "json_wf token_header"
  by (simp add: token_header_def dict_wf_def)

lemma unseal_seal: "json_wf v \<Longrightarrow> unseal cr sg (seal cr sg v) = Inr v"
  unfolding unseal_def seal_def Let_def append_assoc split_three [OF encode_no_dot encode_no_dot encode_no_dot]
  by (simp add: loads_dumps)

interpretation token: sealing "seal cr sg" "unseal cr sg" "signed_by cr sg" for cr sg
proof
  show "json_wf v \<Longrightarrow> unseal cr sg (seal cr sg v) = Inr v" for v by (rule unseal_seal)
  show "unseal cr sg t = Inr v \<Longrightarrow> signed_by cr sg t" for t v
    by (auto simp: unseal_def signed_by_def dest: decode_canonical split: list.splits option.splits if_splits)
  show "unseal cr sg t = Inl e \<Longrightarrow> \<exists>m. e = TokenError m" for t e
    by (auto simp: unseal_def split: list.splits option.splits if_splits)
qed

section \<open>Issued tokens\<close>

definition payload_of :: "signer \<Rightarrow> time \<Rightarrow> string \<Rightarrow> string \<Rightarrow> string \<Rightarrow> int \<Rightarrow> (string, json) dict \<Rightarrow> (string, json) dict" where
  "payload_of sg now jti subject audience ttl claims =
     [(''iss'', JStr (sg_issuer sg)), (''sub'', JStr subject), (''aud'', JStr audience),
      (''iat'', JInt (whole_seconds now)), (''exp'', JInt (whole_seconds now + ttl)), (''jti'', JStr jti)] @ claims"

definition claims_ok :: "(string, json) dict \<Rightarrow> bool" where
  "claims_ok claims \<longleftrightarrow> json_wf (JDict claims) \<and> (\<forall>(k, v) \<in> set claims. k \<notin> set reserved_claims)"

lemma payload_wf: "claims_ok claims \<Longrightarrow> json_wf (JDict (payload_of sg now jti s a ttl claims))"
  by (auto simp: claims_ok_def payload_of_def dict_wf_def reserved_claims_def)

lemma issue_ok:
  "claims_ok claims \<Longrightarrow> issue cr sg now jti s a ttl claims =
     Inr (seal cr sg (JDict (payload_of sg now jti s a ttl claims)), seconds (whole_seconds now + ttl))"
  by (auto simp: issue_def claims_ok_def payload_of_def Let_def list_ex_iff)

lemma check_payload_of:
  "check_payload sg later b (JDict (payload_of sg now jti s a ttl claims)) =
     (if a \<noteq> b then Inl (TokenError ''Invalid issuer or audience'')
      else if whole_seconds now + ttl \<le> whole_seconds later then Inl (TokenError ''Token expired'')
      else Inr (payload_of sg now jti s a ttl claims))"
  by (simp add: check_payload_def payload_of_def)

lemma decode_issued:
  assumes "claims_ok claims" "issue cr sg now jti s a ttl claims = Inr (t, e)"
  shows "decode cr sg later t b =
     (if a \<noteq> b then Inl (TokenError ''Invalid issuer or audience'')
      else if whole_seconds now + ttl \<le> whole_seconds later then Inl (TokenError ''Token expired'')
      else Inr (payload_of sg now jti s a ttl claims))"
proof -
  have "t = seal cr sg (JDict (payload_of sg now jti s a ttl claims))"
    using assms by (simp add: issue_ok)
  then show ?thesis
    unfolding decode_def by (simp add: token.read_sealed payload_wf [OF assms(1)] check_payload_of del: json_wf.simps)
qed

lemma decode_signed: "decode cr sg now t a = Inr d \<Longrightarrow> signed_by cr sg t"
  using token.unseal_sealed by (auto simp: decode_def ebind_Inr_iff)

lemma decode_live:
  "decode cr sg now t a = Inr d \<Longrightarrow> map_of d ''aud'' = Some (JStr a) \<and> map_of d ''iss'' = Some (JStr (sg_issuer sg))
     \<and> (\<exists>e. Option.bind (map_of d ''exp'') int_value = Some e \<and> whole_seconds now < e)"
proof -
  assume "decode cr sg now t a = Inr d"
  then obtain payload where "check_payload sg now a payload = Inr d" by (auto simp: decode_def ebind_Inr_iff)
  then show ?thesis by (cases payload) (auto simp: check_payload_def split: if_splits option.splits)
qed

end
