(* ===== verification/Provenance.thy ===== *)
theory Provenance
  imports Security Identity
begin

text \<open>
  \<^verbatim>\<open>provenance.py\<close>: signed attestations of content and of structured values, the output of a
  tool, derivations, declassification, and the verification of tokens. The random ids and the
  time are arguments. An attestation is made by one operation, \<open>attested\<close>, from its claims; the
  verification of a token gives those claims back.
\<close>

section \<open>Claims and attestations\<close>

record prov_claims =
  pc_tenant :: string
  pc_digest :: string
  pc_trust :: trust_level
  pc_signals :: "string list"
  pc_classification :: data_classification
  pc_labels :: "string list"
  pc_lineage_id :: string
  pc_trace_id :: "string option"
  pc_parent_ids :: "string list"
  pc_field_taint :: "(string, field_taint) dict option"

record prov_service =
  ps_signer :: signer
  ps_ttl :: int

definition PROVENANCE :: string where
  "PROVENANCE = ''sentinelgate-provenance''"

definition pc_fields :: "prov_claims \<Rightarrow> (string, field_taint) dict" where
  "pc_fields c = opt (pc_field_taint c) []"

definition claims_dict :: "prov_claims \<Rightarrow> (string, json) dict" where
  "claims_dict c =
     [(''tenant_id'', JStr (pc_tenant c)), (''digest'', JStr (pc_digest c)),
      (''trust'', JStr (trust_value (pc_trust c))), (''signals'', jstrs (pc_signals c)),
      (''classification'', JStr (classification_value (pc_classification c))),
      (''labels'', jstrs (pc_labels c)), (''lineage_id'', JStr (pc_lineage_id c)),
      (''trace_id'', jopt (pc_trace_id c)), (''parent_ids'', jstrs (pc_parent_ids c))]
     @ (case pc_field_taint c of None \<Rightarrow> [] | Some fs \<Rightarrow> [(''field_taint'', fields_json fs)])"

text \<open>Validation of the labels, the trace and the field pointers of the returned records.\<close>

definition record_ok :: "string list \<Rightarrow> string option \<Rightarrow> (string, field_taint) dict \<Rightarrow> bool" where
  "record_ok labels trace fs \<longleftrightarrow> list_all taint_label_ok labels
     \<and> (case trace of None \<Rightarrow> True | Some t \<Rightarrow> ident_ok 128 t) \<and> list_all (\<lambda>(p, _). json_pointer_ok p) fs"

definition attested :: "crypto \<Rightarrow> prov_service \<Rightarrow> time \<Rightarrow> string \<Rightarrow> string \<Rightarrow> prov_claims \<Rightarrow>
    (string, json) dict \<Rightarrow> exc + attestation" where
  "attested cr ps now jti subject c extra =
     ebind (issue cr (ps_signer ps) now jti subject PROVENANCE (ps_ttl ps) (claims_dict c @ extra))
       (\<lambda>(token, expires).
          if record_ok (pc_labels c) (pc_trace_id c) (pc_fields c) then
            Inr \<lparr>at_token = token, at_digest = pc_digest c, at_trust = pc_trust c, at_signals = pc_signals c,
              at_classification = pc_classification c, at_labels = pc_labels c,
              at_lineage_id = pc_lineage_id c, at_trace_id = pc_trace_id c, at_expires_at = expires,
              at_field_taint = pc_fields c\<rparr>
          else Inl (ValueError ''invalid ProvenanceAttestation''))"

section \<open>Verification\<close>

definition truthy_str :: "json option \<Rightarrow> string option" where
  "truthy_str v = (case v of None \<Rightarrow> None
     | Some j \<Rightarrow> if j \<in> {JNull, JBool False, JInt 0, JStr [], JList [], JDict []} then None else Some (py_str j))"

definition verify_one :: "crypto \<Rightarrow> prov_service \<Rightarrow> time \<Rightarrow> string \<Rightarrow> string \<Rightarrow> exc + verified_provenance" where
  "verify_one cr ps now tenant_id token =
     ebind (decode cr (ps_signer ps) now token PROVENANCE) (\<lambda>d.
     if map_of d ''tenant_id'' \<noteq> Some (JStr tenant_id) then Inl (TokenError ''Provenance tenant mismatch'')
     else case (Option.bind (Option.bind (map_of d ''trust'') as_str) trust_of,
                Option.bind (as_str (dget d ''classification'' (JStr ''public''))) classification_of) of
       (Some trust, Some cls) \<Rightarrow>
         (case as_strs (dget d ''signals'' (JList [])) of None \<Rightarrow> Inl (TokenError ''Invalid provenance signals'')
          | Some signals \<Rightarrow>
         (case as_strs (dget d ''labels'' (JList [])) of None \<Rightarrow> Inl (TokenError ''Invalid provenance labels'')
          | Some labels \<Rightarrow>
         (case as_strs (dget d ''parent_ids'' (JList [])) of None \<Rightarrow> Inl (TokenError ''Invalid provenance parents'')
          | Some parents \<Rightarrow>
         (case Option.bind (as_dict (dget d ''field_taint'' (JDict [])))
                 (\<lambda>raw. if length raw > 1000 then None else fields_of_items raw) of
            None \<Rightarrow> Inl (TokenError ''Invalid field provenance'')
          | Some fs \<Rightarrow>
         ebind (key_of d ''sub'') (\<lambda>sub. ebind (key_of d ''digest'') (\<lambda>dg.
           let trace = truthy_str (map_of d ''trace_id'')
           in if record_ok labels trace fs then
             Inr \<lparr>vp_source_id = py_str sub, vp_digest = py_str dg, vp_trust = trust, vp_signals = signals,
               vp_classification = cls, vp_labels = labels,
               vp_lineage_id = truthy_str (map_of d ''lineage_id''), vp_trace_id = trace,
               vp_parent_ids = parents, vp_field_taint = fs\<rparr>
             else Inl (ValueError ''invalid VerifiedProvenance'')))))))
     | _ \<Rightarrow> Inl (TokenError ''Invalid provenance trust''))"

definition verify_many :: "crypto \<Rightarrow> prov_service \<Rightarrow> time \<Rightarrow> string list \<Rightarrow> string \<Rightarrow>
    exc + verified_provenance list" where
  "verify_many cr ps now tokens tenant_id = traverse (verify_one cr ps now tenant_id) tokens"

text \<open>What the verification of an attested token gives back.\<close>

definition fields_ok :: "(string, field_taint) dict \<Rightarrow> bool" where
  "fields_ok fs \<longleftrightarrow> dict_wf fs \<and> length fs \<le> 1000 \<and> list_all (\<lambda>(_, f). field_taint_ok f) fs"

definition prov_claims_ok :: "prov_claims \<Rightarrow> bool" where
  "prov_claims_ok c \<longleftrightarrow> pc_lineage_id c \<noteq> [] \<and> fields_ok (pc_fields c)
     \<and> record_ok (pc_labels c) (pc_trace_id c) (pc_fields c)"

definition extra_ok :: "(string, json) dict \<Rightarrow> bool" where
  "extra_ok extra \<longleftrightarrow> extra = [] \<or> (\<exists>r ls. extra = [(''declassified_by'', JStr r), (''removed_labels'', jstrs ls)])"

definition verified_of :: "string \<Rightarrow> prov_claims \<Rightarrow> verified_provenance" where
  "verified_of subject c = \<lparr>vp_source_id = subject, vp_digest = pc_digest c, vp_trust = pc_trust c,
     vp_signals = pc_signals c, vp_classification = pc_classification c, vp_labels = pc_labels c,
     vp_lineage_id = Some (pc_lineage_id c), vp_trace_id = pc_trace_id c,
     vp_parent_ids = pc_parent_ids c, vp_field_taint = pc_fields c\<rparr>"

lemma claims_dict_ok: "dict_wf (pc_fields c) \<Longrightarrow> extra_ok extra \<Longrightarrow> claims_ok (claims_dict c @ extra)"
  by (auto simp: claims_ok_def claims_dict_def dict_wf_def reserved_claims_def extra_ok_def pc_fields_def
      intro: fields_json_wf [unfolded dict_wf_def] split: option.splits)

lemma ident_ok_ne: "ident_ok n t \<Longrightarrow> t \<noteq> []"
  by (auto simp: ident_ok_def)

lemma truthy_simps [simp]:
  "truthy_str None = None" "truthy_str (Some (JStr s)) = (if s = [] then None else Some s)"
  "truthy_str (Some JNull) = None"
  by (simp_all add: truthy_str_def py_str_def)

lemma attested_Inr:
  "attested cr ps now jti subject c extra = Inr a \<Longrightarrow>
     at_digest a = pc_digest c \<and> at_trust a = pc_trust c \<and> at_signals a = pc_signals c
     \<and> at_classification a = pc_classification c \<and> at_labels a = pc_labels c
     \<and> at_lineage_id a = pc_lineage_id c \<and> at_trace_id a = pc_trace_id c \<and> at_field_taint a = pc_fields c
     \<and> record_ok (pc_labels c) (pc_trace_id c) (pc_fields c)
     \<and> issue cr (ps_signer ps) now jti subject PROVENANCE (ps_ttl ps) (claims_dict c @ extra)
        = Inr (at_token a, at_expires_at a)"
  by (auto simp: attested_def ebind_Inr_iff split: if_splits)

lemma verify_attested:
  assumes c: "prov_claims_ok c" and e: "extra_ok extra"
    and a: "attested cr ps now jti subject c extra = Inr a"
    and live: "whole_seconds later < whole_seconds now + ps_ttl ps"
  shows "verify_one cr ps later tenant (at_token a) =
    (if tenant = pc_tenant c then Inr (verified_of subject c)
     else Inl (TokenError ''Provenance tenant mismatch''))"
proof -
  let ?d = "payload_of (ps_signer ps) now jti subject PROVENANCE (ps_ttl ps) (claims_dict c @ extra)"
  have ok: "claims_ok (claims_dict c @ extra)"
    using c e by (intro claims_dict_ok) (auto simp: prov_claims_ok_def fields_ok_def)
  have dec: "decode cr (ps_signer ps) later (at_token a) PROVENANCE = Inr ?d"
    using decode_issued [OF ok attested_Inr [OF a, THEN conjunct2, THEN conjunct2, THEN conjunct2,
      THEN conjunct2, THEN conjunct2, THEN conjunct2, THEN conjunct2, THEN conjunct2, THEN conjunct2]] live
    by simp
  have f: "fields_of_items (map (\<lambda>(p, f). (p, field_taint_json f)) (pc_fields c)) = Some (pc_fields c)"
    using c by (intro fields_roundtrip [THEN conjunct2])
      (auto simp: prov_claims_ok_def fields_ok_def list_all_iff)
  have t: "truthy_str (Some (jopt (pc_trace_id c))) = pc_trace_id c"
    using c by (cases "pc_trace_id c") (auto simp: jopt_def prov_claims_ok_def record_ok_def ident_ok_def)
  have l: "length (pc_fields c) \<le> 1000" "pc_lineage_id c \<noteq> []" "record_ok (pc_labels c) (pc_trace_id c) (pc_fields c)"
    using c by (auto simp: prov_claims_ok_def fields_ok_def)
  have x: "map_of extra ''field_taint'' = None" using e by (auto simp: extra_ok_def)
  show ?thesis
    using l f t x
    by (cases "pc_field_taint c")
       (simp_all add: verify_one_def dec payload_of_def claims_dict_def dget_def key_of_def py_str_def
        fields_json_def verified_of_def pc_fields_def fields_of_items_def)
qed

lemma verify_signed: "verify_one cr ps now tenant t = Inr v \<Longrightarrow> signed_by cr (ps_signer ps) t"
  by (auto simp: verify_one_def ebind_Inr_iff dest: decode_signed)

section \<open>Attesting content\<close>

record attest_request =
  aq_source_id :: string
  aq_content :: string
  aq_trust :: trust_level
  aq_classification :: data_classification
  aq_labels :: "string list"
  aq_trace_id :: "string option"

text \<open>The top-level labels: those given, and the injection label when the content has a signal.\<close>

definition with_signal :: "string list \<Rightarrow> string list \<Rightarrow> string list" where
  "with_signal labels signals = sorted_set (labels @ (if signals \<noteq> [] then [''prompt_injection''] else []))"

definition attest :: "crypto \<Rightarrow> prov_service \<Rightarrow> time \<Rightarrow> string \<Rightarrow> string \<Rightarrow> attest_request \<Rightarrow> string \<Rightarrow>
    exc + attestation" where
  "attest cr ps now lineage_id jti request tenant_id =
     (let signals = injection_signals (aq_content request) in
      attested cr ps now jti (aq_source_id request)
        \<lparr>pc_tenant = tenant_id, pc_digest = sha256 cr (aq_content request), pc_trust = aq_trust request,
         pc_signals = signals, pc_classification = aq_classification request,
         pc_labels = with_signal (map casefold (aq_labels request)) signals,
         pc_lineage_id = lineage_id, pc_trace_id = aq_trace_id request, pc_parent_ids = [],
         pc_field_taint = None\<rparr> [])"

section \<open>Attesting a structured value\<close>

record structured_request =
  sr_source_id :: string
  sr_value :: json
  sr_trust :: trust_level
  sr_classification :: data_classification
  sr_labels :: "string list"
  sr_trace_id :: "string option"
  sr_field_overrides :: "(string, (string, json) dict) dict"

text \<open>Iterating over a JSON value: a list, the characters of a string, the keys of a dictionary.\<close>

fun iterate :: "json \<Rightarrow> exc + string list" where
  "iterate (JList xs) = Inr (map py_str xs)"
| "iterate (JStr s) = Inr (map (\<lambda>c. [c]) s)"
| "iterate (JDict kvs) = Inr (map fst kvs)"
| "iterate _ = Inl (TypeError ''not iterable'')"

definition read_value :: "(string \<Rightarrow> 'a option) \<Rightarrow> json \<Rightarrow> exc + 'a" where
  "read_value f j = (case Option.bind (as_str j) f of Some x \<Rightarrow> Inr x | None \<Rightarrow> Inl (ValueError ''not a valid value''))"

definition override_field :: "string \<Rightarrow> field_taint \<Rightarrow> (string, json) dict \<Rightarrow> exc + field_taint" where
  "override_field lineage_id current override =
     ebind (read_value trust_of (dget override ''trust'' (JStr (trust_value (ft_trust current))))) (\<lambda>trust.
     ebind (read_value classification_of
        (dget override ''classification'' (JStr (classification_value (ft_classification current))))) (\<lambda>cls.
     ebind (iterate (dget override ''labels'' (JList []))) (\<lambda>labels.
       mk_field_taint \<lparr>ft_digest = ft_digest current, ft_trust = trust, ft_classification = cls,
         ft_labels = sorted_set (ft_labels current @ map casefold labels), ft_lineage_ids = [lineage_id]\<rparr>)))"

fun apply_overrides :: "string \<Rightarrow> (string, json) dict \<Rightarrow> (string, (string, json) dict) dict \<Rightarrow>
    (string, field_taint) dict \<Rightarrow> exc + (string, field_taint) dict" where
  "apply_overrides lineage_id leaves [] fs = Inr fs"
| "apply_overrides lineage_id leaves ((pointer, override) # rest) fs =
     (if map_of leaves pointer = None then
        Inl (ValueError (''Field override does not resolve to a leaf: '' @ pointer))
      else case map_of fs pointer of
        None \<Rightarrow> Inl (KeyError pointer)
      | Some current \<Rightarrow> ebind (override_field lineage_id current override) (\<lambda>f.
          apply_overrides lineage_id leaves rest (AList.update pointer f fs)))"

definition attest_structured :: "crypto \<Rightarrow> prov_service \<Rightarrow> time \<Rightarrow> string \<Rightarrow> string \<Rightarrow> structured_request \<Rightarrow>
    string \<Rightarrow> exc + attestation" where
  "attest_structured cr ps now lineage_id jti request tenant_id =
     (let content = canonical_value (sr_value request) in
      if length content > 1000000 then Inl (ValueError ''Structured provenance value exceeds 1 MB'')
      else let signals = injection_signals content;
               labels = with_signal (map casefold (sr_labels request)) signals;
               leaves = leaf_values (sr_value request) []
           in if length leaves > 200 \<or> length (sr_field_overrides request) > 200 then
                Inl (ValueError ''Structured provenance supports at most 200 leaf fields'')
              else ebind (build_uniform_field_taint cr (sr_value request) (sr_trust request)
                            (sr_classification request) labels [lineage_id]) (\<lambda>uniform.
                   ebind (apply_overrides lineage_id leaves (sr_field_overrides request) uniform) (\<lambda>fs.
                   attested cr ps now jti (sr_source_id request)
                     \<lparr>pc_tenant = tenant_id, pc_digest = value_digest cr (sr_value request),
                      pc_trust = sr_trust request, pc_signals = signals,
                      pc_classification = sr_classification request, pc_labels = labels,
                      pc_lineage_id = lineage_id, pc_trace_id = sr_trace_id request,
                      pc_parent_ids = [], pc_field_taint = Some fs\<rparr> [])))"

section \<open>The output of a tool\<close>

record output_request =
  oq_trace_id :: string
  oq_request_id :: string
  oq_tool_name :: string
  oq_output :: json
  oq_trust :: trust_level
  oq_classification :: data_classification
  oq_labels :: "string list"
  oq_field_taint :: "(string, field_taint) dict option"

definition inherited_fields :: "verified_provenance list \<Rightarrow> field_taint list" where
  "inherited_fields parents = concat (map (\<lambda>p. map snd (vp_field_taint p)) parents)"

definition parent_lineage :: "verified_provenance list \<Rightarrow> string list" where
  "parent_lineage parents = sorted_set (concat (map (\<lambda>p. case vp_lineage_id p of Some i \<Rightarrow> [i] | None \<Rightarrow> []) parents))"

definition restrict_field :: "string list \<Rightarrow> field_taint list \<Rightarrow> field_taint \<Rightarrow> exc + field_taint" where
  "restrict_field ids inherited item =
     mk_field_taint
       \<lparr>ft_digest = ft_digest item,
        ft_trust = least_trusted [ft_trust item, least_trusted (map ft_trust inherited)],
        ft_classification =
          highest_classification [ft_classification item, highest_classification (map ft_classification inherited)],
        ft_labels = sorted_set (ft_labels item @ concat (map ft_labels inherited)),
        ft_lineage_ids = sorted_set (ft_lineage_ids item @ ids)\<rparr>"

definition output_fields :: "crypto \<Rightarrow> string \<Rightarrow> output_request \<Rightarrow> verified_provenance list \<Rightarrow>
    trust_level \<Rightarrow> data_classification \<Rightarrow> string list \<Rightarrow> exc + (string, field_taint) dict" where
  "output_fields cr lineage_id request parents trust cls labels = (case oq_field_taint request of
      None \<Rightarrow> build_uniform_field_taint cr (oq_output request) trust cls labels
                (lineage_id # parent_lineage parents)
    | Some fs \<Rightarrow>
        if inherited_fields parents \<noteq> [] then
          traverse (\<lambda>(p, f). ebind (restrict_field (lineage_id # parent_lineage parents)
             (inherited_fields parents) f) (\<lambda>g. Inr (p, g))) fs
        else Inr fs)"

definition output_trust :: "output_request \<Rightarrow> verified_provenance list \<Rightarrow> trust_level" where
  "output_trust request parents = least_trusted (oq_trust request # map vp_trust parents)"

definition output_classification :: "output_request \<Rightarrow> verified_provenance list \<Rightarrow> data_classification" where
  "output_classification request parents =
     highest_classification (oq_classification request # map vp_classification parents)"

definition derive_tool_output :: "crypto \<Rightarrow> prov_service \<Rightarrow> time \<Rightarrow> string \<Rightarrow> string \<Rightarrow> string \<Rightarrow>
    output_request \<Rightarrow> verified_provenance list \<Rightarrow> exc + attestation" where
  "derive_tool_output cr ps now lineage_id jti tenant_id request parents =
     (let content = canonical_value (oq_output request);
          signals = injection_signals content;
          trust = output_trust request parents;
          cls = output_classification request parents;
          labels = with_signal (oq_labels request @ concat (map vp_labels parents)) signals
      in ebind (output_fields cr lineage_id request parents trust cls labels) (\<lambda>fs.
         attested cr ps now jti (''tool:'' @ oq_tool_name request @ '':'' @ oq_request_id request)
           \<lparr>pc_tenant = tenant_id, pc_digest = sha256 cr content, pc_trust = trust, pc_signals = signals,
            pc_classification = cls, pc_labels = labels, pc_lineage_id = lineage_id,
            pc_trace_id = Some (oq_trace_id request), pc_parent_ids = parent_lineage parents, pc_field_taint = Some fs\<rparr> []))"

section \<open>Derivations\<close>

record derivation_input =
  di_value :: json
  di_reference :: field_reference

record field_derivation =
  fd_operation :: string
  fd_inputs :: "string list"
  fd_separator :: string
  fd_template :: string
  fd_start :: "int option"
  fd_end :: "int option"

record derive_request =
  dq_source_id :: string
  dq_value :: json
  dq_inputs :: "(string, derivation_input) dict"
  dq_derivations :: "(string, field_derivation) dict"
  dq_mode :: string
  dq_trace_id :: string

definition verify_input :: "crypto \<Rightarrow> prov_service \<Rightarrow> time \<Rightarrow> string \<Rightarrow> string \<Rightarrow> derivation_input \<Rightarrow>
    exc + field_taint" where
  "verify_input cr ps now tenant_id trace_id item =
     ebind (verify_one cr ps now tenant_id (fr_token (di_reference item))) (\<lambda>verified.
     if (case vp_trace_id verified of None \<Rightarrow> False | Some t \<Rightarrow> t \<noteq> [] \<and> t \<noteq> trace_id) then
       Inl (TokenError ''Derivation trace mismatch'')
     else case map_of (vp_field_taint verified) (fr_pointer (di_reference item)) of
       None \<Rightarrow> Inl (TokenError ''Derivation input is not bound to signed provenance'')
     | Some field \<Rightarrow>
         if ft_digest field \<noteq> value_digest cr (di_value item) then
           Inl (TokenError ''Derivation input is not bound to signed provenance'')
         else Inr field)"

definition verify_inputs :: "crypto \<Rightarrow> prov_service \<Rightarrow> time \<Rightarrow> string \<Rightarrow> derive_request \<Rightarrow>
    exc + (string, field_taint) dict" where
  "verify_inputs cr ps now tenant_id request =
     traverse (\<lambda>(name, item). ebind (verify_input cr ps now tenant_id (dq_trace_id request) item)
       (\<lambda>f. Inr (name, f))) (dq_inputs request)"

definition lookup_all :: "('k, 'v) dict \<Rightarrow> 'k list \<Rightarrow> exc + 'v list" where
  "lookup_all d ks = traverse (\<lambda>k. case map_of d k of Some v \<Rightarrow> Inr v
     | None \<Rightarrow> Inl (ValueError ''Derivation references an unknown input'')) ks"

definition fill_template :: "string \<Rightarrow> (string \<times> json) list \<Rightarrow> string" where
  "fill_template template args =
     fold (\<lambda>(name, v) t. str_replace (''{'' @ name @ ''}'') (py_str v) t) args template"

definition compute :: "field_derivation \<Rightarrow> json list \<Rightarrow> exc + json" where
  "compute recipe values =
     (if fd_operation recipe = ''copy'' then
        (case values of [v] \<Rightarrow> Inr v | _ \<Rightarrow> Inl (ValueError ''copy requires exactly one input''))
      else if fd_operation recipe = ''concat'' then
        Inr (JStr (str_join (fd_separator recipe) (map py_str values)))
      else if fd_operation recipe = ''template'' then
        (let computed = fill_template (fd_template recipe) (zip (fd_inputs recipe) values)
         in if CHR ''{'' \<in> set computed \<or> CHR ''}'' \<in> set computed
            then Inl (ValueError ''Template contains unresolved placeholders'') else Inr (JStr computed))
      else (case values of [v] \<Rightarrow> Inr (JStr (str_slice (fd_start recipe) (fd_end recipe) (py_str v)))
            | _ \<Rightarrow> Inl (ValueError ''substring requires exactly one input'')))"

definition derive_field :: "crypto \<Rightarrow> derive_request \<Rightarrow> (string, field_taint) dict \<Rightarrow> string \<times> json \<Rightarrow>
    exc + string \<times> field_taint" where
  "derive_field cr request verified = (\<lambda>(pointer, output).
     case map_of (dq_derivations request) pointer of
       None \<Rightarrow> Inl (KeyError pointer)
     | Some recipe \<Rightarrow>
         ebind (lookup_all (dq_inputs request) (fd_inputs recipe)) (\<lambda>items.
         ebind (lookup_all verified (fd_inputs recipe)) (\<lambda>sources.
         ebind (compute recipe (map di_value items)) (\<lambda>computed.
           if \<not> py_eq computed output then
             Inl (ValueError (''Derivation output mismatch at '' @ pointer))
           else ebind (combine_field_taint cr output sources) (\<lambda>f. Inr (pointer, f))))))"

definition derive_fields :: "crypto \<Rightarrow> derive_request \<Rightarrow> (string, field_taint) dict \<Rightarrow>
    exc + (string, field_taint) dict" where
  "derive_fields cr request verified =
     (let outputs = leaf_values (dq_value request) [] in
      if dq_mode request = ''llm'' then
        traverse (\<lambda>(pointer, v). ebind (combine_field_taint cr v (map snd verified)) (\<lambda>f. Inr (pointer, f))) outputs
      else if set (map fst (dq_derivations request)) \<noteq> set (map fst outputs) then
        Inl (ValueError ''Every output leaf requires a deterministic derivation'')
      else traverse (derive_field cr request verified) outputs)"

definition add_lineage :: "string \<Rightarrow> field_taint \<Rightarrow> field_taint" where
  "add_lineage i f = f\<lparr>ft_lineage_ids := sorted_set (ft_lineage_ids f @ [i])\<rparr>"

definition derive_structured :: "crypto \<Rightarrow> prov_service \<Rightarrow> time \<Rightarrow> string \<Rightarrow> string \<Rightarrow> derive_request \<Rightarrow>
    string \<Rightarrow> exc + attestation" where
  "derive_structured cr ps now lineage_id jti request tenant_id =
     ebind (verify_inputs cr ps now tenant_id request) (\<lambda>verified.
     ebind (derive_fields cr request verified) (\<lambda>derived.
       let signals = injection_signals (canonical_value (dq_value request));
           fs = map (\<lambda>(p, f). (p, add_lineage lineage_id f)) derived
       in attested cr ps now jti (dq_source_id request)
            \<lparr>pc_tenant = tenant_id, pc_digest = value_digest cr (dq_value request),
             pc_trust = least_trusted (map (\<lambda>(_, f). ft_trust f) fs), pc_signals = signals,
             pc_classification = highest_classification (map (\<lambda>(_, f). ft_classification f) fs),
             pc_labels = with_signal (concat (map (\<lambda>(_, f). ft_labels f) fs)) signals,
             pc_lineage_id = lineage_id, pc_trace_id = Some (dq_trace_id request),
             pc_parent_ids = sorted_set (concat (map (\<lambda>(_, f). ft_lineage_ids f) verified)),
             pc_field_taint = Some fs\<rparr> []))"

section \<open>Declassification\<close>

definition declassify_field :: "string list \<Rightarrow> string \<Rightarrow> field_taint \<Rightarrow> field_taint" where
  "declassify_field remove lineage_id f =
     f\<lparr>ft_labels := sorted_set (filter (\<lambda>l. l \<notin> set remove) (ft_labels f)),
       ft_lineage_ids := sorted_set (ft_lineage_ids f @ [lineage_id])\<rparr>"

fun declassify_paths :: "string list \<Rightarrow> string \<Rightarrow> string list \<Rightarrow> (string, field_taint) dict \<Rightarrow>
    (string, field_taint) dict" where
  "declassify_paths remove lineage_id [] fs = fs"
| "declassify_paths remove lineage_id (pointer # rest) fs = (case map_of fs pointer of
      None \<Rightarrow> declassify_paths remove lineage_id rest fs
    | Some f \<Rightarrow> declassify_paths remove lineage_id rest
        (AList.update pointer (declassify_field remove lineage_id f) fs))"

definition declassify_labels :: "crypto \<Rightarrow> prov_service \<Rightarrow> time \<Rightarrow> string \<Rightarrow> string \<Rightarrow> string \<Rightarrow> string \<Rightarrow>
    string list \<Rightarrow> string list \<Rightarrow> string \<Rightarrow> exc + attestation" where
  "declassify_labels cr ps now lineage_id jti token tenant_id pointers remove reviewer =
     ebind (verify_one cr ps now tenant_id token) (\<lambda>source.
     if list_ex (\<lambda>p. map_of (vp_field_taint source) p = None) pointers then
       Inl (TokenError ''Declassification path is not present in signed provenance'')
     else let fs = declassify_paths remove lineage_id pointers (vp_field_taint source)
          in attested cr ps now jti (''declassified:'' @ reviewer)
               \<lparr>pc_tenant = tenant_id, pc_digest = vp_digest source, pc_trust = vp_trust source,
                pc_signals = vp_signals source, pc_classification = vp_classification source,
                pc_labels = sorted_set (concat (map (\<lambda>(_, f). ft_labels f) fs)),
                pc_lineage_id = lineage_id, pc_trace_id = vp_trace_id source,
                pc_parent_ids = (case vp_lineage_id source of Some i \<Rightarrow> if i = [] then [] else [i] | None \<Rightarrow> []),
                pc_field_taint = Some fs\<rparr>
               [(''declassified_by'', JStr reviewer), (''removed_labels'', jstrs (sorted_set remove))])"

section \<open>Attested claims are well formed\<close>

lemma attested_claims:
  assumes "attested cr ps now jti subject c extra = Inr a" "fields_ok (pc_fields c)" "pc_lineage_id c \<noteq> []"
  shows "prov_claims_ok c"
  using attested_Inr [OF assms(1)] assms(2,3) by (auto simp: prov_claims_ok_def)

lemma uniform_fields_ok:
  assumes "build_uniform_field_taint cr v t c ls ids = Inr d" "json_wf v" "length (leaf_values v []) \<le> 1000"
  shows "fields_ok d"
proof -
  have l: "length d = length (leaf_values v [])"
    using arg_cong [OF build_uniform_pointers [OF assms(1)], of length] by simp
  have "dict_wf d"
    using leaf_values_wf [OF assms(2), of "[]"] build_uniform_pointers [OF assms(1)] by (simp add: dict_wf_def)
  moreover have "list_all (\<lambda>(_, f). field_taint_ok f) d"
    unfolding list_all_iff using build_uniform_field [OF assms(1)] by blast
  ultimately show ?thesis using l assms(3) by (simp add: fields_ok_def)
qed

lemma fields_ok_update:
  "fields_ok fs \<Longrightarrow> map_of fs p \<noteq> None \<Longrightarrow> field_taint_ok f \<Longrightarrow> fields_ok (AList.update p f fs)"
proof -
  assume a: "fields_ok fs" "map_of fs p \<noteq> None" "field_taint_ok f"
  have "length (AList.update p f fs) = length fs"
    using a(2) by (induction fs) (auto split: if_splits)
  moreover have "set (AList.update p f fs) \<subseteq> insert (p, f) (set fs)"
    by (induction fs) auto
  ultimately show ?thesis using a by (auto simp: fields_ok_def list_all_iff)
qed

lemma apply_overrides_ok:
  "apply_overrides i leaves os fs = Inr fs' \<Longrightarrow> fields_ok fs \<Longrightarrow> fields_ok fs'"
proof (induction i leaves os fs rule: apply_overrides.induct)
  case (2 i leaves pointer override rest fs)
  then obtain current f where "map_of fs pointer = Some current"
    "override_field i current override = Inr f"
    "apply_overrides i leaves rest (AList.update pointer f fs) = Inr fs'"
    by (auto simp: ebind_Inr_iff split: if_splits option.splits)
  moreover have "field_taint_ok f"
    using calculation(2) by (auto simp: override_field_def ebind_Inr_iff)
  ultimately show ?case using 2 by (auto split: if_splits intro: fields_ok_update)
qed simp

section \<open>Flow of restrictions\<close>

text \<open>The claims of a source as a record of field taint.\<close>

definition source_taint :: "verified_provenance \<Rightarrow> field_taint" where
  "source_taint v = \<lparr>ft_digest = vp_digest v, ft_trust = vp_trust v, ft_classification = vp_classification v,
     ft_labels = vp_labels v, ft_lineage_ids = (case vp_lineage_id v of None \<Rightarrow> [] | Some i \<Rightarrow> [i])\<rparr>"

text \<open>
  \<open>as_restricted g f\<close>: \<open>f\<close> has no higher trust, no lower classification and all labels of \<open>g\<close>.
  \<open>covers v a\<close>: so has the whole attestation compared with a source, and \<open>bounds f a\<close> compared with
  one of its fields.
\<close>

definition as_restricted :: "field_taint \<Rightarrow> field_taint \<Rightarrow> bool" where
  "as_restricted g f \<longleftrightarrow> ft_trust g \<le> ft_trust f \<and> ft_classification g \<le> ft_classification f
     \<and> set (ft_labels g) \<subseteq> set (ft_labels f)"

definition covers :: "verified_provenance \<Rightarrow> attestation \<Rightarrow> bool" where
  "covers v a \<longleftrightarrow> vp_trust v \<le> at_trust a \<and> vp_classification v \<le> at_classification a
     \<and> set (vp_labels v) \<subseteq> set (at_labels a)"

definition bounds :: "field_taint \<Rightarrow> attestation \<Rightarrow> bool" where
  "bounds f a \<longleftrightarrow> ft_trust f \<le> at_trust a \<and> ft_classification f \<le> at_classification a
     \<and> set (ft_labels f) \<subseteq> set (at_labels a)"

lemma set_with_signal: "set (with_signal ls ss) = set ls \<union> (if ss \<noteq> [] then {''prompt_injection''} else {})"
  by (simp add: with_signal_def)

lemma output_claims:
  assumes "derive_tool_output cr ps now i jti tenant request parents = Inr a"
  obtains ss where "output_fields cr i request parents (output_trust request parents) (output_classification request parents)
      (with_signal (oq_labels request @ concat (map vp_labels parents)) ss) = Inr (at_field_taint a)"
    "at_trust a = output_trust request parents" "at_classification a = output_classification request parents"
    "at_labels a = with_signal (oq_labels request @ concat (map vp_labels parents)) ss"
  using assms that [of "injection_signals (canonical_value (oq_output request))"]
  by (auto simp: derive_tool_output_def Let_def ebind_Inr_iff pc_fields_def dest!: attested_Inr)

lemma output_covers:
  assumes "derive_tool_output cr ps now i jti tenant request parents = Inr a" and "v \<in> set parents"
  shows "covers v a"
  using assms by (auto elim!: output_claims simp: covers_def output_trust_def output_classification_def set_with_signal
      intro!: least_trusted_upper highest_upper)

lemma source_lineage: "v \<in> set parents \<Longrightarrow> set (ft_lineage_ids (source_taint v)) \<subseteq> set (parent_lineage parents)"
  by (auto simp: source_taint_def parent_lineage_def split: option.splits)

text \<open>Without fields of the connector, every field of the output has the claims of all the sources.\<close>

lemma uniform_output_restricts:
  assumes a: "derive_tool_output cr ps now i jti tenant request parents = Inr a" and n: "oq_field_taint request = None"
    and v: "v \<in> set parents" and f: "(p, f) \<in> set (at_field_taint a)"
  shows "taint_le (source_taint v) f"
proof -
  obtain ls where b: "build_uniform_field_taint cr (oq_output request) (at_trust a) (at_classification a) (at_labels a)
      (i # parent_lineage parents) = Inr (at_field_taint a)"
    using a n by (auto elim!: output_claims simp: output_fields_def)
  show ?thesis
    using build_uniform_field [OF b f] output_covers [OF a v] source_lineage [OF v]
    by (auto simp: taint_le_def covers_def source_taint_def)
qed

text \<open>Fields of the connector keep what it says and take on what any field of any source says.\<close>

lemma restrict_field_restricts:
  assumes "restrict_field ids inherited h = Inr f"
  shows "taint_le h f" and "g \<in> set inherited \<Longrightarrow> as_restricted g f" and "set ids \<subseteq> set (ft_lineage_ids f)"
proof -
  have up: "t \<le> least_trusted [x, least_trusted ts]" if "t = x \<or> t \<in> set ts" for t x ts
    using that least_trusted_upper [of t ts] least_trusted_upper [of _ "[x, least_trusted ts]"] by (auto intro: order_trans)
  have high: "c \<le> highest_classification [x, highest_classification cs]" if "c = x \<or> c \<in> set cs" for c x cs
    using that highest_upper [of c cs] highest_upper [of _ "[x, highest_classification cs]"] by (auto intro: order_trans)
  show "taint_le h f" using assms by (auto simp: restrict_field_def taint_le_def intro: up high)
  show "g \<in> set inherited \<Longrightarrow> as_restricted g f"
    using assms by (auto simp: restrict_field_def as_restricted_def intro: up high)
  show "set ids \<subseteq> set (ft_lineage_ids f)" using assms by (auto simp: restrict_field_def)
qed

lemma connector_output_restricts:
  assumes a: "derive_tool_output cr ps now i jti tenant request parents = Inr a" and n: "oq_field_taint request = Some hs"
    and v: "v \<in> set parents" and f: "(p, f) \<in> set (at_field_taint a)"
  shows "list_all (\<lambda>(_, g). as_restricted g f) (vp_field_taint v) \<and> (\<exists>h. (p, h) \<in> set hs \<and> taint_le h f)"
proof (cases "inherited_fields parents = []")
  case True
  then have "vp_field_taint v = []" using v by (auto simp: inherited_fields_def)
  moreover have "at_field_taint a = hs" using a n True by (auto elim!: output_claims simp: output_fields_def)
  ultimately show ?thesis using f by auto
next
  case False
  have "traverse (\<lambda>(p, f). ebind (restrict_field (i # parent_lineage parents) (inherited_fields parents) f) (\<lambda>g. Inr (p, g))) hs
      = Inr (at_field_taint a)"
    using a n False by (auto elim!: output_claims simp: output_fields_def)
  from traverse_setD [OF this f] obtain h where h: "(p, h) \<in> set hs"
      "restrict_field (i # parent_lineage parents) (inherited_fields parents) h = Inr f"
    by (auto simp: ebind_Inr_iff)
  have "as_restricted g f" if "(q, g) \<in> set (vp_field_taint v)" for q g
    using restrict_field_restricts(2) [OF h(2)] that v by (force simp: inherited_fields_def)
  then show ?thesis using h(1) restrict_field_restricts(1) [OF h(2)] by (auto simp: list_all_iff)
qed

lemma add_lineage_le: "taint_le f (add_lineage i f)"
  by (auto simp: taint_le_def add_lineage_def)

lemma derive_field_sources:
  assumes "derive_field cr request verified (p, v) = Inr (q, f)"
  shows "q = p \<and> (\<exists>recipe. map_of (dq_derivations request) p = Some recipe
    \<and> (\<forall>n \<in> set (fd_inputs recipe). \<exists>g. map_of verified n = Some g \<and> taint_le g f)
    \<and> ft_digest f = value_digest cr v)"
proof -
  obtain recipe sources where r: "map_of (dq_derivations request) p = Some recipe" "q = p"
    "lookup_all verified (fd_inputs recipe) = Inr sources" "combine_field_taint cr v sources = Inr f"
    using assms by (auto simp: derive_field_def ebind_Inr_iff split: option.splits if_splits)
  have "\<exists>g. map_of verified n = Some g \<and> taint_le g f" if n: "n \<in> set (fd_inputs recipe)" for n
  proof -
    obtain g where "g \<in> set sources" "map_of verified n = Some g"
      using traverse_inD [OF r(3) [unfolded lookup_all_def] n] by (auto split: option.splits)
    then show ?thesis using combine_upper [OF r(4)] by blast
  qed
  then show ?thesis using r combine_digest [OF r(4)] by blast
qed

lemma declassify_paths_lookup:
  "map_of (declassify_paths remove i pointers fs) q =
     (case map_of fs q of None \<Rightarrow> None
      | Some f \<Rightarrow> Some ((declassify_field remove i ^^ count_list pointers q) f))"
proof (induction remove i pointers fs rule: declassify_paths.induct)
  case (2 remove i pointer rest fs)
  show ?case
  proof (cases "map_of fs pointer")
    case None
    then show ?thesis using 2 by (auto split: option.splits)
  next
    case (Some f)
    then show ?thesis using 2
      by (auto simp: update_conv' funpow_swap1 split: option.splits)
  qed
qed (simp split: option.splits)

lemma declassify_field_pow:
  "ft_trust ((declassify_field remove i ^^ n) f) = ft_trust f
   \<and> ft_classification ((declassify_field remove i ^^ n) f) = ft_classification f
   \<and> ft_digest ((declassify_field remove i ^^ n) f) = ft_digest f
   \<and> set (ft_labels ((declassify_field remove i ^^ n) f)) = (if n = 0 then set (ft_labels f) else set (ft_labels f) - set remove)
   \<and> set (ft_lineage_ids f) \<subseteq> set (ft_lineage_ids ((declassify_field remove i ^^ n) f))"
  by (induction n) (auto simp: declassify_field_def)

section \<open>Properties\<close>

text \<open>What a verified token says, in terms of the attestation that was returned with it.\<close>

definition verified_attestation :: "string \<Rightarrow> string list \<Rightarrow> attestation \<Rightarrow> verified_provenance" where
  "verified_attestation subject parents a = \<lparr>vp_source_id = subject, vp_digest = at_digest a, vp_trust = at_trust a,
     vp_signals = at_signals a, vp_classification = at_classification a, vp_labels = at_labels a,
     vp_lineage_id = Some (at_lineage_id a), vp_trace_id = at_trace_id a, vp_parent_ids = parents,
     vp_field_taint = at_field_taint a\<rparr>"

lemma structured_verifies:
  assumes "attest_structured cr ps now lineage_id jti request tenant = Inr a"
    and "json_wf (sr_value request)" and "lineage_id \<noteq> []"
    and "whole_seconds later < whole_seconds now + ps_ttl ps"
  shows "verify_one cr ps later who (at_token a) =
    (if who = tenant then Inr (verified_attestation (sr_source_id request) [] a)
     else Inl (TokenError ''Provenance tenant mismatch''))"
proof -
  let ?v = "sr_value request"
  let ?ss = "injection_signals (canonical_value ?v)"
  let ?ls = "with_signal (map casefold (sr_labels request)) ?ss"
  obtain uniform fs where u: "length (leaf_values ?v []) \<le> 1000"
      "build_uniform_field_taint cr ?v (sr_trust request) (sr_classification request) ?ls [lineage_id] = Inr uniform"
      "apply_overrides lineage_id (leaf_values ?v []) (sr_field_overrides request) uniform = Inr fs"
    and a: "attested cr ps now jti (sr_source_id request)
      \<lparr>pc_tenant = tenant, pc_digest = value_digest cr ?v, pc_trust = sr_trust request, pc_signals = ?ss,
       pc_classification = sr_classification request, pc_labels = ?ls, pc_lineage_id = lineage_id,
       pc_trace_id = sr_trace_id request, pc_parent_ids = [], pc_field_taint = Some fs\<rparr> [] = Inr a"
      (is "attested cr ps now jti _ ?c [] = _")
    using assms(1) by (auto simp: attest_structured_def Let_def ebind_Inr_iff split: if_splits)
  have "fields_ok fs"
    using apply_overrides_ok [OF u(3)] uniform_fields_ok [OF u(2) assms(2) u(1)] by blast
  then have "prov_claims_ok ?c" using attested_claims [OF a] assms(3) by (simp add: pc_fields_def)
  from verify_attested [OF this _ a assms(4), of who] attested_Inr [OF a] show ?thesis
    by (simp add: extra_ok_def verified_of_def verified_attestation_def)
qed

text \<open>
  The token of a structured attestation verifies, for its tenant and until it expires, to
  exactly the attestation (digest, trust, signals, classification, labels, lineage, trace and the
  taint of every field); for any other tenant it is refused.
\<close>

theorem structured_token_verifies:
  assumes "attest_structured cr ps now lineage_id jti request tenant = Inr a"
    and "json_wf (sr_value request)" and "lineage_id \<noteq> []"
    and "whole_seconds later < whole_seconds now + ps_ttl ps"
  shows "verify_one cr ps later who (at_token a) =
    (if who = tenant then Inr (verified_attestation (sr_source_id request) [] a)
     else Inl (TokenError ''Provenance tenant mismatch''))"
  using assms by (rule structured_verifies)

definition demo_service :: prov_service where
  "demo_service = \<lparr>ps_signer = \<lparr>sg_key = ''k'', sg_issuer = ''i''\<rparr>, ps_ttl = 60\<rparr>"

definition demo_structured :: structured_request where
  "demo_structured = \<lparr>sr_source_id = ''s'', sr_value = JDict [(''a'', JInt 1)], sr_trust = MIXED,
     sr_classification = INTERNAL, sr_labels = [''Web''], sr_trace_id = Some ''t1'',
     sr_field_overrides = []\<rparr>"

lemma fold_ident: "ident_char c \<Longrightarrow> ident_char (fold_char c)"
proof (cases "65 \<le> (of_char c :: nat) \<and> of_char c \<le> (90 :: nat)")
  case True
  then have "of_char (fold_char c) = (of_char c + 32 :: nat)" by (simp add: fold_char_def Let_def)
  then show ?thesis using True by (simp add: ident_char_def is_alnum_def Let_def)
next
  case False
  then show "ident_char c \<Longrightarrow> ident_char (fold_char c)" by (auto simp: fold_char_def Let_def)
qed

lemma casefold_label: "taint_label_ok l \<Longrightarrow> taint_label_ok (casefold l)"
  by (auto simp: taint_label_ok_def ident_ok_def casefold_def list_all_iff fold_ident)

lemma length_sorted_set: "length (sorted_set xs) \<le> length xs"
  by (simp add: sorted_set_def length_remdups_leq)

lemma injection_label_ok: "taint_label_ok ''prompt_injection''"
  by code_simp

lemma with_signal_ok: "list_all taint_label_ok ls \<Longrightarrow> list_all taint_label_ok (with_signal (map casefold ls) ss)"
  using injection_label_ok by (auto simp: list_all_iff set_with_signal casefold_label)

lemma length_with_signal: "length (with_signal ls ss) \<le> Suc (length ls)"
  using length_sorted_set [of "ls @ (if ss \<noteq> [] then [''prompt_injection''] else [])"]
  by (simp add: with_signal_def split: if_splits)

lemma build_uniform_succeeds:
  assumes "\<And>s. digest_ok (sha256 cr s)" "list_all taint_label_ok ls" "length (sorted_set ls) \<le> 50"
    "length (sorted_set ids) \<le> 100"
  shows "\<exists>d. build_uniform_field_taint cr v t c ls ids = Inr d"
proof -
  have ok: "mk_field_taint \<lparr>ft_digest = value_digest cr x, ft_trust = t, ft_classification = c,
      ft_labels = sorted_set ls, ft_lineage_ids = sorted_set ids\<rparr> = Inr \<lparr>ft_digest = value_digest cr x,
      ft_trust = t, ft_classification = c, ft_labels = sorted_set ls, ft_lineage_ids = sorted_set ids\<rparr>" for x
    using assms by (simp add: field_taint_ok_def value_digest_def list_all_iff)
  have "build_uniform_field_taint cr v t c ls ids = Inr (map (\<lambda>(p, x). (p, \<lparr>ft_digest = value_digest cr x,
      ft_trust = t, ft_classification = c, ft_labels = sorted_set ls, ft_lineage_ids = sorted_set ids\<rparr>))
      (leaf_values v []))"
    unfolding build_uniform_field_taint_def ok by (rule traverse_map_Inr) auto
  then show ?thesis by blast
qed

lemma attested_succeeds:
  assumes "dict_wf (pc_fields c)" "extra_ok extra" "record_ok (pc_labels c) (pc_trace_id c) (pc_fields c)"
  shows "\<exists>a. attested cr ps now jti s c extra = Inr a"
  using assms by (simp add: attested_def issue_ok claims_dict_ok)

lemma pointers_ok_map: "map fst fs = map fst gs \<Longrightarrow> list_all (\<lambda>(p, _). P p) fs = list_all (\<lambda>(p, _). P p) gs"
proof -
  have "list_all (\<lambda>(p, _). P p) fs = list_all P (map fst fs)" for fs :: "('a \<times> 'b) list"
    by (induction fs) auto
  moreover have "list_all (\<lambda>(p, _). P p) gs = list_all P (map fst gs)" for gs :: "('a \<times> 'c) list"
    by (induction gs) auto
  ultimately show "map fst fs = map fst gs \<Longrightarrow> ?thesis" by metis
qed

lemma structured_ok:
  assumes "\<And>s. digest_ok (sha256 cr s)" and "json_wf (sr_value request)"
    and "length (canonical_value (sr_value request)) \<le> 1000000"
    and "length (leaf_values (sr_value request) []) \<le> 200"
    and "list_all (\<lambda>(p, _). json_pointer_ok p) (leaf_values (sr_value request) [])"
    and "sr_field_overrides request = []"
    and "list_all taint_label_ok (sr_labels request)" and "length (sr_labels request) < 50"
    and "(case sr_trace_id request of None \<Rightarrow> True | Some t \<Rightarrow> ident_ok 128 t)"
  shows "\<exists>a. attest_structured cr ps now lineage_id jti request tenant = Inr a"
proof -
  let ?v = "sr_value request"
  let ?ss = "injection_signals (canonical_value ?v)"
  let ?ls = "with_signal (map casefold (sr_labels request)) ?ss"
  have ls: "list_all taint_label_ok ?ls" using assms(7) by (rule with_signal_ok)
  have "length (sorted_set ?ls) \<le> 50" "length (sorted_set [lineage_id]) \<le> 100"
    using length_sorted_set [of ?ls] length_with_signal [of "map casefold (sr_labels request)" ?ss]
      length_sorted_set [of "[lineage_id]"] assms(8) by auto
  then obtain fs where fs: "build_uniform_field_taint cr ?v (sr_trust request) (sr_classification request) ?ls
      [lineage_id] = Inr fs"
    using build_uniform_succeeds [of cr ?ls, OF assms(1) ls] by blast
  have "map fst fs = map fst (leaf_values ?v [])" using fs by (rule build_uniform_pointers)
  then have ptr: "list_all (\<lambda>(p, _). json_pointer_ok p) fs" "dict_wf fs"
    using assms(5) leaf_values_wf [OF assms(2), of "[]"]
    using pointers_ok_map [of fs "leaf_values ?v []"] by (simp_all add: dict_wf_def)
  show ?thesis
    using assms(3,4,6,9) fs ls ptr
    by (auto simp: attest_structured_def Let_def record_ok_def pc_fields_def extra_ok_def intro!: attested_succeeds)
qed

text \<open>
  A structured attestation without overrides succeeds whenever the limits hold: text of at most
  1 MB, at most 200 leaves with valid pointers, fewer than 50 valid labels and a valid trace id.
\<close>

theorem structured_attestation_succeeds:
  assumes "\<And>s. digest_ok (sha256 cr s)" and "json_wf (sr_value request)"
    and "length (canonical_value (sr_value request)) \<le> 1000000"
    and "length (leaf_values (sr_value request) []) \<le> 200"
    and "list_all (\<lambda>(p, _). json_pointer_ok p) (leaf_values (sr_value request) [])"
    and "sr_field_overrides request = []"
    and "list_all taint_label_ok (sr_labels request)" and "length (sr_labels request) < 50"
    and "(case sr_trace_id request of None \<Rightarrow> True | Some t \<Rightarrow> ident_ok 128 t)"
  shows "\<exists>a. attest_structured cr ps now lineage_id jti request tenant = Inr a"
  using assms by (rule structured_ok)

lemma demo_digest_ok: "digest_ok (sha256 demo_crypto s)"
  by (simp add: demo_crypto_def digest_ok_def hex_lower_def list_all_iff is_digit_def)

lemma demo_limits:
  "json_wf (sr_value demo_structured)" "length (canonical_value (sr_value demo_structured)) \<le> 1000000"
  "length (leaf_values (sr_value demo_structured) []) \<le> 200"
  "list_all (\<lambda>(p, _). json_pointer_ok p) (leaf_values (sr_value demo_structured) [])"
  "sr_field_overrides demo_structured = []" "list_all taint_label_ok (sr_labels demo_structured)"
  "length (sr_labels demo_structured) < 50"
  "(case sr_trace_id demo_structured of None \<Rightarrow> True | Some t \<Rightarrow> ident_ok 128 t)"
proof -
  have "length (canonical_value (sr_value demo_structured)) = 7" by code_simp
  then show "length (canonical_value (sr_value demo_structured)) \<le> 1000000" by simp
  have "leaf_values (sr_value demo_structured) [] = [(''/a'', JInt 1)]" by code_simp
  then show "length (leaf_values (sr_value demo_structured) []) \<le> 200"
    "list_all (\<lambda>(p, _). json_pointer_ok p) (leaf_values (sr_value demo_structured) [])"
    by (simp_all add: json_pointer_ok_def)
qed (simp_all add: demo_structured_def dict_wf_def taint_label_ok_def ident_ok_def ident_char_def is_alnum_def)

theorem structured_attestation_succeeds_witness:
  "\<exists>a. attest_structured demo_crypto demo_service 5 ''l1'' ''j1'' demo_structured ''acme'' = Inr a"
  by (rule structured_attestation_succeeds [OF demo_digest_ok demo_limits])

theorem structured_token_verifies_witness:
  "\<exists>a. verify_one demo_crypto demo_service 30000000 ''acme'' (at_token a) =
      Inr (verified_attestation ''s'' [] a) \<and>
    verify_one demo_crypto demo_service 30000000 ''other'' (at_token a) =
      Inl (TokenError ''Provenance tenant mismatch'')"
proof -
  have "\<exists>a. attest_structured demo_crypto demo_service 5 ''l1'' ''j1'' demo_structured ''acme'' = Inr a"
    by (rule structured_ok [OF demo_digest_ok demo_limits])
  then obtain a where a: "attest_structured demo_crypto demo_service 5 ''l1'' ''j1'' demo_structured ''acme'' = Inr a"
    by blast
  have v: "verify_one demo_crypto demo_service 30000000 who (at_token a) =
      (if who = ''acme'' then Inr (verified_attestation (sr_source_id demo_structured) [] a)
       else Inl (TokenError ''Provenance tenant mismatch''))" for who
    using a demo_limits(1) by (rule structured_token_verifies) (simp_all add: demo_service_def whole_seconds_def)
  show ?thesis
    using v [of "''acme''"] v [of "''other''"] by (intro exI [of _ a]) (simp add: demo_structured_def)
qed

text \<open>
  C24. The output of a tool is never less restricted than its sources. Whatever the tool's connector
  says, the attestation as a whole has no higher trust and no lower classification than any source,
  and carries all of its labels. Each of its fields: when the connector gives no fields, it is at
  least as restricted as the claims of every source, and lists their lineage; when the connector
  gives fields, it keeps the connector's restrictions and adds those of every field of every source.
  (The connector's fields take on the fields of the sources, not the claims of a source that has
  no fields; those are in the attestation's own trust, classification and labels only.)
\<close>

theorem tool_output_restricts:
  assumes "derive_tool_output cr ps now lineage_id jti tenant request parents = Inr a" and "v \<in> set parents"
  shows "vp_trust v \<le> at_trust a \<and> vp_classification v \<le> at_classification a \<and> set (vp_labels v) \<subseteq> set (at_labels a)
    \<and> (\<forall>p f. (p, f) \<in> set (at_field_taint a) \<longrightarrow> (case oq_field_taint request of
          None \<Rightarrow> taint_le (source_taint v) f
        | Some hs \<Rightarrow> list_all (\<lambda>(_, g). as_restricted g f) (vp_field_taint v) \<and> (\<exists>h. (p, h) \<in> set hs \<and> taint_le h f)))"
  using output_covers [OF assms] uniform_output_restricts [OF assms(1) _ assms(2)] connector_output_restricts [OF assms(1) _ assms(2)]
  by (simp add: covers_def split: option.split)

lemma output_ok:
  assumes "\<And>s. digest_ok (sha256 cr s)" "json_wf (oq_output request)" "oq_field_taint request = None"
    and "list_all taint_label_ok (oq_labels request)" "list_all (\<lambda>v. list_all taint_label_ok (vp_labels v)) parents"
    and "length (oq_labels request @ concat (map vp_labels parents)) < 50" "length parents < 100"
    and "list_all (\<lambda>(p, _). json_pointer_ok p) (leaf_values (oq_output request) [])" "ident_ok 128 (oq_trace_id request)"
  shows "\<exists>a. derive_tool_output cr ps now i jti tenant request parents = Inr a"
proof -
  let ?v = "oq_output request"
  let ?ls = "with_signal (oq_labels request @ concat (map vp_labels parents)) (injection_signals (canonical_value ?v))"
  have ls: "list_all taint_label_ok ?ls"
    using assms(4,5) injection_label_ok by (auto simp: list_all_iff set_with_signal)
  have "length (concat (map (\<lambda>p. case vp_lineage_id p of Some i \<Rightarrow> [i] | None \<Rightarrow> []) parents)) \<le> length parents"
    by (induction parents) (auto split: option.splits)
  then have "length (parent_lineage parents) \<le> length parents"
    unfolding parent_lineage_def using length_sorted_set order_trans by blast
  then have "length (sorted_set (i # parent_lineage parents)) \<le> 100"
    using length_sorted_set [of "i # parent_lineage parents"] assms(7) by auto
  moreover have "length (sorted_set ?ls) \<le> 50"
    using length_sorted_set [of ?ls] length_with_signal [of "oq_labels request @ concat (map vp_labels parents)"
      "injection_signals (canonical_value ?v)"] assms(6) by linarith
  ultimately obtain fs where fs: "build_uniform_field_taint cr ?v (output_trust request parents)
      (output_classification request parents) ?ls (i # parent_lineage parents) = Inr fs"
    using build_uniform_succeeds [of cr ?ls, OF assms(1) ls] by blast
  have "map fst fs = map fst (leaf_values ?v [])" using fs by (rule build_uniform_pointers)
  then have "list_all (\<lambda>(p, _). json_pointer_ok p) fs" "dict_wf fs"
    using assms(8) leaf_values_wf [OF assms(2), of "[]"]
    using pointers_ok_map [of fs "leaf_values ?v []"] by (simp_all add: dict_wf_def)
  then show ?thesis
    using assms(3,9) fs ls
    by (auto simp: derive_tool_output_def output_fields_def Let_def record_ok_def pc_fields_def extra_ok_def
        intro!: attested_succeeds)
qed

definition demo_output :: output_request where
  "demo_output = \<lparr>oq_trace_id = ''t1'', oq_request_id = ''r1'', oq_tool_name = ''mail'', oq_output = JInt 7,
     oq_trust = TRUSTED, oq_classification = PUBLIC, oq_labels = [], oq_field_taint = None\<rparr>"

lemma demo_output_ok:
  "\<exists>a. derive_tool_output demo_crypto demo_service 5 ''l2'' ''j2'' ''acme'' demo_output
     [demo_source UNTRUSTED INTERNAL] = Inr a"
  by (rule output_ok)
    (simp_all add: demo_digest_ok demo_output_def demo_source_def json_pointer_ok_def taint_label_ok_def ident_ok_def
      ident_char_def is_alnum_def)

text \<open>A connector that calls its output trusted and public, after a source with an untrusted internal field.\<close>

definition demo_connector :: output_request where
  "demo_connector = demo_output\<lparr>oq_field_taint := Some [([], \<lparr>ft_digest = replicate 64 CHR ''a'', ft_trust = TRUSTED,
     ft_classification = PUBLIC, ft_labels = [], ft_lineage_ids = []\<rparr>)]\<rparr>"

definition demo_parent :: verified_provenance where
  "demo_parent = (demo_source UNTRUSTED INTERNAL)\<lparr>vp_field_taint := [(''/x'', \<lparr>ft_digest = replicate 64 CHR ''a'', ft_trust = UNTRUSTED,
     ft_classification = INTERNAL, ft_labels = [''web''], ft_lineage_ids = []\<rparr>)]\<rparr>"

lemma demo_connector_ok:
  "\<exists>a f. derive_tool_output demo_crypto demo_service 5 ''l2'' ''j2'' ''acme'' demo_connector [demo_parent] = Inr a
     \<and> at_field_taint a = [([], f)]"
proof -
  have c: "canonical_value (oq_output demo_connector) = ''7''" by code_simp
  have "injection_signals ''7'' = []" by code_simp
  obtain f where f: "restrict_field (''l2'' # parent_lineage [demo_parent]) (inherited_fields [demo_parent])
      (snd (hd (opt (oq_field_taint demo_connector) []))) = Inr f"
    by (simp add: restrict_field_def mk_field_taint_def demo_connector_def inherited_fields_def demo_parent_def
      demo_source_def field_taint_ok_def digest_ok_def hex_lower_def is_digit_def taint_label_ok_def ident_ok_def ident_char_def
      is_alnum_def parent_lineage_def sorted_set_def opt_def list_all_iff split: if_splits)
  let ?c = "\<lparr>pc_tenant = ''acme'', pc_digest = sha256 demo_crypto ''7'', pc_trust = output_trust demo_connector [demo_parent],
     pc_signals = [], pc_classification = output_classification demo_connector [demo_parent],
     pc_labels = with_signal (oq_labels demo_connector @ concat (map vp_labels [demo_parent])) [], pc_lineage_id = ''l2'',
     pc_trace_id = Some ''t1'', pc_parent_ids = parent_lineage [demo_parent], pc_field_taint = Some [([], f)]\<rparr>"
  have "\<exists>a. attested demo_crypto demo_service 5 ''j2'' ''tool:mail:r1'' ?c [] = Inr a"
    by (intro attested_succeeds) (simp_all add: pc_fields_def dict_wf_def extra_ok_def record_ok_def json_pointer_ok_def
      list_all_iff set_with_signal demo_connector_def demo_output_def demo_parent_def demo_source_def taint_label_ok_def
      ident_ok_def ident_char_def is_alnum_def)
  then obtain a where a: "attested demo_crypto demo_service 5 ''j2'' ''tool:mail:r1'' ?c [] = Inr a" by blast
  have "derive_tool_output demo_crypto demo_service 5 ''l2'' ''j2'' ''acme'' demo_connector [demo_parent] = Inr a"
    using a f c \<open>injection_signals ''7'' = []\<close>
    by (simp add: derive_tool_output_def Let_def output_fields_def demo_connector_def demo_output_def inherited_fields_def
      demo_parent_def demo_source_def)
  moreover have "at_field_taint a = [([], f)]" using attested_Inr [OF a] by (simp add: pc_fields_def)
  ultimately show ?thesis by blast
qed

theorem tool_output_restricts_witness:
  "\<exists>a f. derive_tool_output demo_crypto demo_service 5 ''l2'' ''j2'' ''acme'' demo_connector [demo_parent] = Inr a
     \<and> at_trust a = UNTRUSTED \<and> ''web'' \<in> set (at_labels a)
     \<and> at_field_taint a = [([], f)] \<and> ft_trust f = UNTRUSTED \<and> INTERNAL \<le> ft_classification f \<and> ''web'' \<in> set (ft_labels f)"
proof -
  obtain a f where a: "derive_tool_output demo_crypto demo_service 5 ''l2'' ''j2'' ''acme'' demo_connector [demo_parent] = Inr a"
    and f: "at_field_taint a = [([], f)]"
    using demo_connector_ok by blast
  have p: "demo_parent \<in> set [demo_parent]" by simp
  from tool_output_restricts [OF a p]
  have "UNTRUSTED \<le> at_trust a" "''web'' \<in> set (at_labels a)"
    and "UNTRUSTED \<le> ft_trust f" "INTERNAL \<le> ft_classification f" "''web'' \<in> set (ft_labels f)"
    by (simp_all add: f demo_parent_def demo_source_def demo_connector_def as_restricted_def)
  then show ?thesis using a f UNTRUSTED_greatest order_antisym by blast
qed

text \<open>The inputs an output field was made from: all of them for a model, those of its recipe otherwise.\<close>

definition feeds :: "derive_request \<Rightarrow> string \<Rightarrow> string \<Rightarrow> bool" where
  "feeds request pointer name \<longleftrightarrow> dq_mode request = ''llm'' \<or>
     (case map_of (dq_derivations request) pointer of None \<Rightarrow> False | Some recipe \<Rightarrow> name \<in> set (fd_inputs recipe))"

lemma derive_fields_restrict:
  assumes "derive_fields cr request verified = Inr fs" "(p, f) \<in> set fs" "feeds request p n"
    "map_of verified n = Some g"
  shows "taint_le g f"
proof (cases "dq_mode request = ''llm''")
  case True
  have "traverse (\<lambda>(pointer, v). ebind (combine_field_taint cr v (map snd verified)) (\<lambda>f. Inr (pointer, f)))
      (leaf_values (dq_value request) []) = Inr fs"
    using assms(1) True by (simp add: derive_fields_def Let_def)
  from traverse_setD [OF this assms(2)] obtain v where "combine_field_taint cr v (map snd verified) = Inr f"
    by (auto simp: ebind_Inr_iff)
  moreover have "g \<in> set (map snd verified)" using map_of_SomeD [OF assms(4)] by force
  ultimately show ?thesis by (rule combine_upper)
next
  case False
  obtain q v where "derive_field cr request verified (q, v) = Inr (p, f)"
    using traverse_setD [of "derive_field cr request verified" "leaf_values (dq_value request) []" fs "(p, f)"]
      assms(1,2) False
    by (auto simp: derive_fields_def Let_def split: if_splits)
  from derive_field_sources [OF this] show ?thesis using assms(3,4) False by (fastforce simp: feeds_def)
qed

text \<open>The claims of a derived attestation bound those of its fields.\<close>

lemma derived_bounds:
  assumes "derive_structured cr ps now lineage_id jti request tenant = Inr a" "(p, f) \<in> set (at_field_taint a)"
  shows "bounds f a"
proof -
  obtain fs ss where a: "at_field_taint a = fs" "at_trust a = least_trusted (map (\<lambda>(_, f). ft_trust f) fs)"
    "at_classification a = highest_classification (map (\<lambda>(_, f). ft_classification f) fs)"
    "at_labels a = with_signal (concat (map (\<lambda>(_, f). ft_labels f) fs)) ss"
    using assms(1) by (auto simp: derive_structured_def ebind_Inr_iff Let_def pc_fields_def dest!: attested_Inr)
  have "ft_trust f \<in> set (map (\<lambda>(_, f). ft_trust f) fs)" "ft_classification f \<in> set (map (\<lambda>(_, f). ft_classification f) fs)"
    using assms(2) a(1) by force+
  moreover have "set (ft_labels f) \<subseteq> set (at_labels a)" using assms(2) by (force simp: a(1,4) set_with_signal)
  ultimately show ?thesis by (simp add: bounds_def a(2,3) least_trusted_upper highest_upper)
qed

lemma derived_field_restricts:
  assumes "derive_structured cr ps now lineage_id jti request tenant = Inr a"
    and "verify_inputs cr ps now tenant request = Inr verified"
    and "(p, f) \<in> set (at_field_taint a)" and "feeds request p n" and "map_of verified n = Some g"
  shows "taint_le g f"
proof -
  obtain derived where d: "derive_fields cr request verified = Inr derived"
    "at_field_taint a = map (\<lambda>(p, f). (p, add_lineage lineage_id f)) derived"
    using assms(1,2) by (auto simp: derive_structured_def ebind_Inr_iff Let_def pc_fields_def dest!: attested_Inr)
  then obtain h where "(p, h) \<in> set derived" "f = add_lineage lineage_id h" using assms(3) by auto
  then show ?thesis using derive_fields_restrict [OF d(1) _ assms(4,5)] add_lineage_le taint_le_trans by blast
qed

text \<open>
  C25. A derived value is never less restricted than the inputs its fields were made from: each
  output field is at least as restricted as every verified input that feeds it (all inputs in
  model mode, the inputs of the field's recipe in deterministic mode) and keeps its lineage; and the
  trust, the classification and the labels of the derived attestation itself, which the policy reads,
  are at least as restrictive as those of the field and of the input.
\<close>

theorem derivation_restricts:
  assumes "derive_structured cr ps now lineage_id jti request tenant = Inr a"
    and "verify_inputs cr ps now tenant request = Inr verified"
    and "(p, f) \<in> set (at_field_taint a)" and "feeds request p n" and "map_of verified n = Some g"
  shows "taint_le g f
    \<and> ft_trust f \<le> at_trust a \<and> ft_classification f \<le> at_classification a \<and> set (ft_labels f) \<subseteq> set (at_labels a)
    \<and> ft_trust g \<le> at_trust a \<and> ft_classification g \<le> at_classification a \<and> set (ft_labels g) \<subseteq> set (at_labels a)"
  using derived_field_restricts [OF assms] derived_bounds [OF assms(1,3)] unfolding bounds_def taint_le_def
  by (blast intro: order_trans)

lemma demo_attested:
  obtains a f where
    "attest_structured demo_crypto demo_service 5 ''l1'' ''j1'' demo_structured ''acme'' = Inr a"
    "verify_one demo_crypto demo_service 30000000 ''acme'' (at_token a) = Inr (verified_attestation ''s'' [] a)"
    "at_field_taint a = [(''/a'', f)]" "field_taint_ok f" "ft_digest f = replicate 64 CHR ''a''" "ft_trust f = MIXED"
    "at_trace_id a = Some ''t1''"
proof -
  obtain a where a: "attest_structured demo_crypto demo_service 5 ''l1'' ''j1'' demo_structured ''acme'' = Inr a"
    using structured_ok [OF demo_digest_ok demo_limits] by blast
  let ?ls = "with_signal (map casefold (sr_labels demo_structured)) (injection_signals (canonical_value (sr_value demo_structured)))"
  have b: "build_uniform_field_taint demo_crypto (sr_value demo_structured) MIXED INTERNAL ?ls [''l1''] = Inr (at_field_taint a)"
    and t: "at_trace_id a = Some ''t1''"
    using a by (auto simp: attest_structured_def Let_def ebind_Inr_iff pc_fields_def demo_structured_def
        split: if_splits dest!: attested_Inr)
  have "leaf_values (sr_value demo_structured) [] = [(''/a'', JInt 1)]" by code_simp
  then obtain f where f: "at_field_taint a = [(''/a'', f)]" "field_taint_ok f" "ft_trust f = MIXED"
    "ft_digest f = value_digest demo_crypto (JInt 1)"
  proof -
    assume goal: "\<And>f. at_field_taint a = [(''/a'', f)] \<Longrightarrow> field_taint_ok f \<Longrightarrow> ft_trust f = MIXED \<Longrightarrow>
      ft_digest f = value_digest demo_crypto (JInt 1) \<Longrightarrow> thesis"
    assume l: "leaf_values (sr_value demo_structured) [] = [(''/a'', JInt 1)]"
    obtain f where f: "at_field_taint a = [(''/a'', f)]"
      using build_uniform_pointers [OF b] unfolding l by (cases "at_field_taint a") auto
    with build_uniform_field [OF b, of "''/a''" f] l show thesis by (intro goal [OF f]) auto
  qed
  have "verify_one demo_crypto demo_service 30000000 ''acme'' (at_token a) =
      (if ''acme'' = ''acme'' then Inr (verified_attestation (sr_source_id demo_structured) [] a)
       else Inl (TokenError ''Provenance tenant mismatch''))"
    using a demo_limits(1) by (rule structured_verifies) (simp_all add: demo_service_def whole_seconds_def)
  then show thesis using a f t that [of a f] by (simp add: demo_structured_def value_digest_def demo_crypto_def)
qed

definition demo_derivation :: "string \<Rightarrow> derive_request" where
  "demo_derivation token = \<lparr>dq_source_id = ''d'', dq_value = JDict [(''b'', JInt 1)],
     dq_inputs = [(''x'', \<lparr>di_value = JInt 1, di_reference = \<lparr>fr_token = token, fr_pointer = ''/a''\<rparr>\<rparr>)],
     dq_derivations = [(''/b'', \<lparr>fd_operation = ''copy'', fd_inputs = [''x''], fd_separator = [],
        fd_template = [], fd_start = None, fd_end = None\<rparr>)],
     dq_mode = ''deterministic'', dq_trace_id = ''t1''\<rparr>"

theorem derivation_restricts_witness:
  "\<exists>token a f. derive_structured demo_crypto demo_service 30000000 ''l3'' ''j3'' (demo_derivation token) ''acme'' = Inr a
     \<and> map_of (at_field_taint a) ''/b'' = Some f \<and> MIXED \<le> ft_trust f \<and> MIXED \<le> at_trust a"
proof -
  obtain s f where s: "verify_one demo_crypto demo_service 30000000 ''acme'' (at_token s) = Inr (verified_attestation ''s'' [] s)"
    and f: "at_field_taint s = [(''/a'', f)]" "field_taint_ok f" "ft_digest f = replicate 64 CHR ''a''" "ft_trust f = MIXED"
    and t: "at_trace_id s = Some ''t1''"
    by (rule demo_attested)
  let ?q = "demo_derivation (at_token s)"
  have v: "verify_inputs demo_crypto demo_service 30000000 ''acme'' ?q = Inr [(''x'', f)]"
    using s f t by (simp add: verify_inputs_def verify_input_def demo_derivation_def verified_attestation_def
        value_digest_def demo_crypto_def)
  let ?g = "\<lparr>ft_digest = replicate 64 CHR ''a'', ft_trust = MIXED, ft_classification = ft_classification f,
     ft_labels = sorted_set (ft_labels f), ft_lineage_ids = sorted_set (ft_lineage_ids f)\<rparr>"
  have l: "leaf_values (JDict [(''b'', JInt 1)]) [] = [(''/b'', JInt 1)]" by code_simp
  have ok: "field_taint_ok ?g"
    using f(2) length_sorted_set [of "ft_labels f"] length_sorted_set [of "ft_lineage_ids f"]
    by (auto simp: field_taint_ok_def list_all_iff digest_ok_def hex_lower_def)
  have d: "derive_fields demo_crypto ?q [(''x'', f)] = Inr [(''/b'', ?g)]"
    using f(4) ok by (simp add: derive_fields_def demo_derivation_def l derive_field_def lookup_all_def compute_def
        combine_field_taint_def mk_field_taint_def least_trusted_def highest_classification_def value_digest_def
        demo_crypto_def del: leaf_values.simps)
  have labels: "list_all taint_label_ok (ft_labels f)" using f(2) by (simp add: field_taint_ok_def)
  have "\<exists>a. derive_structured demo_crypto demo_service 30000000 ''l3'' ''j3'' ?q ''acme'' = Inr a"
    unfolding derive_structured_def v d ebind.simps Let_def
    using labels injection_label_ok
    by (intro attested_succeeds)
       (auto simp: pc_fields_def dict_wf_def extra_ok_def record_ok_def json_pointer_ok_def demo_derivation_def
         list_all_iff set_with_signal add_lineage_def ident_ok_def ident_char_def is_alnum_def)
  then obtain a where a: "derive_structured demo_crypto demo_service 30000000 ''l3'' ''j3'' ?q ''acme'' = Inr a" by blast
  then have at: "at_field_taint a = [(''/b'', add_lineage ''l3'' ?g)]"
    by (auto simp: derive_structured_def v d Let_def pc_fields_def dest!: attested_Inr)
  have r: "(''/b'', add_lineage ''l3'' ?g) \<in> set (at_field_taint a)" "feeds ?q ''/b'' ''x''" "map_of [(''x'', f)] ''x'' = Some f"
    by (simp_all add: at feeds_def demo_derivation_def)
  have "taint_le f (add_lineage ''l3'' ?g)" "MIXED \<le> at_trust a"
    using derivation_restricts [OF a v r] f(4) by simp_all
  then show ?thesis
    using a at f(4) by (intro exI [of _ "at_token s"] exI [of _ a] exI [of _ "add_lineage ''l3'' ?g"])
      (simp add: taint_le_def)
qed

text \<open>
  Declassification changes exactly what was asked: trust, classification, digest and trace stay;
  a field outside the listed pointers is untouched; a listed field keeps its trust, classification
  and digest, loses exactly the labels to remove and keeps its lineage.
\<close>

theorem declassify_exact:
  assumes "declassify_labels cr ps now lineage_id jti token tenant pointers remove reviewer = Inr a"
    and "verify_one cr ps now tenant token = Inr v"
  shows "at_trust a = vp_trust v \<and> at_classification a = vp_classification v \<and> at_digest a = vp_digest v
    \<and> at_trace_id a = vp_trace_id v
    \<and> (case map_of (vp_field_taint v) q of None \<Rightarrow> map_of (at_field_taint a) q = None
       | Some f \<Rightarrow> (case map_of (at_field_taint a) q of None \<Rightarrow> False
          | Some g \<Rightarrow> ft_trust g = ft_trust f \<and> ft_classification g = ft_classification f \<and> ft_digest g = ft_digest f
              \<and> set (ft_lineage_ids f) \<subseteq> set (ft_lineage_ids g)
              \<and> (if q \<in> set pointers then set (ft_labels g) = set (ft_labels f) - set remove else g = f)))"
proof -
  have a: "at_trust a = vp_trust v" "at_classification a = vp_classification v" "at_digest a = vp_digest v"
    "at_trace_id a = vp_trace_id v"
    "at_field_taint a = declassify_paths remove lineage_id pointers (vp_field_taint v)"
    using assms by (auto simp: declassify_labels_def Let_def pc_fields_def split: if_splits dest!: attested_Inr)
  have "count_list pointers q = 0 \<longleftrightarrow> q \<notin> set pointers" by (simp add: count_list_0_iff)
  then show ?thesis
    using a declassify_field_pow [where remove = remove and i = lineage_id and n = "count_list pointers q"]
    by (auto simp: declassify_paths_lookup split: option.splits)
qed

theorem declassify_exact_witness:
  "\<exists>token a f. declassify_labels demo_crypto demo_service 30000000 ''l4'' ''j4'' token ''acme'' [''/a''] [''web''] ''rev'' = Inr a
     \<and> map_of (at_field_taint a) ''/a'' = Some f \<and> ''web'' \<notin> set (ft_labels f) \<and> ft_trust f = MIXED"
proof -
  obtain s f where s: "verify_one demo_crypto demo_service 30000000 ''acme'' (at_token s) = Inr (verified_attestation ''s'' [] s)"
    and f: "at_field_taint s = [(''/a'', f)]" "field_taint_ok f" "ft_trust f = MIXED" and t: "at_trace_id s = Some ''t1''"
    by (rule demo_attested)
  have "\<exists>a. declassify_labels demo_crypto demo_service 30000000 ''l4'' ''j4'' (at_token s) ''acme'' [''/a''] [''web''] ''rev'' = Inr a"
    unfolding declassify_labels_def s ebind.simps Let_def
  proof (subst if_not_P, goal_cases)
    case 1
    show ?case using f by (simp add: verified_attestation_def)
  next
    case 2
    show ?case using f t
      by (intro attested_succeeds)
       (auto simp: verified_attestation_def pc_fields_def dict_wf_def extra_ok_def record_ok_def json_pointer_ok_def declassify_field_def
         field_taint_ok_def list_all_iff ident_ok_def ident_char_def is_alnum_def)
  qed
  then obtain a where a: "declassify_labels demo_crypto demo_service 30000000 ''l4'' ''j4'' (at_token s) ''acme''
      [''/a''] [''web''] ''rev'' = Inr a" by blast
  obtain g where "map_of (at_field_taint a) ''/a'' = Some g" "''web'' \<notin> set (ft_labels g)" "ft_trust g = MIXED"
    using declassify_exact [OF a s, of "''/a''"] f
    by (auto simp: verified_attestation_def split: option.splits)
  then show ?thesis using a by (intro exI [of _ "at_token s"] exI [of _ a] exI [of _ g]) simp
qed

end
