(* ===== verification/Tables.thy ===== *)
theory Tables
  imports Provenance "HOL-Library.Product_Lexorder"
begin

text \<open>
  The tables of \<^verbatim>\<open>storage.py\<close>: one record per row type, in the order of the schema, and the
  store as the record of all tables. A table is the list of its rows in insertion order. A time
  column is a \<open>time\<close>: the code stores the ISO text in UTC, whose lexicographic order is the order
  in time, and compares the texts. An amount of money is a rational number.
\<close>

section \<open>ISO time stamps\<close>

definition pad :: "nat \<Rightarrow> nat \<Rightarrow> string" where
  "pad w n = (let s = show_nat n in replicate (w - length s) CHR ''0'' @ s)"

text \<open>The civil date of a day number (days since the epoch), by the usual era arithmetic.\<close>

definition civil :: "int \<Rightarrow> int \<times> int \<times> int" where
  "civil days = (let z = days + 719468; era = z div 146097; doe = z mod 146097;
      yoe = (doe - doe div 1460 + doe div 36524 - doe div 146096) div 365;
      doy = doe - (365 * yoe + yoe div 4 - yoe div 100); mp = (5 * doy + 2) div 153;
      d = doy - (153 * mp + 2) div 5 + 1; m = (if mp < 10 then mp + 3 else mp - 9)
    in (yoe + era * 400 + (if m \<le> 2 then 1 else 0), m, d))"

definition isoformat :: "time \<Rightarrow> string" where
  "isoformat t = (let days = t div 86400000000; us = t mod 86400000000; (y, m, d) = civil days;
      s = us div 1000000; frac = us mod 1000000
    in pad 4 (nat y) @ ''-'' @ pad 2 (nat m) @ ''-'' @ pad 2 (nat d) @ ''T'' @ pad 2 (nat (s div 3600)) @ '':''
       @ pad 2 (nat (s div 60 mod 60)) @ '':'' @ pad 2 (nat (s mod 60))
       @ (if frac = 0 then [] else ''.'' @ pad 6 (nat frac)) @ ''+00:00'')"

section \<open>Rows\<close>

record audit_row =
  au_id :: string
  au_created :: time
  au_type :: string
  au_payload :: string
  au_previous :: string
  au_hash :: string

record approval_row =
  ap_id :: string
  ap_request_json :: string
  ap_hash :: string
  ap_agent :: string
  ap_tenant :: string
  ap_scopes :: "string list"
  ap_status :: string
  ap_created :: time
  ap_expires :: time
  ap_resolved :: "time option"
  ap_reviewer :: "string option"
  ap_note :: string

record execution_row =
  ex_request_id :: string
  ex_hash :: string
  ex_status :: string
  ex_started :: time
  ex_completed :: "time option"

text \<open>An event of a rate or an egress budget: tenant, agent, weight, time.\<close>

record budget_event =
  be_tenant :: string
  be_agent :: string
  be_weight :: int
  be_created :: time

record violation_row =
  vi_tenant :: string
  vi_agent :: string
  vi_severity :: string
  vi_reason :: string
  vi_created :: time

record quarantine_row =
  qu_tenant :: string
  qu_agent :: string
  qu_reason :: string
  qu_created :: time
  qu_released :: "time option"
  qu_reviewer :: "string option"
  qu_note :: string

record incident_row =
  in_id :: string
  in_tenant :: string
  in_agent :: string
  in_trace :: string
  in_severity :: string
  in_summary :: string
  in_count :: nat
  in_status :: string
  in_first_seen :: time
  in_last_seen :: time

record agent_row =
  ag_tenant :: string
  ag_agent :: string
  ag_owner :: string
  ag_status :: string
  ag_scopes :: "string list"
  ag_created :: time
  ag_updated :: time

record token_row =
  tk_id :: string
  tk_tenant :: string
  tk_agent :: string
  tk_expires :: time
  tk_revoked :: "time option"
  tk_reason :: "string option"

record containment_row =
  co_id :: string
  co_tenant :: string
  co_agent :: string
  co_mode :: containment_mode
  co_reason :: string
  co_reviewer :: string
  co_allowed_tools :: "string list"
  co_incident :: "string option"
  co_created :: time
  co_expires :: time
  co_released :: "time option"

record action_row =
  ac_tenant :: string
  ac_agent :: string
  ac_trace :: string
  ac_tool :: string
  ac_category :: string
  ac_decision :: string
  ac_created :: time

record lineage_row =
  li_id :: string
  li_tenant :: string
  li_agent :: string
  li_trace :: string
  li_request :: "string option"
  li_parents :: "string list"
  li_source_type :: string
  li_source_id :: string
  li_destination :: string
  li_trust :: trust_level
  li_classification :: data_classification
  li_labels :: "string list"
  li_digest :: string
  li_created :: time
  li_field_taint :: "(string, field_taint) dict"

record snapshot_row =
  sn_id :: string
  sn_tenant :: string
  sn_agent :: string
  sn_trace :: string
  sn_tool :: string
  sn_protected :: string
  sn_created :: time

record baseline_row =
  ba_server :: string
  ba_tool :: string
  ba_digest :: string
  ba_definition :: string
  ba_status :: string
  ba_first_seen :: time
  ba_last_seen :: time

record observation_row =
  ob_server :: string
  ob_tool :: string
  ob_digest :: string
  ob_status :: string
  ob_findings :: "string list"
  ob_observed :: time

record job_row =
  jo_id :: string
  jo_kind :: string
  jo_dedup :: string
  jo_payload :: string
  jo_status :: string
  jo_attempts :: int
  jo_max_attempts :: int
  jo_next_attempt :: time
  jo_locked_by :: "string option"
  jo_locked_at :: "time option"
  jo_last_error :: "string option"
  jo_created :: time
  jo_completed :: "time option"

record heartbeat_row =
  hb_worker :: string
  hb_started :: time
  hb_last_seen :: time
  hb_processed :: int
  hb_failed :: int

datatype watch_profile = RELAXED | BALANCED | STRICT

datatype watch_event_type = TOOL_CALL | TOOL_RESULT | PROGRESS | HEARTBEAT | TASK_STATUS

record watch_task =
  wt_id :: string
  wt_tenant :: string
  wt_agent :: string
  wt_description :: string
  wt_profile :: watch_profile
  wt_expected_tools :: "string list"
  wt_success_criteria :: "string list"
  wt_max_runtime :: int
  wt_max_tool_calls :: int
  wt_max_cost :: rat
  wt_status :: string
  wt_event_count :: nat
  wt_cost :: rat
  wt_created :: time
  wt_updated :: time
  wt_completed :: "time option"

record watch_event =
  we_id :: string
  we_task :: string
  we_tenant :: string
  we_agent :: string
  we_type :: watch_event_type
  we_tool :: "string option"
  we_outcome :: "string option"
  we_error :: "string option"
  we_fingerprint :: "string option"
  we_progress :: "string option"
  we_input_tokens :: int
  we_output_tokens :: int
  we_cost :: rat
  we_duration :: "rat option"
  we_created :: time

record watch_finding =
  wf_id :: string
  wf_tenant :: string
  wf_agent :: string
  wf_task :: string
  wf_code :: string
  wf_severity :: string
  wf_confidence :: rat
  wf_summary :: string
  wf_evidence :: "string list"
  wf_action :: string
  wf_status :: string
  wf_occurrences :: nat
  wf_first_seen :: time
  wf_last_seen :: time
  wf_resolved :: "time option"
  wf_reviewer :: "string option"
  wf_note :: string

section \<open>The store\<close>

record store =
  audit_events :: "audit_row list"
  approvals :: "approval_row list"
  executions :: "execution_row list"
  rate_events :: "budget_event list"
  violations :: "violation_row list"
  quarantines :: "quarantine_row list"
  incidents :: "incident_row list"
  agents :: "agent_row list"
  agent_tokens :: "token_row list"
  containments :: "containment_row list"
  egress_events :: "budget_event list"
  action_events :: "action_row list"
  lineage_events :: "lineage_row list"
  policy_snapshots :: "snapshot_row list"
  mcp_tool_baselines :: "baseline_row list"
  mcp_tool_observations :: "observation_row list"
  outbox_jobs :: "job_row list"
  worker_heartbeats :: "heartbeat_row list"
  watch_tasks :: "watch_task list"
  watch_events :: "watch_event list"
  watch_findings :: "watch_finding list"

definition empty_store :: store where
  "empty_store = \<lparr>audit_events = [], approvals = [], executions = [], rate_events = [], violations = [],
     quarantines = [], incidents = [], agents = [], agent_tokens = [], containments = [], egress_events = [],
     action_events = [], lineage_events = [], policy_snapshots = [], mcp_tool_baselines = [],
     mcp_tool_observations = [], outbox_jobs = [], worker_heartbeats = [], watch_tasks = [],
     watch_events = [], watch_findings = []\<rparr>"

section \<open>Statements on a table\<close>

text \<open>\<^verbatim>\<open>UPDATE ... SET f WHERE P\<close> and its row count; the first row of a \<^verbatim>\<open>SELECT\<close>.\<close>

definition update_where :: "('r \<Rightarrow> bool) \<Rightarrow> ('r \<Rightarrow> 'r) \<Rightarrow> 'r list \<Rightarrow> 'r list" where
  "update_where P f rows = map (\<lambda>r. if P r then f r else r) rows"

definition count_where :: "('r \<Rightarrow> bool) \<Rightarrow> 'r list \<Rightarrow> nat" where
  "count_where P rows = length (filter P rows)"

definition select_one :: "('r \<Rightarrow> bool) \<Rightarrow> 'r list \<Rightarrow> 'r option" where
  "select_one P rows = find P rows"

text \<open>\<^verbatim>\<open>ORDER BY key DESC\<close>: the rows of equal key stay in insertion order.\<close>

definition newest_first :: "('r \<Rightarrow> time) \<Rightarrow> 'r list \<Rightarrow> 'r list" where
  "newest_first key rows = sort_key (\<lambda>r. - key r) rows"

text \<open>\<^verbatim>\<open>INSERT ... ON CONFLICT (key) DO UPDATE SET f\<close>\<close>

definition upsert :: "('r \<Rightarrow> bool) \<Rightarrow> 'r \<Rightarrow> ('r \<Rightarrow> 'r) \<Rightarrow> 'r list \<Rightarrow> 'r list" where
  "upsert same new f rows = (if list_ex same rows then update_where same f rows else rows @ [new])"

text \<open>An optional filter of a listing: absent when \<^verbatim>\<open>None\<close> or empty.\<close>

definition given :: "string option \<Rightarrow> string \<Rightarrow> bool" where
  "given f v \<longleftrightarrow> (case nonempty f of None \<Rightarrow> True | Some s \<Rightarrow> v = s)"

lemma set_update_where: "set (update_where P f rows) = {r. (r \<in> set rows \<and> \<not> P r) \<or> (\<exists>q \<in> set rows. P q \<and> r = f q)}"
  by (auto simp: update_where_def)

lemma ex_update_where: "(\<exists>r \<in> set (update_where P f rows). Q r) \<longleftrightarrow> (\<exists>r \<in> set rows. Q (if P r then f r else r))"
  by (auto simp: update_where_def)

lemma all_update_where: "(\<forall>r \<in> set (update_where P f rows). Q r) \<longleftrightarrow> (\<forall>r \<in> set rows. Q (if P r then f r else r))"
  by (auto simp: update_where_def)

lemma length_update_where [simp]: "length (update_where P f rows) = length rows"
  by (simp add: update_where_def)

lemma map_update_where: "(\<And>r. P r \<Longrightarrow> g (f r) = g r) \<Longrightarrow> map g (update_where P f rows) = map g rows"
  by (auto simp: update_where_def)

lemma update_where_id: "\<forall>r \<in> set rows. \<not> P r \<Longrightarrow> update_where P f rows = rows"
  by (induction rows) (auto simp: update_where_def)

lemma count_where_0 [simp]: "count_where P rows = 0 \<longleftrightarrow> (\<forall>r \<in> set rows. \<not> P r)"
  by (simp add: count_where_def filter_empty_conv)

lemma count_where_append [simp]: "count_where P (xs @ ys) = count_where P xs + count_where P ys"
  by (simp add: count_where_def)

lemma count_where_mono: "(\<And>r. P r \<Longrightarrow> Q r) \<Longrightarrow> count_where P rows \<le> count_where Q rows"
  unfolding count_where_def by (induction rows) auto

lemma select_one_Some: "select_one P rows = Some r \<Longrightarrow> P r \<and> r \<in> set rows"
  by (auto simp: select_one_def find_Some_iff)

lemma select_one_None: "select_one P rows = None \<longleftrightarrow> (\<forall>r \<in> set rows. \<not> P r)"
  by (auto simp: select_one_def find_None_iff)

text \<open>A key is distinct over a table: an update of the key's rows concerns one row.\<close>

lemma distinct_key: "distinct (map k rows) \<Longrightarrow> a \<in> set rows \<Longrightarrow> b \<in> set rows \<Longrightarrow> k a = k b \<Longrightarrow> a = b"
  by (simp add: distinct_map inj_on_def)

lemma select_one_key: "distinct (map k rows) \<Longrightarrow> r \<in> set rows \<Longrightarrow> select_one (\<lambda>q. k q = k r) rows = Some r"
  by (induction rows) (auto simp: select_one_def)

lemma select_one_update:
  assumes "\<And>r. k (f r) = k r"
  shows "select_one (\<lambda>q. k q = i) (update_where (\<lambda>q. k q = i) f rows) =
    map_option f (select_one (\<lambda>q. k q = i) rows)"
  using assms by (induction rows) (auto simp: select_one_def update_where_def)

lemma select_one_update_other:
  assumes "\<And>r. k (f r) = k r" "i \<noteq> j"
  shows "select_one (\<lambda>q. k q = i) (update_where (\<lambda>q. k q = j) f rows) = select_one (\<lambda>q. k q = i) rows"
  using assms by (induction rows) (auto simp: select_one_def update_where_def)

lemma select_one_update_any:
  assumes "\<And>r. k (f r) = k r"
  shows "select_one (\<lambda>q. k q = i) (update_where P f rows) =
    map_option (\<lambda>r. if P r then f r else r) (select_one (\<lambda>q. k q = i) rows)"
  using assms by (induction rows) (auto simp: select_one_def update_where_def)

lemma select_one_snoc: "select_one P (rows @ [r]) =
    (case select_one P rows of Some q \<Rightarrow> Some q | None \<Rightarrow> if P r then Some r else None)"
  by (induction rows) (auto simp: select_one_def)

lemma select_one_upsert:
  assumes "\<And>r. k (f r) = k r" "k new = i"
  shows "select_one (\<lambda>q. k q = j) (upsert (\<lambda>q. k q = i) new f rows) =
    (if j = i then Some (case select_one (\<lambda>q. k q = i) rows of None \<Rightarrow> new | Some r \<Rightarrow> f r)
     else select_one (\<lambda>q. k q = j) rows)"
proof (cases "select_one (\<lambda>q. k q = i) rows")
  case None
  then have "\<not> list_ex (\<lambda>q. k q = i) rows" by (simp add: select_one_None list_ex_iff)
  then show ?thesis using None assms(2)
    by (cases "j = i"; cases "select_one (\<lambda>q. k q = j) rows") (simp_all add: upsert_def select_one_snoc)
next
  case (Some r)
  then have "list_ex (\<lambda>q. k q = i) rows" using select_one_Some [OF Some] by (auto simp: list_ex_iff)
  then have u: "upsert (\<lambda>q. k q = i) new f rows = update_where (\<lambda>q. k q = i) f rows" by (simp add: upsert_def)
  show ?thesis
  proof (cases "j = i")
    case True
    then show ?thesis using select_one_update [of k f i rows, OF assms(1)] Some by (simp add: u)
  next
    case False
    then show ?thesis using select_one_update_other [of k f j i rows, OF assms(1) False] by (simp add: u)
  qed
qed

lemma count_where_one:
  assumes "distinct (map k rows)" "r \<in> set rows" "P r" "\<And>q. P q \<Longrightarrow> k q = k r"
  shows "count_where P rows = 1"
proof -
  have "distinct (filter P rows)" using assms(1) by (simp add: distinct_map)
  moreover have "q = r" if "q \<in> set rows" "P q" for q
    by (rule distinct_key [OF assms(1) that(1) assms(2) assms(4) [OF that(2)]])
  then have "set (filter P rows) \<subseteq> {r}" unfolding set_filter by blast
  moreover have "r \<in> set (filter P rows)" using assms(2,3) by simp
  ultimately have "distinct (filter P rows)" "set (filter P rows) = {r}" by blast+
  then show ?thesis using distinct_card [of "filter P rows"] by (simp add: count_where_def)
qed

lemma set_newest_first [simp]: "set (newest_first key rows) = set rows"
  by (simp add: newest_first_def)

lemma newest_first_Nil [simp]: "newest_first key rows = [] \<longleftrightarrow> rows = []"
  by (metis set_empty set_newest_first)

lemma newest_first_hd: "rows \<noteq> [] \<Longrightarrow> r \<in> set rows \<Longrightarrow> key r \<le> key (hd (newest_first key rows))"
proof -
  assume ne: "rows \<noteq> []" and r: "r \<in> set rows"
  have s: "sorted (map (\<lambda>r. - key r) (newest_first key rows))" by (simp add: newest_first_def)
  obtain x xs where x: "newest_first key rows = x # xs" using ne by (cases "newest_first key rows") auto
  have "r \<in> set (x # xs)" using r x by (metis set_newest_first)
  with s x show ?thesis by (auto)
qed

end
