(* ===== verification/Store_Limits.thy ===== *)
theory Store_Limits
  imports Tables
begin

text \<open>
  The budgets of the store: requests per minute, egress bytes per hour, and the count of recent
  violations. Rate and egress share one contract, a sliding window over recorded events
  (\<open>sliding_window\<close>): an event is admitted only when the weights of the agent's events in the
  window, with the new one, stay within the limit, and only events that left the window are
  dropped. From it the locale proves, once, that whatever the sequence of requests, the admitted
  events of every window stay within the limit.
\<close>

section \<open>Operations\<close>

definition recent :: "time \<Rightarrow> budget_event \<Rightarrow> bool" where
  "recent cutoff e \<longleftrightarrow> cutoff \<le> be_created e"

definition used :: "(budget_event \<Rightarrow> int) \<Rightarrow> string \<Rightarrow> string \<Rightarrow> time \<Rightarrow> budget_event list \<Rightarrow> int" where
  "used weigh tenant agent cutoff es =
     sum_list (map weigh (filter (\<lambda>e. be_tenant e = tenant \<and> be_agent e = agent \<and> recent cutoff e) es))"

definition rate_allowed :: "time \<Rightarrow> string \<Rightarrow> string \<Rightarrow> int \<Rightarrow> int \<Rightarrow> store \<Rightarrow> bool \<times> store" where
  "rate_allowed now tenant agent limit window_seconds st =
     (let cutoff = now - seconds window_seconds;
          kept = filter (recent cutoff) (rate_events st);
          count = int (length (filter (\<lambda>e. be_tenant e = tenant \<and> be_agent e = agent \<and> recent cutoff e) kept))
      in if count \<ge> limit then (False, st\<lparr>rate_events := kept\<rparr>)
         else (True, st\<lparr>rate_events := kept @
           [\<lparr>be_tenant = tenant, be_agent = agent, be_weight = 1, be_created = now\<rparr>]\<rparr>))"

definition reserve_egress :: "time \<Rightarrow> string \<Rightarrow> string \<Rightarrow> int \<Rightarrow> int \<Rightarrow> store \<Rightarrow> bool \<times> store" where
  "reserve_egress now tenant agent amount hourly_limit st =
     (let cutoff = now - seconds 3600;
          kept = filter (recent cutoff) (egress_events st)
      in if used be_weight tenant agent cutoff kept + amount > hourly_limit then (False, st\<lparr>egress_events := kept\<rparr>)
         else (True, st\<lparr>egress_events := kept @
           [\<lparr>be_tenant = tenant, be_agent = agent, be_weight = amount, be_created = now\<rparr>]\<rparr>))"

definition egress_allowed :: "time \<Rightarrow> string \<Rightarrow> string \<Rightarrow> int \<Rightarrow> int \<Rightarrow> store \<Rightarrow> bool" where
  "egress_allowed now tenant agent amount hourly_limit st \<longleftrightarrow>
     used be_weight tenant agent (now - seconds 3600) (egress_events st) + amount \<le> hourly_limit"

definition record_violation :: "time \<Rightarrow> string \<Rightarrow> string \<Rightarrow> string \<Rightarrow> string \<Rightarrow> int \<Rightarrow> store \<Rightarrow> nat \<times> store" where
  "record_violation now tenant agent severity reason window_seconds st =
     (let rows = violations st @ [\<lparr>vi_tenant = tenant, vi_agent = agent, vi_severity = severity,
                    vi_reason = reason, vi_created = now\<rparr>]
      in (count_where (\<lambda>v. vi_tenant v = tenant \<and> vi_agent v = agent
            \<and> now - seconds window_seconds \<le> vi_created v \<and> vi_severity v \<in> {''high'', ''critical''}) rows,
          st\<lparr>violations := rows\<rparr>))"

definition record_action :: "time \<Rightarrow> string \<Rightarrow> string \<Rightarrow> string \<Rightarrow> string \<Rightarrow> string \<Rightarrow> string \<Rightarrow> store \<Rightarrow> store" where
  "record_action now tenant agent trace tool category decision st =
     st\<lparr>action_events := action_events st @ [\<lparr>ac_tenant = tenant, ac_agent = agent, ac_trace = trace,
        ac_tool = tool, ac_category = category, ac_decision = decision, ac_created = now\<rparr>]\<rparr>"

definition trace_has_category :: "time \<Rightarrow> string \<Rightarrow> string \<Rightarrow> string \<Rightarrow> string \<Rightarrow> int \<Rightarrow> store \<Rightarrow> bool" where
  "trace_has_category now tenant agent trace category window_seconds st \<longleftrightarrow>
     list_ex (\<lambda>a. ac_tenant a = tenant \<and> ac_agent a = agent \<and> ac_trace a = trace \<and> ac_category a = category
        \<and> now - seconds window_seconds \<le> ac_created a) (action_events st)"

definition list_activity :: "nat \<Rightarrow> string option \<Rightarrow> string option \<Rightarrow> string option \<Rightarrow> store \<Rightarrow> action_row list" where
  "list_activity limit tenant agent trace st =
     take limit (newest_first ac_created
       (filter (\<lambda>a. given tenant (ac_tenant a) \<and> given agent (ac_agent a) \<and> given trace (ac_trace a)) (action_events st)))"

section \<open>The sliding window\<close>

definition usage :: "(budget_event \<Rightarrow> int) \<Rightarrow> time \<Rightarrow> budget_event \<Rightarrow> budget_event list \<Rightarrow> int" where
  "usage weigh window e es = used weigh (be_tenant e) (be_agent e) (be_created e - window) es"

text \<open>A run of requests on a table, with the history of the admitted ones.\<close>

fun budget_run :: "(budget_event \<Rightarrow> budget_event list \<Rightarrow> bool \<times> budget_event list) \<Rightarrow>
    budget_event list \<Rightarrow> budget_event list \<Rightarrow> budget_event list \<Rightarrow> budget_event list" where
  "budget_run admit [] es h = h"
| "budget_run admit (e # rs) es h = (case admit e es of
      (True, es') \<Rightarrow> budget_run admit rs es' (h @ [e])
    | (False, es') \<Rightarrow> budget_run admit rs es' h)"

definition bounded :: "(budget_event \<Rightarrow> int) \<Rightarrow> time \<Rightarrow> int \<Rightarrow> budget_event list \<Rightarrow> bool" where
  "bounded weigh window limit h \<longleftrightarrow> list_all (\<lambda>i. usage weigh window (h ! i) (take (Suc i) h) \<le> limit) [0..<length h]"

lemma bounded_snoc: "bounded weigh window limit (h @ [e]) \<longleftrightarrow> bounded weigh window limit h \<and> usage weigh window e (h @ [e]) \<le> limit"
proof -
  have "usage weigh window ((h @ [e]) ! i) (take (Suc i) (h @ [e])) = usage weigh window (h ! i) (take (Suc i) h)"
    if "i < length h" for i using that by (simp add: nth_append)
  then show ?thesis by (auto simp: bounded_def list_all_iff less_Suc_eq)
qed

lemma used_append [simp]: "used weigh t a c (xs @ ys) = used weigh t a c xs + used weigh t a c ys"
  by (simp add: used_def)

lemma used_recent: "c \<le> d \<Longrightarrow> used weigh t a d (filter (recent c) es) = used weigh t a d es"
proof -
  assume "c \<le> d"
  then have "filter (\<lambda>e. be_tenant e = t \<and> be_agent e = a \<and> recent d e) (filter (recent c) es) =
    filter (\<lambda>e. be_tenant e = t \<and> be_agent e = a \<and> recent d e) es"
    by (induction es) (auto simp: recent_def)
  then show ?thesis by (simp add: used_def)
qed

locale sliding_window =
  fixes weigh :: "budget_event \<Rightarrow> int" and admit :: "budget_event \<Rightarrow> budget_event list \<Rightarrow> bool \<times> budget_event list"
    and window :: time and limit :: int and admissible :: "budget_event \<Rightarrow> bool"
  assumes window_nonneg: "0 \<le> window"
    and admitted: "admissible e \<Longrightarrow> admit e es = (True, es') \<Longrightarrow>
      es' = filter (recent (be_created e - window)) es @ [e] \<and> usage weigh window e es + weigh e \<le> limit"
    and refused: "admissible e \<Longrightarrow> admit e es = (False, es') \<Longrightarrow> es' = filter (recent (be_created e - window)) es"
begin

text \<open>The table knows the history's events that may still count.\<close>

definition tracks :: "time \<Rightarrow> budget_event list \<Rightarrow> budget_event list \<Rightarrow> bool" where
  "tracks now es h \<longleftrightarrow> filter (recent (now - window)) es = filter (recent (now - window)) h"

lemma tracks_later:
  assumes "tracks now es h" "now \<le> later" shows "tracks later es h"
proof -
  have "filter (recent (later - window)) xs = filter (recent (later - window)) (filter (recent (now - window)) xs)" for xs
    using assms(2) by (induction xs) (auto simp: recent_def)
  then show ?thesis using assms(1) unfolding tracks_def by metis
qed

lemma tracks_usage: "tracks (be_created e) es h \<Longrightarrow> usage weigh window e es = usage weigh window e h"
  unfolding usage_def tracks_def by (metis used_recent order_refl)

lemma tracks_filter: "tracks now (filter (recent (now - window)) es) h = tracks now es h"
  by (simp add: tracks_def)

lemma step:
  assumes "tracks (be_created e) es h" "bounded weigh window limit h" "admissible e" "admit e es = (b, es')"
  shows "tracks (be_created e) es' (if b then h @ [e] else h) \<and> bounded weigh window limit (if b then h @ [e] else h)"
proof (cases b)
  case True
  then have a: "es' = filter (recent (be_created e - window)) es @ [e]" "usage weigh window e es + weigh e \<le> limit"
    using admitted assms(3,4) by auto
  have "usage weigh window e [e] = weigh e" using window_nonneg by (simp add: usage_def used_def recent_def)
  then have "usage weigh window e (h @ [e]) \<le> limit"
    using a(2) tracks_usage [OF assms(1)] by (simp add: usage_def)
  moreover have "tracks (be_created e) es' (h @ [e])"
    using assms(1) by (simp add: a(1) tracks_def)
  ultimately show ?thesis using True assms(2) by (simp add: bounded_snoc)
next
  case False
  then show ?thesis using refused [OF assms(3), of es es'] assms by (simp add: tracks_filter)
qed

lemma run_bounded:
  assumes "sorted (map be_created rs)" "list_all admissible rs" "tracks now es h" "bounded weigh window limit h"
    "\<forall>r \<in> set rs. now \<le> be_created r"
  shows "bounded weigh window limit (budget_run admit rs es h)"
  using assms
proof (induction rs arbitrary: now es h)
  case (Cons e rs)
  obtain b es' where b: "admit e es = (b, es')" by force
  have "tracks (be_created e) es h" using Cons.prems by (intro tracks_later [OF Cons.prems(3)]) simp
  from step [OF this Cons.prems(4) _ b] Cons.prems(2)
  have "tracks (be_created e) es' (if b then h @ [e] else h)" "bounded weigh window limit (if b then h @ [e] else h)"
    by simp_all
  with Cons.IH [of "be_created e" es' "if b then h @ [e] else h"] Cons.prems b show ?case
    by (cases b) auto
qed simp

theorem runs_bounded:
  assumes "sorted (map be_created rs)" "list_all admissible rs"
  shows "bounded weigh window limit (budget_run admit rs [] [])"
proof (cases rs)
  case (Cons r _)
  then show ?thesis using assms by (intro run_bounded [of _ "be_created r"]) (auto simp: tracks_def bounded_def)
qed (simp add: bounded_def)

end

section \<open>The two budgets are sliding windows\<close>

definition rate_admit :: "int \<Rightarrow> int \<Rightarrow> budget_event \<Rightarrow> budget_event list \<Rightarrow> bool \<times> budget_event list" where
  "rate_admit limit window_seconds e es =
     map_prod id rate_events (rate_allowed (be_created e) (be_tenant e) (be_agent e) limit window_seconds
       (empty_store\<lparr>rate_events := es\<rparr>))"

definition egress_admit :: "int \<Rightarrow> budget_event \<Rightarrow> budget_event list \<Rightarrow> bool \<times> budget_event list" where
  "egress_admit limit e es =
     map_prod id egress_events (reserve_egress (be_created e) (be_tenant e) (be_agent e) (be_weight e) limit
       (empty_store\<lparr>egress_events := es\<rparr>))"

text \<open>A rate event has no weight of its own in the table: each counts one.\<close>

definition unit_event :: "budget_event \<Rightarrow> bool" where
  "unit_event e \<longleftrightarrow> be_weight e = 1"

lemma count_used: "int (length (filter (\<lambda>e. be_tenant e = t \<and> be_agent e = a \<and> recent c e) es)) = used (\<lambda>_. 1) t a c es"
  by (induction es) (auto simp: used_def)


interpretation egress: sliding_window be_weight "egress_admit limit" "seconds 3600" limit "\<lambda>_. True" for limit
proof
  show "0 \<le> seconds 3600" by simp
  fix e es es'
  { assume "egress_admit limit e es = (True, es')"
    then show "es' = filter (recent (be_created e - seconds 3600)) es @ [e]
        \<and> usage be_weight (seconds 3600) e es + be_weight e \<le> limit"
      by (cases e) (auto simp: egress_admit_def reserve_egress_def Let_def usage_def used_recent split: if_splits) }
  { assume "egress_admit limit e es = (False, es')"
    then show "es' = filter (recent (be_created e - seconds 3600)) es"
      by (auto simp: egress_admit_def reserve_egress_def Let_def split: if_splits) }
qed

lemma rate_window:
  assumes "0 \<le> w"
  shows "sliding_window (\<lambda>_. 1) (rate_admit limit w) (seconds w) limit unit_event"
proof
  show "0 \<le> seconds w" using assms by simp
  fix e es es'
  { assume "unit_event e" "rate_admit limit w e es = (True, es')"
    then show "es' = filter (recent (be_created e - seconds w)) es @ [e] \<and> usage (\<lambda>_. 1) (seconds w) e es + 1 \<le> limit"
      by (cases e) (auto simp: rate_admit_def rate_allowed_def Let_def usage_def used_recent count_used unit_event_def split: if_splits) }
  { assume "rate_admit limit w e es = (False, es')"
    then show "es' = filter (recent (be_created e - seconds w)) es"
      by (auto simp: rate_admit_def rate_allowed_def Let_def split: if_splits) }
qed

interpretation rate: sliding_window "\<lambda>_. 1" "rate_admit limit 60" "seconds 60" limit unit_event for limit
  by (rule rate_window) simp

section \<open>Properties\<close>

text \<open>
  Whatever the sequence of egress reservations (with times that do not go back), the bytes
  admitted for an agent in any window of one hour stay within the hourly limit.
\<close>

theorem egress_window_bounded:
  assumes "sorted (map be_created rs)"
  shows "bounded be_weight (seconds 3600) limit (budget_run (egress_admit limit) rs [] [])"
  using assms by (intro egress.runs_bounded) (simp_all add: list_all_iff)

definition demo_event :: "string \<Rightarrow> int \<Rightarrow> int \<Rightarrow> budget_event" where
  "demo_event agent w t = \<lparr>be_tenant = ''acme'', be_agent = agent, be_weight = w, be_created = seconds t\<rparr>"

theorem egress_window_bounded_witness:
  "map be_weight (budget_run (egress_admit 100) [demo_event ''a'' 60 0, demo_event ''a'' 50 10, demo_event ''b'' 50 20,
      demo_event ''a'' 40 3500, demo_event ''a'' 60 3601] [] []) = [60, 50, 40, 60]
   \<and> bounded be_weight (seconds 3600) 100 (budget_run (egress_admit 100) [demo_event ''a'' 60 0, demo_event ''a'' 50 10,
      demo_event ''b'' 50 20, demo_event ''a'' 40 3500, demo_event ''a'' 60 3601] [] [])"
proof
  show "map be_weight (budget_run (egress_admit 100) [demo_event ''a'' 60 0, demo_event ''a'' 50 10, demo_event ''b'' 50 20,
      demo_event ''a'' 40 3500, demo_event ''a'' 60 3601] [] []) = [60, 50, 40, 60]"
    by code_simp
  show "bounded be_weight (seconds 3600) 100 (budget_run (egress_admit 100) [demo_event ''a'' 60 0, demo_event ''a'' 50 10,
      demo_event ''b'' 50 20, demo_event ''a'' 40 3500, demo_event ''a'' 60 3601] [] [])"
    by (rule egress_window_bounded) (simp add: demo_event_def)
qed

text \<open>
  C29. Whatever the sequence of calls (with times that do not go back), at most \<open>limit\<close> calls of an
  agent are admitted in any window of sixty seconds.
\<close>

theorem rate_window_bounded:
  assumes "sorted (map be_created rs)" and "list_all unit_event rs"
  shows "bounded (\<lambda>_. 1) (seconds 60) limit (budget_run (rate_admit limit 60) rs [] [])"
  using assms by (rule rate.runs_bounded)

theorem rate_window_bounded_witness:
  "map be_created (budget_run (rate_admit 2 60) [demo_event ''a'' 1 0, demo_event ''a'' 1 5, demo_event ''a'' 1 6,
      demo_event ''a'' 1 61] [] []) = [seconds 0, seconds 5, seconds 61]
   \<and> bounded (\<lambda>_. 1) (seconds 60) 2 (budget_run (rate_admit 2 60) [demo_event ''a'' 1 0, demo_event ''a'' 1 5,
      demo_event ''a'' 1 6, demo_event ''a'' 1 61] [] [])"
proof
  show "map be_created (budget_run (rate_admit 2 60) [demo_event ''a'' 1 0, demo_event ''a'' 1 5, demo_event ''a'' 1 6,
      demo_event ''a'' 1 61] [] []) = [seconds 0, seconds 5, seconds 61]"
    by code_simp
  show "bounded (\<lambda>_. 1) (seconds 60) 2 (budget_run (rate_admit 2 60) [demo_event ''a'' 1 0, demo_event ''a'' 1 5,
      demo_event ''a'' 1 6, demo_event ''a'' 1 61] [] [])"
    by (rule rate_window_bounded) (simp_all add: demo_event_def unit_event_def)
qed

end
