(* ===== verification/Store_Agents.thy ===== *)
theory Store_Agents
  imports Tables
begin

text \<open>
  Agents, their tokens, containments and quarantines. The lemmas follow a token and a quarantine
  through every later operation (\<open>agent_move\<close>): a revoked token is never active again, and an
  automatic quarantine holds until it is released.
\<close>

section \<open>Tokens\<close>

definition register_agent_token :: "time \<Rightarrow> agent_principal \<Rightarrow> string \<Rightarrow> store \<Rightarrow> exc + store" where
  "register_agent_token now agent owner st =
     (if list_ex (\<lambda>t. tk_id t = pr_token_id agent) (agent_tokens st) then Inl (IntegrityError ''agent_tokens.token_id'')
      else Inr (st\<lparr>agents := upsert (\<lambda>a. ag_tenant a = pr_tenant_id agent \<and> ag_agent a = pr_agent_id agent)
                \<lparr>ag_tenant = pr_tenant_id agent, ag_agent = pr_agent_id agent, ag_owner = owner,
                 ag_status = ''active'', ag_scopes = sort (pr_scopes agent), ag_created = now, ag_updated = now\<rparr>
                (\<lambda>a. a\<lparr>ag_owner := owner, ag_scopes := sort (pr_scopes agent), ag_status := ''active'', ag_updated := now\<rparr>)
                (agents st),
              agent_tokens := agent_tokens st @ [\<lparr>tk_id = pr_token_id agent, tk_tenant = pr_tenant_id agent,
                tk_agent = pr_agent_id agent, tk_expires = pr_expires_at agent, tk_revoked = None, tk_reason = None\<rparr>]\<rparr>))"

definition token_row_of :: "agent_principal \<Rightarrow> token_row \<Rightarrow> bool" where
  "token_row_of agent t \<longleftrightarrow> tk_id t = pr_token_id agent \<and> tk_tenant t = pr_tenant_id agent \<and> tk_agent t = pr_agent_id agent"

text \<open>The join: a token row and its agent row.\<close>

definition token_is_active :: "time \<Rightarrow> agent_principal \<Rightarrow> store \<Rightarrow> bool" where
  "token_is_active now agent st = (case select_one (token_row_of agent) (agent_tokens st) of
      None \<Rightarrow> False
    | Some t \<Rightarrow> (case select_one (\<lambda>a. ag_tenant a = tk_tenant t \<and> ag_agent a = tk_agent t) (agents st) of
          None \<Rightarrow> False
        | Some a \<Rightarrow> tk_revoked t = None \<and> now < tk_expires t \<and> ag_status a = ''active''))"

definition revoke_agent_tokens :: "time \<Rightarrow> string \<Rightarrow> string \<Rightarrow> string \<Rightarrow> store \<Rightarrow> nat \<times> store" where
  "revoke_agent_tokens now tenant agent reason st =
     (let target = (\<lambda>t. tk_tenant t = tenant \<and> tk_agent t = agent \<and> tk_revoked t = None)
      in (count_where target (agent_tokens st),
          st\<lparr>agent_tokens := update_where target (\<lambda>t. t\<lparr>tk_revoked := Some now, tk_reason := Some reason\<rparr>) (agent_tokens st),
             agents := update_where (\<lambda>a. ag_tenant a = tenant \<and> ag_agent a = agent)
               (\<lambda>a. a\<lparr>ag_status := ''revoked'', ag_updated := now\<rparr>) (agents st)\<rparr>))"

definition active_tokens :: "time \<Rightarrow> string \<Rightarrow> string \<Rightarrow> store \<Rightarrow> nat" where
  "active_tokens now tenant agent st =
     count_where (\<lambda>t. tk_tenant t = tenant \<and> tk_agent t = agent \<and> tk_revoked t = None \<and> now < tk_expires t) (agent_tokens st)"

definition list_agents :: "time \<Rightarrow> string option \<Rightarrow> store \<Rightarrow> (agent_row \<times> nat) list" where
  "list_agents now tenant st = map (\<lambda>a. (a, active_tokens now (ag_tenant a) (ag_agent a) st))
     (newest_first ag_updated (filter (\<lambda>a. given tenant (ag_tenant a)) (agents st)))"

section \<open>Containment\<close>

text \<open>The clock is read for the row, and read again by a revocation.\<close>

definition contain_agent :: "time \<Rightarrow> time \<Rightarrow> string \<Rightarrow> string \<Rightarrow> string \<Rightarrow> containment_mode \<Rightarrow> string \<Rightarrow> string \<Rightarrow> int \<Rightarrow>
    string list \<Rightarrow> string option \<Rightarrow> store \<Rightarrow> containment_row \<times> store" where
  "contain_agent now again i tenant agent mode reason reviewer duration tools incident st =
     (let row = \<lparr>co_id = i, co_tenant = tenant, co_agent = agent, co_mode = mode, co_reason = reason,
                 co_reviewer = reviewer, co_allowed_tools = sorted_set tools, co_incident = incident,
                 co_created = now, co_expires = now + seconds duration, co_released = None\<rparr>;
          st1 = st\<lparr>containments := containments st @ [row]\<rparr>
      in (row, if mode = REVOKE then snd (revoke_agent_tokens again tenant agent reason st1) else st1))"

definition containment_live :: "time \<Rightarrow> containment_row \<Rightarrow> bool" where
  "containment_live now c \<longleftrightarrow> co_released c = None \<and> now < co_expires c"

definition active_containment :: "time \<Rightarrow> string \<Rightarrow> string \<Rightarrow> store \<Rightarrow> containment_row option" where
  "active_containment now tenant agent st =
     (case newest_first co_created (filter (\<lambda>c. co_tenant c = tenant \<and> co_agent c = agent \<and> containment_live now c)
        (containments st)) of [] \<Rightarrow> None | c # _ \<Rightarrow> Some c)"

definition list_containments :: "time \<Rightarrow> bool \<Rightarrow> store \<Rightarrow> containment_row list" where
  "list_containments now active_only st =
     newest_first co_created (filter (\<lambda>c. active_only \<longrightarrow> containment_live now c) (containments st))"

definition release_containment :: "time \<Rightarrow> string \<Rightarrow> store \<Rightarrow> bool \<times> store" where
  "release_containment now i st =
     (let target = (\<lambda>c. co_id c = i \<and> co_released c = None)
      in (count_where target (containments st) = 1,
          st\<lparr>containments := update_where target (\<lambda>c. c\<lparr>co_released := Some now\<rparr>) (containments st)\<rparr>))"

section \<open>Quarantine\<close>

definition quarantine :: "time \<Rightarrow> time \<Rightarrow> string \<Rightarrow> string \<Rightarrow> string \<Rightarrow> string \<Rightarrow> store \<Rightarrow> store" where
  "quarantine now again i tenant agent reason st =
     (let st1 = st\<lparr>quarantines := upsert (\<lambda>q. qu_tenant q = tenant \<and> qu_agent q = agent)
            \<lparr>qu_tenant = tenant, qu_agent = agent, qu_reason = reason, qu_created = now, qu_released = None,
             qu_reviewer = None, qu_note = []\<rparr>
            (\<lambda>q. q\<lparr>qu_reason := reason, qu_created := now, qu_released := None, qu_reviewer := None, qu_note := []\<rparr>)
            (quarantines st)\<rparr>
      in snd (contain_agent again again i tenant agent QUARANTINE reason ''sentinelgate-auto-response'' 900 [] None st1))"

definition quarantine_open :: "string \<Rightarrow> string \<Rightarrow> quarantine_row \<Rightarrow> bool" where
  "quarantine_open tenant agent q \<longleftrightarrow> qu_tenant q = tenant \<and> qu_agent q = agent \<and> qu_released q = None"

definition is_quarantined :: "time \<Rightarrow> string \<Rightarrow> string \<Rightarrow> store \<Rightarrow> bool" where
  "is_quarantined now tenant agent st \<longleftrightarrow>
     (case active_containment now tenant agent st of None \<Rightarrow> False | Some c \<Rightarrow> co_mode c \<in> {QUARANTINE, REVOKE})
     \<or> list_ex (quarantine_open tenant agent) (quarantines st)"

definition release_agent :: "time \<Rightarrow> string \<Rightarrow> string \<Rightarrow> string \<Rightarrow> string \<Rightarrow> store \<Rightarrow> bool \<times> store" where
  "release_agent now tenant agent reviewer remark st =
     (count_where (quarantine_open tenant agent) (quarantines st) = 1,
      st\<lparr>quarantines := update_where (quarantine_open tenant agent)
           (\<lambda>q. q\<lparr>qu_released := Some now, qu_reviewer := Some reviewer, qu_note := remark\<rparr>) (quarantines st),
         containments := update_where (\<lambda>c. co_tenant c = tenant \<and> co_agent c = agent \<and> co_released c = None
             \<and> co_mode c = QUARANTINE) (\<lambda>c. c\<lparr>co_released := Some now\<rparr>) (containments st)\<rparr>)"

section \<open>Every operation on these tables\<close>

inductive agent_move :: "store \<Rightarrow> store \<Rightarrow> bool" where
  Register: "register_agent_token now agent owner st = Inr st' \<Longrightarrow> agent_move st st'"
| Revoke: "agent_move st (snd (revoke_agent_tokens now tenant agent reason st))"
| Contain: "agent_move st (snd (contain_agent now again i tenant agent mode reason reviewer duration tools incident st))"
| Uncontain: "agent_move st (snd (release_containment now i st))"
| Quarantine: "agent_move st (quarantine now again i tenant agent reason st)"
| Release: "agent_move st (snd (release_agent now tenant agent reviewer remark st))"

inductive_cases agent_moveE: "agent_move st st'"

definition revoked_token :: "string \<Rightarrow> store \<Rightarrow> bool" where
  "revoked_token i st \<longleftrightarrow> (\<exists>t \<in> set (agent_tokens st). tk_id t = i \<and> tk_revoked t \<noteq> None)"

definition tokens_wf :: "store \<Rightarrow> bool" where
  "tokens_wf st \<longleftrightarrow> distinct (map tk_id (agent_tokens st))"

lemma revoke_tokens [simp]:
  "map tk_id (agent_tokens (snd (revoke_agent_tokens now t a r st))) = map tk_id (agent_tokens st)"
  by (simp add: revoke_agent_tokens_def Let_def map_update_where)

lemma contain_tokens [simp]:
  "map tk_id (agent_tokens (snd (contain_agent now again i t a m r rv d tools inc st))) = map tk_id (agent_tokens st)"
  using revoke_tokens [of now t a r "st\<lparr>containments := c\<rparr>" for c]
  by (simp add: contain_agent_def Let_def)

lemma quarantine_tokens [simp]: "agent_tokens (quarantine now again i t a r st) = agent_tokens st"
  by (simp add: quarantine_def contain_agent_def Let_def)

lemma move_tokens_wf: "agent_move st st' \<Longrightarrow> tokens_wf st \<Longrightarrow> tokens_wf st'"
  by (induction rule: agent_move.induct)
     (auto simp: tokens_wf_def register_agent_token_def list_ex_iff release_containment_def release_agent_def Let_def
       simp del: set_map split: if_splits, auto)

lemma revoked_update:
  "revoked_token i st \<Longrightarrow> agent_tokens st' = update_where P (\<lambda>t. t\<lparr>tk_revoked := Some n, tk_reason := r\<rparr>) (agent_tokens st) \<Longrightarrow>
   revoked_token i st'"
  by (auto simp: revoked_token_def ex_update_where)

lemma revoke_keeps: "revoked_token i st \<Longrightarrow> revoked_token i (snd (revoke_agent_tokens now t a r st))"
  by (rule revoked_update) (auto simp: revoke_agent_tokens_def Let_def)

lemma revoked_cong: "agent_tokens st' = agent_tokens st \<Longrightarrow> revoked_token i st \<Longrightarrow> revoked_token i st'"
  by (simp add: revoked_token_def)

lemma move_revoked: "agent_move st st' \<Longrightarrow> revoked_token i st \<Longrightarrow> revoked_token i st'"
proof (induction rule: agent_move.induct)
  case (Register now agent owner st st')
  then show ?case by (auto simp: register_agent_token_def revoked_token_def split: if_splits)
next
  case (Contain st now again j tenant agent mode reason reviewer duration tools incident)
  have "revoked_token i (st\<lparr>containments := cs\<rparr>)" for cs using Contain by (simp add: revoked_token_def)
  then show ?case by (simp add: contain_agent_def Let_def revoke_keeps)
next
  case (Release st now tenant agent reviewer remark)
  then show ?case by (simp add: release_agent_def revoked_token_def)
next
  case (Uncontain st now j)
  then show ?case by (simp add: release_containment_def Let_def revoked_token_def)
qed (auto intro: revoke_keeps revoked_cong)

lemma moves_revoked:
  "agent_move\<^sup>*\<^sup>* st st' \<Longrightarrow> tokens_wf st \<Longrightarrow> revoked_token i st \<Longrightarrow> tokens_wf st' \<and> revoked_token i st'"
proof (induction rule: rtranclp_induct)
  case (step y z)
  then show ?case using move_tokens_wf [of y z] move_revoked [of y z i] by blast
qed simp

lemma revoked_inactive:
  assumes "tokens_wf st" "revoked_token (pr_token_id p) st" shows "\<not> token_is_active now p st"
proof (cases "select_one (token_row_of p) (agent_tokens st)")
  case (Some t)
  then have t: "t \<in> set (agent_tokens st)" "tk_id t = pr_token_id p"
    using select_one_Some [OF Some] by (auto simp: token_row_of_def)
  obtain q where q: "q \<in> set (agent_tokens st)" "tk_id q = pr_token_id p" "tk_revoked q \<noteq> None"
    using assms(2) by (auto simp: revoked_token_def)
  then have "q = t" using distinct_key [of tk_id "agent_tokens st" q t] assms(1) t by (simp add: tokens_wf_def)
  with q Some show ?thesis by (auto simp: token_is_active_def split: option.splits)
qed (simp add: token_is_active_def)

text \<open>Revocation marks every token of the agent.\<close>

lemma revoke_revokes:
  assumes "t \<in> set (agent_tokens st)" "tk_tenant t = tenant" "tk_agent t = agent"
  shows "revoked_token (tk_id t) (snd (revoke_agent_tokens now tenant agent reason st))"
proof -
  have "\<exists>q \<in> set (agent_tokens (snd (revoke_agent_tokens now tenant agent reason st))). tk_id q = tk_id t \<and> tk_revoked q \<noteq> None"
    unfolding revoke_agent_tokens_def Let_def snd_conv select_convs surjective update_convs
    using assms by (cases "tk_revoked t") (auto simp: ex_update_where intro!: bexI [of _ t])
  then show ?thesis by (auto simp: revoked_token_def)
qed

section \<open>A quarantine holds until it is released\<close>

definition held :: "string \<Rightarrow> string \<Rightarrow> store \<Rightarrow> bool" where
  "held tenant agent st \<longleftrightarrow> list_ex (quarantine_open tenant agent) (quarantines st)"

lemma held_quarantined: "held tenant agent st \<Longrightarrow> is_quarantined now tenant agent st"
  by (simp add: held_def is_quarantined_def)

lemma held_iff: "held tenant agent st \<longleftrightarrow> (\<exists>q \<in> set (quarantines st). quarantine_open tenant agent q)"
  by (simp add: held_def list_ex_iff)

lemma quarantine_rows:
  "quarantines (quarantine now again i tenant agent reason st) = upsert (\<lambda>q. qu_tenant q = tenant \<and> qu_agent q = agent)
     \<lparr>qu_tenant = tenant, qu_agent = agent, qu_reason = reason, qu_created = now, qu_released = None,
      qu_reviewer = None, qu_note = []\<rparr>
     (\<lambda>q. q\<lparr>qu_reason := reason, qu_created := now, qu_released := None, qu_reviewer := None, qu_note := []\<rparr>)
     (quarantines st)"
  by (simp add: quarantine_def contain_agent_def Let_def)

lemma quarantine_holds: "held tenant agent (quarantine now again i tenant agent reason st)"
proof (cases "list_ex (\<lambda>q. qu_tenant q = tenant \<and> qu_agent q = agent) (quarantines st)")
  case True
  then obtain q where "q \<in> set (quarantines st)" "qu_tenant q = tenant" "qu_agent q = agent" by (auto simp: list_ex_iff)
  then show ?thesis unfolding held_iff quarantine_rows
    by (simp add: upsert_def True ex_update_where quarantine_open_def) blast
next
  case False
  then show ?thesis unfolding held_iff quarantine_rows by (simp add: upsert_def quarantine_open_def)
qed

lemma quarantine_keeps:
  assumes "held tenant agent st" shows "held tenant agent (quarantine now again i t a reason st)"
proof -
  obtain q where q: "q \<in> set (quarantines st)" "quarantine_open tenant agent q" using assms by (auto simp: held_iff)
  show ?thesis
  proof (cases "qu_tenant q = t \<and> qu_agent q = a")
    case True
    then have "t = tenant" "a = agent" using q(2) by (auto simp: quarantine_open_def)
    then show ?thesis using quarantine_holds by simp
  next
    case False
    then have "q \<in> set (quarantines (quarantine now again i t a reason st))"
      using q(1) by (auto simp: quarantine_rows upsert_def set_update_where)
    then show ?thesis using q(2) by (auto simp: held_iff)
  qed
qed

lemma revoke_quarantines [simp]: "quarantines (snd (revoke_agent_tokens now t a r st)) = quarantines st"
  by (simp add: revoke_agent_tokens_def Let_def)

lemma contain_quarantines [simp]:
  "quarantines (snd (contain_agent now again i t a m r rv d tools inc st)) = quarantines st"
  by (simp add: contain_agent_def Let_def)

lemma release_other:
  assumes "held tenant agent st" "(t, a) \<noteq> (tenant, agent)"
  shows "held tenant agent (snd (release_agent now t a reviewer remark st))"
proof -
  obtain q where q: "q \<in> set (quarantines st)" "quarantine_open tenant agent q" using assms by (auto simp: held_iff)
  then have "\<not> quarantine_open t a q" using assms(2) by (auto simp: quarantine_open_def)
  then have "q \<in> set (quarantines (snd (release_agent now t a reviewer remark st)))"
    using q(1) by (simp add: release_agent_def set_update_where)
  then show ?thesis using q(2) by (auto simp: held_iff)
qed

text \<open>Every operation but the release of this agent.\<close>

inductive unreleased :: "string \<Rightarrow> string \<Rightarrow> store \<Rightarrow> store \<Rightarrow> bool" for tenant agent where
  Refl: "unreleased tenant agent st st"
| Step: "unreleased tenant agent st st1 \<Longrightarrow> agent_move st1 st2 \<Longrightarrow>
    (\<And>now reviewer remark. st2 \<noteq> snd (release_agent now tenant agent reviewer remark st1)) \<Longrightarrow>
    unreleased tenant agent st st2"

lemma unreleased_held: "unreleased tenant agent st st' \<Longrightarrow> held tenant agent st \<Longrightarrow> held tenant agent st'"
proof (induction rule: unreleased.induct)
  case (Step st st1 st2)
  then have h: "held tenant agent st1" by simp
  from Step(2,3) h show ?case
  proof (cases rule: agent_move.cases)
    case (Register now p owner)
    then show ?thesis using h by (auto simp: held_iff register_agent_token_def split: if_splits)
  next
    case (Release now t a reviewer remark)
    then have "(t, a) \<noteq> (tenant, agent)" using Step(3) by blast
    then show ?thesis using Release(1) release_other [OF h] by simp
  qed (auto simp: held_def quarantine_keeps [unfolded held_def] release_containment_def Let_def)
qed simp

section \<open>Properties\<close>

text \<open>
  Revocation is final: once the tokens of an agent are revoked, a token that the agent held then
  is not active after any sequence of operations on agents, tokens, containments and quarantines,
  the registration of new tokens and the release of the agent included.
\<close>

theorem revocation_final:
  assumes "tokens_wf st" and "t \<in> set (agent_tokens st)" and "tk_id t = pr_token_id p"
    and "tk_tenant t = tenant" and "tk_agent t = agent"
    and "agent_move\<^sup>*\<^sup>* (snd (revoke_agent_tokens now tenant agent reason st)) st'"
  shows "\<not> token_is_active later p st'"
proof -
  have "agent_move st (snd (revoke_agent_tokens now tenant agent reason st))" by (rule Revoke)
  then have "tokens_wf (snd (revoke_agent_tokens now tenant agent reason st))" using assms(1) by (rule move_tokens_wf)
  moreover have "revoked_token (pr_token_id p) (snd (revoke_agent_tokens now tenant agent reason st))"
    using revoke_revokes [OF assms(2,4,5)] by (simp add: assms(3))
  ultimately show ?thesis using moves_revoked [OF assms(6)] revoked_inactive by blast
qed

definition demo_token_store :: store where
  "demo_token_store = (case register_agent_token 0 demo_agent ''owner'' empty_store of Inr st \<Rightarrow> st | Inl e \<Rightarrow> empty_store)"

definition demo_token :: token_row where
  "demo_token = \<lparr>tk_id = pr_token_id demo_agent, tk_tenant = pr_tenant_id demo_agent, tk_agent = pr_agent_id demo_agent,
     tk_expires = pr_expires_at demo_agent, tk_revoked = None, tk_reason = None\<rparr>"

lemma demo_token_store_tokens: "agent_tokens demo_token_store = [demo_token]"
  by (simp add: demo_token_store_def register_agent_token_def empty_store_def demo_token_def)

theorem revocation_final_witness:
  "token_is_active (-1) demo_agent demo_token_store
   \<and> \<not> token_is_active (-1) demo_agent (snd (revoke_agent_tokens 0 (pr_tenant_id demo_agent) (pr_agent_id demo_agent) ''r'' demo_token_store))"
proof
  show "token_is_active (-1) demo_agent demo_token_store" by code_simp
  show "\<not> token_is_active (-1) demo_agent (snd (revoke_agent_tokens 0 (pr_tenant_id demo_agent) (pr_agent_id demo_agent) ''r'' demo_token_store))"
    by (rule revocation_final [where t = demo_token, OF _ _ _ _ _ rtranclp.rtrancl_refl])
       (simp_all add: tokens_wf_def demo_token_store_tokens demo_token_def)
qed

text \<open>
  An automatic quarantine holds: whatever operations on agents, tokens, containments and
  quarantines follow, at any later time, the agent is quarantined as long as none of them is the
  release of this agent, although the containment row of the quarantine expires after 900 seconds.
\<close>

theorem quarantine_until_release:
  assumes "unreleased tenant agent (quarantine now again i tenant agent reason st) st'"
  shows "is_quarantined later tenant agent st'"
  by (rule held_quarantined [OF unreleased_held [OF assms quarantine_holds]])

theorem quarantine_until_release_witness:
  "is_quarantined 1000000000 ''t'' ''a'' (snd (release_containment 5 ''q'' (quarantine 0 0 ''q'' ''t'' ''a'' ''r'' empty_store)))"
proof (rule quarantine_until_release [where now = 0 and i = "''q''" and reason = "''r''" and st = empty_store])
  let ?q = "quarantine 0 0 ''q'' ''t'' ''a'' ''r'' empty_store"
  have "quarantines (snd (release_containment 5 ''q'' ?q)) \<noteq> quarantines (snd (release_agent n ''t'' ''a'' rv m ?q))" for n rv m
    by (simp add: release_containment_def release_agent_def quarantine_def contain_agent_def Let_def empty_store_def upsert_def
      update_where_def quarantine_open_def)
  then have "snd (release_containment 5 ''q'' ?q) \<noteq> snd (release_agent n ''t'' ''a'' rv m ?q)" for n rv m by metis
  then show "unreleased ''t'' ''a'' ?q (snd (release_containment 5 ''q'' ?q))"
    using unreleased.Step [OF unreleased.Refl Uncontain] by blast
qed

text \<open>
  A later containment masks an earlier one: a reviewer's quarantine or revoke containment stops
  an agent only until a newer containment of another mode is written. After a monitor or restrict
  containment that is newer than every containment of the agent, the agent is not quarantined while
  it lives, whatever containments are still unexpired.
\<close>

theorem newer_containment_masks:
  assumes "mode = MONITOR \<or> mode = RESTRICT" and "\<not> held tenant agent st" and "0 < duration"
    and "\<forall>c \<in> set (containments st). co_created c < now" and "later < now + seconds duration"
  shows "\<not> is_quarantined later tenant agent (snd (contain_agent now again i tenant agent mode reason reviewer duration tools incident st))"
proof -
  define row where "row = \<lparr>co_id = i, co_tenant = tenant, co_agent = agent, co_mode = mode, co_reason = reason,
     co_reviewer = reviewer, co_allowed_tools = sorted_set tools, co_incident = incident,
     co_created = now, co_expires = now + seconds duration, co_released = None\<rparr>"
  let ?st = "snd (contain_agent now again i tenant agent mode reason reviewer duration tools incident st)"
  let ?rows = "filter (\<lambda>c. co_tenant c = tenant \<and> co_agent c = agent \<and> containment_live later c) (containments ?st)"
  have c: "containments ?st = containments st @ [row]"
    using assms(1) by (auto simp: contain_agent_def Let_def row_def)
  have live: "row \<in> set ?rows" using assms(5) by (simp add: c containment_live_def row_def)
  then have ne: "?rows \<noteq> []" by (metis empty_iff list.set(1))
  then obtain d ds where d: "newest_first co_created ?rows = d # ds"
    by (cases "newest_first co_created ?rows") auto
  have le: "co_created row \<le> co_created d" using newest_first_hd [OF ne live, of co_created] by (simp add: d)
  have "d \<in> set (newest_first co_created ?rows)" unfolding d by simp
  then have "d \<in> set (containments st @ [row])" unfolding set_newest_first by (auto simp: c split: if_splits)
  then have "d = row" using assms(4) le by (auto simp: row_def)
  then have "active_containment later tenant agent ?st = Some row" by (simp add: active_containment_def d)
  moreover have "\<not> held tenant agent ?st" using assms(2) by (simp add: held_def)
  ultimately show ?thesis using assms(1) by (auto simp: is_quarantined_def held_def row_def)
qed

theorem newer_containment_masks_witness:
  "\<exists>st. is_quarantined 50 ''t'' ''a'' st
     \<and> \<not> is_quarantined 50 ''t'' ''a'' (snd (contain_agent 20 20 ''m'' ''t'' ''a'' MONITOR ''r'' ''rv'' 60 [] None st))"
proof
  let ?st = "snd (contain_agent 10 10 ''q'' ''t'' ''a'' QUARANTINE ''r'' ''rv'' 60 [] None empty_store)"
  have "is_quarantined 50 ''t'' ''a'' ?st" by code_simp
  moreover have "\<not> held ''t'' ''a'' ?st" by code_simp
  moreover have "\<forall>c \<in> set (containments ?st). co_created c < 20"
    by (simp add: contain_agent_def Let_def empty_store_def)
  ultimately show "is_quarantined 50 ''t'' ''a'' ?st
     \<and> \<not> is_quarantined 50 ''t'' ''a'' (snd (contain_agent 20 20 ''m'' ''t'' ''a'' MONITOR ''r'' ''rv'' 60 [] None ?st))"
    using newer_containment_masks [of MONITOR "''t''" "''a''" ?st 60 20 50 20 "''m''" "''r''" "''rv''" "[]" None] by (simp add: seconds_def)
qed

end
