(* ===== verification/One_Shot.thy ===== *)
theory One_Shot
  imports Main
begin

text \<open>
  The contract of an operation that may succeed at most once per key: the consumption of an
  approval, the claim of an execution, the completion of a job. A successful claim spends its key,
  and nothing unspends a key; then the keys of the successful claims of any run are distinct.
\<close>

datatype ('c, 'o) act = Claim 'c | Other 'o

text \<open>The claims that succeed in a run of claims and other operations.\<close>

fun wins :: "('c \<Rightarrow> 's \<Rightarrow> bool \<times> 's) \<Rightarrow> ('o \<Rightarrow> 's \<Rightarrow> 's) \<Rightarrow> ('c, 'o) act list \<Rightarrow> 's \<Rightarrow> 'c list" where
  "wins claim oth [] st = []"
| "wins claim oth (Claim c # acts) st = (case claim c st of
      (True, st') \<Rightarrow> c # wins claim oth acts st'
    | (False, st') \<Rightarrow> wins claim oth acts st')"
| "wins claim oth (Other o' # acts) st = wins claim oth acts (oth o' st)"

locale one_shot =
  fixes claim :: "'c \<Rightarrow> 's \<Rightarrow> bool \<times> 's" and key :: "'c \<Rightarrow> 'k" and oth :: "'o \<Rightarrow> 's \<Rightarrow> 's"
    and spent :: "'k \<Rightarrow> 's \<Rightarrow> bool" and ok :: "'s \<Rightarrow> bool"
  assumes claim_ok: "ok st \<Longrightarrow> claim c st = (b, st') \<Longrightarrow> ok st'"
    and other_ok: "ok st \<Longrightarrow> ok (oth o' st)"
    and claim_once: "ok st \<Longrightarrow> claim c st = (True, st') \<Longrightarrow> \<not> spent (key c) st \<and> spent (key c) st'"
    and claim_keeps: "ok st \<Longrightarrow> claim c st = (b, st') \<Longrightarrow> spent k st \<Longrightarrow> spent k st'"
    and other_keeps: "ok st \<Longrightarrow> spent k st \<Longrightarrow> spent k (oth o' st)"
begin

lemma wins_not_spent: "ok st \<Longrightarrow> c \<in> set (wins claim oth acts st) \<Longrightarrow> \<not> spent (key c) st"
proof (induction acts arbitrary: st)
  case (Cons a acts)
  show ?case
  proof (cases a)
    case (Claim d)
    obtain b st' where d: "claim d st = (b, st')" by force
    show ?thesis
    proof (cases "b \<and> c = d")
      case True
      then show ?thesis using claim_once [OF Cons.prems(1)] d by auto
    next
      case False
      then have "c \<in> set (wins claim oth acts st')" using Cons.prems d Claim by (cases b) auto
      then show ?thesis using Cons.IH claim_ok [OF Cons.prems(1) d] claim_keeps [OF Cons.prems(1) d] by blast
    qed
  next
    case (Other o')
    then have "c \<in> set (wins claim oth acts (oth o' st))" using Cons.prems by simp
    then show ?thesis using Cons.IH [OF other_ok [OF Cons.prems(1)]] other_keeps [OF Cons.prems(1)] by blast
  qed
qed simp

theorem at_most_once: "ok st \<Longrightarrow> distinct (map key (wins claim oth acts st))"
proof (induction acts arbitrary: st)
  case (Cons a acts)
  show ?case
  proof (cases a)
    case (Claim d)
    obtain b st' where d: "claim d st = (b, st')" by force
    then have ok: "ok st'" using claim_ok Cons.prems by blast
    show ?thesis
    proof (cases b)
      case True
      then have "spent (key d) st'" using claim_once [of st d st'] Cons.prems d by simp
      then have "key d \<notin> key ` set (wins claim oth acts st')" using wins_not_spent [OF ok] by fastforce
      then show ?thesis using Cons.IH [OF ok] d True Claim by simp
    next
      case False
      then show ?thesis using Cons.IH [OF ok] d Claim by simp
    qed
  qed (use Cons.IH other_ok Cons.prems in simp)
qed simp

end

end
