(* ===== verification/Store_Outbox.thy ===== *)
theory Store_Outbox
  imports Tables One_Shot
begin

text \<open>
  The durable outbox of \<^verbatim>\<open>storage.py\<close>: jobs are enqueued once per kind and deduplication key,
  claimed under a lease by one worker, completed or retried by that worker, and given up after
  their last attempt. The lemmas give the life of a job: the invariant of the table, the terminal
  statuses, the bound on claims, and the lease that keeps two workers apart.
\<close>

section \<open>Operations\<close>

definition job_key :: "job_row \<Rightarrow> string \<times> string" where
  "job_key j = (jo_kind j, jo_dedup j)"

definition new_job :: "time \<Rightarrow> string \<Rightarrow> string \<Rightarrow> string \<Rightarrow> (string, json) dict \<Rightarrow> int \<Rightarrow> job_row" where
  "new_job now i kind dedup payload max_attempts =
     \<lparr>jo_id = i, jo_kind = kind, jo_dedup = dedup, jo_payload = canonical_value (JDict payload), jo_status = ''pending'',
      jo_attempts = 0, jo_max_attempts = max_attempts, jo_next_attempt = now, jo_locked_by = None, jo_locked_at = None,
      jo_last_error = None, jo_created = now, jo_completed = None\<rparr>"

definition enqueue_outbox :: "time \<Rightarrow> string \<Rightarrow> string \<Rightarrow> string \<Rightarrow> (string, json) dict \<Rightarrow> int \<Rightarrow> store \<Rightarrow>
    exc + string \<times> store" where
  "enqueue_outbox now i kind dedup payload max_attempts st =
     (if list_ex (\<lambda>j. jo_id j = i) (outbox_jobs st) then Inl (IntegrityError ''outbox_jobs.id'')
      else case select_one (\<lambda>j. jo_kind j = kind \<and> jo_dedup j = dedup) (outbox_jobs st) of
        Some j \<Rightarrow> Inr (jo_id j, st)
      | None \<Rightarrow> Inr (i, st\<lparr>outbox_jobs := outbox_jobs st @ [new_job now i kind dedup payload max_attempts]\<rparr>))"

definition claimable :: "time \<Rightarrow> int \<Rightarrow> job_row \<Rightarrow> bool" where
  "claimable now lease j \<longleftrightarrow> jo_attempts j < jo_max_attempts j \<and> jo_next_attempt j \<le> now
     \<and> (jo_status j \<in> {''pending'', ''retry''}
        \<or> jo_status j = ''processing'' \<and> (case jo_locked_at j of None \<Rightarrow> False | Some t \<Rightarrow> t \<le> now - seconds lease))"

text \<open>\<^verbatim>\<open>ORDER BY created_at, id LIMIT 1\<close>\<close>

definition next_job :: "time \<Rightarrow> int \<Rightarrow> job_row list \<Rightarrow> job_row option" where
  "next_job now lease jobs =
     (case sort_key (\<lambda>j. (jo_created j, jo_id j)) (filter (claimable now lease) jobs) of [] \<Rightarrow> None | j # _ \<Rightarrow> Some j)"

definition start_attempt :: "time \<Rightarrow> string \<Rightarrow> job_row \<Rightarrow> job_row" where
  "start_attempt now worker j =
     j\<lparr>jo_status := ''processing'', jo_attempts := jo_attempts j + 1, jo_locked_by := Some worker, jo_locked_at := Some now\<rparr>"

text \<open>The claimed row and its decoded payload; a payload that is not JSON raises after the update is committed.\<close>

definition claim_outbox :: "time \<Rightarrow> string \<Rightarrow> int \<Rightarrow> store \<Rightarrow> (exc + (job_row \<times> json) option) \<times> store" where
  "claim_outbox now worker lease st = (case next_job now lease (outbox_jobs st) of
      None \<Rightarrow> (Inr None, st)
    | Some j \<Rightarrow> (let j' = start_attempt now worker j;
                    st' = st\<lparr>outbox_jobs := update_where (\<lambda>r. jo_id r = jo_id j) (start_attempt now worker) (outbox_jobs st)\<rparr>
                in (case loads (jo_payload j') of
                      None \<Rightarrow> (Inl (ValueError ''JSONDecodeError''), st')
                    | Some v \<Rightarrow> (Inr (Some (j', v)), st'))))"

definition held_by :: "string \<Rightarrow> string \<Rightarrow> job_row \<Rightarrow> bool" where
  "held_by i worker j \<longleftrightarrow> jo_id j = i \<and> jo_status j = ''processing'' \<and> jo_locked_by j = Some worker"

definition complete_job :: "time \<Rightarrow> job_row \<Rightarrow> job_row" where
  "complete_job now j = j\<lparr>jo_status := ''completed'', jo_completed := Some now, jo_locked_by := None, jo_locked_at := None,
     jo_last_error := None\<rparr>"

definition complete_outbox :: "time \<Rightarrow> string \<Rightarrow> string \<Rightarrow> store \<Rightarrow> bool \<times> store" where
  "complete_outbox now i worker st =
     (count_where (held_by i worker) (outbox_jobs st) = 1,
      st\<lparr>outbox_jobs := update_where (held_by i worker) (complete_job now) (outbox_jobs st)\<rparr>)"

definition give_back :: "time \<Rightarrow> string \<Rightarrow> string \<Rightarrow> job_row \<Rightarrow> job_row" where
  "give_back at_time status err j = j\<lparr>jo_status := status, jo_next_attempt := at_time, jo_locked_by := None,
     jo_locked_at := None, jo_last_error := Some (take 500 err)\<rparr>"

definition retry_outbox :: "time \<Rightarrow> string \<Rightarrow> string \<Rightarrow> string \<Rightarrow> int \<Rightarrow> store \<Rightarrow> bool \<times> store" where
  "retry_outbox now i worker err delay st = (case select_one (\<lambda>j. jo_id j = i) (outbox_jobs st) of
      None \<Rightarrow> (False, st)
    | Some j \<Rightarrow> (let status = (if jo_attempts j \<ge> jo_max_attempts j then ''dead'' else ''retry'')
                in (count_where (held_by i worker) (outbox_jobs st) = 1,
                    st\<lparr>outbox_jobs := update_where (held_by i worker) (give_back (now + seconds delay) status err)
                         (outbox_jobs st)\<rparr>)))"

record job_view =
  jv_id :: string
  jv_kind :: string
  jv_status :: string
  jv_attempts :: int
  jv_max_attempts :: int
  jv_next_attempt :: time
  jv_locked_by :: "string option"
  jv_last_error :: "string option"
  jv_created :: time
  jv_completed :: "time option"

definition job_view_of :: "job_row \<Rightarrow> job_view" where
  "job_view_of j = \<lparr>jv_id = jo_id j, jv_kind = jo_kind j, jv_status = jo_status j, jv_attempts = jo_attempts j,
     jv_max_attempts = jo_max_attempts j, jv_next_attempt = jo_next_attempt j, jv_locked_by = jo_locked_by j,
     jv_last_error = jo_last_error j, jv_created = jo_created j, jv_completed = jo_completed j\<rparr>"

definition list_outbox :: "nat \<Rightarrow> store \<Rightarrow> job_view list" where
  "list_outbox limit st = map job_view_of (take limit (rev (sort_key (\<lambda>j. (jo_created j, jo_id j)) (outbox_jobs st))))"

definition heartbeat_worker :: "time \<Rightarrow> string \<Rightarrow> int \<Rightarrow> int \<Rightarrow> store \<Rightarrow> store" where
  "heartbeat_worker now worker processed failed st =
     st\<lparr>worker_heartbeats := upsert (\<lambda>h. hb_worker h = worker)
          \<lparr>hb_worker = worker, hb_started = now, hb_last_seen = now, hb_processed = processed, hb_failed = failed\<rparr>
          (\<lambda>h. h\<lparr>hb_last_seen := now, hb_processed := hb_processed h + processed, hb_failed := hb_failed h + failed\<rparr>)
          (worker_heartbeats st)\<rparr>"

definition worker_status :: "time \<Rightarrow> int \<Rightarrow> store \<Rightarrow> (heartbeat_row \<times> string) list" where
  "worker_status now stale_after st =
     map (\<lambda>h. (h, if now - seconds stale_after \<le> hb_last_seen h then ''online'' else ''stale''))
       (newest_first hb_last_seen (worker_heartbeats st))"

section \<open>Every operation on the jobs\<close>

datatype job_op =
    Enqueue time string string string "(string, json) dict" int
  | Take time string int
  | Finish time string string
  | Give_Back time string string string int

fun job_step :: "job_op \<Rightarrow> store \<Rightarrow> store" where
  "job_step (Enqueue now i kind dedup payload m) st =
     (case enqueue_outbox now i kind dedup payload m st of Inr (r, st') \<Rightarrow> st' | Inl e \<Rightarrow> st)"
| "job_step (Take now worker lease) st = snd (claim_outbox now worker lease st)"
| "job_step (Finish now i worker) st = snd (complete_outbox now i worker st)"
| "job_step (Give_Back now i worker err delay) st = snd (retry_outbox now i worker err delay st)"

definition run_jobs :: "job_op list \<Rightarrow> store \<Rightarrow> store" where
  "run_jobs ops st = fold job_step ops st"

lemma run_jobs_simps [simp]: "run_jobs [] st = st" "run_jobs (op # ops) st = run_jobs ops (job_step op st)"
  by (simp_all add: run_jobs_def)

text \<open>What the columns of a job say together.\<close>

definition job_ok :: "job_row \<Rightarrow> bool" where
  "job_ok j \<longleftrightarrow> 0 \<le> jo_attempts j \<and> jo_attempts j \<le> max 0 (jo_max_attempts j)
     \<and> jo_status j \<in> {''pending'', ''processing'', ''retry'', ''completed'', ''dead''}
     \<and> (jo_status j = ''processing'' \<longleftrightarrow> jo_locked_by j \<noteq> None) \<and> (jo_locked_by j = None \<longleftrightarrow> jo_locked_at j = None)
     \<and> (jo_status j = ''completed'' \<longleftrightarrow> jo_completed j \<noteq> None)
     \<and> (jo_status j = ''pending'' \<longrightarrow> jo_attempts j = 0) \<and> (jo_status j = ''retry'' \<longrightarrow> jo_attempts j < jo_max_attempts j)
     \<and> (jo_status j = ''dead'' \<longrightarrow> jo_max_attempts j \<le> jo_attempts j)"

definition jobs_wf :: "store \<Rightarrow> bool" where
  "jobs_wf st \<longleftrightarrow> distinct (map jo_id (outbox_jobs st)) \<and> distinct (map job_key (outbox_jobs st))
     \<and> (\<forall>j \<in> set (outbox_jobs st). job_ok j)"

lemmas job_updates = start_attempt_def complete_job_def give_back_def

lemma update_ids [simp]:
  "jo_id (start_attempt now w j) = jo_id j" "jo_id (complete_job now j) = jo_id j" "jo_id (give_back t s e j) = jo_id j"
  "job_key (start_attempt now w j) = job_key j" "job_key (complete_job now j) = job_key j" "job_key (give_back t s e j) = job_key j"
  by (simp_all add: job_updates job_key_def)

lemma next_job_Some: "next_job now lease jobs = Some j \<Longrightarrow> j \<in> set jobs \<and> claimable now lease j"
proof -
  assume "next_job now lease jobs = Some j"
  then obtain js where s: "sort_key (\<lambda>j. (jo_created j, jo_id j)) (filter (claimable now lease) jobs) = j # js"
    by (auto simp: next_job_def split: list.splits)
  have "j \<in> set (sort_key (\<lambda>j. (jo_created j, jo_id j)) (filter (claimable now lease) jobs))" unfolding s by simp
  then show ?thesis by simp
qed

lemma next_job_None: "next_job now lease jobs = None \<longleftrightarrow> (\<forall>j \<in> set jobs. \<not> claimable now lease j)"
proof -
  have "next_job now lease jobs = None \<longleftrightarrow> sort_key (\<lambda>j. (jo_created j, jo_id j)) (filter (claimable now lease) jobs) = []"
    by (simp add: next_job_def split: list.splits)
  then show ?thesis by (metis filter_empty_conv length_0_conv length_sort)
qed

lemma next_job_least:
  assumes "next_job now lease jobs = Some j" "k \<in> set jobs" "claimable now lease k"
  shows "(jo_created j, jo_id j) \<le> (jo_created k, jo_id k)"
proof -
  let ?key = "\<lambda>j. (jo_created j, jo_id j)"
  let ?s = "sort_key ?key (filter (claimable now lease) jobs)"
  obtain js where s: "?s = j # js" using assms(1) by (auto simp: next_job_def split: list.splits)
  have "k \<in> set ?s" using assms(2,3) by simp
  moreover have "sorted (map ?key ?s)" by simp
  ultimately show ?thesis unfolding s by auto
qed

text \<open>A claim marks the next job, and only it.\<close>

lemma claim_jobs:
  "outbox_jobs (snd (claim_outbox now w lease st)) = (case next_job now lease (outbox_jobs st) of
      None \<Rightarrow> outbox_jobs st
    | Some j \<Rightarrow> update_where (\<lambda>r. jo_id r = jo_id j) (start_attempt now w) (outbox_jobs st))"
  by (auto simp: claim_outbox_def Let_def split: option.splits)

lemma complete_jobs: "outbox_jobs (snd (complete_outbox now i w st)) = update_where (held_by i w) (complete_job now) (outbox_jobs st)"
  by (simp add: complete_outbox_def)

lemma retry_jobs:
  "outbox_jobs (snd (retry_outbox now i w err delay st)) = (case select_one (\<lambda>j. jo_id j = i) (outbox_jobs st) of
      None \<Rightarrow> outbox_jobs st
    | Some j \<Rightarrow> update_where (held_by i w) (give_back (now + seconds delay)
        (if jo_attempts j \<ge> jo_max_attempts j then ''dead'' else ''retry'') err) (outbox_jobs st))"
  by (simp add: retry_outbox_def Let_def split: option.splits)

lemma enqueue_jobs:
  "enqueue_outbox now i kind dedup payload m st = Inr (r, st') \<Longrightarrow>
     (st' = st \<and> (\<exists>j \<in> set (outbox_jobs st). jo_id j = r \<and> job_key j = (kind, dedup)))
   \<or> (r = i \<and> outbox_jobs st' = outbox_jobs st @ [new_job now i kind dedup payload m]
      \<and> (\<forall>j \<in> set (outbox_jobs st). jo_id j \<noteq> i \<and> job_key j \<noteq> (kind, dedup)))"
  by (auto simp: enqueue_outbox_def job_key_def list_ex_iff select_one_None dest!: select_one_Some
      split: if_splits option.splits)

lemma ok_new [simp]: "job_ok (new_job now i kind dedup payload m)"
  by (simp add: job_ok_def new_job_def)

lemma ok_start: "job_ok j \<Longrightarrow> claimable now lease j \<Longrightarrow> job_ok (start_attempt now' w j)"
  by (auto simp: job_ok_def claimable_def start_attempt_def)

lemma ok_complete: "job_ok j \<Longrightarrow> held_by i w j \<Longrightarrow> job_ok (complete_job now j)"
  by (simp add: job_ok_def held_by_def complete_job_def)

lemma ok_give_back: "job_ok j \<Longrightarrow> held_by i w j \<Longrightarrow>
    s = (if jo_attempts j \<ge> jo_max_attempts j then ''dead'' else ''retry'') \<Longrightarrow> job_ok (give_back t s e j)"
  by (auto simp: job_ok_def held_by_def give_back_def)

lemma wf_update:
  assumes "jobs_wf st" "outbox_jobs st' = update_where P f (outbox_jobs st)"
    and "\<And>j. jo_id (f j) = jo_id j" "\<And>j. job_key (f j) = job_key j"
    and "\<And>j. j \<in> set (outbox_jobs st) \<Longrightarrow> P j \<Longrightarrow> job_ok j \<Longrightarrow> job_ok (f j)"
  shows "jobs_wf st'"
proof -
  have "map jo_id (outbox_jobs st') = map jo_id (outbox_jobs st)" "map job_key (outbox_jobs st') = map job_key (outbox_jobs st)"
    unfolding assms(2) by (rule map_update_where, rule assms)+
  then show ?thesis using assms(1,2,5) by (simp add: jobs_wf_def all_update_where del: set_map)
qed

lemma wf_idD: "jobs_wf st \<Longrightarrow> j \<in> set (outbox_jobs st) \<Longrightarrow> k \<in> set (outbox_jobs st) \<Longrightarrow> jo_id j = jo_id k \<Longrightarrow> j = k"
  unfolding jobs_wf_def by (blast intro: distinct_key)

lemma step_wf: "jobs_wf st \<Longrightarrow> jobs_wf (job_step op st)"
proof (cases op)
  case (Enqueue now i kind dedup payload m)
  assume wf: "jobs_wf st"
  show ?thesis
  proof (cases "enqueue_outbox now i kind dedup payload m st")
    case (Inr p)
    obtain r st' where p: "p = (r, st')" by force
    have n: "jo_id (new_job now i kind dedup payload m) = i" "job_key (new_job now i kind dedup payload m) = (kind, dedup)"
      by (simp_all add: new_job_def job_key_def)
    have "jobs_wf st'" using enqueue_jobs [OF Inr [unfolded p]] wf n by (fastforce simp: jobs_wf_def)
    then show ?thesis by (simp add: Enqueue Inr p)
  qed (simp add: Enqueue wf)
next
  case (Take now w lease)
  assume wf: "jobs_wf st"
  show ?thesis
  proof (cases "next_job now lease (outbox_jobs st)")
    case None
    then show ?thesis using wf by (simp add: Take jobs_wf_def claim_jobs)
  next
    case (Some j)
    show ?thesis
    proof (rule wf_update [OF wf, where P = "\<lambda>r. jo_id r = jo_id j" and f = "start_attempt now w"])
      fix r assume "r \<in> set (outbox_jobs st)" "jo_id r = jo_id j" "job_ok r"
      moreover from this have "r = j" using next_job_Some [OF Some] wf_idD [OF wf] by blast
      ultimately show "job_ok (start_attempt now w r)" using next_job_Some [OF Some] ok_start by blast
    qed (simp_all add: Take claim_jobs Some)
  qed
next
  case (Finish now i w)
  assume wf: "jobs_wf st"
  show ?thesis
    by (rule wf_update [OF wf, where P = "held_by i w" and f = "complete_job now"])
       (simp_all add: Finish complete_jobs ok_complete)
next
  case (Give_Back now i w err delay)
  assume wf: "jobs_wf st"
  show ?thesis
  proof (cases "select_one (\<lambda>j. jo_id j = i) (outbox_jobs st)")
    case None
    then show ?thesis using wf by (simp add: Give_Back jobs_wf_def retry_jobs)
  next
    case (Some j)
    let ?s = "if jo_attempts j \<ge> jo_max_attempts j then ''dead'' else ''retry''"
    show ?thesis
    proof (rule wf_update [OF wf, where P = "held_by i w" and f = "give_back (now + seconds delay) ?s err"])
      fix r assume r: "r \<in> set (outbox_jobs st)" "held_by i w r" "job_ok r"
      then have "r = j" using select_one_Some [OF Some] wf_idD [OF wf, of r j] by (simp add: held_by_def)
      then show "job_ok (give_back (now + seconds delay) ?s err r)" using ok_give_back r by simp
    qed (simp_all add: Give_Back retry_jobs Some)
  qed
qed

lemma wf_empty [simp]: "jobs_wf empty_store"
  by (simp add: jobs_wf_def empty_store_def)

lemma run_wf: "jobs_wf st \<Longrightarrow> jobs_wf (run_jobs ops st)"
  by (induction ops arbitrary: st) (auto simp: step_wf)

section \<open>The row of a job\<close>

definition job_at :: "string \<Rightarrow> store \<Rightarrow> job_row option" where
  "job_at i st = select_one (\<lambda>j. jo_id j = i) (outbox_jobs st)"

lemma job_at_Some: "job_at i st = Some j \<Longrightarrow> j \<in> set (outbox_jobs st) \<and> jo_id j = i"
  using select_one_Some [of "\<lambda>j. jo_id j = i" "outbox_jobs st" j] by (simp add: job_at_def)

lemma job_at_in: "jobs_wf st \<Longrightarrow> j \<in> set (outbox_jobs st) \<Longrightarrow> job_at (jo_id j) st = Some j"
  unfolding job_at_def by (rule select_one_key [where k = jo_id]) (simp_all add: jobs_wf_def)

lemma job_at_update:
  "outbox_jobs st' = update_where P f (outbox_jobs st) \<Longrightarrow> (\<And>j. jo_id (f j) = jo_id j) \<Longrightarrow>
     job_at i st' = map_option (\<lambda>j. if P j then f j else j) (job_at i st)"
  unfolding job_at_def by (simp add: select_one_update_any)

lemma job_at_enqueue:
  assumes "job_at i st = Some j" shows "job_at i (job_step (Enqueue now i' kind dedup payload m) st) = Some j"
proof (cases "enqueue_outbox now i' kind dedup payload m st")
  case (Inr p)
  obtain r st' where p: "p = (r, st')" by force
  then show ?thesis using enqueue_jobs [OF Inr [unfolded p]] assms Inr
    by (auto simp: job_at_def select_one_snoc)
qed (simp add: assms)

lemma job_at_take:
  "job_at i (job_step (Take now w lease) st) = (case next_job now lease (outbox_jobs st) of
      Some j \<Rightarrow> map_option (\<lambda>k. if jo_id k = jo_id j then start_attempt now w k else k) (job_at i st)
    | None \<Rightarrow> job_at i st)"
  by (auto simp: job_at_def claim_jobs select_one_update_any split: option.splits)

lemma job_at_finish:
  "job_at i (job_step (Finish now i' w) st) = map_option (\<lambda>j. if held_by i' w j then complete_job now j else j) (job_at i st)"
  by (rule job_at_update) (simp_all add: complete_jobs)

lemma job_at_give_back:
  "\<exists>s. job_at i (job_step (Give_Back now i' w err delay) st) =
     map_option (\<lambda>j. if held_by i' w j then give_back (now + seconds delay) s err j else j) (job_at i st)"
proof (cases "job_at i' st")
  case None
  have "\<not> held_by i' w j" if "job_at i st = Some j" for j
    using None job_at_Some [OF that] by (auto simp: job_at_def select_one_None held_by_def)
  then have "map_option (\<lambda>j. if held_by i' w j then give_back (now + seconds delay) [] err j else j) (job_at i st) = job_at i st"
    by (cases "job_at i st") auto
  then show ?thesis using None by (intro exI [of _ "[]"]) (simp add: job_at_def retry_jobs)
next
  case (Some k)
  have "job_at i (job_step (Give_Back now i' w err delay) st) = map_option (\<lambda>j. if held_by i' w j then
      give_back (now + seconds delay) (if jo_attempts k \<ge> jo_max_attempts k then ''dead'' else ''retry'') err j else j) (job_at i st)"
    by (rule job_at_update) (use Some in \<open>simp_all add: job_at_def retry_jobs\<close>)
  then show ?thesis by blast
qed

text \<open>An operation that neither claims, completes nor retries the row keeps it.\<close>

fun spares :: "job_row \<Rightarrow> job_op \<Rightarrow> bool" where
  "spares j (Enqueue now i kind dedup payload m) = True"
| "spares j (Take now w lease) = (\<not> claimable now lease j)"
| "spares j (Finish now i w) = (\<not> held_by i w j)"
| "spares j (Give_Back now i w err delay) = (\<not> held_by i w j)"

lemma spared_step:
  assumes "jobs_wf st" "job_at i st = Some j" "spares j op" shows "job_at i (job_step op st) = Some j"
proof (cases op)
  case (Enqueue now i' kind dedup payload m)
  then show ?thesis using job_at_enqueue [OF assms(2)] by simp
next
  case (Take now w lease)
  have "jo_id j \<noteq> jo_id k" if "next_job now lease (outbox_jobs st) = Some k" for k
    using next_job_Some [OF that] assms job_at_Some [OF assms(2)] wf_idD [OF assms(1)] Take by fastforce
  then show ?thesis using assms(2) Take job_at_take by (auto split: option.splits)
next
  case (Finish now i' w)
  then show ?thesis using assms(2,3) job_at_finish by simp
next
  case (Give_Back now i' w err delay)
  then show ?thesis using assms(2,3) job_at_give_back [of i now i' w err delay st] by auto
qed

lemma spared_run:
  "jobs_wf st \<Longrightarrow> job_at i st = Some j \<Longrightarrow> list_all (spares j) ops \<Longrightarrow> job_at i (run_jobs ops st) = Some j"
  by (induction ops arbitrary: st) (auto simp: spared_step step_wf)

lemma final_spared: "job_ok j \<Longrightarrow> jo_status j = ''completed'' \<or> jo_status j = ''dead'' \<Longrightarrow> spares j op"
  by (cases op) (auto simp: claimable_def held_by_def)

section \<open>Counting attempts\<close>

definition attempts_of :: "string \<Rightarrow> store \<Rightarrow> int" where
  "attempts_of i st = (case job_at i st of None \<Rightarrow> 0 | Some j \<Rightarrow> jo_attempts j)"

text \<open>The ids of the jobs that the claims of a run hand out.\<close>

definition handed_out :: "job_op \<Rightarrow> store \<Rightarrow> string list" where
  "handed_out op st = (case op of
      Take now w lease \<Rightarrow> (case fst (claim_outbox now w lease st) of Inr (Some (j, v)) \<Rightarrow> [jo_id j] | _ \<Rightarrow> [])
    | _ \<Rightarrow> [])"

fun claims_of :: "job_op list \<Rightarrow> store \<Rightarrow> string list" where
  "claims_of [] st = []"
| "claims_of (op # ops) st = handed_out op st @ claims_of ops (job_step op st)"

lemma handed_out_take: "handed_out (Take now w lease) st =
    (case next_job now lease (outbox_jobs st) of None \<Rightarrow> []
     | Some j \<Rightarrow> if loads (jo_payload j) = None then [] else [jo_id j])"
  by (auto simp: handed_out_def claim_outbox_def Let_def start_attempt_def split: option.splits)

lemma step_attempts:
  assumes "jobs_wf st"
  shows "attempts_of i st + int (count_list (handed_out op st) i) \<le> attempts_of i (job_step op st)"
proof (cases op)
  case (Enqueue now i' kind dedup payload m)
  show ?thesis
  proof (cases "job_at i st")
    case None
    then have "0 \<le> attempts_of i (job_step op st)"
      using step_wf [OF assms, of op] job_at_Some [of i "job_step op st"]
      by (auto simp: attempts_of_def jobs_wf_def job_ok_def split: option.splits)
    then show ?thesis using None by (simp add: attempts_of_def handed_out_def Enqueue)
  next
    case (Some j)
    then show ?thesis using job_at_enqueue [OF Some] by (simp add: attempts_of_def handed_out_def Enqueue)
  qed
next
  case (Take now w lease)
  show ?thesis
  proof (cases "next_job now lease (outbox_jobs st)")
    case None
    then show ?thesis unfolding Take attempts_of_def job_at_take handed_out_take by simp
  next
    case (Some j)
    have j: "job_at (jo_id j) st = Some j" using next_job_Some [OF Some] job_at_in assms by blast
    show ?thesis
    proof (cases "i = jo_id j")
      case True
      then show ?thesis unfolding Take attempts_of_def job_at_take handed_out_take
        by (simp add: Some j start_attempt_def)
    next
      case False
      have "job_at i (job_step op st) = job_at i st"
        unfolding Take job_at_take using False by (cases "job_at i st") (auto simp: Some dest: job_at_Some)
      then show ?thesis using False unfolding attempts_of_def by (simp add: Take handed_out_take Some)
    qed
  qed
next
  case (Finish now i' w)
  then show ?thesis
    by (auto simp: attempts_of_def job_at_finish handed_out_def complete_job_def simp del: job_step.simps split: option.splits)
next
  case (Give_Back now i' w err delay)
  obtain s where "job_at i (job_step op st) =
      map_option (\<lambda>j. if held_by i' w j then give_back (now + seconds delay) s err j else j) (job_at i st)"
    using job_at_give_back [of i now i' w err delay st] Give_Back by blast
  then show ?thesis by (auto simp: attempts_of_def handed_out_def Give_Back give_back_def split: option.splits)
qed

definition capped :: "int \<Rightarrow> store \<Rightarrow> bool" where
  "capped m st \<longleftrightarrow> (\<forall>j \<in> set (outbox_jobs st). jo_max_attempts j \<le> m)"

fun op_capped :: "int \<Rightarrow> job_op \<Rightarrow> bool" where
  "op_capped m (Enqueue now i kind dedup payload k) = (k \<le> m)"
| "op_capped m op = True"

lemma capped_step: "capped m st \<Longrightarrow> op_capped m op \<Longrightarrow> capped m (job_step op st)"
proof (cases op)
  case (Enqueue now i kind dedup payload k)
  assume c: "capped m st" "op_capped m op"
  show ?thesis
  proof (cases "enqueue_outbox now i kind dedup payload k st")
    case (Inr p)
    obtain r st' where p: "p = (r, st')" by force
    then show ?thesis using enqueue_jobs [OF Inr [unfolded p]] c Inr Enqueue by (auto simp: capped_def new_job_def)
  qed (simp add: Enqueue c)
qed (auto simp: capped_def claim_jobs complete_jobs retry_jobs all_update_where job_updates split: option.splits)

lemma attempts_capped: "jobs_wf st \<Longrightarrow> capped m st \<Longrightarrow> 0 \<le> m \<Longrightarrow> attempts_of i st \<le> m"
proof -
  assume a: "jobs_wf st" "capped m st" "0 \<le> m"
  show ?thesis
  proof (cases "job_at i st")
    case (Some j)
    then have "jo_attempts j \<le> max 0 (jo_max_attempts j)" "jo_max_attempts j \<le> m"
      using job_at_Some [OF Some] a by (auto simp: jobs_wf_def job_ok_def capped_def)
    then show ?thesis using a(3) by (simp add: attempts_of_def Some)
  qed (simp add: attempts_of_def a)
qed

lemma claims_attempts:
  "jobs_wf st \<Longrightarrow> capped m st \<Longrightarrow> 0 \<le> m \<Longrightarrow> list_all (op_capped m) ops \<Longrightarrow>
     attempts_of i st + int (count_list (claims_of ops st) i) \<le> m"
proof (induction ops arbitrary: st)
  case (Cons op ops)
  then have "attempts_of i (job_step op st) + int (count_list (claims_of ops (job_step op st)) i) \<le> m"
    by (simp add: step_wf capped_step)
  then show ?case using step_attempts [OF Cons.prems(1), of i op] by simp
qed (simp add: attempts_capped)

section \<open>Completion\<close>

lemma claim_result:
  assumes "claim_outbox t w lease st = (Inr (Some (j, v)), st1)"
  shows "\<exists>k. next_job t lease (outbox_jobs st) = Some k \<and> j = start_attempt t w k \<and> loads (jo_payload k) = Some v
    \<and> st1 = job_step (Take t w lease) st"
proof -
  have "st1 = job_step (Take t w lease) st" using assms by simp
  moreover have "\<exists>k. next_job t lease (outbox_jobs st) = Some k \<and> j = start_attempt t w k \<and> loads (jo_payload k) = Some v"
    using assms by (auto simp: claim_outbox_def Let_def start_attempt_def split: option.splits)
  ultimately show ?thesis by blast
qed

lemma claim_row:
  assumes "jobs_wf st" "claim_outbox t w lease st = (Inr (Some (j, v)), st1)"
  shows "job_at (jo_id j) st1 = Some j \<and> jo_status j = ''processing'' \<and> jo_locked_by j = Some w \<and> jo_locked_at j = Some t"
proof -
  obtain k where k: "next_job t lease (outbox_jobs st) = Some k" "j = start_attempt t w k" "st1 = job_step (Take t w lease) st"
    using claim_result [OF assms(2)] by blast
  have "job_at (jo_id k) st = Some k" using next_job_Some [OF k(1)] job_at_in [OF assms(1)] by blast
  then have "job_at (jo_id j) st1 = Some j" unfolding k(3) job_at_take k(1) by (simp add: k(2))
  then show ?thesis by (simp add: k(2) start_attempt_def)
qed

lemma complete_held:
  assumes "jobs_wf st" "job_at i st = Some j" "held_by i w j" shows "fst (complete_outbox now i w st)"
proof -
  have "count_where (held_by i w) (outbox_jobs st) = 1"
    by (rule count_where_one [where k = jo_id and r = j])
       (use assms job_at_Some [OF assms(2)] in \<open>auto simp: jobs_wf_def held_by_def\<close>)
  then show ?thesis by (simp add: complete_outbox_def)
qed

lemma complete_was_held:
  assumes "complete_outbox now i w st = (True, st')" shows "\<exists>j \<in> set (outbox_jobs st). held_by i w j"
proof -
  have "count_where (held_by i w) (outbox_jobs st) = 1" using assms by (simp add: complete_outbox_def)
  then have "filter (held_by i w) (outbox_jobs st) \<noteq> []" by (auto simp: count_where_def)
  then show ?thesis by (auto simp: filter_empty_conv)
qed

definition completion :: "time \<times> string \<times> string \<Rightarrow> store \<Rightarrow> bool \<times> store" where
  "completion = (\<lambda>(now, i, w). complete_outbox now i w)"

definition done_job :: "string \<Rightarrow> store \<Rightarrow> bool" where
  "done_job i st \<longleftrightarrow> (\<exists>j. job_at i st = Some j \<and> jo_status j = ''completed'')"

lemma done_keeps: "jobs_wf st \<Longrightarrow> done_job i st \<Longrightarrow> done_job i (job_step op st)"
proof -
  assume wf: "jobs_wf st" and "done_job i st"
  then obtain j where j: "job_at i st = Some j" "jo_status j = ''completed''" by (auto simp: done_job_def)
  then have "job_ok j" using wf job_at_Some [OF j(1)] by (auto simp: jobs_wf_def)
  then show ?thesis using spared_step [OF wf j(1) final_spared] j by (auto simp: done_job_def)
qed

lemma completion_step: "completion c st = (b, st') \<Longrightarrow> st' = job_step (Finish (fst c) (fst (snd c)) (snd (snd c))) st"
  by (cases c) (auto simp: completion_def)

interpretation job: one_shot completion "\<lambda>(now, i, w). i" job_step done_job jobs_wf
proof
  fix c :: "time \<times> string \<times> string" and st st' and b :: bool and k op
  assume wf: "jobs_wf st"
  show "completion c st = (b, st') \<Longrightarrow> jobs_wf st'" by (drule completion_step) (simp only: step_wf [OF wf])
  show "jobs_wf (job_step op st)" by (rule step_wf [OF wf])
  show "completion c st = (b, st') \<Longrightarrow> done_job k st \<Longrightarrow> done_job k st'" by (drule completion_step) (simp only: done_keeps [OF wf])
  show "done_job k st \<Longrightarrow> done_job k (job_step op st)" by (rule done_keeps [OF wf])
  show "\<not> done_job ((\<lambda>(now, i, w). i) c) st \<and> done_job ((\<lambda>(now, i, w). i) c) st'" if f: "completion c st = (True, st')"
  proof (cases c)
    case (fields now i w)
    obtain j where j: "j \<in> set (outbox_jobs st)" "held_by i w j"
      using complete_was_held [of now i w st st'] f by (auto simp: completion_def fields)
    then have at: "job_at i st = Some j" using job_at_in [OF wf j(1)] by (simp add: held_by_def)
    have "job_at i st' = Some (complete_job now j)"
      using completion_step [OF f] job_at_finish [of i now i w st] j(2) at by (simp add: fields)
    then show ?thesis using at j(2) by (simp add: fields done_job_def held_by_def complete_job_def)
  qed
qed

section \<open>Properties\<close>

text \<open>
  C33. The outbox table is consistent after every run of its operations: ids and deduplication keys
  are unique, attempts stay between zero and the maximum, a job is locked exactly while it is
  processing, has a completion time exactly when completed, and is dead only with its attempts used.
\<close>

theorem outbox_consistent: "jobs_wf (run_jobs ops empty_store)"
  by (rule run_wf) simp

text \<open>
  No job is handed out more often than the largest maximum of attempts in the run: retries,
  expired leases and crashed workers included.
\<close>

theorem claims_bounded:
  assumes "list_all (op_capped m) ops" and "0 \<le> m"
  shows "int (count_list (claims_of ops empty_store) i) \<le> m"
  using claims_attempts [of empty_store m ops i] assms
  by (simp add: jobs_wf_def capped_def attempts_of_def job_at_def select_one_def empty_store_def)

theorem claims_bounded_witness:
  "int (count_list (claims_of [Enqueue 0 ''j'' ''k'' ''d'' [] 1, Take 1 ''w'' 30, Take 50 ''w'' 30] empty_store) ''j'') \<le> 1"
  by (rule claims_bounded) simp_all

text \<open>
  A job is completed at most once: in any run of completions and other operations from the empty
  store, the jobs whose completion succeeds are distinct.
\<close>

theorem job_completed_once:
  "distinct (map (\<lambda>(now, i, w). i) (wins completion job_step acts empty_store))"
  by (rule job.at_most_once) simp

fun within_lease :: "string \<Rightarrow> string \<Rightarrow> time \<Rightarrow> job_op \<Rightarrow> bool" where
  "within_lease i w t (Enqueue now i' kind dedup payload m) = True"
| "within_lease i w t (Take now w' lease) = (now < t + seconds lease)"
| "within_lease i w t (Finish now i' w') = (i' \<noteq> i \<or> w' \<noteq> w)"
| "within_lease i w t (Give_Back now i' w' err delay) = (i' \<noteq> i \<or> w' \<noteq> w)"

lemma within_lease_spares:
  "jo_id j = i \<Longrightarrow> jo_status j = ''processing'' \<Longrightarrow> jo_locked_by j = Some w \<Longrightarrow> jo_locked_at j = Some t \<Longrightarrow>
     within_lease i w t op \<Longrightarrow> spares j op"
  by (cases op) (auto simp: claimable_def held_by_def)

text \<open>
  C32. The lease protects its holder: after a worker claims a job, whatever the other workers do, and
  whatever is enqueued, as long as every claim comes before the lease has run out, the worker's
  completion of the job succeeds.
\<close>

theorem lease_protects:
  assumes "claim_outbox t w lease (run_jobs before empty_store) = (Inr (Some (j, v)), st1)"
    and "list_all (within_lease (jo_id j) w t) ops"
  shows "fst (complete_outbox now (jo_id j) w (run_jobs ops st1))"
proof -
  have wf: "jobs_wf (run_jobs before empty_store)" by (rule run_wf) simp
  note row = claim_row [OF wf assms(1)]
  have wf1: "jobs_wf st1" using claim_result [OF assms(1)] step_wf [OF wf] by blast
  have "list_all (spares j) ops" using assms(2) row within_lease_spares by (auto simp: list_all_iff)
  then have "job_at (jo_id j) (run_jobs ops st1) = Some j" using spared_run [OF wf1] row by blast
  then show ?thesis using complete_held [OF run_wf [OF wf1]] row by (simp add: held_by_def)
qed

definition demo_jobs :: "job_op list" where
  "demo_jobs = [Enqueue 0 ''j'' ''k'' ''d'' [] 8]"

lemma demo_claim: "\<exists>j v st1. claim_outbox 1 ''w'' 30 (run_jobs demo_jobs empty_store) = (Inr (Some (j, v)), st1) \<and> jo_id j = ''j''"
proof -
  have "loads (canonical_value (JDict [])) = Some (JDict [])" by code_simp
  then show ?thesis
    by (simp add: demo_jobs_def enqueue_outbox_def empty_store_def select_one_def claim_outbox_def next_job_def new_job_def
      claimable_def start_attempt_def)
qed

theorem lease_protects_witness:
  "\<exists>st1. fst (complete_outbox 40 ''j'' ''w'' (run_jobs [Take 20 ''x'' 30] st1)) \<and> jobs_wf st1"
proof -
  obtain j v st1 where c: "claim_outbox 1 ''w'' 30 (run_jobs demo_jobs empty_store) = (Inr (Some (j, v)), st1)" "jo_id j = ''j''"
    using demo_claim by blast
  have "fst (complete_outbox 40 (jo_id j) ''w'' (run_jobs [Take 20 ''x'' 30] st1))"
    by (rule lease_protects [OF c(1)]) (simp add: seconds_def)
  moreover have "jobs_wf st1"
    using claim_result [OF c(1)] step_wf [OF run_wf [OF wf_empty], of "Take 1 ''w'' 30" demo_jobs] by blast
  ultimately show ?thesis using c(2) by auto
qed

text \<open>
  Claims are first in, first out: a claim finds a job exactly when one is ready, and hands out
  the oldest ready one, with its attempt counted and locked by the worker.
\<close>

theorem claim_is_oldest:
  "(claim_outbox now w lease st = (Inr None, st) \<longleftrightarrow> (\<forall>j \<in> set (outbox_jobs st). \<not> claimable now lease j))
   \<and> (\<forall>j v st'. claim_outbox now w lease st = (Inr (Some (j, v)), st') \<longrightarrow>
       (\<exists>k \<in> set (outbox_jobs st). claimable now lease k \<and> j = start_attempt now w k
          \<and> (\<forall>l \<in> set (outbox_jobs st). claimable now lease l \<longrightarrow> (jo_created k, jo_id k) \<le> (jo_created l, jo_id l))))"
proof (intro conjI allI impI)
  show "claim_outbox now w lease st = (Inr None, st) \<longleftrightarrow> (\<forall>j \<in> set (outbox_jobs st). \<not> claimable now lease j)"
    unfolding next_job_None [symmetric] by (auto simp: claim_outbox_def Let_def split: option.splits)
next
  fix j v st' assume "claim_outbox now w lease st = (Inr (Some (j, v)), st')"
  then obtain k where k: "next_job now lease (outbox_jobs st) = Some k" "j = start_attempt now w k" using claim_result by blast
  then show "\<exists>k \<in> set (outbox_jobs st). claimable now lease k \<and> j = start_attempt now w k
      \<and> (\<forall>l \<in> set (outbox_jobs st). claimable now lease l \<longrightarrow> (jo_created k, jo_id k) \<le> (jo_created l, jo_id l))"
    using next_job_Some [OF k(1)] next_job_least [OF k(1)] by blast
qed

theorem claim_is_oldest_witness:
  "claim_outbox 0 ''w'' 30 empty_store = (Inr None, empty_store)"
  using claim_is_oldest [of 0 "''w''" 30 empty_store] by (simp add: empty_store_def)

fun leaves_alone :: "string \<Rightarrow> string \<Rightarrow> job_op \<Rightarrow> bool" where
  "leaves_alone i w (Finish now i' w') = (i' \<noteq> i \<or> w' \<noteq> w)"
| "leaves_alone i w (Give_Back now i' w' err delay) = (i' \<noteq> i \<or> w' \<noteq> w)"
| "leaves_alone i w op = True"

text \<open>
  A job whose last attempt crashed is never finished: once a worker has taken the last attempt
  and neither completes nor retries it, no operation of any other worker, and no lease, changes the
  job again: it stays processing for ever, and is neither retried nor dead.
\<close>

theorem crashed_last_attempt_stays:
  assumes "claim_outbox t w lease (run_jobs before empty_store) = (Inr (Some (j, v)), st1)"
    and "jo_max_attempts j \<le> jo_attempts j" and "list_all (leaves_alone (jo_id j) w) ops"
  shows "job_at (jo_id j) (run_jobs ops st1) = Some j \<and> jo_status j = ''processing''"
proof -
  have wf: "jobs_wf (run_jobs before empty_store)" by (rule run_wf) simp
  note row = claim_row [OF wf assms(1)]
  have wf1: "jobs_wf st1" using claim_result [OF assms(1)] step_wf [OF wf] by blast
  have "spares j op" if "leaves_alone (jo_id j) w op" for op
    using that row assms(2) by (cases op) (auto simp: claimable_def held_by_def)
  then have "list_all (spares j) ops" using assms(3) by (auto simp: list_all_iff)
  then show ?thesis using spared_run [OF wf1] row by blast
qed

lemma demo_last_claim: "\<exists>j v st1. claim_outbox 1 ''w'' 30 (run_jobs [Enqueue 0 ''j'' ''k'' ''d'' [] 1] empty_store) =
    (Inr (Some (j, v)), st1) \<and> jo_id j = ''j'' \<and> jo_max_attempts j \<le> jo_attempts j"
proof -
  have "loads (canonical_value (JDict [])) = Some (JDict [])" by code_simp
  then show ?thesis
    by (simp add: enqueue_outbox_def empty_store_def select_one_def claim_outbox_def next_job_def new_job_def
      claimable_def start_attempt_def)
qed

theorem crashed_last_attempt_stays_witness:
  "\<exists>j st1. job_at ''j'' (run_jobs [Take 1000000000 ''x'' 30] st1) = Some j \<and> jo_status j = ''processing''"
proof -
  obtain j v st1 where c: "claim_outbox 1 ''w'' 30 (run_jobs [Enqueue 0 ''j'' ''k'' ''d'' [] 1] empty_store) = (Inr (Some (j, v)), st1)"
      "jo_id j = ''j''" "jo_max_attempts j \<le> jo_attempts j"
    using demo_last_claim by blast
  have "job_at (jo_id j) (run_jobs [Take 1000000000 ''x'' 30] st1) = Some j \<and> jo_status j = ''processing''"
    by (rule crashed_last_attempt_stays [OF c(1,3)]) simp
  then show ?thesis using c(2) by auto
qed

text \<open>
  Enqueueing is idempotent per kind and deduplication key: a second enqueue with the same key
  answers the id of the first and leaves the store as it was, and the stored payload reads back as
  the payload of the first, up to the order of its keys.
\<close>

theorem enqueue_once:
  assumes "enqueue_outbox now i kind dedup payload m st = Inr (r, st1)"
    and "\<forall>j \<in> set (outbox_jobs st1). jo_id j \<noteq> i'"
  shows "enqueue_outbox later i' kind dedup payload' m' st1 = Inr (r, st1)
    \<and> (st1 \<noteq> st \<longrightarrow> json_wf (JDict payload) \<longrightarrow>
        (\<exists>j \<in> set (outbox_jobs st1). jo_id j = r \<and> loads (jo_payload j) = Some (sort_keys (JDict payload))))"
proof (intro conjI impI)
  have "select_one (\<lambda>j. jo_kind j = kind \<and> jo_dedup j = dedup) (outbox_jobs st1) \<noteq> None
    \<and> (\<forall>j. select_one (\<lambda>j. jo_kind j = kind \<and> jo_dedup j = dedup) (outbox_jobs st1) = Some j \<longrightarrow> jo_id j = r)"
    using assms(1) by (auto simp: enqueue_outbox_def select_one_snoc new_job_def split: if_splits option.splits)
  then show "enqueue_outbox later i' kind dedup payload' m' st1 = Inr (r, st1)"
    using assms(2) by (auto simp: enqueue_outbox_def list_ex_iff)
next
  assume "st1 \<noteq> st" and wf: "json_wf (JDict payload)"
  then have "new_job now i kind dedup payload m \<in> set (outbox_jobs st1)" "r = i"
    using enqueue_jobs [OF assms(1)] by auto
  moreover have "loads (canonical_value (JDict payload)) = Some (sort_keys (JDict payload))"
    unfolding canonical_value_def by (rule loads_dumps) (use sort_keys_wf wf in blast)
  ultimately show "\<exists>j \<in> set (outbox_jobs st1). jo_id j = r \<and> loads (jo_payload j) = Some (sort_keys (JDict payload))"
    by (intro bexI [of _ "new_job now i kind dedup payload m"]) (simp_all add: new_job_def)
qed

theorem enqueue_once_witness:
  "\<exists>st1. enqueue_outbox 5 ''i2'' ''k'' ''d'' [] 8 st1 = Inr (''i1'', st1)"
proof -
  obtain st1 where e: "enqueue_outbox 0 ''i1'' ''k'' ''d'' [] 8 empty_store = Inr (''i1'', st1)"
      "\<forall>j \<in> set (outbox_jobs st1). jo_id j \<noteq> ''i2''"
    by (simp add: enqueue_outbox_def empty_store_def select_one_def new_job_def)
  then show ?thesis using enqueue_once [OF e, of 5 "[]" 8] by blast
qed

end
