(* ===== verification/Store_Audit.thy ===== *)
theory Store_Audit
  imports Tables
begin

text \<open>
  The audit chain of the store: each event carries the HMAC of its fields and of the hash of the
  event before it. Appending moves the time stamp past the last one when the clock has not
  advanced, so the order by time is the order of insertion. The lemmas show that appending keeps
  the chain verifiable, and that the hash of the last event fixes the signed text of all of them.
\<close>

section \<open>Operations\<close>

definition audit_order :: "audit_row list \<Rightarrow> audit_row list" where
  "audit_order rows = sort_key (\<lambda>r. (au_created r, au_id r)) rows"

definition audit_message :: "string \<Rightarrow> time \<Rightarrow> string \<Rightarrow> string \<Rightarrow> string \<Rightarrow> string" where
  "audit_message i created ty payload previous =
     i @ ''|'' @ isoformat created @ ''|'' @ ty @ ''|'' @ payload @ ''|'' @ previous"

definition append_audit :: "crypto \<Rightarrow> string \<Rightarrow> time \<Rightarrow> string \<Rightarrow> string \<Rightarrow> json \<Rightarrow> store \<Rightarrow> store" where
  "append_audit cr key now event_id event_type payload st =
     (let canonical = canonical_value payload;
          prior = (case audit_order (audit_events st) of [] \<Rightarrow> None | rows \<Rightarrow> Some (last rows));
          previous = (case prior of None \<Rightarrow> ''GENESIS'' | Some r \<Rightarrow> au_hash r);
          created = (case prior of None \<Rightarrow> now
            | Some r \<Rightarrow> if now \<le> au_created r then au_created r + 1 else now);
          digest = hmac_hex cr key (audit_message event_id created event_type canonical previous)
      in st\<lparr>audit_events := audit_events st @
           [\<lparr>au_id = event_id, au_created = created, au_type = event_type, au_payload = canonical,
             au_previous = previous, au_hash = digest\<rparr>]\<rparr>)"

definition row_message :: "audit_row \<Rightarrow> string" where
  "row_message r = audit_message (au_id r) (au_created r) (au_type r) (au_payload r) (au_previous r)"

fun chain_ok :: "crypto \<Rightarrow> string \<Rightarrow> string \<Rightarrow> audit_row list \<Rightarrow> bool" where
  "chain_ok cr key previous [] = True"
| "chain_ok cr key previous (r # rows) =
     (au_previous r = previous
      \<and> hmac_hex cr key (audit_message (au_id r) (au_created r) (au_type r) (au_payload r) previous) = au_hash r
      \<and> chain_ok cr key (au_hash r) rows)"

definition verify_audit_chain :: "crypto \<Rightarrow> string \<Rightarrow> store \<Rightarrow> bool" where
  "verify_audit_chain cr key st = chain_ok cr key ''GENESIS'' (audit_order (audit_events st))"

text \<open>The payload column is parsed back; a row that is not JSON raises.\<close>

definition recent_audit :: "nat \<Rightarrow> store \<Rightarrow> exc + (audit_row \<times> json) list" where
  "recent_audit limit st =
     traverse (\<lambda>r. case loads (au_payload r) of Some j \<Rightarrow> Inr (r, j) | None \<Rightarrow> Inl (ValueError ''JSONDecodeError''))
       (take limit (rev (audit_order (audit_events st))))"

section \<open>The invariant\<close>

definition audit_wf :: "crypto \<Rightarrow> string \<Rightarrow> store \<Rightarrow> bool" where
  "audit_wf cr key st \<longleftrightarrow> sorted_wrt (<) (map au_created (audit_events st))
     \<and> chain_ok cr key ''GENESIS'' (audit_events st)"

lemma audit_order_id: "sorted_wrt (<) (map au_created rows) \<Longrightarrow> audit_order rows = rows"
  unfolding audit_order_def
  by (rule sort_key_id_if_sorted) (auto simp: sorted_wrt_map less_prod_simp elim: sorted_wrt_mono_rel [rotated])

lemma audit_wf_verifies: "audit_wf cr key st \<Longrightarrow> verify_audit_chain cr key st"
  by (simp add: audit_wf_def verify_audit_chain_def audit_order_id)

lemma audit_wf_empty [simp]: "audit_events st = [] \<Longrightarrow> audit_wf cr key st"
  by (simp add: audit_wf_def)

lemma audit_wf_cong: "audit_events st = audit_events st' \<Longrightarrow> audit_wf cr key st = audit_wf cr key st'"
  by (simp add: audit_wf_def)

fun head_hash :: "string \<Rightarrow> audit_row list \<Rightarrow> string" where
  "head_hash previous [] = previous"
| "head_hash previous (r # rows) = head_hash (au_hash r) rows"

lemma head_hash_last: "rows \<noteq> [] \<Longrightarrow> head_hash p rows = au_hash (last rows)"
  by (induction rows arbitrary: p) auto

lemma chain_ok_append: "chain_ok cr key p (rows @ tail) \<longleftrightarrow>
    chain_ok cr key p rows \<and> chain_ok cr key (head_hash p rows) tail"
  by (induction rows arbitrary: p) auto

lemma append_audit_wf: "audit_wf cr key st \<Longrightarrow> audit_wf cr key (append_audit cr key now i ty payload st)"
proof -
  assume wf: "audit_wf cr key st"
  then have ord: "audit_order (audit_events st) = audit_events st"
    by (simp add: audit_wf_def audit_order_id)
  show ?thesis
  proof (cases "audit_events st" rule: rev_cases)
    case Nil
    then show ?thesis by (simp add: audit_wf_def append_audit_def audit_order_def Let_def)
  next
    case (snoc rows r)
    then have l: "audit_order (audit_events st) = rows @ [r]" using ord by simp
    have c: "(case rows @ [r] of [] \<Rightarrow> None | xs \<Rightarrow> Some (last xs)) = Some r" by (cases rows) auto
    have "\<forall>q \<in> set (rows @ [r]). au_created q \<le> au_created r"
      using wf snoc by (auto simp: audit_wf_def sorted_wrt_append)
    then show ?thesis
      using wf snoc unfolding audit_wf_def append_audit_def Let_def l c
      by (auto simp: sorted_wrt_append chain_ok_append head_hash_last)
  qed
qed

lemma append_audit_frame [frame]:
  "append_audit cr key now i ty payload st = st\<lparr>audit_events := audit_events (append_audit cr key now i ty payload st)\<rparr>"
  by (simp add: append_audit_def Let_def)

lemma append_audit_tables [simp]:
  "approvals (append_audit cr key now i ty payload st) = approvals st"
  "executions (append_audit cr key now i ty payload st) = executions st"
  "containments (append_audit cr key now i ty payload st) = containments st"
  "quarantines (append_audit cr key now i ty payload st) = quarantines st"
  "watch_tasks (append_audit cr key now i ty payload st) = watch_tasks st"
  "outbox_jobs (append_audit cr key now i ty payload st) = outbox_jobs st"
  by (simp_all add: append_audit_def Let_def)

section \<open>What the last hash fixes\<close>

lemma split_last_bar:
  "a @ CHR ''|'' # p = b @ CHR ''|'' # q \<Longrightarrow> CHR ''|'' \<notin> set p \<Longrightarrow> CHR ''|'' \<notin> set q \<Longrightarrow> a = b \<and> p = q"
proof (induction a arbitrary: b)
  case Nil
  then show ?case by (cases b) auto
next
  case (Cons c a)
  then show ?case by (cases b) auto
qed

definition hex_hashes :: "crypto \<Rightarrow> bool" where
  "hex_hashes cr \<longleftrightarrow> (\<forall>k m. CHR ''|'' \<notin> set (hmac_hex cr k m))"

text \<open>Two chains exhibit a collision when somewhere the signed texts of their events differ and the HMACs agree.\<close>

definition texts_collide :: "crypto \<Rightarrow> string \<Rightarrow> audit_row list \<Rightarrow> audit_row list \<Rightarrow> bool" where
  "texts_collide cr key rows rows' \<longleftrightarrow> list_ex (\<lambda>(r, q). row_message r \<noteq> row_message q
     \<and> hmac_hex cr key (row_message r) = hmac_hex cr key (row_message q)) (zip rows rows')"

lemma chain_message:
  "chain_ok cr key p rows \<Longrightarrow> rows \<noteq> [] \<Longrightarrow> au_hash (last rows) = hmac_hex cr key (row_message (last rows))"
  by (induction rows arbitrary: p) (auto simp: row_message_def)

lemma chain_previous:
  "chain_ok cr key p (rows @ [r]) \<Longrightarrow> au_previous r = head_hash p rows"
  by (simp add: chain_ok_append)

lemma message_previous:
  assumes "row_message r = row_message q" "CHR ''|'' \<notin> set (au_previous r)" "CHR ''|'' \<notin> set (au_previous q)"
  shows "au_previous r = au_previous q"
proof -
  let ?f = "\<lambda>r. au_id r @ ''|'' @ isoformat (au_created r) @ ''|'' @ au_type r @ ''|'' @ au_payload r"
  have "?f r @ CHR ''|'' # au_previous r = ?f q @ CHR ''|'' # au_previous q"
    using assms(1) by (simp add: row_message_def audit_message_def)
  then show ?thesis using assms(2,3) split_last_bar by blast
qed

lemma head_hash_no_bar:
  assumes "hex_hashes cr" "chain_ok cr key ''GENESIS'' rows"
  shows "CHR ''|'' \<notin> set (head_hash ''GENESIS'' rows)"
proof (cases "rows = []")
  case False
  then show ?thesis
    using chain_message [OF assms(2) False] head_hash_last [OF False] assms(1) by (simp add: hex_hashes_def)
qed simp

lemma heads_fix_messages:
  assumes "hex_hashes cr"
  shows "length rows = length rows' \<Longrightarrow> chain_ok cr key ''GENESIS'' rows \<Longrightarrow> chain_ok cr key ''GENESIS'' rows' \<Longrightarrow>
    head_hash ''GENESIS'' rows = head_hash ''GENESIS'' rows' \<Longrightarrow>
    map row_message rows = map row_message rows' \<or> texts_collide cr key rows rows'"
proof (induction rows arbitrary: rows' rule: rev_induct)
  case (snoc r rows)
  then obtain q qs where q: "rows' = qs @ [q]" "length qs = length rows"
    by (cases rows' rule: rev_cases) auto
  have c: "chain_ok cr key ''GENESIS'' rows" "chain_ok cr key ''GENESIS'' qs"
    using snoc.prems(2,3) by (simp_all add: q chain_ok_append)
  have h: "hmac_hex cr key (row_message r) = hmac_hex cr key (row_message q)"
    using chain_message [OF snoc.prems(2)] chain_message [OF snoc.prems(3)] snoc.prems(4)
      head_hash_last [of "rows @ [r]"] head_hash_last [of rows'] by (simp add: q)
  have z: "texts_collide cr key (rows @ [r]) rows' \<longleftrightarrow> texts_collide cr key rows qs \<or> row_message r \<noteq> row_message q"
    using h q(2) by (auto simp: texts_collide_def q(1))
  show ?case
  proof (cases "row_message r = row_message q")
    case True
    have "au_previous r = head_hash ''GENESIS'' rows" "au_previous q = head_hash ''GENESIS'' qs"
      using snoc.prems(2,3) chain_previous by (auto simp: q)
    then have "head_hash ''GENESIS'' rows = head_hash ''GENESIS'' qs"
      using message_previous [OF True] head_hash_no_bar [OF assms c(1)] head_hash_no_bar [OF assms c(2)] by simp
    then show ?thesis using snoc.IH [OF q(2) [symmetric] c] True z by (auto simp: q(1))
  qed (simp add: z)
qed simp

lemma texts_collide_pair:
  "texts_collide cr key rows rows' \<Longrightarrow> \<exists>i < length rows. row_message (rows ! i) \<noteq> row_message (rows' ! i)
     \<and> hmac_hex cr key (row_message (rows ! i)) = hmac_hex cr key (row_message (rows' ! i))"
  by (fastforce simp: texts_collide_def list_ex_iff in_set_zip)

text \<open>Keyed digests of different texts of one length that never agree: hexadecimal digits of the characters.\<close>

definition hex_text :: "string \<Rightarrow> string" where
  "hex_text m = concat (map (\<lambda>c. replicate (of_char c) CHR ''a'' @ ''b'') m)"

lemma replicate_b: "replicate m CHR ''a'' @ CHR ''b'' # xs = replicate n CHR ''a'' @ CHR ''b'' # ys \<longleftrightarrow> m = n \<and> xs = ys"
proof (induction m arbitrary: n)
  case 0
  then show ?case by (cases n) auto
next
  case (Suc m)
  then show ?case by (cases n) auto
qed

lemma hex_text_inj: "hex_text m = hex_text m' \<longleftrightarrow> m = m'"
proof (induction m arbitrary: m')
  case Nil
  then show ?case by (cases m') (simp_all add: hex_text_def)
next
  case (Cons c m)
  then show ?case by (cases m') (simp_all add: hex_text_def replicate_b)
qed

lemma hex_text_bar: "CHR ''|'' \<notin> set (hex_text m)"
  by (auto simp: hex_text_def)

lemma fields_shift:
  assumes "chain_ok cr key previous (before @ r # after)"
    and "au_type r @ ''|'' @ au_payload r = ty @ ''|'' @ payload"
  shows "chain_ok cr key previous (before @ r\<lparr>au_type := ty, au_payload := payload\<rparr> # after)"
proof -
  have "audit_message (au_id r) (au_created r) ty payload h =
      audit_message (au_id r) (au_created r) (au_type r) (au_payload r) h" for h
  proof -
    have "(ty @ ''|'' @ payload) @ ''|'' @ h = (au_type r @ ''|'' @ au_payload r) @ ''|'' @ h"
      using assms(2) by (simp only:)
    then show ?thesis by (simp add: audit_message_def)
  qed
  then show ?thesis using assms(1) by (simp add: chain_ok_append)
qed

section \<open>Properties\<close>

text \<open>
  Appending any sequence of events, whatever the clock does, to a store whose chain is in order
  gives a store whose audit chain verifies.
\<close>

theorem audit_appends_verify:
  assumes "audit_wf cr key st"
  shows "verify_audit_chain cr key (fold (\<lambda>(now, i, ty, p). append_audit cr key now i ty p) events st)"
proof -
  have "audit_wf cr key (fold (\<lambda>(now, i, ty, p). append_audit cr key now i ty p) events st)"
    using assms by (induction events arbitrary: st) (auto intro: append_audit_wf)
  then show ?thesis by (rule audit_wf_verifies)
qed

theorem audit_appends_verify_witness:
  "verify_audit_chain demo_crypto ''k'' (fold (\<lambda>(now, i, ty, p). append_audit demo_crypto ''k'' now i ty p)
     [(5, ''e1'', ''a'', JNull), (5, ''e0'', ''b'', JInt 1), (3, ''e2'', ''c'', JNull)] empty_store)"
  by (rule audit_appends_verify) (simp add: empty_store_def)

text \<open>
  C27. The hash of the last audit event fixes the signed text of every event: two chains of the same
  length that verify and end in the same hash have the same texts, or else the two chains show,
  at the same position, two different signed texts with the same HMAC (the HMAC's output being
  hexadecimal). Who rewrites an event, its time or its place and keeps the last hash has forged
  the HMAC of a text that stands in his own chain.
\<close>

theorem audit_head_fixes_texts:
  assumes "hex_hashes cr" and "chain_ok cr key ''GENESIS'' rows" and "chain_ok cr key ''GENESIS'' rows'"
    and "length rows = length rows'" and "head_hash ''GENESIS'' rows = head_hash ''GENESIS'' rows'"
  shows "map row_message rows = map row_message rows' \<or>
    (\<exists>i < length rows. row_message (rows ! i) \<noteq> row_message (rows' ! i)
       \<and> hmac_hex cr key (row_message (rows ! i)) = hmac_hex cr key (row_message (rows' ! i)))"
  using heads_fix_messages [OF assms(1,4,2,3,5)] texts_collide_pair by blast

text \<open>With an HMAC that never collides, the last hash of a chain of two events leaves no choice of the texts.\<close>

definition hex_crypto :: crypto where
  "hex_crypto = demo_crypto\<lparr>hmac_hex := (\<lambda>key m. hex_text m)\<rparr>"

definition two_events :: "audit_row list" where
  "two_events = audit_events (append_audit hex_crypto ''k'' 9 ''f'' ''logout'' (JInt 1)
     (append_audit hex_crypto ''k'' 5 ''e'' ''login'' (JStr ''a|b'') empty_store))"

lemma two_events_chain: "chain_ok hex_crypto ''k'' ''GENESIS'' two_events"
proof -
  have "audit_wf hex_crypto ''k'' (append_audit hex_crypto ''k'' 9 ''f'' ''logout'' (JInt 1)
     (append_audit hex_crypto ''k'' 5 ''e'' ''login'' (JStr ''a|b'') empty_store))"
    by (intro append_audit_wf) (simp add: empty_store_def)
  then show ?thesis by (simp add: audit_wf_def two_events_def)
qed

lemma two_events_rows:
  obtains r q where "two_events = [r, q]" "au_type r = ''login''" "au_payload r = ''\"a|b\"''"
proof -
  obtain r where r: "audit_events (append_audit hex_crypto ''k'' 5 ''e'' ''login'' (JStr ''a|b'') empty_store) = [r]"
      "au_type r = ''login''" "au_payload r = ''\"a|b\"''"
    by (simp add: append_audit_def Let_def empty_store_def audit_order_def canonical_value_def quote_def esc_char_def)
  then obtain q where "two_events = [r, q]" by (simp add: two_events_def append_audit_def [of _ _ 9] Let_def)
  then show thesis using r(2,3) by (rule that)
qed

text \<open>A chain with another type and payload of its first event and the same last hash has the same texts.\<close>

theorem audit_head_fixes_texts_witness:
  "\<exists>rows'. rows' \<noteq> two_events \<and> chain_ok hex_crypto ''k'' ''GENESIS'' rows'
     \<and> head_hash ''GENESIS'' rows' = head_hash ''GENESIS'' two_events \<and> map row_message rows' = map row_message two_events"
proof -
  obtain r q where rq: "two_events = [r, q]" "au_type r = ''login''" "au_payload r = ''\"a|b\"''" by (rule two_events_rows)
  let ?rows = "[r\<lparr>au_type := ''login|\"a'', au_payload := ''b\"''\<rparr>, q]"
  have x: "hex_hashes hex_crypto" by (simp add: hex_hashes_def hex_crypto_def hex_text_bar)
  have c: "chain_ok hex_crypto ''k'' ''GENESIS'' ?rows"
    using fields_shift [of hex_crypto "''k''" "''GENESIS''" "[]" r "[q]" "''login|\"a''" "''b\"''"] two_events_chain rq by simp
  have h: "head_hash ''GENESIS'' ?rows = head_hash ''GENESIS'' two_events" "length ?rows = length two_events"
    by (simp_all add: rq(1) head_hash_last)
  have "map row_message ?rows = map row_message two_events"
    using audit_head_fixes_texts [OF x c two_events_chain h(2,1)] by (auto simp: hex_crypto_def hex_text_inj)
  moreover have "au_type (hd ?rows) \<noteq> au_type (hd two_events)" by (simp add: rq)
  then have "?rows \<noteq> two_events" by metis
  ultimately show ?thesis using c h(1) by (intro exI [of _ ?rows]) simp
qed

text \<open>
  The signed text does not delimit its fields: moving a part of an event between the type and
  the payload, across a bar, leaves a chain that still verifies.
\<close>

theorem audit_fields_shift:
  assumes "chain_ok cr key previous (before @ r # after)"
    and "au_type r @ ''|'' @ au_payload r = ty @ ''|'' @ payload"
  shows "chain_ok cr key previous (before @ r\<lparr>au_type := ty, au_payload := payload\<rparr> # after)"
  using assms by (rule fields_shift)

theorem audit_fields_shift_witness:
  "\<exists>ty payload. ty \<noteq> ''login'' \<and> chain_ok demo_crypto ''k'' ''GENESIS''
     [(hd (audit_events (append_audit demo_crypto ''k'' 0 ''e'' ''login'' (JStr ''a|b'') empty_store)))
        \<lparr>au_type := ty, au_payload := payload\<rparr>]"
proof -
  let ?st = "append_audit demo_crypto ''k'' 0 ''e'' ''login'' (JStr ''a|b'') empty_store"
  obtain r where r: "audit_events ?st = [r]" "au_type r = ''login''" "au_payload r = ''\"a|b\"''"
    by (simp add: append_audit_def Let_def empty_store_def audit_order_def canonical_value_def quote_def
        esc_char_def)
  have "audit_wf demo_crypto ''k'' ?st" by (rule append_audit_wf) (simp add: empty_store_def)
  then have "chain_ok demo_crypto ''k'' ''GENESIS'' ([] @ r # [])" using r by (simp add: audit_wf_def)
  from audit_fields_shift [OF this, of "''login|\"a''" "''b\"''"] r
  have "chain_ok demo_crypto ''k'' ''GENESIS'' ([] @ r\<lparr>au_type := ''login|\"a'', au_payload := ''b\"''\<rparr> # [])" by simp
  then show ?thesis using r(1) by (intro exI [of _ "''login|\"a''"] exI [of _ "''b\"''"]) simp
qed

end
