(* ===== verification/Store_Lineage.thy ===== *)
theory Store_Lineage
  imports Tables
begin

text \<open>
  Data lineage in the store: recording a node, reading the nodes of a trace or of an agent's recent
  window, and the summary of a trace that the gateway adds to the provenance of every call. The
  lemmas show that a summary is the join of what was recorded and only grows.
\<close>

section \<open>Operations\<close>

definition stored_lineage :: "lineage_row \<Rightarrow> lineage_row" where
  "stored_lineage r = r\<lparr>li_labels := sorted_set (li_labels r), li_field_taint := sort_key fst (li_field_taint r)\<rparr>"

definition record_lineage :: "lineage_row \<Rightarrow> store \<Rightarrow> store" where
  "record_lineage r st = (if list_ex (\<lambda>q. li_id q = li_id r) (lineage_events st) then st
     else st\<lparr>lineage_events := lineage_events st @ [stored_lineage r]\<rparr>)"

text \<open>
  \<^verbatim>\<open>"field_taint_json" in row\<close> on a \<^verbatim>\<open>sqlite3.Row\<close> compares with the values of the row, not with its
  column names: only a row one of whose text columns is that very text is read with its fields.
\<close>

definition row_mentions :: "string \<Rightarrow> lineage_row \<Rightarrow> bool" where
  "row_mentions s r \<longleftrightarrow> s \<in> {li_id r, li_tenant r, li_agent r, li_trace r, li_source_type r, li_source_id r,
     li_destination r, trust_value (li_trust r), classification_value (li_classification r), li_digest r}
     \<or> li_request r = Some s"

definition lineage_from_row :: "lineage_row \<Rightarrow> lineage_row" where
  "lineage_from_row r = r\<lparr>li_field_taint := (if row_mentions ''field_taint_json'' r then li_field_taint r else [])\<rparr>"

definition by_age :: "lineage_row list \<Rightarrow> lineage_row list" where
  "by_age = sort_key (\<lambda>r. (li_created r, li_id r))"

definition list_lineage :: "string \<Rightarrow> string option \<Rightarrow> store \<Rightarrow> lineage_row list" where
  "list_lineage trace tenant st =
     map lineage_from_row (by_age (filter (\<lambda>r. li_trace r = trace \<and> given tenant (li_tenant r)) (lineage_events st)))"

definition recent_agent_lineage :: "time \<Rightarrow> string \<Rightarrow> string \<Rightarrow> int \<Rightarrow> store \<Rightarrow> lineage_row list" where
  "recent_agent_lineage now tenant agent window_seconds st =
     map lineage_from_row (by_age (filter (\<lambda>r. li_tenant r = tenant \<and> li_agent r = agent
        \<and> now - seconds window_seconds \<le> li_created r) (lineage_events st)))"

record trace_overview =
  ts_tenant :: string
  ts_agent :: string
  ts_trace :: string
  ts_trust :: trust_level
  ts_classification :: data_classification
  ts_labels :: "string list"
  ts_nodes :: nat
  ts_last_seen :: time

definition latest :: "lineage_row list \<Rightarrow> time" where
  "latest rs = foldr max (map li_created (tl rs)) (li_created (hd rs))"

text \<open>The validation of the summary: its trace id and its labels. The list is not empty.\<close>

definition summarize_trace :: "lineage_row list \<Rightarrow> exc + trace_overview" where
  "summarize_trace rs =
     (let labels = sorted_set (concat (map li_labels rs)) in
      if ident_ok 128 (li_trace (hd rs)) \<and> list_all taint_label_ok labels then
        Inr \<lparr>ts_tenant = li_tenant (hd rs), ts_agent = li_agent (hd rs), ts_trace = li_trace (hd rs),
          ts_trust = least_trusted (map li_trust rs), ts_classification = highest_classification (map li_classification rs),
          ts_labels = labels, ts_nodes = length rs, ts_last_seen = latest rs\<rparr>
      else Inl (ValueError ''invalid TraceSummary''))"

definition trace_records :: "string \<Rightarrow> string \<Rightarrow> string \<Rightarrow> store \<Rightarrow> lineage_row list" where
  "trace_records tenant agent trace st = filter (\<lambda>r. li_agent r = agent) (list_lineage trace (Some tenant) st)"

definition trace_summary :: "string \<Rightarrow> string \<Rightarrow> string \<Rightarrow> store \<Rightarrow> exc + trace_overview option" where
  "trace_summary tenant agent trace st =
     (let rs = trace_records tenant agent trace st
      in if rs = [] then Inr None else ebind (summarize_trace rs) (\<lambda>s. Inr (Some s)))"

definition trace_key :: "lineage_row \<Rightarrow> string \<times> string \<times> string" where
  "trace_key r = (li_tenant r, li_agent r, li_trace r)"

definition trace_groups :: "store \<Rightarrow> (string \<times> string \<times> string) list" where
  "trace_groups st = newest_first (\<lambda>k. latest (filter (\<lambda>r. trace_key r = k) (lineage_events st)))
     (sorted_set (map trace_key (lineage_events st)))"

definition list_trace_summaries :: "nat \<Rightarrow> store \<Rightarrow> exc + trace_overview list" where
  "list_trace_summaries limit st =
     ebind (traverse (\<lambda>(tenant, agent, trace). trace_summary tenant agent trace st) (take limit (trace_groups st)))
       (\<lambda>ss. Inr (concat (map (\<lambda>s. case s of None \<Rightarrow> [] | Some x \<Rightarrow> [x]) ss)))"

section \<open>Reading and the join\<close>

lemma lineage_from_row_same [simp]:
  "li_id (lineage_from_row r) = li_id r" "li_tenant (lineage_from_row r) = li_tenant r"
  "li_agent (lineage_from_row r) = li_agent r" "li_trace (lineage_from_row r) = li_trace r"
  "li_trust (lineage_from_row r) = li_trust r" "li_classification (lineage_from_row r) = li_classification r"
  "li_labels (lineage_from_row r) = li_labels r" "li_created (lineage_from_row r) = li_created r"
  by (simp_all add: lineage_from_row_def)

lemma set_by_age [simp]: "set (by_age rs) = set rs"
  by (simp add: by_age_def)

lemma set_trace_records:
  "set (trace_records tenant agent trace st) = lineage_from_row ` {r \<in> set (lineage_events st).
     li_trace r = trace \<and> given (Some tenant) (li_tenant r) \<and> li_agent r = agent}"
  by (auto simp: trace_records_def list_lineage_def)

lemma record_lineage_events: "set (lineage_events st) \<subseteq> set (lineage_events (record_lineage r st))"
  by (auto simp: record_lineage_def)

lemma trace_records_mono: "set (trace_records tenant agent trace st) \<subseteq> set (trace_records tenant agent trace (record_lineage r st))"
  unfolding set_trace_records using record_lineage_events [of st r] by blast

lemma trace_summary_Some:
  "trace_summary tenant agent trace st = Inr (Some s) \<longleftrightarrow> trace_records tenant agent trace st \<noteq> []
     \<and> summarize_trace (trace_records tenant agent trace st) = Inr s"
  by (auto simp: trace_summary_def Let_def ebind_Inr_iff)

text \<open>\<open>summary_le a b\<close>: \<open>b\<close> is at least as restricted as \<open>a\<close>.\<close>

definition summary_le :: "trace_overview \<Rightarrow> trace_overview \<Rightarrow> bool" where
  "summary_le a b \<longleftrightarrow> ts_trust a \<le> ts_trust b \<and> ts_classification a \<le> ts_classification b
     \<and> set (ts_labels a) \<subseteq> set (ts_labels b)"

lemma summarize_Inr:
  "summarize_trace rs = Inr s \<Longrightarrow> ts_trust s = least_trusted (map li_trust rs)
    \<and> ts_classification s = highest_classification (map li_classification rs)
    \<and> set (ts_labels s) = (\<Union>r \<in> set rs. set (li_labels r))"
  by (auto simp: summarize_trace_def Let_def split: if_splits)

lemma summarize_mono:
  assumes "set rs \<subseteq> set qs" "summarize_trace rs = Inr a" "summarize_trace qs = Inr b" shows "summary_le a b"
proof -
  have "least_trusted (map li_trust rs) \<le> least_trusted (map li_trust qs)"
    by (rule least_trusted_mono) (simp add: image_mono assms(1))
  moreover have "highest_classification (map li_classification rs) \<le> highest_classification (map li_classification qs)"
    by (rule highest_mono) (simp add: image_mono assms(1))
  ultimately have "ts_trust a \<le> ts_trust b" "ts_classification a \<le> ts_classification b"
    using summarize_Inr [OF assms(2)] summarize_Inr [OF assms(3)] by simp_all
  then show ?thesis using assms(1) summarize_Inr [OF assms(2)] summarize_Inr [OF assms(3)] by (auto simp: summary_le_def)
qed

lemma latest_ge: "r \<in> set rs \<Longrightarrow> li_created r \<le> latest rs"
proof -
  have "x \<in> set xs \<Longrightarrow> x \<le> foldr max xs a" "a \<le> foldr max xs a" for x a and xs :: "time list"
    by (induction xs) (auto simp: le_max_iff_disj)
  then show "r \<in> set rs \<Longrightarrow> li_created r \<le> latest rs"
    by (cases rs) (auto simp: latest_def)
qed

section \<open>Properties\<close>

text \<open>
  The taint of a trace never washes out: whatever is recorded afterwards, the summary of a trace
  keeps at least the distrust, the classification and the labels it had.
\<close>

theorem trace_taint_monotone:
  assumes "trace_summary tenant agent trace st = Inr (Some a)"
    and "trace_summary tenant agent trace (fold record_lineage rs st) = Inr s"
  shows "\<exists>b. s = Some b \<and> summary_le a b"
proof -
  have sub: "set (trace_records tenant agent trace st) \<subseteq> set (trace_records tenant agent trace (fold record_lineage rs st))"
  proof (induction rs arbitrary: st)
    case (Cons r rs)
    then show ?case using trace_records_mono [of tenant agent trace st r] by fastforce
  qed simp
  have a: "trace_records tenant agent trace st \<noteq> []" "summarize_trace (trace_records tenant agent trace st) = Inr a"
    using assms(1) by (simp_all add: trace_summary_Some)
  then have "trace_records tenant agent trace (fold record_lineage rs st) \<noteq> []" using sub by auto
  then obtain b where b: "s = Some b" "summarize_trace (trace_records tenant agent trace (fold record_lineage rs st)) = Inr b"
    using assms(2) by (auto simp: trace_summary_def Let_def ebind_Inr_iff)
  then show ?thesis using summarize_mono [OF sub a(2)] by blast
qed

definition demo_node :: "string \<Rightarrow> data_classification \<Rightarrow> lineage_row" where
  "demo_node i c = \<lparr>li_id = i, li_tenant = ''t'', li_agent = ''a'', li_trace = ''tr'', li_request = None, li_parents = [],
     li_source_type = ''provenance'', li_source_id = ''s'', li_destination = ''agent_context'', li_trust = UNTRUSTED,
     li_classification = c, li_labels = [''web''], li_digest = ''d'', li_created = 0,
     li_field_taint = [([], \<lparr>ft_digest = [], ft_trust = UNTRUSTED, ft_classification = c, ft_labels = [], ft_lineage_ids = []\<rparr>)]\<rparr>"

theorem trace_taint_monotone_witness:
  "\<exists>a b. trace_summary ''t'' ''a'' ''tr'' (record_lineage (demo_node ''x'' CONFIDENTIAL) empty_store) = Inr (Some a)
     \<and> trace_summary ''t'' ''a'' ''tr'' (fold record_lineage [demo_node ''y'' PUBLIC]
         (record_lineage (demo_node ''x'' CONFIDENTIAL) empty_store)) = Inr (Some b) \<and> summary_le a b"
proof -
  let ?st = "record_lineage (demo_node ''x'' CONFIDENTIAL) empty_store"
  have "isl (trace_summary ''t'' ''a'' ''tr'' ?st) = False
      \<and> (case trace_summary ''t'' ''a'' ''tr'' ?st of Inr None \<Rightarrow> False | _ \<Rightarrow> True)" by code_simp
  then obtain a where a: "trace_summary ''t'' ''a'' ''tr'' ?st = Inr (Some a)"
    by (auto split: sum.splits option.splits)
  have "isl (trace_summary ''t'' ''a'' ''tr'' (fold record_lineage [demo_node ''y'' PUBLIC] ?st)) = False" by code_simp
  then obtain s where s: "trace_summary ''t'' ''a'' ''tr'' (fold record_lineage [demo_node ''y'' PUBLIC] ?st) = Inr s"
    by (cases "trace_summary ''t'' ''a'' ''tr'' (fold record_lineage [demo_node ''y'' PUBLIC] ?st)") auto
  from trace_taint_monotone [OF a s] show ?thesis using a s by blast
qed

text \<open>
  A recorded node is listed as it was recorded, up to the order and repetition of its labels,
  except for its field taint, which the store writes and never gives back: the listed node has no
  field taint unless one of its columns happens to hold the text \<^verbatim>\<open>field_taint_json\<close>.
\<close>

theorem lineage_loses_fields:
  assumes "\<forall>q \<in> set (lineage_events st). li_id q \<noteq> li_id r" and "\<not> row_mentions ''field_taint_json'' r"
  shows "r\<lparr>li_labels := sorted_set (li_labels r), li_field_taint := []\<rparr> \<in> set (list_lineage (li_trace r) None (record_lineage r st))
    \<and> (\<forall>q \<in> set (list_lineage (li_trace r) None (record_lineage r st)). li_id q = li_id r \<longrightarrow> li_field_taint q = [])"
proof -
  have e: "lineage_events (record_lineage r st) = lineage_events st @ [stored_lineage r]"
    using assms(1) by (auto simp: record_lineage_def list_ex_iff)
  have m: "row_mentions ''field_taint_json'' (stored_lineage r) = row_mentions ''field_taint_json'' r"
    by (simp add: row_mentions_def stored_lineage_def)
  have f: "lineage_from_row (stored_lineage r) = r\<lparr>li_labels := sorted_set (li_labels r), li_field_taint := []\<rparr>"
    using assms(2) by (simp add: lineage_from_row_def m) (simp add: stored_lineage_def)
  have t: "li_trace (stored_lineage r) = li_trace r" by (simp add: stored_lineage_def)
  have l: "set (list_lineage (li_trace r) None (record_lineage r st)) =
      lineage_from_row ` {q \<in> set (lineage_events st) \<union> {stored_lineage r}. li_trace q = li_trace r}"
    by (auto simp: list_lineage_def e given_def nonempty_def)
  show ?thesis unfolding l using assms(1) f t by (auto simp: image_iff)
qed

theorem lineage_loses_fields_witness:
  "\<forall>q \<in> set (list_lineage ''tr'' None (record_lineage (demo_node ''x'' PUBLIC) empty_store)). li_id q = ''x'' \<longrightarrow> li_field_taint q = []"
  using lineage_loses_fields [of empty_store "demo_node ''x'' PUBLIC"]
  by (simp add: demo_node_def empty_store_def row_mentions_def)

end
