(* ===== verification/Store_Incidents.thy ===== *)
theory Store_Incidents
  imports Store_Audit Store_Lineage
begin

text \<open>
  Incidents of \<^verbatim>\<open>storage.py\<close>: one incident per tenant, agent and trace, that counts events and keeps
  the highest severity, its review, and the counters of the console (\<^verbatim>\<open>metrics\<close>).
\<close>

section \<open>Incidents\<close>

definition severity_rank :: "string \<Rightarrow> nat" where
  "severity_rank s = (if s = ''low'' then 0 else if s = ''medium'' then 1 else if s = ''high'' then 2
     else if s = ''critical'' then 3 else 1)"

definition incident_of :: "string \<Rightarrow> string \<Rightarrow> string \<Rightarrow> incident_row \<Rightarrow> bool" where
  "incident_of tenant agent trace r \<longleftrightarrow> in_tenant r = tenant \<and> in_agent r = agent \<and> in_trace r = trace"

definition upsert_incident :: "time \<Rightarrow> string \<Rightarrow> string \<Rightarrow> string \<Rightarrow> string \<Rightarrow> string \<Rightarrow> string \<Rightarrow> store \<Rightarrow>
    exc + string \<times> store" where
  "upsert_incident now i tenant agent trace severity summary st =
     (case select_one (incident_of tenant agent trace) (incidents st) of
        Some row \<Rightarrow>
          (let chosen = (if severity_rank severity > severity_rank (in_severity row) then severity else in_severity row)
           in Inr (in_id row, st\<lparr>incidents := update_where (\<lambda>r. in_id r = in_id row)
                (\<lambda>r. r\<lparr>in_severity := chosen, in_summary := summary, in_count := in_count r + 1, in_last_seen := now\<rparr>)
                (incidents st)\<rparr>))
      | None \<Rightarrow>
          if list_ex (\<lambda>r. in_id r = i) (incidents st) then Inl (IntegrityError ''incidents.id'')
          else Inr (i, st\<lparr>incidents := incidents st @ [\<lparr>in_id = i, in_tenant = tenant, in_agent = agent, in_trace = trace,
                 in_severity = severity, in_summary = summary, in_count = 1, in_status = ''open'', in_first_seen = now,
                 in_last_seen = now\<rparr>]\<rparr>))"

definition list_incidents :: "nat \<Rightarrow> store \<Rightarrow> incident_row list" where
  "list_incidents limit st = take limit (newest_first in_last_seen (incidents st))"

definition update_incident :: "crypto \<Rightarrow> string \<Rightarrow> time \<Rightarrow> time \<Rightarrow> string \<Rightarrow> string \<Rightarrow> string \<Rightarrow> string \<Rightarrow> string \<Rightarrow> store \<Rightarrow>
    incident_row option \<times> store" where
  "update_incident cr key now audited audit_id i status reviewer remark st =
     (let st1 = st\<lparr>incidents := update_where (\<lambda>r. in_id r = i) (\<lambda>r. r\<lparr>in_status := status, in_last_seen := now\<rparr>) (incidents st)\<rparr>
      in if count_where (\<lambda>r. in_id r = i) (incidents st) \<noteq> 1 then (None, st1)
         else (select_one (\<lambda>r. in_id r = i) (incidents st1),
           append_audit cr key audited audit_id ''incident_status_changed''
             (JDict [(''incident_id'', JStr i), (''status'', JStr status), (''reviewer'', JStr reviewer), (''note'', JStr remark)]) st1))"

section \<open>Counters\<close>

text \<open>SQL \<^verbatim>\<open>LIKE\<close>: \<open>%\<close> stands for any text, \<open>_\<close> for one character, and letters match in either case.\<close>

fun like :: "string \<Rightarrow> string \<Rightarrow> bool" where
  "like [] s = (s = [])"
| "like (p # ps) [] = (p = CHR ''%'' \<and> like ps [])"
| "like (p # ps) (c # s) = (if p = CHR ''%'' then like ps (c # s) \<or> like (p # ps) s
     else (p = CHR ''_'' \<or> fold_char p = fold_char c) \<and> like ps s)"

text \<open>\<^verbatim>\<open>json.dumps\<close> of a list of texts, with its default separators.\<close>

definition labels_text :: "string list \<Rightarrow> string" where
  "labels_text ls = ''['' @ str_join '', '' (map (quote True) ls) @ '']''"

definition tainted_row :: "lineage_row \<Rightarrow> bool" where
  "tainted_row r \<longleftrightarrow> li_classification r = CONFIDENTIAL \<or> li_classification r = RESTRICTED
     \<or> like ''%prompt_injection%'' (labels_text (li_labels r)) \<or> like ''%customer-data%'' (labels_text (li_labels r))
     \<or> like ''%secret%'' (labels_text (li_labels r))"

definition distinct_count :: "'a list \<Rightarrow> nat" where
  "distinct_count xs = length (remdups xs)"

definition live_row :: "time \<Rightarrow> containment_row \<Rightarrow> bool" where
  "live_row now c \<longleftrightarrow> co_released c = None \<and> now < co_expires c"

definition metrics :: "time \<Rightarrow> time \<Rightarrow> store \<Rightarrow> (string \<times> nat) list" where
  "metrics now1 now2 st =
    [(''audit_events'', length (audit_events st)),
     (''pending_approvals'', count_where (\<lambda>r. ap_status r = ''pending'') (approvals st)),
     (''open_incidents'', count_where (\<lambda>r. in_status r = ''open'') (incidents st)),
     (''quarantined_agents'', distinct_count (map (\<lambda>c. co_tenant c @ '':'' @ co_agent c)
        (filter (\<lambda>c. live_row now1 c \<and> (co_mode c = QUARANTINE \<or> co_mode c = REVOKE)) (containments st)))),
     (''active_containments'', count_where (live_row now2) (containments st)),
     (''registered_agents'', length (agents st)),
     (''successful_executions'', count_where (\<lambda>r. ex_status r = ''succeeded'') (executions st)),
     (''failed_executions'', count_where (\<lambda>r. ex_status r = ''failed'') (executions st)),
     (''tainted_traces'', distinct_count (map (\<lambda>r. li_tenant r @ '':'' @ li_agent r @ '':'' @ li_trace r)
        (filter tainted_row (lineage_events st)))),
     (''mcp_tools_baselined'', length (mcp_tool_baselines st)),
     (''notification_jobs_pending'', count_where (\<lambda>j. jo_status j = ''pending'' \<or> jo_status j = ''retry''
        \<or> jo_status j = ''processing'') (outbox_jobs st)),
     (''notification_jobs_dead'', count_where (\<lambda>j. jo_status j = ''dead'') (outbox_jobs st)),
     (''watch_active_tasks'', count_where (\<lambda>t. wt_status t = ''active'') (watch_tasks st)),
     (''watch_open_findings'', count_where (\<lambda>f. wf_status f = ''open'') (watch_findings st)),
     (''watch_events'', length (watch_events st))]"

section \<open>One incident per trace\<close>

definition incident_key :: "incident_row \<Rightarrow> string \<times> string \<times> string" where
  "incident_key r = (in_tenant r, in_agent r, in_trace r)"

definition incidents_wf :: "store \<Rightarrow> bool" where
  "incidents_wf st \<longleftrightarrow> distinct (map in_id (incidents st)) \<and> distinct (map incident_key (incidents st))"

lemma incident_of_key: "incident_of tenant agent trace r \<longleftrightarrow> incident_key r = (tenant, agent, trace)"
  by (auto simp: incident_of_def incident_key_def)

lemma upsert_incident_wf:
  assumes "incidents_wf st" "upsert_incident now i tenant agent trace severity summary st = Inr (r, st')"
  shows "incidents_wf st'"
proof (cases "select_one (incident_of tenant agent trace) (incidents st)")
  case None
  then have "incidents st' = incidents st @ [\<lparr>in_id = i, in_tenant = tenant, in_agent = agent, in_trace = trace,
      in_severity = severity, in_summary = summary, in_count = 1, in_status = ''open'', in_first_seen = now,
      in_last_seen = now\<rparr>]" and "\<forall>r \<in> set (incidents st). in_id r \<noteq> i"
    using assms(2) by (auto simp: upsert_incident_def list_ex_iff split: if_splits)
  moreover have "\<forall>r \<in> set (incidents st). incident_key r \<noteq> (tenant, agent, trace)"
    using None unfolding select_one_None by (simp add: incident_of_key)
  ultimately show ?thesis using assms(1) by (auto simp: incidents_wf_def incident_key_def)
next
  case (Some row)
  define f where "f = (\<lambda>r :: incident_row. r\<lparr>in_severity := (if severity_rank severity > severity_rank (in_severity row) then severity else in_severity row),
    in_summary := summary, in_count := in_count r + 1, in_last_seen := now\<rparr>)"
  have e: "incidents st' = update_where (\<lambda>r. in_id r = in_id row) f (incidents st)"
    using assms(2) Some by (auto simp: upsert_incident_def Let_def f_def)
  have "map in_id (incidents st') = map in_id (incidents st)" "map incident_key (incidents st') = map incident_key (incidents st)"
    unfolding e by (rule map_update_where; simp add: f_def incident_key_def)+
  then show ?thesis using assms(1) by (simp add: incidents_wf_def del: set_map)
qed

text \<open>A run of incident reports: tenant, agent, trace, severity, summary, with the id and time of each.\<close>

definition report :: "time \<times> string \<times> string \<times> string \<times> string \<times> string \<times> string \<Rightarrow> store \<Rightarrow> store" where
  "report = (\<lambda>(now, i, tenant, agent, trace, severity, summary) st.
     case upsert_incident now i tenant agent trace severity summary st of Inr (r, st') \<Rightarrow> st' | Inl e \<Rightarrow> st)"

lemma report_wf: "incidents_wf st \<Longrightarrow> incidents_wf (report x st)"
  by (auto simp: report_def intro: upsert_incident_wf split: prod.splits sum.splits)

definition incident_at :: "string \<Rightarrow> store \<Rightarrow> incident_row option" where
  "incident_at i st = select_one (\<lambda>r. in_id r = i) (incidents st)"

lemma report_grows:
  assumes "incidents_wf st" "incident_at i st = Some a"
  shows "\<exists>b. incident_at i (report x st) = Some b \<and> incident_key b = incident_key a
    \<and> severity_rank (in_severity a) \<le> severity_rank (in_severity b) \<and> in_count a \<le> in_count b \<and> in_status b = in_status a"
proof -
  obtain now j tenant agent trace severity summary where x: "x = (now, j, tenant, agent, trace, severity, summary)"
    by (cases x) auto
  show ?thesis
  proof (cases "select_one (incident_of tenant agent trace) (incidents st)")
    case None
    then show ?thesis using assms(2) x by (auto simp: report_def upsert_incident_def incident_at_def select_one_snoc)
  next
    case (Some row)
    note row = select_one_Some [OF Some]
    let ?f = "\<lambda>r :: incident_row. r\<lparr>in_severity := (if severity_rank severity > severity_rank (in_severity row) then severity else in_severity row),
      in_summary := summary, in_count := in_count r + 1, in_last_seen := now\<rparr>"
    have at: "incident_at i (report x st) = map_option (\<lambda>r. if in_id r = in_id row then ?f r else r) (incident_at i st)"
      by (simp add: x report_def upsert_incident_def Some Let_def incident_at_def select_one_update_any del: Suc_eq_plus1 One_nat_def)
    have a: "a \<in> set (incidents st)" using select_one_Some assms(2) unfolding incident_at_def by fast
    have "a = row" if "in_id a = in_id row"
      by (rule distinct_key [OF _ a _ that]) (use assms(1) row in \<open>simp_all add: incidents_wf_def\<close>)
    then show ?thesis using at assms(2) by (auto simp: incident_key_def)
  qed
qed

section \<open>Properties\<close>

text \<open>
  Incidents only escalate: from the empty store, through any run of reports, there is one
  incident per tenant, agent and trace, and later reports never lower the severity of an incident,
  its number of events, or reopen or close it.
\<close>

theorem incidents_escalate:
  assumes "incident_at i (fold report early empty_store) = Some a"
  shows "\<exists>b. incident_at i (fold report (early @ late) empty_store) = Some b
    \<and> severity_rank (in_severity a) \<le> severity_rank (in_severity b) \<and> in_count a \<le> in_count b \<and> in_status b = in_status a
    \<and> distinct (map incident_key (incidents (fold report (early @ late) empty_store)))"
proof -
  have wf: "incidents_wf st \<Longrightarrow> incidents_wf (fold report xs st)" for xs st
    by (induction xs arbitrary: st) (auto simp: report_wf)
  have "incidents_wf empty_store" by (simp add: incidents_wf_def empty_store_def)
  then have wfe: "incidents_wf (fold report early empty_store)" by (rule wf)
  have "\<exists>b. incident_at i (fold report xs st) = Some b \<and> severity_rank (in_severity a) \<le> severity_rank (in_severity b)
      \<and> in_count a \<le> in_count b \<and> in_status b = in_status a"
    if "incidents_wf st" "incident_at i st = Some a" for st a xs using that
  proof (induction xs arbitrary: st a)
    case (Cons x xs)
    obtain b where b: "incident_at i (report x st) = Some b" "severity_rank (in_severity a) \<le> severity_rank (in_severity b)"
      "in_count a \<le> in_count b" "in_status b = in_status a" using report_grows [OF Cons.prems] by blast
    from Cons.IH [OF report_wf [OF Cons.prems(1)] b(1)] b show ?case by (fastforce intro: order_trans)
  qed simp
  from this [OF wfe assms] show ?thesis using wf [OF wfe, of late] by (auto simp: incidents_wf_def)
qed

theorem incidents_escalate_witness:
  "\<exists>b. incident_at ''i'' (fold report ([(0, ''i'', ''t'', ''a'', ''tr'', ''high'', ''s'')] @ [(1, ''j'', ''t'', ''a'', ''tr'', ''low'', ''s2'')]) empty_store) = Some b
     \<and> severity_rank ''high'' \<le> severity_rank (in_severity b)"
proof -
  obtain a where a: "incident_at ''i'' (fold report [(0, ''i'', ''t'', ''a'', ''tr'', ''high'', ''s'')] empty_store) = Some a"
      "in_severity a = ''high''"
    by (simp add: report_def upsert_incident_def empty_store_def select_one_def incident_at_def)
  from incidents_escalate [OF a(1), of "[(1, ''j'', ''t'', ''a'', ''tr'', ''low'', ''s2'')]"] show ?thesis
    using a(2) by auto
qed

end
