(* ===== verification/Store_Approvals.thy ===== *)
theory Store_Approvals
  imports Tables One_Shot
begin

text \<open>
  Encrypted records, approvals and executions. An approval is \<^verbatim>\<open>pending\<close>, is resolved once by a
  reviewer, and an approved one is consumed once; an execution of a request id is claimed once.
  Both rest on one contract, \<open>one_shot\<close>: a claim that succeeds marks its key as spent, and
  nothing that happens later makes a spent key claimable again.
\<close>

section \<open>Encrypted records\<close>

definition pad64 :: "string \<Rightarrow> string" where
  "pad64 s = s @ replicate ((4 - length s mod 4) mod 4) CHR ''=''"

text \<open>
  The lenient decoder: characters outside the alphabet are skipped, and a padding that completes a
  group ends the input; the first argument is the place in the group, the second counts padding.
\<close>

fun lenient :: "nat \<Rightarrow> nat \<Rightarrow> string \<Rightarrow> nat list option" where
  "lenient pos pads [] = (if pos = 0 then Some [] else None)"
| "lenient pos pads (c # s) =
     (if c = CHR ''='' then
        (if 2 \<le> pos then (if 4 \<le> pos + Suc pads then Some [] else lenient pos (Suc pads) s)
         else lenient pos pads s)
      else case sextet_val c of None \<Rightarrow> lenient pos pads s
        | Some v \<Rightarrow> map_option (Cons v) (lenient (Suc pos mod 4) 0 s))"

definition urlsafe_b64decode :: "string \<Rightarrow> string option" where
  "urlsafe_b64decode s = map_option (map char_of) (Option.bind (lenient 0 0 s) b64_decode)"

definition encrypt_blob :: "crypto \<Rightarrow> string \<Rightarrow> string \<Rightarrow> string \<Rightarrow> string \<Rightarrow> string" where
  "encrypt_blob cr key nonce plaintext purpose =
     ''v1.'' @ pad64 (encode (nonce @ aead_encrypt cr key nonce plaintext purpose))"

definition decrypt_blob :: "crypto \<Rightarrow> string \<Rightarrow> string \<Rightarrow> string \<Rightarrow> exc + string" where
  "decrypt_blob cr key protected purpose =
     (let failed = Inl (StorageIntegrityError ''Encrypted record failed authentication'')
      in if CHR ''.'' \<notin> set protected then failed
         else if takeWhile (\<lambda>c. c \<noteq> CHR ''.'') protected \<noteq> ''v1'' then
           Inl (StorageIntegrityError ''Unsupported encrypted record version'')
         else case urlsafe_b64decode (tl (dropWhile (\<lambda>c. c \<noteq> CHR ''.'') protected)) of
           None \<Rightarrow> failed
         | Some payload \<Rightarrow> (case aead_decrypt cr key (take 12 payload) (drop 12 payload) purpose of
               None \<Rightarrow> failed
             | Some plaintext \<Rightarrow> Inr plaintext))"

text \<open>The documented behaviour of the cipher: what was encrypted decrypts.\<close>

definition aead_ok :: "crypto \<Rightarrow> bool" where
  "aead_ok cr \<longleftrightarrow> (\<forall>k n s p. aead_decrypt cr k n (aead_encrypt cr k n s p) p = Some s)"

lemma sextet_char_eq: "n < 64 \<Longrightarrow> sextet_char n \<noteq> CHR ''=''"
proof -
  have "sextet_val CHR ''='' = None" by (simp add: sextet_val_def)
  then show "n < 64 \<Longrightarrow> ?thesis" by (metis sextet_val_char option.distinct(1))
qed

lemma lenient_chars:
  "\<forall>x \<in> set xs. x < 64 \<Longrightarrow>
   lenient pos 0 (map sextet_char xs @ t) = map_option ((@) xs) (lenient ((pos + length xs) mod 4) 0 t)"
  if "pos < 4" for pos
  using that
proof (induction xs arbitrary: pos)
  case Nil
  then show ?case by (simp add: option.map_ident)
next
  case (Cons x xs)
  then have "lenient (Suc pos mod 4) 0 (map sextet_char xs @ t) =
      map_option ((@) xs) (lenient ((Suc pos mod 4 + length xs) mod 4) 0 t)" by simp
  moreover have "(Suc pos mod 4 + length xs) mod 4 = (pos + length (x # xs)) mod 4"
    by (simp add: mod_simps)
  ultimately show ?case
    using Cons sextet_char_eq [of x] by (simp add: option.map_comp comp_def)
qed

lemma b64_encode_length: "length (b64_encode bs) mod 4 \<noteq> 1"
proof (induction bs rule: b64_encode.induct)
  case (1 a b c r)
  have "length (b64_encode (a # b # c # r)) = length (b64_encode r) + 4" by simp
  then show ?case using 1 by (metis mod_add_self2)
qed simp_all

lemma lenient_pad: "n < 4 \<Longrightarrow> n \<noteq> 1 \<Longrightarrow> lenient n 0 (replicate ((4 - n) mod 4) CHR ''='') = Some []"
proof -
  assume "n < 4" "n \<noteq> 1"
  then consider "n = 0" | "n = 2" | "n = 3" by linarith
  then show ?thesis
  proof cases
    case 2
    then have "(4 - n) mod 4 = Suc (Suc 0)" by simp
    then show ?thesis unfolding 2 by (simp add: numeral_2_eq_2)
  next
    case 3
    then have "(4 - n) mod 4 = Suc 0" by simp
    then show ?thesis unfolding 3 by simp
  qed simp
qed

lemma urlsafe_roundtrip: "urlsafe_b64decode (pad64 (encode s)) = Some s"
proof -
  let ?xs = "b64_encode (map of_char s)"
  have b: "\<forall>x \<in> set ?xs. x < 64" by (rule b64_encode_bound [OF bytes_bound])
  have "lenient 0 0 (pad64 (encode s)) = Some ?xs"
    using lenient_chars [of 0 ?xs, OF _ b] lenient_pad [of "length ?xs mod 4"] b64_encode_length [of "map of_char s"]
    by (simp add: pad64_def encode_def)
  then show ?thesis
    by (simp add: urlsafe_b64decode_def b64_roundtrip [OF bytes_bound] comp_def)
qed

lemma decrypt_encrypt:
  assumes "aead_ok cr" "length nonce = 12"
  shows "decrypt_blob cr key (encrypt_blob cr key nonce s p) p = Inr s"
  using assms by (simp add: decrypt_blob_def encrypt_blob_def urlsafe_roundtrip aead_ok_def Let_def)

section \<open>Approvals\<close>

record approval =
  av_id :: string
  av_request :: tool_call
  av_hash :: string
  av_agent :: string
  av_tenant :: string
  av_scopes :: "string list"
  av_status :: string
  av_created :: time
  av_expires :: time
  av_resolved :: "time option"
  av_reviewer :: "string option"
  av_note :: string

definition APPROVAL_PURPOSE :: string where
  "APPROVAL_PURPOSE = ''sentinelgate-approval-v1''"

definition approval_from_row :: "crypto \<Rightarrow> string \<Rightarrow> approval_row \<Rightarrow> exc + approval" where
  "approval_from_row cr key row =
     ebind (decrypt_blob cr key (ap_request_json row) APPROVAL_PURPOSE) (\<lambda>text.
       case Option.bind (loads text) call_of_json of
         None \<Rightarrow> Inl (ValueError ''invalid ToolCallRequest'')
       | Some call \<Rightarrow> Inr \<lparr>av_id = ap_id row, av_request = call, av_hash = ap_hash row, av_agent = ap_agent row,
           av_tenant = ap_tenant row, av_scopes = ap_scopes row, av_status = ap_status row,
           av_created = ap_created row, av_expires = ap_expires row, av_resolved = ap_resolved row,
           av_reviewer = ap_reviewer row, av_note = ap_note row\<rparr>)"

definition new_approval :: "crypto \<Rightarrow> string \<Rightarrow> string \<Rightarrow> string \<Rightarrow> time \<Rightarrow> tool_call \<Rightarrow> string \<Rightarrow>
    agent_principal \<Rightarrow> int \<Rightarrow> approval_row" where
  "new_approval cr key nonce i now request digest agent ttl =
     \<lparr>ap_id = i, ap_request_json = encrypt_blob cr key nonce (dumps False (call_json request)) APPROVAL_PURPOSE,
      ap_hash = digest, ap_agent = pr_agent_id agent, ap_tenant = pr_tenant_id agent,
      ap_scopes = sort (pr_scopes agent), ap_status = ''pending'', ap_created = now,
      ap_expires = now + seconds ttl, ap_resolved = None, ap_reviewer = None, ap_note = []\<rparr>"

definition create_approval :: "crypto \<Rightarrow> string \<Rightarrow> string \<Rightarrow> string \<Rightarrow> time \<Rightarrow> tool_call \<Rightarrow> string \<Rightarrow>
    agent_principal \<Rightarrow> int \<Rightarrow> store \<Rightarrow> exc + store" where
  "create_approval cr key nonce i now request digest agent ttl st =
     (if list_ex (\<lambda>r. ap_id r = i) (approvals st) then Inl (IntegrityError ''approvals_v2.id'')
      else Inr (st\<lparr>approvals := approvals st @ [new_approval cr key nonce i now request digest agent ttl]\<rparr>))"

definition get_approval :: "crypto \<Rightarrow> string \<Rightarrow> string \<Rightarrow> store \<Rightarrow> exc + approval option" where
  "get_approval cr key i st = (case select_one (\<lambda>r. ap_id r = i) (approvals st) of
      None \<Rightarrow> Inr None
    | Some row \<Rightarrow> ebind (approval_from_row cr key row) (\<lambda>a. Inr (Some a)))"

definition list_approvals :: "crypto \<Rightarrow> string \<Rightarrow> string option \<Rightarrow> store \<Rightarrow> exc + approval list" where
  "list_approvals cr key status st =
     traverse (approval_from_row cr key)
       (newest_first ap_created (filter (\<lambda>r. given status (ap_status r)) (approvals st)))"

definition resolvable :: "time \<Rightarrow> approval_row \<Rightarrow> bool" where
  "resolvable now r \<longleftrightarrow> ap_status r = ''pending'' \<and> now < ap_expires r"

definition consumable :: "time \<Rightarrow> approval_row \<Rightarrow> bool" where
  "consumable now r \<longleftrightarrow> ap_status r = ''approved'' \<and> now < ap_expires r"

text \<open>The transaction of \<open>resolve_approval\<close> and of \<open>consume_approval\<close>; the row is read back after it.\<close>

definition resolve_approval :: "time \<Rightarrow> string \<Rightarrow> string \<Rightarrow> string \<Rightarrow> string \<Rightarrow> store \<Rightarrow> bool \<times> store" where
  "resolve_approval now i status reviewer note st = (case select_one (\<lambda>r. ap_id r = i) (approvals st) of
      None \<Rightarrow> (False, st)
    | Some row \<Rightarrow>
        if resolvable now row then
          (True, st\<lparr>approvals := update_where (\<lambda>r. ap_id r = i)
             (\<lambda>r. r\<lparr>ap_status := status, ap_resolved := Some now, ap_reviewer := Some reviewer, ap_note := note\<rparr>)
             (approvals st)\<rparr>)
        else (False, st))"

definition consume_approval :: "time \<Rightarrow> string \<Rightarrow> store \<Rightarrow> bool \<times> store" where
  "consume_approval now i st = (case select_one (\<lambda>r. ap_id r = i) (approvals st) of
      None \<Rightarrow> (False, st)
    | Some row \<Rightarrow>
        if consumable now row then
          (True, st\<lparr>approvals := update_where (\<lambda>r. ap_id r = i) (\<lambda>r. r\<lparr>ap_status := ''consumed''\<rparr>) (approvals st)\<rparr>)
        else (False, st))"

lemma approval_roundtrip:
  assumes "aead_ok cr" "length nonce = 12" "tool_call_ok request" "tool_call_wf request"
  shows "approval_from_row cr key (new_approval cr key nonce i now request digest agent ttl) =
    Inr \<lparr>av_id = i, av_request = request, av_hash = digest, av_agent = pr_agent_id agent,
      av_tenant = pr_tenant_id agent, av_scopes = sort (pr_scopes agent), av_status = ''pending'',
      av_created = now, av_expires = now + seconds ttl, av_resolved = None, av_reviewer = None, av_note = []\<rparr>"
  using assms by (simp add: approval_from_row_def new_approval_def decrypt_encrypt loads_dumps call_json_wf call_roundtrip)

section \<open>Executions\<close>

definition claim_execution :: "time \<Rightarrow> string \<Rightarrow> string \<Rightarrow> store \<Rightarrow> bool \<times> store" where
  "claim_execution now request_id digest st =
     (if list_ex (\<lambda>r. ex_request_id r = request_id) (executions st) then (False, st)
      else (True, st\<lparr>executions := executions st @ [\<lparr>ex_request_id = request_id, ex_hash = digest,
              ex_status = ''running'', ex_started = now, ex_completed = None\<rparr>]\<rparr>))"

definition finish_execution :: "time \<Rightarrow> string \<Rightarrow> string \<Rightarrow> store \<Rightarrow> store" where
  "finish_execution now request_id status st =
     st\<lparr>executions := update_where (\<lambda>r. ex_request_id r = request_id)
        (\<lambda>r. r\<lparr>ex_status := status, ex_completed := Some now\<rparr>) (executions st)\<rparr>"

section \<open>At most once\<close>

definition execution_claim :: "time \<times> string \<times> string \<Rightarrow> store \<Rightarrow> bool \<times> store" where
  "execution_claim = (\<lambda>(now, request_id, digest). claim_execution now request_id digest)"

definition execution_finish :: "time \<times> string \<times> string \<Rightarrow> store \<Rightarrow> store" where
  "execution_finish = (\<lambda>(now, request_id, status). finish_execution now request_id status)"

definition claimed :: "string \<Rightarrow> store \<Rightarrow> bool" where
  "claimed i st \<longleftrightarrow> i \<in> ex_request_id ` set (executions st)"

lemma finish_ids [simp]: "map ex_request_id (executions (finish_execution now i s st)) = map ex_request_id (executions st)"
  by (simp add: finish_execution_def map_update_where)

lemma claimed_ids: "claimed i st \<longleftrightarrow> i \<in> set (map ex_request_id (executions st))"
  by (simp add: claimed_def)

interpretation exec: one_shot execution_claim "\<lambda>(now, i, d). i" execution_finish claimed "\<lambda>_. True"
proof
  fix c st st' b k
  show "execution_claim c st = (True, st') \<Longrightarrow>
      \<not> claimed ((\<lambda>(now, i, d). i) c) st \<and> claimed ((\<lambda>(now, i, d). i) c) st'"
    by (cases c) (auto simp: execution_claim_def claim_execution_def claimed_def list_ex_iff split: if_splits)
  show "execution_claim c st = (b, st') \<Longrightarrow> claimed k st \<Longrightarrow> claimed k st'"
    by (cases c) (auto simp: execution_claim_def claim_execution_def claimed_def split: if_splits)
next
  fix k st o'
  show "claimed k st \<Longrightarrow> claimed k (execution_finish o' st)"
    by (cases o') (simp add: execution_finish_def claimed_ids del: set_map)
qed

datatype approval_op =
    Create string string time tool_call string agent_principal int
  | Resolve time string string string string

fun approval_step :: "crypto \<Rightarrow> string \<Rightarrow> approval_op \<Rightarrow> store \<Rightarrow> store" where
  "approval_step cr key (Create nonce i now request digest agent ttl) st =
     (case create_approval cr key nonce i now request digest agent ttl st of Inr st' \<Rightarrow> st' | Inl _ \<Rightarrow> st)"
| "approval_step cr key (Resolve now i status reviewer note) st = snd (resolve_approval now i status reviewer note st)"

definition approval_claim :: "time \<times> string \<Rightarrow> store \<Rightarrow> bool \<times> store" where
  "approval_claim = (\<lambda>(now, i). consume_approval now i)"

definition status_of :: "string \<Rightarrow> store \<Rightarrow> string option" where
  "status_of i st = map_option ap_status (select_one (\<lambda>r. ap_id r = i) (approvals st))"

lemma select_one_append: "select_one P (xs @ ys) = (case select_one P xs of Some r \<Rightarrow> Some r | None \<Rightarrow> select_one P ys)"
  by (induction xs) (auto simp: select_one_def)

lemma status_of_update:
  "status_of i (st\<lparr>approvals := update_where (\<lambda>r. ap_id r = j) f (approvals st)\<rparr>) =
     (if i = j then map_option (ap_status \<circ> f) (select_one (\<lambda>r. ap_id r = i) (approvals st)) else status_of i st)"
  if "\<And>r. ap_id (f r) = ap_id r" for f
  using select_one_update [of ap_id f, OF that] select_one_update_other [of ap_id f, OF that]
  by (simp add: status_of_def option.map_comp)

text \<open>How the status of an approval may move.\<close>

lemma new_approval_status [simp]: "ap_status (new_approval cr key nonce i now request digest agent ttl) = ''pending''"
  by (simp add: new_approval_def)

lemma create_status:
  "create_approval cr key nonce i now request digest agent ttl st = Inr st' \<Longrightarrow>
     status_of j st' = (if j = i then Some ''pending'' else status_of j st)"
proof -
  assume c: "create_approval cr key nonce i now request digest agent ttl st = Inr st'"
  then have new: "select_one (\<lambda>r. ap_id r = i) (approvals st) = None"
    by (auto simp: create_approval_def select_one_None list_ex_iff split: if_splits)
  have one: "select_one (\<lambda>r. ap_id r = k) [new_approval cr key nonce i now request digest agent ttl] =
      (if k = i then Some (new_approval cr key nonce i now request digest agent ttl) else None)" for k
    by (simp add: select_one_def new_approval_def)
  show ?thesis
    using c new unfolding status_of_def
    by (auto simp: create_approval_def select_one_append one split: if_splits option.splits)
qed

lemma resolve_status:
  "resolve_approval now i status reviewer note st = (b, st') \<Longrightarrow>
     status_of j st' = (if b \<and> j = i then Some status else status_of j st) \<and> (b \<longrightarrow> status_of i st = Some ''pending'')"
  by (auto simp: resolve_approval_def status_of_update resolvable_def split: option.splits if_splits)
     (auto simp: status_of_def)

lemma consume_status:
  "consume_approval now i st = (b, st') \<Longrightarrow>
     status_of j st' = (if b \<and> j = i then Some ''consumed'' else status_of j st) \<and> (b \<longrightarrow> status_of i st = Some ''approved'')"
  by (auto simp: consume_approval_def status_of_update consumable_def split: option.splits if_splits)
     (auto simp: status_of_def)

definition consumed :: "string \<Rightarrow> store \<Rightarrow> bool" where
  "consumed i st \<longleftrightarrow> status_of i st = Some ''consumed''"

interpretation appr: one_shot approval_claim snd "approval_step cr key" consumed "\<lambda>_. True" for cr key
proof
  fix c st st' b k
  show "approval_claim c st = (True, st') \<Longrightarrow> \<not> consumed (snd c) st \<and> consumed (snd c) st'"
    using consume_status [of "fst c" "snd c" st True st' "snd c"]
    by (cases c) (auto simp: approval_claim_def consumed_def)
  show "approval_claim c st = (b, st') \<Longrightarrow> consumed k st \<Longrightarrow> consumed k st'"
    using consume_status [of "fst c" "snd c" st b st' k]
    by (cases c) (auto simp: approval_claim_def consumed_def)
next
  fix k st o'
  assume k: "consumed k st"
  show "consumed k (approval_step cr key o' st)"
  proof (cases o')
    case (Create nonce i now request digest agent ttl)
    then show ?thesis using k
      by (auto simp: consumed_def create_approval_def status_of_def select_one_append split: sum.splits if_splits)
  next
    case (Resolve now i status reviewer remark)
    obtain b st' where r: "resolve_approval now i status reviewer remark st = (b, st')" by force
    from resolve_status [OF r, of k] show ?thesis using k by (auto simp: Resolve consumed_def r)
  qed
qed

section \<open>The life of an approval\<close>

text \<open>The transactions of the program on the approvals: the two reviewer routes resolve to these statuses.\<close>

inductive approval_move :: "crypto \<Rightarrow> string \<Rightarrow> store \<Rightarrow> store \<Rightarrow> bool" for cr key where
  Created: "create_approval cr key nonce i now request digest agent ttl st = Inr st' \<Longrightarrow> approval_move cr key st st'"
| Approved: "resolve_approval now i ''approved'' reviewer remark st = (b, st') \<Longrightarrow> approval_move cr key st st'"
| Rejected: "resolve_approval now i ''rejected'' reviewer remark st = (b, st') \<Longrightarrow> approval_move cr key st st'"
| Consumed: "consume_approval now i st = (b, st') \<Longrightarrow> approval_move cr key st st'"

inductive_cases approval_moveE: "approval_move cr key st st'"

definition final_status :: "string option \<Rightarrow> bool" where
  "final_status s \<longleftrightarrow> s = Some ''rejected'' \<or> s = Some ''consumed''"

lemma created_absent:
  "create_approval cr key nonce i now request digest agent ttl st = Inr st' \<Longrightarrow> status_of i st = None"
  by (auto simp: create_approval_def status_of_def select_one_None list_ex_iff split: if_splits)

lemma move_final: "approval_move cr key st st' \<Longrightarrow> final_status (status_of j st) \<Longrightarrow> status_of j st' = status_of j st"
proof (induction rule: approval_move.induct)
  case (Created nonce i now request digest agent ttl st st')
  then show ?case using create_status [OF Created(1), of j] created_absent [OF Created(1)]
    by (auto simp: final_status_def)
next
  case (Approved now i reviewer remark st b st')
  then show ?case using resolve_status [OF Approved(1), of j] by (auto simp: final_status_def)
next
  case (Rejected now i reviewer remark st b st')
  then show ?case using resolve_status [OF Rejected(1), of j] by (auto simp: final_status_def)
next
  case (Consumed now i st b st')
  then show ?case using consume_status [OF Consumed(1), of j] by (auto simp: final_status_def)
qed

lemma moves_final:
  "(approval_move cr key)\<^sup>*\<^sup>* st st' \<Longrightarrow> final_status (status_of j st) \<Longrightarrow> status_of j st' = status_of j st"
proof (induction rule: rtranclp_induct)
  case (step y z)
  then show ?case using move_final [of cr key y z j] by simp
qed simp

section \<open>Properties\<close>

text \<open>
  C16. An approval is consumed at most once: in any run of consumptions, creations and resolutions,
  from any store, the approvals whose consumption succeeds are distinct.
\<close>

theorem approval_consumed_once:
  "distinct (map snd (wins approval_claim (approval_step cr key) acts st))"
  by (simp add: appr.at_most_once)

text \<open>
  A request id is executed at most once: in any run of claims and completions, from any store,
  the request ids whose claim succeeds are distinct.
\<close>

theorem execution_claimed_once:
  "distinct (map (\<lambda>(now, i, d). i) (wins execution_claim execution_finish acts st))"
  by (simp add: exec.at_most_once)

text \<open>
  A rejected or consumed approval stays what it is, whatever transactions follow: it can no
  longer be approved, rejected or consumed.
\<close>

theorem approval_final:
  assumes "(approval_move cr key)\<^sup>*\<^sup>* st st'" and "final_status (status_of i st)"
  shows "status_of i st' = status_of i st \<and> \<not> fst (resolve_approval now i s reviewer remark st')
    \<and> \<not> fst (consume_approval now i st')"
proof -
  have f: "status_of i st' = status_of i st" using assms by (rule moves_final)
  moreover have "\<not> fst (resolve_approval now i s reviewer remark st')"
    using resolve_status [of now i s reviewer remark st'] f assms(2)
    by (cases "resolve_approval now i s reviewer remark st'") (auto simp: final_status_def)
  moreover have "\<not> fst (consume_approval now i st')"
    using consume_status [of now i st'] f assms(2)
    by (cases "consume_approval now i st'") (auto simp: final_status_def)
  ultimately show ?thesis by blast
qed

definition demo_approval_row :: approval_row where
  "demo_approval_row = \<lparr>ap_id = ''a'', ap_request_json = [], ap_hash = [], ap_agent = [], ap_tenant = [], ap_scopes = [],
     ap_status = ''approved'', ap_created = 0, ap_expires = 10, ap_resolved = None, ap_reviewer = None, ap_note = []\<rparr>"

theorem approval_final_witness:
  "fst (consume_approval 5 ''a'' (empty_store\<lparr>approvals := [demo_approval_row]\<rparr>))
   \<and> \<not> fst (consume_approval 6 ''a'' (snd (consume_approval 5 ''a'' (empty_store\<lparr>approvals := [demo_approval_row]\<rparr>))))"
proof
  let ?st = "empty_store\<lparr>approvals := [demo_approval_row]\<rparr>"
  show "fst (consume_approval 5 ''a'' ?st)" by code_simp
  have "final_status (status_of ''a'' (snd (consume_approval 5 ''a'' ?st)))" by code_simp
  from approval_final [OF rtranclp.rtrancl_refl this]
  show "\<not> fst (consume_approval 6 ''a'' (snd (consume_approval 5 ''a'' ?st)))" by blast
qed

text \<open>
  A stored approval gives back the request it was created for: reading the created row decrypts
  and validates to the same call, hash, agent, tenant, scopes and expiry, given an authenticated
  cipher that decrypts what it encrypted.
\<close>

theorem approval_reads_back:
  assumes "aead_ok cr" and "length nonce = 12" and "tool_call_ok request" and "tool_call_wf request"
    and "create_approval cr key nonce i now request digest agent ttl st = Inr st'"
  shows "get_approval cr key i st' = Inr (Some \<lparr>av_id = i, av_request = request, av_hash = digest,
      av_agent = pr_agent_id agent, av_tenant = pr_tenant_id agent, av_scopes = sort (pr_scopes agent),
      av_status = ''pending'', av_created = now, av_expires = now + seconds ttl, av_resolved = None,
      av_reviewer = None, av_note = []\<rparr>)"
proof -
  let ?r = "new_approval cr key nonce i now request digest agent ttl"
  have "select_one (\<lambda>r. ap_id r = i) (approvals st') = Some ?r"
  proof -
    have "select_one (\<lambda>r. ap_id r = i) (approvals st) = None" "approvals st' = approvals st @ [?r]"
      using assms(5) by (auto simp: create_approval_def select_one_None list_ex_iff split: if_splits)
    moreover have "select_one (\<lambda>r. ap_id r = i) [?r] = Some ?r" by (simp add: select_one_def new_approval_def)
    ultimately show ?thesis by (simp add: select_one_append)
  qed
  then show ?thesis using approval_roundtrip [OF assms(1-4)] by (simp add: get_approval_def)
qed

lemma demo_aead: "aead_ok demo_crypto"
  using startswith_append [of "k @ n @ p" s for k n p s] by (simp add: aead_ok_def demo_crypto_def)

theorem approval_reads_back_witness:
  "\<exists>st' a. create_approval demo_crypto ''k'' (replicate 12 CHR ''n'') ''a1'' 0 demo_stored_call ''h'' demo_agent 900 empty_store
       = Inr st' \<and> get_approval demo_crypto ''k'' ''a1'' st' = Inr (Some a) \<and> av_request a = demo_stored_call"
proof -
  obtain st' where st: "create_approval demo_crypto ''k'' (replicate 12 CHR ''n'') ''a1'' 0 demo_stored_call ''h'' demo_agent 900
      empty_store = Inr st'" by (simp add: create_approval_def empty_store_def)
  have "tool_call_ok demo_stored_call" by code_simp
  moreover have "tool_call_wf demo_stored_call" by (simp add: tool_call_wf_def demo_stored_call_def dict_wf_def)
  ultimately show ?thesis using approval_reads_back [OF demo_aead _ _ _ st] st by simp
qed

end
