(* ===== verification/Store_Mcp.thy ===== *)
theory Store_Mcp
  imports Store_Approvals "HOL-Library.Multiset"
begin

text \<open>
  The store's memory of MCP tools (baselines and observations of their definitions) and of past
  decisions (encrypted policy snapshots, of which the newest five thousand are kept).
\<close>

section \<open>Observations and baselines\<close>

definition record_mcp_tool_observation :: "time \<Rightarrow> string \<Rightarrow> string \<Rightarrow> string \<Rightarrow> string \<Rightarrow> string list \<Rightarrow> store \<Rightarrow> store" where
  "record_mcp_tool_observation now server tool digest status findings st =
     st\<lparr>mcp_tool_observations := upsert (\<lambda>o'. ob_server o' = server \<and> ob_tool o' = tool)
          \<lparr>ob_server = server, ob_tool = tool, ob_digest = digest, ob_status = status, ob_findings = sorted_set findings,
           ob_observed = now\<rparr>
          (\<lambda>o'. o'\<lparr>ob_digest := digest, ob_status := status, ob_findings := sorted_set findings, ob_observed := now\<rparr>)
          (mcp_tool_observations st)\<rparr>"

definition get_mcp_tool_observation :: "string \<Rightarrow> string \<Rightarrow> store \<Rightarrow> observation_row option" where
  "get_mcp_tool_observation server tool st =
     select_one (\<lambda>o'. ob_server o' = server \<and> ob_tool o' = tool) (mcp_tool_observations st)"

definition read_baseline :: "baseline_row \<Rightarrow> exc + baseline_row \<times> json" where
  "read_baseline b = (case loads (ba_definition b) of Some j \<Rightarrow> Inr (b, j) | None \<Rightarrow> Inl (ValueError ''JSONDecodeError''))"

definition get_mcp_tool_baseline :: "string \<Rightarrow> string \<Rightarrow> store \<Rightarrow> exc + (baseline_row \<times> json) option" where
  "get_mcp_tool_baseline server tool st =
     (case select_one (\<lambda>b. ba_server b = server \<and> ba_tool b = tool) (mcp_tool_baselines st) of
        None \<Rightarrow> Inr None
      | Some b \<Rightarrow> ebind (read_baseline b) (\<lambda>r. Inr (Some r)))"

definition mcp_tool_name_owners :: "string \<Rightarrow> string \<Rightarrow> store \<Rightarrow> string list" where
  "mcp_tool_name_owners tool excluding st =
     sort (map ba_server (filter (\<lambda>b. ba_tool b = tool \<and> ba_server b \<noteq> excluding) (mcp_tool_baselines st)))"

definition upsert_mcp_tool_baseline :: "time \<Rightarrow> string \<Rightarrow> string \<Rightarrow> string \<Rightarrow> json \<Rightarrow> string \<Rightarrow> store \<Rightarrow> store" where
  "upsert_mcp_tool_baseline now server tool digest definition' status st =
     st\<lparr>mcp_tool_baselines := upsert (\<lambda>b. ba_server b = server \<and> ba_tool b = tool)
          \<lparr>ba_server = server, ba_tool = tool, ba_digest = digest, ba_definition = canonical_value definition',
           ba_status = status, ba_first_seen = now, ba_last_seen = now\<rparr>
          (\<lambda>b. b\<lparr>ba_digest := digest, ba_definition := canonical_value definition', ba_status := status, ba_last_seen := now\<rparr>)
          (mcp_tool_baselines st)\<rparr>"

definition list_mcp_tool_baselines :: "store \<Rightarrow> exc + (baseline_row \<times> json) list" where
  "list_mcp_tool_baselines st =
     traverse read_baseline (sort_key (\<lambda>b. (ba_server b, ba_tool b)) (mcp_tool_baselines st))"

section \<open>Policy snapshots\<close>

definition SNAPSHOT_PURPOSE :: string where
  "SNAPSHOT_PURPOSE = ''sentinelgate-policy-snapshot-v1''"

text \<open>
  The row is described by texts of the snapshot; \<open>created\<close> is the time whose ISO text is the
  snapshot's \<^verbatim>\<open>created_at\<close>. Rows beyond the newest five thousand are deleted.
\<close>

definition text_at :: "(string, json) dict \<Rightarrow> string \<Rightarrow> exc + string" where
  "text_at d k = (case map_of d k of Some (JStr s) \<Rightarrow> Inr s | Some v \<Rightarrow> Inl (TypeError k) | None \<Rightarrow> Inl (KeyError k))"

definition dict_at :: "(string, json) dict \<Rightarrow> string \<Rightarrow> exc + (string, json) dict" where
  "dict_at d k = (case map_of d k of Some (JDict s) \<Rightarrow> Inr s | Some v \<Rightarrow> Inl (TypeError k) | None \<Rightarrow> Inl (KeyError k))"

definition snapshot_limit :: nat where
  "snapshot_limit = 5000"

definition keep_newest :: "nat \<Rightarrow> snapshot_row list \<Rightarrow> snapshot_row list" where
  "keep_newest n rows = filter (\<lambda>r. sn_id r \<notin> set (map sn_id (drop n (newest_first sn_created rows)))) rows"

definition new_snapshot :: "crypto \<Rightarrow> string \<Rightarrow> string \<Rightarrow> string \<Rightarrow> time \<Rightarrow> (string, json) dict \<Rightarrow>
    string \<Rightarrow> string \<Rightarrow> string \<Rightarrow> string \<Rightarrow> snapshot_row" where
  "new_snapshot cr key nonce i created snapshot tenant agent trace tool =
     \<lparr>sn_id = i, sn_tenant = tenant, sn_agent = agent, sn_trace = trace, sn_tool = tool,
      sn_protected = encrypt_blob cr key nonce (dumps True (JDict snapshot)) SNAPSHOT_PURPOSE, sn_created = created\<rparr>"

definition record_policy_snapshot :: "crypto \<Rightarrow> string \<Rightarrow> string \<Rightarrow> string \<Rightarrow> time \<Rightarrow> (string, json) dict \<Rightarrow> store \<Rightarrow>
    exc + store" where
  "record_policy_snapshot cr key nonce i created snapshot st =
     ebind (text_at snapshot ''tenant_id'') (\<lambda>tenant.
     ebind (text_at snapshot ''agent_id'') (\<lambda>agent.
     ebind (dict_at snapshot ''call'') (\<lambda>call.
     ebind (text_at call ''trace_id'') (\<lambda>trace.
     ebind (text_at call ''tool_name'') (\<lambda>tool.
       Inr (st\<lparr>policy_snapshots := keep_newest snapshot_limit (policy_snapshots st @
         [new_snapshot cr key nonce i created snapshot tenant agent trace tool])\<rparr>))))))"

definition list_policy_snapshots :: "crypto \<Rightarrow> string \<Rightarrow> nat \<Rightarrow> store \<Rightarrow> exc + json list" where
  "list_policy_snapshots cr key limit st =
     traverse (\<lambda>r. ebind (decrypt_blob cr key (sn_protected r) SNAPSHOT_PURPOSE)
         (\<lambda>t. case loads t of Some j \<Rightarrow> Inr j | None \<Rightarrow> Inl (ValueError ''JSONDecodeError'')))
       (take limit (newest_first sn_created (policy_snapshots st)))"

section \<open>Properties\<close>

lemma observation_upsert:
  "get_mcp_tool_observation server tool (record_mcp_tool_observation now s t digest status findings st) =
     (if server = s \<and> tool = t then
        Some (case get_mcp_tool_observation s t st of
            None \<Rightarrow> \<lparr>ob_server = s, ob_tool = t, ob_digest = digest, ob_status = status, ob_findings = sorted_set findings, ob_observed = now\<rparr>
          | Some o' \<Rightarrow> o'\<lparr>ob_digest := digest, ob_status := status, ob_findings := sorted_set findings, ob_observed := now\<rparr>)
      else get_mcp_tool_observation server tool st)"
proof -
  have k: "(\<lambda>o'. ob_server o' = x \<and> ob_tool o' = y) = (\<lambda>o'. (ob_server o', ob_tool o') = (x, y))" for x y
    by (simp add: fun_eq_iff)
  have sel: "mcp_tool_observations (st\<lparr>mcp_tool_observations := X\<rparr>) = X" for X by simp
  show ?thesis unfolding get_mcp_tool_observation_def record_mcp_tool_observation_def k sel
    by (subst select_one_upsert [where k = "\<lambda>o'. (ob_server o', ob_tool o')"]) simp_all
qed

text \<open>
  The last inspection of a tool is the one that counts: after an observation is recorded, a
  lookup of that server and tool gives its status, digest and findings (sorted, without
  repetition) and its time, and every other tool's observation is unchanged.
\<close>

theorem last_observation_counts:
  "(\<exists>o'. get_mcp_tool_observation server tool (record_mcp_tool_observation now server tool digest status findings st) = Some o'
      \<and> ob_status o' = status \<and> ob_digest o' = digest \<and> ob_findings o' = sorted_set findings \<and> ob_observed o' = now)
   \<and> ((s, t) \<noteq> (server, tool) \<longrightarrow> get_mcp_tool_observation s t
        (record_mcp_tool_observation now server tool digest status findings st) = get_mcp_tool_observation s t st)"
  unfolding observation_upsert by (auto split: option.splits)

theorem last_observation_counts_witness:
  "get_mcp_tool_observation ''s'' ''u'' (record_mcp_tool_observation 0 ''s'' ''t'' ''d'' ''trusted'' [] empty_store) =
     get_mcp_tool_observation ''s'' ''u'' empty_store"
  using last_observation_counts [of "''s''" "''t''" 0 "''d''" "''trusted''" "[]" empty_store "''s''" "''u''"] by simp

lemma keep_newest_length:
  assumes "distinct (map sn_id rows)" shows "length (keep_newest n rows) \<le> n"
proof -
  let ?s = "newest_first sn_created rows"
  have d: "distinct (map sn_id ?s)"
  proof -
    have "mset (map sn_id ?s) = mset (map sn_id rows)" by (simp add: newest_first_def)
    then show ?thesis using assms by (metis mset_eq_imp_distinct_iff)
  qed
  have "set (keep_newest n rows) \<subseteq> set (take n ?s)"
  proof
    fix r assume "r \<in> set (keep_newest n rows)"
    then have r: "r \<in> set ?s" "sn_id r \<notin> sn_id ` set (drop n ?s)" by (auto simp: keep_newest_def)
    have "set ?s = set (take n ?s) \<union> set (drop n ?s)" by (metis append_take_drop_id set_append)
    with r show "r \<in> set (take n ?s)" by blast
  qed
  moreover have "distinct (keep_newest n rows)" using assms by (auto simp: keep_newest_def distinct_map)
  ultimately have "length (keep_newest n rows) \<le> card (set (take n ?s))"
    by (metis List.finite_set card_mono distinct_card)
  also have "\<dots> \<le> n" by (metis card_length length_take min.cobounded2 order_trans)
  finally show ?thesis .
qed

lemma keep_newest_all: "length rows \<le> n \<Longrightarrow> keep_newest n rows = rows"
  by (simp add: keep_newest_def newest_first_def)

lemma record_snapshot_Inr:
  "record_policy_snapshot cr key nonce i created snapshot st = Inr st' \<Longrightarrow>
     \<exists>r. sn_id r = i \<and> sn_created r = created \<and> sn_protected r = encrypt_blob cr key nonce (dumps True (JDict snapshot)) SNAPSHOT_PURPOSE
       \<and> policy_snapshots st' = keep_newest snapshot_limit (policy_snapshots st @ [r])"
proof -
  assume "record_policy_snapshot cr key nonce i created snapshot st = Inr st'"
  then obtain tenant agent trace tool where "policy_snapshots st' = keep_newest snapshot_limit (policy_snapshots st @
      [new_snapshot cr key nonce i created snapshot tenant agent trace tool])"
    by (auto simp: record_policy_snapshot_def ebind_Inr_iff)
  then show ?thesis
    by (intro exI [of _ "new_snapshot cr key nonce i created snapshot tenant agent trace tool"]) (simp add: new_snapshot_def del: dumps.simps)
qed

text \<open>
  The store keeps at most five thousand policy snapshots, and the snapshot just recorded, when
  no stored one is newer or as new, is the first that a replay reads: it decrypts to what was recorded.
\<close>

theorem snapshots_bounded_and_read_back:
  assumes "aead_ok cr" and "length nonce = 12" and "json_wf (JDict snapshot)"
    and "record_policy_snapshot cr key nonce i created snapshot st = Inr st'"
    and "distinct (i # map sn_id (policy_snapshots st))" and "\<forall>r \<in> set (policy_snapshots st). sn_created r < created"
  shows "length (policy_snapshots st') \<le> 5000
    \<and> list_policy_snapshots cr key 1 st' = Inr [JDict snapshot]"
proof
  obtain r where r: "sn_id r = i" "sn_created r = created"
      "sn_protected r = encrypt_blob cr key nonce (dumps True (JDict snapshot)) SNAPSHOT_PURPOSE"
      "policy_snapshots st' = keep_newest snapshot_limit (policy_snapshots st @ [r])"
    using record_snapshot_Inr [OF assms(4)] by blast
  let ?rows = "policy_snapshots st @ [r]"
  have d: "distinct (map sn_id ?rows)" using assms(5) r(1) by simp
  show "length (policy_snapshots st') \<le> 5000" using keep_newest_length [OF d] by (simp add: r(4) snapshot_limit_def)
  have first: "\<exists>xs. newest_first sn_created rows = r # xs"
    if "r \<in> set rows" "\<forall>q \<in> set rows. q = r \<or> sn_created q < created" for rows
  proof -
    have ne: "rows \<noteq> []" using that(1) by auto
    then have "newest_first sn_created rows \<noteq> []" by simp
    then obtain x xs where x: "newest_first sn_created rows = x # xs" by (cases "newest_first sn_created rows") blast+
    from newest_first_hd [OF ne that(1), of sn_created] have "created \<le> sn_created x" by (simp add: x r(2))
    moreover have "x \<in> set rows" by (metis x list.set_intros(1) set_newest_first)
    ultimately have "x = r" using that(2) by force
    then show ?thesis using x by blast
  qed
  have all: "\<forall>q \<in> set ?rows. q = r \<or> sn_created q < created" using assms(6) by auto
  obtain xs where xs: "newest_first sn_created ?rows = r # xs" using first [of ?rows] all by auto
  have "r \<notin> set (drop snapshot_limit (newest_first sn_created ?rows)) \<and> sn_id r \<notin> sn_id ` set (drop snapshot_limit (newest_first sn_created ?rows))"
  proof -
    have "mset (map sn_id (newest_first sn_created ?rows)) = mset (map sn_id ?rows)" by (simp add: newest_first_def)
    then have "distinct (map sn_id (r # xs))" using d unfolding xs [symmetric] by (metis mset_eq_imp_distinct_iff)
    moreover have "set (drop snapshot_limit (r # xs)) \<subseteq> set xs"
      by (simp add: snapshot_limit_def set_drop_subset numeral_eq_Suc del: One_nat_def)
    ultimately show ?thesis unfolding xs by auto
  qed
  then have in': "r \<in> set (policy_snapshots st')" by (simp add: r(4) keep_newest_def)
  have "\<forall>q \<in> set (policy_snapshots st'). q = r \<or> sn_created q < created" using all by (auto simp: r(4) keep_newest_def)
  then obtain ys where ys: "newest_first sn_created (policy_snapshots st') = r # ys" using first in' by blast
  have "loads (dumps True (JDict snapshot)) = Some (JDict snapshot)" by (rule loads_dumps [OF assms(3)])
  then show "list_policy_snapshots cr key 1 st' = Inr [JDict snapshot]"
    using assms(1,2) by (simp add: list_policy_snapshots_def ys r(3) decrypt_encrypt del: dumps.simps)
qed

definition demo_snapshot :: "(string, json) dict" where
  "demo_snapshot = [(''tenant_id'', JStr ''t''), (''agent_id'', JStr ''a''),
     (''call'', JDict [(''trace_id'', JStr ''tr''), (''tool_name'', JStr ''x'')])]"

theorem snapshots_bounded_and_read_back_witness:
  "\<exists>st'. record_policy_snapshot demo_crypto ''k'' (replicate 12 CHR ''n'') ''s'' 0 demo_snapshot empty_store = Inr st'
     \<and> list_policy_snapshots demo_crypto ''k'' 1 st' = Inr [JDict demo_snapshot]"
proof -
  obtain st' where s: "record_policy_snapshot demo_crypto ''k'' (replicate 12 CHR ''n'') ''s'' 0 demo_snapshot empty_store = Inr st'"
    by (simp add: record_policy_snapshot_def demo_snapshot_def text_at_def dict_at_def)
  have "json_wf (JDict demo_snapshot)" by code_simp
  then show ?thesis using snapshots_bounded_and_read_back [OF demo_aead _ _ s] s by (simp add: empty_store_def)
qed

end
