(* ===== verification/Store_Watch.thy ===== *)
theory Store_Watch
  imports Tables
begin

text \<open>
  Watch tasks, their metadata events and their findings in the store. A task counts its events and
  sums their estimated cost; the invariant \<open>watch_totals\<close> says that both agree with the events
  recorded, and the lemmas show that every operation keeps it. Costs and durations are exact rationals
  where the code has floats.
\<close>

section \<open>Values of the wire\<close>

fun profile_value :: "watch_profile \<Rightarrow> string" where
  "profile_value RELAXED = ''relaxed''"
| "profile_value BALANCED = ''balanced''"
| "profile_value STRICT = ''strict''"

fun event_type_value :: "watch_event_type \<Rightarrow> string" where
  "event_type_value TOOL_CALL = ''tool_call''"
| "event_type_value TOOL_RESULT = ''tool_result''"
| "event_type_value PROGRESS = ''progress''"
| "event_type_value HEARTBEAT = ''heartbeat''"
| "event_type_value TASK_STATUS = ''task_status''"

record watch_task_request =
  wq_task_id :: string
  wq_description :: string
  wq_profile :: watch_profile
  wq_expected_tools :: "string list"
  wq_success_criteria :: "string list"
  wq_max_runtime :: int
  wq_max_tool_calls :: int
  wq_max_cost :: rat

definition watch_task_request_ok :: "watch_task_request \<Rightarrow> bool" where
  "watch_task_request_ok r \<longleftrightarrow> ident_ok 128 (wq_task_id r) \<and> 1 \<le> length (wq_description r) \<and> length (wq_description r) \<le> 2000
     \<and> length (wq_expected_tools r) \<le> 50 \<and> length (wq_success_criteria r) \<le> 50
     \<and> 60 \<le> wq_max_runtime r \<and> wq_max_runtime r \<le> 604800 \<and> 1 \<le> wq_max_tool_calls r \<and> wq_max_tool_calls r \<le> 1000000
     \<and> 0 \<le> wq_max_cost r \<and> wq_max_cost r \<le> 1000000"

record watch_event_request =
  er_task_id :: string
  er_type :: watch_event_type
  er_tool :: "string option"
  er_outcome :: "string option"
  er_error :: "string option"
  er_fingerprint :: "string option"
  er_progress :: "string option"
  er_input_tokens :: int
  er_output_tokens :: int
  er_cost :: rat
  er_duration :: "rat option"

definition opt_ok :: "('a \<Rightarrow> bool) \<Rightarrow> 'a option \<Rightarrow> bool" where
  "opt_ok P v = (case v of None \<Rightarrow> True | Some x \<Rightarrow> P x)"

definition watch_event_request_ok :: "watch_event_request \<Rightarrow> bool" where
  "watch_event_request_ok r \<longleftrightarrow> ident_ok 128 (er_task_id r) \<and> opt_ok tool_name_ok (er_tool r)
     \<and> opt_ok (\<lambda>s. length s \<le> 128) (er_outcome r) \<and> opt_ok (\<lambda>s. length s \<le> 128) (er_error r)
     \<and> opt_ok digest_ok (er_fingerprint r) \<and> opt_ok (\<lambda>s. length s \<le> 256) (er_progress r)
     \<and> 0 \<le> er_input_tokens r \<and> er_input_tokens r \<le> 1000000000 \<and> 0 \<le> er_output_tokens r \<and> er_output_tokens r \<le> 1000000000
     \<and> 0 \<le> er_cost r \<and> er_cost r \<le> 1000000 \<and> opt_ok (\<lambda>d. 0 \<le> d \<and> d \<le> 86400000) (er_duration r)"

section \<open>Tasks\<close>

definition task_key :: "watch_task \<Rightarrow> string \<times> string" where
  "task_key t = (wt_tenant t, wt_id t)"

definition new_task :: "time \<Rightarrow> agent_principal \<Rightarrow> watch_task_request \<Rightarrow> watch_task" where
  "new_task now agent r = \<lparr>wt_id = wq_task_id r, wt_tenant = pr_tenant_id agent, wt_agent = pr_agent_id agent,
     wt_description = wq_description r, wt_profile = wq_profile r, wt_expected_tools = sorted_set (wq_expected_tools r),
     wt_success_criteria = wq_success_criteria r, wt_max_runtime = wq_max_runtime r, wt_max_tool_calls = wq_max_tool_calls r,
     wt_max_cost = wq_max_cost r, wt_status = ''active'', wt_event_count = 0, wt_cost = 0, wt_created = now, wt_updated = now,
     wt_completed = None\<rparr>"

definition owned_task :: "string \<Rightarrow> string \<Rightarrow> string \<Rightarrow> watch_task \<Rightarrow> bool" where
  "owned_task tenant task agent t \<longleftrightarrow> wt_tenant t = tenant \<and> wt_id t = task \<and> wt_agent t = agent"

definition create_watch_task :: "time \<Rightarrow> agent_principal \<Rightarrow> watch_task_request \<Rightarrow> store \<Rightarrow> exc + watch_task \<times> store" where
  "create_watch_task now agent r st =
     (let st1 = (if list_ex (\<lambda>t. wt_tenant t = pr_tenant_id agent \<and> wt_id t = wq_task_id r) (watch_tasks st) then st
                 else st\<lparr>watch_tasks := watch_tasks st @ [new_task now agent r]\<rparr>)
      in case select_one (owned_task (pr_tenant_id agent) (wq_task_id r) (pr_agent_id agent)) (watch_tasks st1) of
           None \<Rightarrow> Inl (ValueError ''Watch task identifier is already owned by another agent'')
         | Some t \<Rightarrow> Inr (t, st1))"

definition get_watch_task :: "string \<Rightarrow> string \<Rightarrow> string option \<Rightarrow> store \<Rightarrow> watch_task option" where
  "get_watch_task task tenant agent st =
     select_one (\<lambda>t. wt_tenant t = tenant \<and> wt_id t = task \<and> given agent (wt_agent t)) (watch_tasks st)"

definition list_watch_tasks :: "nat \<Rightarrow> string option \<Rightarrow> string option \<Rightarrow> string option \<Rightarrow> store \<Rightarrow> watch_task list" where
  "list_watch_tasks limit tenant agent status st =
     take limit (newest_first wt_updated
       (filter (\<lambda>t. given tenant (wt_tenant t) \<and> given agent (wt_agent t) \<and> given status (wt_status t)) (watch_tasks st)))"

section \<open>Events\<close>

definition new_event :: "time \<Rightarrow> string \<Rightarrow> agent_principal \<Rightarrow> watch_event_request \<Rightarrow> watch_event" where
  "new_event now i agent r = \<lparr>we_id = i, we_task = er_task_id r, we_tenant = pr_tenant_id agent, we_agent = pr_agent_id agent,
     we_type = er_type r, we_tool = er_tool r, we_outcome = er_outcome r, we_error = er_error r,
     we_fingerprint = er_fingerprint r, we_progress = er_progress r, we_input_tokens = er_input_tokens r,
     we_output_tokens = er_output_tokens r, we_cost = er_cost r, we_duration = er_duration r, we_created = now\<rparr>"

definition terminal_status :: "watch_event \<Rightarrow> string option" where
  "terminal_status e = (case we_outcome e of
      Some s \<Rightarrow> if we_type e = TASK_STATUS \<and> s \<in> {''completed'', ''failed'', ''cancelled''} then Some s else None
    | None \<Rightarrow> None)"

definition count_event :: "watch_event \<Rightarrow> watch_task \<Rightarrow> watch_task" where
  "count_event e t = t\<lparr>wt_event_count := wt_event_count t + 1, wt_cost := wt_cost t + we_cost e, wt_updated := we_created e,
     wt_status := opt (terminal_status e) (wt_status t),
     wt_completed := (case terminal_status e of None \<Rightarrow> wt_completed t | Some s \<Rightarrow> Some (we_created e))\<rparr>"

definition record_watch_event :: "time \<Rightarrow> string \<Rightarrow> agent_principal \<Rightarrow> watch_event_request \<Rightarrow> store \<Rightarrow> exc + watch_event \<times> store" where
  "record_watch_event now i agent r st =
     (case get_watch_task (er_task_id r) (pr_tenant_id agent) (Some (pr_agent_id agent)) st of
        None \<Rightarrow> Inl (ValueError ''Watch task not found for this agent identity'')
      | Some t \<Rightarrow>
          (let e = new_event now i agent r in
           if list_ex (\<lambda>x. we_id x = i) (watch_events st) then Inl (IntegrityError ''watch_events.id'')
           else Inr (e, st\<lparr>watch_events := watch_events st @ [e],
                  watch_tasks := update_where (owned_task (we_tenant e) (we_task e) (we_agent e)) (count_event e) (watch_tasks st)\<rparr>)))"

definition list_watch_events :: "string \<Rightarrow> string option \<Rightarrow> string option \<Rightarrow> nat \<Rightarrow> store \<Rightarrow> watch_event list" where
  "list_watch_events task tenant agent limit st =
     take limit (rev (sort_key (\<lambda>e. (we_created e, we_id e))
       (filter (\<lambda>e. we_task e = task \<and> given tenant (we_tenant e) \<and> given agent (we_agent e)) (watch_events st))))"

section \<open>Findings\<close>

definition reopen_finding :: "time \<Rightarrow> watch_finding \<Rightarrow> watch_finding \<Rightarrow> watch_finding" where
  "reopen_finding now new f = f\<lparr>wf_severity := wf_severity new, wf_confidence := wf_confidence new, wf_summary := wf_summary new,
     wf_evidence := wf_evidence new, wf_action := wf_action new, wf_status := ''open'', wf_occurrences := wf_occurrences f + 1,
     wf_last_seen := now, wf_resolved := None\<rparr>"

definition fresh_finding :: "time \<Rightarrow> watch_finding \<Rightarrow> watch_finding" where
  "fresh_finding now f = f\<lparr>wf_status := ''open'', wf_occurrences := 1, wf_last_seen := now, wf_resolved := None,
     wf_reviewer := None, wf_note := []\<rparr>"

definition upsert_watch_finding :: "time \<Rightarrow> watch_finding \<Rightarrow> store \<Rightarrow> exc + watch_finding \<times> store" where
  "upsert_watch_finding now f st =
     (case select_one (\<lambda>x. wf_id x = wf_id f) (watch_findings st) of
        Some old \<Rightarrow> Inr (reopen_finding now f old,
          st\<lparr>watch_findings := update_where (\<lambda>x. wf_id x = wf_id f) (reopen_finding now f) (watch_findings st)\<rparr>)
      | None \<Rightarrow>
          if list_ex (\<lambda>x. wf_tenant x = wf_tenant f \<and> wf_task x = wf_task f \<and> wf_code x = wf_code f) (watch_findings st)
          then Inl (IntegrityError ''watch_findings'')
          else Inr (fresh_finding now f, st\<lparr>watch_findings := watch_findings st @ [fresh_finding now f]\<rparr>))"

definition list_watch_findings :: "nat \<Rightarrow> string option \<Rightarrow> string option \<Rightarrow> string option \<Rightarrow> string option \<Rightarrow> store \<Rightarrow>
    watch_finding list" where
  "list_watch_findings limit tenant agent task status st =
     take limit (newest_first wf_last_seen
       (filter (\<lambda>f. given tenant (wf_tenant f) \<and> given agent (wf_agent f) \<and> given task (wf_task f) \<and> given status (wf_status f))
         (watch_findings st)))"

definition update_watch_finding :: "time \<Rightarrow> string \<Rightarrow> string \<Rightarrow> string \<Rightarrow> string \<Rightarrow> store \<Rightarrow> watch_finding option \<times> store" where
  "update_watch_finding now i status remark reviewer st =
     (let st1 = st\<lparr>watch_findings := update_where (\<lambda>f. wf_id f = i)
            (\<lambda>f. f\<lparr>wf_status := status, wf_resolved := (if status = ''resolved'' then Some now else None),
                   wf_reviewer := Some reviewer, wf_note := remark\<rparr>) (watch_findings st)\<rparr>
      in (if count_where (\<lambda>f. wf_id f = i) (watch_findings st) = 1 then select_one (\<lambda>f. wf_id f = i) (watch_findings st1) else None,
          st1))"

record watch_overview =
  ws_active_tasks :: nat
  ws_open_findings :: nat
  ws_high_risk_findings :: nat
  ws_monitored_events :: nat
  ws_cost :: rat

definition watch_summary :: "string option \<Rightarrow> store \<Rightarrow> watch_overview" where
  "watch_summary tenant st =
     \<lparr>ws_active_tasks = count_where (\<lambda>t. wt_status t = ''active'' \<and> given tenant (wt_tenant t)) (watch_tasks st),
      ws_open_findings = count_where (\<lambda>f. wf_status f = ''open'' \<and> given tenant (wf_tenant f)) (watch_findings st),
      ws_high_risk_findings = count_where (\<lambda>f. wf_status f = ''open'' \<and> (wf_severity f = ''high'' \<or> wf_severity f = ''critical'')
         \<and> given tenant (wf_tenant f)) (watch_findings st),
      ws_monitored_events = count_where (\<lambda>e. given tenant (we_tenant e)) (watch_events st),
      ws_cost = sum_list (map wt_cost (filter (\<lambda>t. given tenant (wt_tenant t)) (watch_tasks st)))\<rparr>"

section \<open>Totals\<close>

definition event_of :: "watch_task \<Rightarrow> watch_event \<Rightarrow> bool" where
  "event_of t e \<longleftrightarrow> we_tenant e = wt_tenant t \<and> we_task e = wt_id t \<and> we_agent e = wt_agent t"

text \<open>
  One task per tenant and id; every event belongs to a task; a task counts its events and sums their
  cost; and it has a completion time exactly when it is no longer active.
\<close>

definition watch_totals :: "store \<Rightarrow> bool" where
  "watch_totals st \<longleftrightarrow> distinct (map task_key (watch_tasks st)) \<and> distinct (map we_id (watch_events st))
     \<and> (\<forall>e \<in> set (watch_events st). \<exists>t \<in> set (watch_tasks st). event_of t e)
     \<and> (\<forall>t \<in> set (watch_tasks st). wt_event_count t = count_where (event_of t) (watch_events st)
          \<and> wt_cost t = sum_list (map we_cost (filter (event_of t) (watch_events st)))
          \<and> (wt_status t = ''active'' \<longleftrightarrow> wt_completed t = None))"


lemma totals_empty [simp]: "watch_totals empty_store"
  by (simp add: watch_totals_def empty_store_def)



section \<open>Every operation\<close>

datatype watch_op =
    Create_Task time agent_principal watch_task_request
  | Record_Event time string agent_principal watch_event_request
  | Observe_Finding time watch_finding
  | Review_Finding time string string string string

definition settled :: "store \<Rightarrow> exc + 'a \<times> store \<Rightarrow> store" where
  "settled st r = (case r of Inl e \<Rightarrow> st | Inr (x, st') \<Rightarrow> st')"

fun watch_step :: "watch_op \<Rightarrow> store \<Rightarrow> store" where
  "watch_step (Create_Task now agent r) st = settled st (create_watch_task now agent r st)"
| "watch_step (Record_Event now i agent r) st = settled st (record_watch_event now i agent r st)"
| "watch_step (Observe_Finding now f) st = settled st (upsert_watch_finding now f st)"
| "watch_step (Review_Finding now i status remark reviewer) st = snd (update_watch_finding now i status remark reviewer st)"




lemma finding_tables:
  "upsert_watch_finding now f st = Inr (x, st') \<Longrightarrow> watch_tasks st' = watch_tasks st \<and> watch_events st' = watch_events st"
  "watch_tasks (snd (update_watch_finding now i status remark reviewer st)) = watch_tasks st"
  "watch_events (snd (update_watch_finding now i status remark reviewer st)) = watch_events st"
  by (auto simp: upsert_watch_finding_def update_watch_finding_def Let_def split: option.splits if_splits)



text \<open>A task, once created, keeps its limits and its owner, its counters grow, and it is never active again.\<close>

definition follows :: "watch_task \<Rightarrow> watch_task \<Rightarrow> bool" where
  "follows a b \<longleftrightarrow> task_key b = task_key a \<and> wt_agent b = wt_agent a \<and> wt_max_cost b = wt_max_cost a
     \<and> wt_max_tool_calls b = wt_max_tool_calls a \<and> wt_max_runtime b = wt_max_runtime a \<and> wt_created b = wt_created a
     \<and> wt_event_count a \<le> wt_event_count b \<and> (wt_status b = ''active'' \<longrightarrow> wt_status a = ''active'')"

lemma follows_refl [simp]: "follows a a"
  by (simp add: follows_def)

lemma follows_in: "a \<in> A \<Longrightarrow> \<exists>b \<in> A. follows a b"
  by (rule bexI [of _ a]) simp_all

lemma follows_trans: "follows a b \<Longrightarrow> follows b c \<Longrightarrow> follows a c"
  by (auto simp: follows_def)

lemma follows_count: "follows t (count_event e t)"
  by (auto simp: follows_def count_event_def task_key_def terminal_status_def opt_def split: option.splits)

lemma step_follows: "a \<in> set (watch_tasks st) \<Longrightarrow> \<exists>b \<in> set (watch_tasks (watch_step op st)). follows a b"
proof (cases op)
  case (Create_Task now agent r)
  assume "a \<in> set (watch_tasks st)"
  then have "a \<in> set (watch_tasks (watch_step op st))"
    by (auto simp: Create_Task settled_def create_watch_task_def Let_def split: sum.splits option.splits if_splits)
  then show ?thesis by (auto intro: follows_refl)
next
  case (Record_Event now i agent r)
  assume a: "a \<in> set (watch_tasks st)"
  show ?thesis
  proof (cases "record_watch_event now i agent r st")
    case (Inr p)
    obtain e st' where p: "p = (e, st')" by force
    have "watch_tasks st' = update_where (owned_task (we_tenant e) (we_task e) (we_agent e)) (count_event e) (watch_tasks st)"
      using Inr p by (auto simp: record_watch_event_def Let_def split: option.splits if_splits)
    then show ?thesis using a follows_count
      by (auto simp: Record_Event settled_def Inr p ex_update_where intro!: bexI [of _ a])
  qed (use a in \<open>auto simp: Record_Event settled_def intro: follows_in\<close>)
next
  case (Observe_Finding now f)
  assume "a \<in> set (watch_tasks st)"
  then show ?thesis using finding_tables(1) [of now f st]
    by (auto simp: Observe_Finding settled_def split: sum.splits intro!: bexI [of _ a])
next
  case (Review_Finding now i status remark reviewer)
  assume "a \<in> set (watch_tasks st)"
  then show ?thesis by (auto simp: Review_Finding finding_tables intro: follows_in)
qed

section \<open>Properties\<close>


definition demo_watch_task :: watch_task_request where
  "demo_watch_task = \<lparr>wq_task_id = ''t1'', wq_description = ''d'', wq_profile = STRICT, wq_expected_tools = [],
     wq_success_criteria = [], wq_max_runtime = 3600, wq_max_tool_calls = 5, wq_max_cost = 1\<rparr>"

definition demo_watch_event :: watch_event_request where
  "demo_watch_event = \<lparr>er_task_id = ''t1'', er_type = TASK_STATUS, er_tool = None, er_outcome = Some ''completed'', er_error = None,
     er_fingerprint = None, er_progress = None, er_input_tokens = 0, er_output_tokens = 0, er_cost = 1/2, er_duration = None\<rparr>"


text \<open>
  A watch task never becomes active again: whatever operations follow, a task keeps its owner and
  its budgets, its count of events never falls, and once it is completed, failed or cancelled it is
  never active again, even when the same task id is created anew.
\<close>

theorem task_never_reactivated:
  assumes "a \<in> set (watch_tasks st)"
  shows "\<exists>b \<in> set (watch_tasks (fold watch_step ops st)). follows a b \<and> (wt_status a \<noteq> ''active'' \<longrightarrow> wt_status b \<noteq> ''active'')"
proof -
  have "\<exists>b \<in> set (watch_tasks (fold watch_step ops st)). follows a b" using assms
  proof (induction ops arbitrary: a st)
    case (Cons op ops)
    obtain b where b: "b \<in> set (watch_tasks (watch_step op st))" "follows a b" using step_follows [OF Cons.prems] by blast
    from Cons.IH [OF b(1)] show ?case using follows_trans [OF b(2)] by auto
  qed (auto intro: follows_in)
  then show ?thesis by (auto simp: follows_def)
qed

theorem task_never_reactivated_witness:
  "\<exists>b \<in> set (watch_tasks (fold watch_step [Create_Task 2 demo_agent demo_watch_task]
      (fold watch_step [Create_Task 0 demo_agent demo_watch_task, Record_Event 1 ''e'' demo_agent demo_watch_event] empty_store))).
     wt_status b \<noteq> ''active''"
proof -
  let ?st = "fold watch_step [Create_Task 0 demo_agent demo_watch_task, Record_Event 1 ''e'' demo_agent demo_watch_event] empty_store"
  have "list_ex (\<lambda>a. wt_status a \<noteq> ''active'') (watch_tasks ?st)" by code_simp
  then have "\<exists>a \<in> set (watch_tasks ?st). wt_status a \<noteq> ''active''" by (simp only: list_ex_iff)
  then obtain a where a: "a \<in> set (watch_tasks ?st)" "wt_status a \<noteq> ''active''" by blast
  from task_never_reactivated [OF a(1), of "[Create_Task 2 demo_agent demo_watch_task]"] a(2) show ?thesis by blast
qed

end
