(* ===== verification/Watch_Rules.thy ===== *)
theory Watch_Rules
  imports Store_Watch
begin

text \<open>
  The detection rules of \<^verbatim>\<open>watch.py\<close>, without the store: from a task, its events (newest first) and the
  time, the alarms that the analysis raises. The lemmas say what the counting and the cycle search
  find, and what an alarm implies about the events.
\<close>

section \<open>Thresholds\<close>

record thresholds =
  th_repeated_calls :: nat
  th_repeated_errors :: nat
  th_repeated_denials :: nat
  th_poll_calls :: nat
  th_cycle_repetitions :: nat
  th_no_progress :: int
  th_window :: int

fun PROFILES :: "watch_profile \<Rightarrow> thresholds" where
  "PROFILES RELAXED = \<lparr>th_repeated_calls = 10, th_repeated_errors = 8, th_repeated_denials = 6, th_poll_calls = 20,
     th_cycle_repetitions = 4, th_no_progress = 1800, th_window = 300\<rparr>"
| "PROFILES BALANCED = \<lparr>th_repeated_calls = 6, th_repeated_errors = 5, th_repeated_denials = 4, th_poll_calls = 12,
     th_cycle_repetitions = 3, th_no_progress = 900, th_window = 300\<rparr>"
| "PROFILES STRICT = \<lparr>th_repeated_calls = 4, th_repeated_errors = 3, th_repeated_denials = 3, th_poll_calls = 8,
     th_cycle_repetitions = 3, th_no_progress = 600, th_window = 300\<rparr>"

section \<open>Counting and cycles\<close>

definition count_values :: "string list \<Rightarrow> (string, nat) dict" where
  "count_values values = fold (\<lambda>v d. AList.update v (Suc (dget d v 0)) d) values []"

text \<open>\<^verbatim>\<open>max(counts.items(), key=lambda item: item[1])\<close>: the first of the greatest counts.\<close>

definition most_common :: "string list \<Rightarrow> (string \<times> nat) option" where
  "most_common values = (case count_values values of [] \<Rightarrow> None | x # xs \<Rightarrow> Some (max_from snd x xs))"

definition looks_like_poll :: "string option \<Rightarrow> bool" where
  "looks_like_poll tool \<longleftrightarrow> list_ex (\<lambda>p. str_in p (casefold (opt tool []))) [''poll'', ''status'', ''check_job'', ''wait'']"

definition last_n :: "nat \<Rightarrow> 'a list \<Rightarrow> 'a list" where
  "last_n n xs = drop (length xs - n) xs"

definition cycle_of :: "string list \<Rightarrow> nat \<Rightarrow> nat \<Rightarrow> string list option" where
  "cycle_of values repetitions n =
     (let tail = last_n (n * repetitions) values; pattern = take n tail
      in if concat (replicate repetitions pattern) = tail \<and> length (remdups pattern) > 1 then Some pattern else None)"

fun first_some :: "('a \<Rightarrow> 'b option) \<Rightarrow> 'a list \<Rightarrow> 'b option" where
  "first_some f [] = None"
| "first_some f (x # xs) = (case f x of Some y \<Rightarrow> Some y | None \<Rightarrow> first_some f xs)"

definition cycle_pattern :: "string list \<Rightarrow> nat \<Rightarrow> string list" where
  "cycle_pattern values repetitions =
     (case first_some (cycle_of values repetitions) [2 ..< min 6 (length values div repetitions) + 1] of
        Some p \<Rightarrow> p | None \<Rightarrow> [])"

section \<open>Alarms\<close>

record alarm =
  al_code :: string
  al_severity :: string
  al_confidence :: rat
  al_summary :: string
  al_evidence :: "string list"
  al_action :: string

definition within_window :: "time \<Rightarrow> thresholds \<Rightarrow> watch_event \<Rightarrow> bool" where
  "within_window now th e \<longleftrightarrow> now - seconds (th_window th) \<le> we_created e"

definition of_type :: "watch_event_type \<Rightarrow> watch_event list \<Rightarrow> watch_event list" where
  "of_type ty es = filter (\<lambda>e. we_type e = ty) es"

definition latest_event :: "watch_event list \<Rightarrow> time option" where
  "latest_event es = (case es of [] \<Rightarrow> None | e # r \<Rightarrow> Some (foldl max (we_created e) (map we_created r)))"

text \<open>The calls of the window since the last progress of the window.\<close>

definition loop_calls :: "watch_event list \<Rightarrow> watch_event list" where
  "loop_calls window = filter (\<lambda>e. case latest_event (of_type PROGRESS window) of None \<Rightarrow> True | Some t \<Rightarrow> t < we_created e)
     (of_type TOOL_CALL window)"

text \<open>The texts that are present and not empty.\<close>

definition present :: "('a \<Rightarrow> string option) \<Rightarrow> 'a list \<Rightarrow> string list" where
  "present f xs = concat (map (\<lambda>x. case nonempty (f x) of Some s \<Rightarrow> [s] | None \<Rightarrow> []) xs)"

definition repeated_call :: "thresholds \<Rightarrow> watch_event list \<Rightarrow> alarm list" where
  "repeated_call th window = (case most_common (present we_fingerprint (loop_calls window)) of
      None \<Rightarrow> []
    | Some (v, n) \<Rightarrow> if n \<ge> th_repeated_calls th then
        [\<lparr>al_code = ''WATCH_REPEATED_CALL'', al_severity = ''medium'', al_confidence = 98/100,
          al_summary = ''The same tool call repeated without a progress signal.'',
          al_evidence = [''fingerprint='' @ take 12 v, ''count='' @ show_nat n, ''window='' @ show_int (th_window th) @ ''s''],
          al_action = ''Review the task and pause it if the repeated call is not expected.''\<rparr>] else [])"

definition retry_storm :: "thresholds \<Rightarrow> watch_event list \<Rightarrow> alarm list" where
  "retry_storm th window = (case most_common (present we_error window) of
      None \<Rightarrow> []
    | Some (v, n) \<Rightarrow> if n \<ge> th_repeated_errors th then
        [\<lparr>al_code = ''WATCH_RETRY_STORM'', al_severity = ''high'', al_confidence = 99/100,
          al_summary = ''The same failure is recurring beyond the configured retry tolerance.'',
          al_evidence = [''error='' @ v, ''count='' @ show_nat n],
          al_action = ''Require human review before additional retries.''\<rparr>] else [])"

definition denied_calls :: "watch_event list \<Rightarrow> watch_event list" where
  "denied_calls window = filter (\<lambda>e. we_outcome e = Some ''deny'') (of_type TOOL_CALL window)"

definition repeated_denial :: "thresholds \<Rightarrow> watch_event list \<Rightarrow> alarm list" where
  "repeated_denial th window = (let n = length (denied_calls window) in
     if n \<ge> th_repeated_denials th then
        [\<lparr>al_code = ''WATCH_REPEATED_DENIAL'', al_severity = ''high'', al_confidence = 99/100,
          al_summary = ''The agent continues attempting actions SentinelGate Core denied.'',
          al_evidence = [''denied_calls='' @ show_nat n, ''window='' @ show_int (th_window th) @ ''s''],
          al_action = ''Inspect the policy mismatch and consider restricting the agent session.''\<rparr>] else [])"

definition excessive_polling :: "thresholds \<Rightarrow> watch_event list \<Rightarrow> alarm list" where
  "excessive_polling th window = (let n = length (filter (\<lambda>e. looks_like_poll (we_tool e)) (of_type TOOL_CALL window)) in
     if n \<ge> th_poll_calls th then
        [\<lparr>al_code = ''WATCH_EXCESSIVE_POLLING'', al_severity = ''medium'', al_confidence = 95/100,
          al_summary = ''The task is polling status-like tools unusually frequently.'',
          al_evidence = [''poll_calls='' @ show_nat n, ''window='' @ show_int (th_window th) @ ''s''],
          al_action = ''Increase the polling interval or use an event-driven callback.''\<rparr>] else [])"

definition cyclic_workflow :: "thresholds \<Rightarrow> watch_event list \<Rightarrow> alarm list" where
  "cyclic_workflow th window =
     (let cycle = cycle_pattern (rev (present we_fingerprint (loop_calls window))) (th_cycle_repetitions th) in
      if cycle \<noteq> [] then
        [\<lparr>al_code = ''WATCH_CYCLIC_WORKFLOW'', al_severity = ''high'', al_confidence = 96/100,
          al_summary = ''The task is cycling through the same sequence of tool calls.'',
          al_evidence = [''cycle_length='' @ show_nat (length cycle), ''repetitions='' @ show_nat (th_cycle_repetitions th)],
          al_action = ''Pause and change strategy before continuing the workflow.''\<rparr>] else [])"

definition tool_budget :: "watch_task \<Rightarrow> watch_event list \<Rightarrow> alarm list" where
  "tool_budget task events = (let n = length (of_type TOOL_CALL events) in
     if int n > wt_max_tool_calls task then
        [\<lparr>al_code = ''WATCH_TOOL_BUDGET_EXCEEDED'', al_severity = ''high'', al_confidence = 1,
          al_summary = ''The task exceeded its configured event budget.'',
          al_evidence = [''tool_calls='' @ show_nat n, ''budget='' @ show_int (wt_max_tool_calls task)],
          al_action = ''Require review before extending the task budget.''\<rparr>] else [])"

text \<open>\<^verbatim>\<open>f"{x:.6f}"\<close> of a number that is not negative: rounded to six places, halves to even.\<close>

definition fixed6 :: "rat \<Rightarrow> string" where
  "fixed6 x = (let y = x * 1000000; f = floor y; d = y - of_int f;
      n = nat (if d > 1/2 \<or> (d = 1/2 \<and> odd f) then f + 1 else f)
    in show_nat (n div 1000000) @ ''.'' @ pad 6 (n mod 1000000))"

definition cost_budget :: "watch_task \<Rightarrow> alarm list" where
  "cost_budget task = (if wt_cost task > wt_max_cost task then
        [\<lparr>al_code = ''WATCH_COST_BUDGET_EXCEEDED'', al_severity = ''high'', al_confidence = 1,
          al_summary = ''The task exceeded its configured estimated-cost budget.'',
          al_evidence = [''estimated_cost_usd='' @ fixed6 (wt_cost task), ''budget_usd='' @ fixed6 (wt_max_cost task)],
          al_action = ''Require review before allowing additional paid inference or tools.''\<rparr>] else [])"

definition runtime_budget :: "time \<Rightarrow> watch_task \<Rightarrow> alarm list" where
  "runtime_budget now task = (let runtime = now - wt_created task in
     if runtime > seconds (wt_max_runtime task) \<and> wt_status task = ''active'' then
        [\<lparr>al_code = ''WATCH_RUNTIME_BUDGET_EXCEEDED'', al_severity = ''high'', al_confidence = 1,
          al_summary = ''The task exceeded its configured runtime budget.'',
          al_evidence = [''runtime_seconds='' @ show_int (runtime div 1000000), ''budget_seconds='' @ show_int (wt_max_runtime task)],
          al_action = ''Review or pause the long-running task.''\<rparr>] else [])"

definition no_progress :: "time \<Rightarrow> thresholds \<Rightarrow> watch_task \<Rightarrow> watch_event list \<Rightarrow> alarm list" where
  "no_progress now th task events =
     (let idle = now - opt (latest_event (of_type PROGRESS events)) (wt_created task) in
      if filter (\<lambda>e. we_type e \<noteq> HEARTBEAT) events \<noteq> [] \<and> wt_status task = ''active'' \<and> idle > seconds (th_no_progress th) then
        [\<lparr>al_code = ''WATCH_NO_PROGRESS'', al_severity = ''medium'', al_confidence = 85/100,
          al_summary = ''The task has emitted activity but no explicit progress signal.'',
          al_evidence = [''seconds_since_progress='' @ show_int (idle div 1000000)],
          al_action = ''Ask the runtime to report a milestone or request human review.''\<rparr>] else [])"

definition alarms :: "time \<Rightarrow> watch_task \<Rightarrow> watch_event list \<Rightarrow> alarm list" where
  "alarms now task events =
     (let th = PROFILES (wt_profile task); window = filter (within_window now th) events
      in repeated_call th window @ retry_storm th window @ repeated_denial th window @ excessive_polling th window
         @ cyclic_workflow th window @ tool_budget task events @ cost_budget task @ runtime_budget now task
         @ no_progress now th task events)"

definition codes :: "alarm list \<Rightarrow> string list" where
  "codes xs = map al_code xs"

section \<open>What the counting finds\<close>

lemma dget_update: "dget (AList.update k v d) j z = (if j = k then v else dget d j z)"
  by (simp add: dget_def update_conv')

lemma count_fold:
  "dget (fold (\<lambda>v d. AList.update v (Suc (dget d v 0)) d) vs d) v 0 = count_list vs v + dget d v 0"
  by (induction vs arbitrary: d) (auto simp: dget_update)

lemma count_values_dget: "dget (count_values vs) v 0 = count_list vs v"
  unfolding count_values_def count_fold by (simp add: dget_def)

lemma count_keys: "fst ` set (fold (\<lambda>v d. AList.update v (Suc (dget d v 0)) d) vs d) = set vs \<union> fst ` set d"
proof (induction vs arbitrary: d)
  case (Cons v us)
  have "fst ` set (AList.update v n d) = insert v (fst ` set d)" for n by (metis dom_map_of_conv_image_fst dom_update image_insert insert_def Un_commute update_conv' dom_fun_upd option.simps(3))
  then show ?case using Cons by auto
qed simp

lemma count_wf: "dict_wf d \<Longrightarrow> dict_wf (fold (\<lambda>v d. AList.update v (Suc (dget d v 0)) d) vs d)"
  by (induction vs arbitrary: d) auto

lemma count_values_set: "(v, n) \<in> set (count_values vs) \<longleftrightarrow> v \<in> set vs \<and> n = count_list vs v"
proof -
  have wf: "distinct (map fst (count_values vs))"
    using count_wf [of "[]" vs] by (simp add: count_values_def dict_wf_def)
  have k: "fst ` set (count_values vs) = set vs"
    using count_keys [of vs "[]"] by (simp add: count_values_def)
  have "(v, n) \<in> set (count_values vs) \<longleftrightarrow> map_of (count_values vs) v = Some n"
    using wf by (simp add: map_of_eq_Some_iff)
  moreover have "map_of (count_values vs) v = Some n \<longleftrightarrow> v \<in> set vs \<and> n = count_list vs v"
    using count_values_dget [of vs v] k
    by (cases "map_of (count_values vs) v") (force simp: dget_def map_of_eq_None_iff dest: map_of_SomeD)+
  ultimately show ?thesis by simp
qed

lemma most_common_None [simp]: "most_common vs = None \<longleftrightarrow> vs = []"
proof -
  have "set (count_values vs) = {} \<longleftrightarrow> vs = []"
    using count_values_set [of _ _ vs] by (metis list.set_intros(1) list.exhaust_sel empty_iff list.set(1) old.prod.exhaust subsetI subset_empty)
  then show ?thesis by (cases "count_values vs") (auto simp: most_common_def)
qed

lemma most_common_Some:
  assumes "most_common vs = Some (v, n)"
  shows "v \<in> set vs \<and> n = count_list vs v \<and> (\<forall>u. count_list vs u \<le> n)"
proof -
  obtain x xs where x: "count_values vs = x # xs" "max_from snd x xs = (v, n)"
    using assms by (auto simp: most_common_def split: list.splits)
  have "(v, n) \<in> set (count_values vs)" using max_from_in [of snd x xs] x by simp
  moreover have "count_list vs u \<le> n" for u
  proof (cases "u \<in> set vs")
    case True
    then have "(u, count_list vs u) \<in> insert x (set xs)" using count_values_set [of u _ vs] x(1) by simp
    from max_from_ge [OF this, of snd] show ?thesis by (simp add: x(2))
  qed (simp add: count_notin)
  ultimately show ?thesis by (simp add: count_values_set)
qed

lemma count_present: "count_list (present f xs) v = (if v = [] then 0 else length (filter (\<lambda>x. f x = Some v) xs))"
  by (induction xs) (auto simp: present_def nonempty_def split: option.splits)

lemma present_ne: "v \<in> set (present f xs) \<Longrightarrow> v \<noteq> []"
  by (auto simp: present_def nonempty_def split: option.splits if_splits)

lemma latest_event_None [simp]: "latest_event es = None \<longleftrightarrow> es = []"
  by (simp add: latest_event_def split: list.split)

lemma latest_event_less: "(case latest_event es of None \<Rightarrow> True | Some t \<Rightarrow> t < c) \<longleftrightarrow> (\<forall>e \<in> set es. we_created e < c)"
proof -
  have "foldl max a xs < c \<longleftrightarrow> a < c \<and> (\<forall>x \<in> set xs. x < c)" for a and xs :: "time list"
    by (induction xs arbitrary: a) auto
  then show ?thesis by (cases es) (auto simp: latest_event_def)
qed

lemma latest_event_upper: "latest_event es = Some t \<Longrightarrow> e \<in> set es \<Longrightarrow> we_created e \<le> t"
proof -
  have first: "a \<le> foldl max a xs" for a and xs :: "time list"
  proof (induction xs arbitrary: a)
    case (Cons b xs)
    show ?case using order_trans [OF max.cobounded1 Cons.IH] by simp
  qed simp
  have "x \<in> insert a (set xs) \<Longrightarrow> x \<le> foldl max a xs" for x a and xs :: "time list"
  proof (induction xs arbitrary: a)
    case (Cons b xs)
    then consider "x = a" | "x \<in> insert b (set xs)" by auto
    then show ?case
    proof cases
      case 2
      then have "x \<in> insert (max a b) (set xs) \<or> x \<le> max a b" by auto
      then show ?thesis using Cons.IH order_trans [OF _ first] by auto
    qed (use first [of a "b # xs"] in simp)
  qed simp
  then show "latest_event es = Some t \<Longrightarrow> e \<in> set es \<Longrightarrow> we_created e \<le> t"
    by (cases es) (auto simp: latest_event_def)
qed

lemma loop_calls_iff: "e \<in> set (loop_calls window) \<longleftrightarrow> e \<in> set window \<and> we_type e = TOOL_CALL
    \<and> (\<forall>p \<in> set window. we_type p = PROGRESS \<longrightarrow> we_created p < we_created e)"
  by (auto simp: loop_calls_def latest_event_less of_type_def)

lemma loop_calls_filter: "loop_calls window = filter (\<lambda>e. we_type e = TOOL_CALL
    \<and> (\<forall>p \<in> set window. we_type p = PROGRESS \<longrightarrow> we_created p < we_created e)) window"
  by (auto simp: loop_calls_def latest_event_less of_type_def intro: filter_cong)

section \<open>What the cycle search finds\<close>

lemma first_some_Some: "first_some f xs = Some y \<Longrightarrow> \<exists>x \<in> set xs. f x = Some y"
  by (induction xs) (auto split: option.splits)

lemma first_some_None: "first_some f xs = None \<longleftrightarrow> (\<forall>x \<in> set xs. f x = None)"
  by (induction xs) (auto split: option.splits)

lemma length_concat_replicate: "length (concat (replicate r p)) = r * length p"
  by (induction r) auto

lemma cycle_of_Some:
  assumes "cycle_of vs r n = Some p" "n * r \<le> length vs" "1 \<le> r"
  shows "length p = n \<and> (\<exists>u. vs = u @ concat (replicate r p)) \<and> length (remdups p) > 1"
proof -
  let ?tail = "last_n (n * r) vs"
  have p: "p = take n ?tail" "concat (replicate r p) = ?tail" "length (remdups p) > 1"
    using assms(1) by (auto simp: cycle_of_def Let_def split: if_splits)
  have l: "length ?tail = n * r" using assms(2) by (simp add: last_n_def)
  then have "length p = n" using p(1) assms(3) by (cases r) auto
  moreover have "vs = take (length vs - n * r) vs @ concat (replicate r p)" by (simp add: p(2) last_n_def)
  ultimately show ?thesis using p(3) by blast
qed

lemma cycle_of_complete:
  assumes "vs = u @ concat (replicate r p)" "length (remdups p) > 1" "1 \<le> r"
  shows "cycle_of vs r (length p) = Some p"
proof -
  have t: "last_n (length p * r) vs = concat (replicate r p)"
    by (simp add: assms(1) last_n_def length_concat_replicate mult.commute)
  have "take (length p) (concat (replicate r p)) = p" using assms(3) by (cases r) auto
  then show ?thesis using assms(2) by (simp add: cycle_of_def Let_def t)
qed

section \<open>Properties\<close>

lemma code_members:
  "set (codes (repeated_call th w)) \<subseteq> {''WATCH_REPEATED_CALL''}" "set (codes (retry_storm th w)) \<subseteq> {''WATCH_RETRY_STORM''}"
  "set (codes (repeated_denial th w)) \<subseteq> {''WATCH_REPEATED_DENIAL''}"
  "set (codes (excessive_polling th w)) \<subseteq> {''WATCH_EXCESSIVE_POLLING''}"
  "set (codes (cyclic_workflow th w)) \<subseteq> {''WATCH_CYCLIC_WORKFLOW''}"
  "set (codes (tool_budget task es)) \<subseteq> {''WATCH_TOOL_BUDGET_EXCEEDED''}"
  "set (codes (cost_budget task)) \<subseteq> {''WATCH_COST_BUDGET_EXCEEDED''}"
  "set (codes (runtime_budget now task)) \<subseteq> {''WATCH_RUNTIME_BUDGET_EXCEEDED''}"
  "set (codes (no_progress now th task es)) \<subseteq> {''WATCH_NO_PROGRESS''}"
  by (auto simp: codes_def repeated_call_def retry_storm_def repeated_denial_def excessive_polling_def cyclic_workflow_def
    tool_budget_def cost_budget_def runtime_budget_def no_progress_def Let_def split: option.splits prod.splits)

lemma codes_append [simp]: "codes (xs @ ys) = codes xs @ codes ys"
  by (simp add: codes_def)

lemma codes_Nil [simp]: "codes xs = [] \<longleftrightarrow> xs = []"
  by (simp add: codes_def)

lemma one_code: "set (codes xs) \<subseteq> {c} \<Longrightarrow> c \<in> set (codes xs) \<longleftrightarrow> xs \<noteq> []"
  by (cases xs) (auto simp: codes_def)

lemma window_300: "th_window (PROFILES p) = 300"
  by (cases p) simp_all

lemma repeated_call_code:
  "''WATCH_REPEATED_CALL'' \<in> set (codes (alarms now task events)) \<longleftrightarrow>
     repeated_call (PROFILES (wt_profile task)) (filter (within_window now (PROFILES (wt_profile task))) events) \<noteq> []"
proof -
  have no: "''WATCH_REPEATED_CALL'' \<notin> set (codes xs)" if "set (codes xs) \<subseteq> {c}" "c \<noteq> ''WATCH_REPEATED_CALL''" for xs c
    using that by auto
  show ?thesis
    unfolding alarms_def Let_def codes_append set_append one_code [OF code_members(1), symmetric]
    using no [OF code_members(2)] no [OF code_members(3)] no [OF code_members(4)] no [OF code_members(5)]
      no [OF code_members(6)] no [OF code_members(7)] no [OF code_members(8)] no [OF code_members(9)] by simp
qed

text \<open>
  The repeated-call alarm is raised exactly when, in the last 300 seconds, some tool call with
  one fingerprint was made at least as often as the profile tolerates, counting only the calls made
  after every progress signal of those 300 seconds.
\<close>

theorem repeated_call_exactly:
  "''WATCH_REPEATED_CALL'' \<in> set (codes (alarms now task events)) \<longleftrightarrow>
     (\<exists>v. v \<noteq> [] \<and> th_repeated_calls (PROFILES (wt_profile task)) \<le> length (filter (\<lambda>e. we_type e = TOOL_CALL
        \<and> we_fingerprint e = Some v \<and> now - seconds 300 \<le> we_created e
        \<and> list_all (\<lambda>p. \<not> (we_type p = PROGRESS \<and> now - seconds 300 \<le> we_created p \<and> we_created e \<le> we_created p)) events) events))"
proof -
  let ?th = "PROFILES (wt_profile task)"
  let ?w = "filter (within_window now ?th) events"
  let ?n = "\<lambda>v. length (filter (\<lambda>e. we_type e = TOOL_CALL \<and> we_fingerprint e = Some v \<and> now - seconds 300 \<le> we_created e
        \<and> list_all (\<lambda>p. \<not> (we_type p = PROGRESS \<and> now - seconds 300 \<le> we_created p \<and> we_created e \<le> we_created p)) events) events)"
  have n: "count_list (present we_fingerprint (loop_calls ?w)) v = (if v = [] then 0 else ?n v)" for v
    unfolding count_present loop_calls_filter
    by (auto simp: within_window_def window_300 list_all_iff not_le intro!: arg_cong [of _ _ length] filter_cong)
  have pos: "1 \<le> th_repeated_calls ?th" by (cases "wt_profile task") simp_all
  show ?thesis
  proof (cases "most_common (present we_fingerprint (loop_calls ?w))")
    case None
    then have "present we_fingerprint (loop_calls ?w) = []" by simp
    then have zero: "?n v = 0" if "v \<noteq> []" for v using n [of v] that by (simp only: count_list.simps if_False)
    have "\<not> th_repeated_calls ?th \<le> ?n v" if "v \<noteq> []" for v unfolding zero [OF that] using pos by simp
    moreover have "repeated_call ?th ?w = []" unfolding repeated_call_def None by simp
    ultimately show ?thesis unfolding repeated_call_code by blast
  next
    case (Some p)
    obtain v c where p: "p = (v, c)" by force
    note mc = most_common_Some [OF Some [unfolded p]]
    have v: "v \<noteq> []" using mc present_ne by blast
    have "repeated_call ?th ?w \<noteq> [] \<longleftrightarrow> th_repeated_calls ?th \<le> c" by (simp add: repeated_call_def Some p)
    moreover have "c = ?n v" using mc n [of v] v by simp
    moreover have "?n u \<le> c" if "u \<noteq> []" for u using mc n [of u] that by (metis (no_types, lifting))
    ultimately show ?thesis unfolding repeated_call_code using v by (meson order_trans)
  qed
qed

text \<open>
  The cycle search is exact: it finds a pattern exactly when the calls end with some pattern of
  two to six calls, not all the same, repeated the given number of times, and what it finds is one.
\<close>

theorem cycle_pattern_exact:
  assumes "1 \<le> repetitions"
  shows "(cycle_pattern calls repetitions \<noteq> [] \<longleftrightarrow>
      (\<exists>p u. 2 \<le> length p \<and> length p \<le> 6 \<and> length (remdups p) > 1 \<and> calls = u @ concat (replicate repetitions p)))
    \<and> (cycle_pattern calls repetitions \<noteq> [] \<longrightarrow>
      (\<exists>u. calls = u @ concat (replicate repetitions (cycle_pattern calls repetitions))))"
proof -
  let ?ns = "[2 ..< min 6 (length calls div repetitions) + 1]"
  have range: "n \<in> set ?ns \<longleftrightarrow> 2 \<le> n \<and> n \<le> 6 \<and> n * repetitions \<le> length calls" for n
  proof -
    have "n \<in> set ?ns \<longleftrightarrow> 2 \<le> n \<and> n \<le> min 6 (length calls div repetitions)" by auto
    then show ?thesis using assms by (simp add: less_eq_div_iff_mult_less_eq)
  qed
  have found: "2 \<le> length p \<and> length p \<le> 6 \<and> length (remdups p) > 1 \<and> (\<exists>u. calls = u @ concat (replicate repetitions p))"
    if "first_some (cycle_of calls repetitions) ?ns = Some p" for p
    using first_some_Some [OF that] cycle_of_Some [OF _ _ assms] range by metis
  have none: "\<not> (2 \<le> length p \<and> length p \<le> 6 \<and> length (remdups p) > 1 \<and> calls = u @ concat (replicate repetitions p))"
    if "first_some (cycle_of calls repetitions) ?ns = None" for p u
  proof
    assume a: "2 \<le> length p \<and> length p \<le> 6 \<and> length (remdups p) > 1 \<and> calls = u @ concat (replicate repetitions p)"
    then have "length p * repetitions \<le> length calls" by (simp add: length_concat_replicate mult.commute)
    then have "length p \<in> set ?ns" using a range by blast
    then have "cycle_of calls repetitions (length p) = None" using that unfolding first_some_None by blast
    moreover have "cycle_of calls repetitions (length p) = Some p"
      by (rule cycle_of_complete [of calls u]) (use a assms in blast)+
    ultimately show False by simp
  qed
  show ?thesis
  proof (cases "first_some (cycle_of calls repetitions) ?ns")
    case None
    have "cycle_pattern calls repetitions = []" unfolding cycle_pattern_def None by simp
    then show ?thesis using none [OF None] by blast
  next
    case (Some p)
    have "p \<noteq> []" using found [OF Some] by auto
    moreover have "cycle_pattern calls repetitions = p" unfolding cycle_pattern_def Some by simp
    ultimately show ?thesis using found [OF Some] by metis
  qed
qed

theorem cycle_pattern_exact_witness:
  "\<exists>u. [''x'', ''a'', ''b'', ''a'', ''b'', ''a'', ''b''] = u @ concat (replicate 3 (cycle_pattern [''x'', ''a'', ''b'', ''a'', ''b'', ''a'', ''b''] 3))
    \<and> cycle_pattern [''x'', ''a'', ''b'', ''a'', ''b'', ''a'', ''b''] 3 \<noteq> []"
proof -
  have "cycle_pattern [''x'', ''a'', ''b'', ''a'', ''b'', ''a'', ''b''] 3 \<noteq> []" by code_simp
  then show ?thesis using cycle_pattern_exact [of 3 "[''x'', ''a'', ''b'', ''a'', ''b'', ''a'', ''b'']"] by simp
qed

text \<open>
  A tool budget of 500 calls or more is never reported as exceeded: the analysis reads at most
  the newest 500 events of the task, so it cannot count past the budget, although a task may be
  created with a budget of up to a million calls.
\<close>

theorem large_budget_never_reported:
  assumes "500 \<le> wt_max_tool_calls task"
  shows "''WATCH_TOOL_BUDGET_EXCEEDED'' \<notin> set (codes (alarms now task
     (list_watch_events (wt_id task) (Some (wt_tenant task)) (Some (wt_agent task)) 500 st)))"
proof -
  let ?es = "list_watch_events (wt_id task) (Some (wt_tenant task)) (Some (wt_agent task)) 500 st"
  have "length ?es \<le> 500" by (simp add: list_watch_events_def)
  then have "length (of_type TOOL_CALL ?es) \<le> 500" unfolding of_type_def using length_filter_le le_trans by blast
  then have t: "tool_budget task ?es = []" using assms by (simp add: tool_budget_def Let_def)
  have no: "''WATCH_TOOL_BUDGET_EXCEEDED'' \<notin> set (codes xs)" if "set (codes xs) \<subseteq> {c}" "c \<noteq> ''WATCH_TOOL_BUDGET_EXCEEDED''" for xs c
    using that by auto
  show ?thesis
    unfolding alarms_def Let_def codes_append set_append t
    using no [OF code_members(1)] no [OF code_members(2)] no [OF code_members(3)] no [OF code_members(4)] no [OF code_members(5)]
      no [OF code_members(7)] no [OF code_members(8)] no [OF code_members(9)] by (simp add: codes_def)
qed

definition demo_big_task :: watch_task where
  "demo_big_task = new_task 0 demo_agent (demo_watch_task\<lparr>wq_max_tool_calls := 500\<rparr>)"

theorem large_budget_never_reported_witness:
  "''WATCH_TOOL_BUDGET_EXCEEDED'' \<notin> set (codes (alarms 5 demo_big_task
     (list_watch_events (wt_id demo_big_task) (Some (wt_tenant demo_big_task)) (Some (wt_agent demo_big_task)) 500 empty_store)))"
  by (rule large_budget_never_reported) (simp add: demo_big_task_def new_task_def)

end
