(* ===== verification/Runtime.thy ===== *)
theory Runtime
  imports Store_Audit
begin

text \<open>
  Operations that run over several transactions. A \<open>world\<close> holds the store, the successive readings
  of the clock, identifiers and random bytes still to be drawn, and what was done outside the store:
  the tool handlers invoked and the web requests posted. An operation returns a value or raises; an
  exception does not undo the transactions before it. The locale \<open>preserving\<close> proves once how a
  relation between worlds passes through sequences, handlers and loops.
\<close>

section \<open>Worlds and operations\<close>

record world =
  wo_store :: store
  wo_clock :: "nat \<Rightarrow> time"
  wo_ticks :: nat
  wo_ids :: "nat \<Rightarrow> string"
  wo_random :: "nat \<Rightarrow> string"
  wo_drawn :: nat
  wo_invoked :: "(string \<times> (string, json) dict) list"
  wo_posted :: "(string \<times> string \<times> string) list"

type_synonym 'a io = "world \<Rightarrow> (exc + 'a) \<times> world"

definition ret :: "'a \<Rightarrow> 'a io" where
  "ret x = (\<lambda>w. (Inr x, w))"

definition raise :: "exc \<Rightarrow> 'a io" where
  "raise e = (\<lambda>w. (Inl e, w))"

definition andthen :: "'a io \<Rightarrow> ('a \<Rightarrow> 'b io) \<Rightarrow> 'b io" where
  "andthen m f = (\<lambda>w. case m w of (Inl e, w') \<Rightarrow> (Inl e, w') | (Inr x, w') \<Rightarrow> f x w')"

definition catching :: "'a io \<Rightarrow> (exc \<Rightarrow> 'a io) \<Rightarrow> 'a io" where
  "catching m h = (\<lambda>w. case m w of (Inl e, w') \<Rightarrow> h e w' | (Inr x, w') \<Rightarrow> (Inr x, w'))"

definition lift :: "exc + 'a \<Rightarrow> 'a io" where
  "lift r = (\<lambda>w. (r, w))"

definition tick :: "time io" where
  "tick = (\<lambda>w. (Inr (wo_clock w (wo_ticks w)), w\<lparr>wo_ticks := Suc (wo_ticks w)\<rparr>))"

definition fresh_id :: "string io" where
  "fresh_id = (\<lambda>w. (Inr (wo_ids w (wo_drawn w)), w\<lparr>wo_drawn := Suc (wo_drawn w)\<rparr>))"

definition fresh_nonce :: "string io" where
  "fresh_nonce = (\<lambda>w. (Inr (wo_random w (wo_drawn w)), w\<lparr>wo_drawn := Suc (wo_drawn w)\<rparr>))"

definition query :: "(store \<Rightarrow> 'a) \<Rightarrow> 'a io" where
  "query q = (\<lambda>w. (Inr (q (wo_store w)), w))"

definition db :: "(store \<Rightarrow> 'a \<times> store) \<Rightarrow> 'a io" where
  "db t = (\<lambda>w. (Inr (fst (t (wo_store w))), w\<lparr>wo_store := snd (t (wo_store w))\<rparr>))"

text \<open>A transaction that may raise rolls back.\<close>

definition db_exc :: "(store \<Rightarrow> exc + 'a \<times> store) \<Rightarrow> 'a io" where
  "db_exc t = (\<lambda>w. case t (wo_store w) of Inl e \<Rightarrow> (Inl e, w) | Inr (x, st) \<Rightarrow> (Inr x, w\<lparr>wo_store := st\<rparr>))"

fun each :: "('a \<Rightarrow> 'b io) \<Rightarrow> 'a list \<Rightarrow> 'b list io" where
  "each f [] = ret []"
| "each f (x # xs) = andthen (f x) (\<lambda>y. andthen (each f xs) (\<lambda>ys. ret (y # ys)))"

text \<open>The keys of a deployment: the cryptographic primitives, the audit key and the data key.\<close>

record deployment =
  de_crypto :: crypto
  de_audit_key :: string
  de_data_key :: string

definition audit :: "deployment \<Rightarrow> string \<Rightarrow> (string, json) dict \<Rightarrow> string io" where
  "audit env ty payload = andthen fresh_id (\<lambda>i. andthen tick (\<lambda>now.
     andthen (db (\<lambda>st. ((), append_audit (de_crypto env) (de_audit_key env) now i ty (JDict payload) st))) (\<lambda>_. ret i)))"

section \<open>Running\<close>

lemma ret_run: "ret x w = (Inr x, w)" and raise_run: "raise e w = (Inl e, w)"
  and lift_run: "lift r w = (r, w)" and query_run: "query q w = (Inr (q (wo_store w)), w)"
  by (simp_all add: ret_def raise_def lift_def query_def)

lemma andthen_Inr: "m w = (Inr x, w') \<Longrightarrow> andthen m f w = f x w'"
  by (simp add: andthen_def)

lemma andthen_Inl: "m w = (Inl e, w') \<Longrightarrow> andthen m f w = (Inl e, w')"
  by (simp add: andthen_def)

lemma andthen_Inr_iff: "andthen m f w = (Inr y, w') \<longleftrightarrow> (\<exists>x w1. m w = (Inr x, w1) \<and> f x w1 = (Inr y, w'))"
  by (auto simp: andthen_def split: prod.splits sum.splits)

lemma andthen_ret [simp]: "andthen (ret x) f = f x"
  by (simp add: andthen_def fun_eq_iff ret_run)

lemma andthen_query: "andthen (query q) f w = f (q (wo_store w)) w"
  by (simp add: andthen_def query_run)

lemma andthen_assoc: "andthen (andthen m f) g = andthen m (\<lambda>x. andthen (f x) g)"
  by (auto simp: andthen_def fun_eq_iff split: prod.splits sum.splits)

text \<open>One step of a sequence at a time.\<close>

lemma andthen_tick: "andthen tick f w = f (wo_clock w (wo_ticks w)) (w\<lparr>wo_ticks := Suc (wo_ticks w)\<rparr>)"
  by (simp add: andthen_def tick_def)

lemma andthen_db: "andthen (db t) f w = f (fst (t (wo_store w))) (w\<lparr>wo_store := snd (t (wo_store w))\<rparr>)"
  by (simp add: andthen_def db_def)

lemma andthen_id: "andthen fresh_id f w = f (wo_ids w (wo_drawn w)) (w\<lparr>wo_drawn := Suc (wo_drawn w)\<rparr>)"
  and andthen_nonce: "andthen fresh_nonce f w = f (wo_random w (wo_drawn w)) (w\<lparr>wo_drawn := Suc (wo_drawn w)\<rparr>)"
  by (simp_all add: andthen_def fresh_id_def fresh_nonce_def)

lemma andthen_audit:
  "andthen (audit env ty p) f w = f (wo_ids w (wo_drawn w)) (w\<lparr>wo_drawn := Suc (wo_drawn w), wo_ticks := Suc (wo_ticks w),
     wo_store := append_audit (de_crypto env) (de_audit_key env) (wo_clock w (wo_ticks w)) (wo_ids w (wo_drawn w)) ty (JDict p) (wo_store w)\<rparr>)"
  by (simp add: audit_def andthen_assoc andthen_tick andthen_db andthen_id)

lemma andthen_lift: "andthen (lift r) f w = (case r of Inl e \<Rightarrow> (Inl e, w) | Inr x \<Rightarrow> f x w)"
  by (simp add: andthen_def lift_def split: sum.split)

section \<open>Relations that operations preserve\<close>

locale preserving =
  fixes rel :: "world \<Rightarrow> world \<Rightarrow> bool"
  assumes rel_refl: "rel w w" and rel_trans: "rel a b \<Longrightarrow> rel b c \<Longrightarrow> rel a c"
    and rel_frame: "wo_store w' = wo_store w \<Longrightarrow> wo_invoked w' = wo_invoked w \<Longrightarrow> wo_posted w' = wo_posted w \<Longrightarrow>
      wo_clock w' = wo_clock w \<Longrightarrow> wo_ticks w \<le> wo_ticks w' \<Longrightarrow> wo_ids w' = wo_ids w \<Longrightarrow>
      wo_random w' = wo_random w \<Longrightarrow> rel w w'"
begin

definition keeps :: "'a io \<Rightarrow> bool" where
  "keeps m \<longleftrightarrow> (\<forall>w. rel w (snd (m w)))"

lemma keepsD: "keeps m \<Longrightarrow> m w = (r, w') \<Longrightarrow> rel w w'"
  unfolding keeps_def by (metis snd_conv)

lemma keeps_ret [simp]: "keeps (ret x)" and keeps_raise [simp]: "keeps (raise e)"
  and keeps_lift [simp]: "keeps (lift r)" and keeps_query [simp]: "keeps (query q)"
  by (simp_all add: keeps_def rel_refl ret_run raise_run lift_run query_run)

lemma keeps_tick [simp]: "keeps tick" and keeps_fresh_id [simp]: "keeps fresh_id" and keeps_fresh_nonce [simp]: "keeps fresh_nonce"
  by (simp_all add: keeps_def tick_def fresh_id_def fresh_nonce_def rel_frame)

lemma keeps_andthen: "keeps m \<Longrightarrow> (\<And>x. keeps (f x)) \<Longrightarrow> keeps (andthen m f)"
proof -
  assume m: "keeps m" and f: "\<And>x. keeps (f x)"
  have "rel w (snd (andthen m f w))" for w
  proof (cases "m w")
    case (Pair r w1)
    have w1: "rel w w1" using m Pair by (rule keepsD)
    show ?thesis
    proof (cases r)
      case (Inr x)
      have "rel w1 (snd (f x w1))" using f by (simp add: keeps_def)
      then show ?thesis using rel_trans [OF w1] Pair Inr by (simp add: andthen_def)
    qed (simp add: andthen_def Pair w1)
  qed
  then show ?thesis by (simp add: keeps_def)
qed

lemma keeps_catching: "keeps m \<Longrightarrow> (\<And>e. keeps (h e)) \<Longrightarrow> keeps (catching m h)"
proof -
  assume m: "keeps m" and h: "\<And>e. keeps (h e)"
  have "rel w (snd (catching m h w))" for w
  proof (cases "m w")
    case (Pair r w1)
    have w1: "rel w w1" using m Pair by (rule keepsD)
    show ?thesis
    proof (cases r)
      case (Inl e)
      have "rel w1 (snd (h e w1))" using h by (simp add: keeps_def)
      then show ?thesis using rel_trans [OF w1] Pair Inl by (simp add: catching_def)
    qed (simp add: catching_def Pair w1)
  qed
  then show ?thesis by (simp add: keeps_def)
qed

lemma keeps_each: assumes "\<And>x. keeps (f x)" shows "keeps (each f xs)"
proof (induction xs)
  case (Cons x xs)
  show ?case unfolding each.simps by (intro keeps_andthen assms Cons keeps_ret)
qed simp

lemma keeps_db: "(\<And>w. rel w (w\<lparr>wo_store := snd (t (wo_store w))\<rparr>)) \<Longrightarrow> keeps (db t)"
  by (simp add: keeps_def db_def)

lemma keeps_db_exc: "(\<And>w x st. t (wo_store w) = Inr (x, st) \<Longrightarrow> rel w (w\<lparr>wo_store := st\<rparr>)) \<Longrightarrow> keeps (db_exc t)"
  by (auto simp: keeps_def db_exc_def rel_refl split: sum.splits)

lemma keeps_audit:
  "(\<And>w now i ty j. rel w (w\<lparr>wo_store := append_audit (de_crypto env) (de_audit_key env) now i ty j (wo_store w)\<rparr>)) \<Longrightarrow>
     keeps (audit env ty payload)"
  unfolding audit_def by (intro keeps_andthen keeps_db) simp_all

lemma keeps_if: "(c \<Longrightarrow> keeps m) \<Longrightarrow> (\<not> c \<Longrightarrow> keeps n) \<Longrightarrow> keeps (if c then m else n)"
  by simp

lemma keeps_option: "keeps n \<Longrightarrow> (\<And>x. keeps (s x)) \<Longrightarrow> keeps (case v of None \<Rightarrow> n | Some x \<Rightarrow> s x)"
  by (simp split: option.split)

lemmas keeps_rules = keeps_andthen keeps_catching keeps_each keeps_if keeps_option

end

text \<open>Every operation that only adds audit events by \<open>append_audit\<close> keeps the audit chain.\<close>

definition audit_kept :: "deployment \<Rightarrow> world \<Rightarrow> world \<Rightarrow> bool" where
  "audit_kept env w w' \<longleftrightarrow>
     (audit_wf (de_crypto env) (de_audit_key env) (wo_store w) \<longrightarrow> audit_wf (de_crypto env) (de_audit_key env) (wo_store w'))"

interpretation chain: preserving "audit_kept env" for env
  by unfold_locales (auto simp: audit_kept_def)

lemma chain_audit [simp]: "chain.keeps env (audit env ty payload)"
  by (rule chain.keeps_audit) (simp add: audit_kept_def append_audit_wf)

lemma chain_db:
  "(\<And>st. audit_events (snd (t st)) = audit_events st) \<Longrightarrow> chain.keeps env (db t)"
  by (rule chain.keeps_db) (metis (no_types, lifting) audit_kept_def audit_wf_cong world.select_convs(1) world.surjective world.update_convs(1))

lemma chain_db_exc:
  "(\<And>st x st'. t st = Inr (x, st') \<Longrightarrow> audit_events st' = audit_events st) \<Longrightarrow> chain.keeps env (db_exc t)"
  by (rule chain.keeps_db_exc) (metis (no_types, lifting) audit_kept_def audit_wf_cong world.select_convs(1) world.surjective world.update_convs(1))

text \<open>A world to run examples in.\<close>

definition demo_world :: world where
  "demo_world = \<lparr>wo_store = empty_store, wo_clock = (\<lambda>n. 1000000 * int n), wo_ticks = 0, wo_ids = (\<lambda>n. ''id'' @ show_nat n),
     wo_random = (\<lambda>n. replicate 12 CHR ''n''), wo_drawn = 0, wo_invoked = [], wo_posted = []\<rparr>"

end
