(* ===== verification/Watch.thy ===== *)
theory Watch
  imports Watch_Rules Runtime
begin

text \<open>
  The watch service of \<^verbatim>\<open>watch.py\<close>: tasks, events from agents, observations of gateway calls and
  executions, and the analysis that turns alarms into persisted findings. The central lemma is that
  watching is advisory: no operation of it changes any table but those of watch and the audit log,
  invokes a tool or posts a request.
\<close>

section \<open>The service\<close>

record watch_service =
  wv_enabled :: bool
  wv_monitor_only :: bool

definition metadata_fingerprint :: "deployment \<Rightarrow> string \<Rightarrow> string" where
  "metadata_fingerprint env v = hmac_hex (de_crypto env) (de_audit_key env) v"

definition create_task :: "deployment \<Rightarrow> agent_principal \<Rightarrow> watch_task_request \<Rightarrow> watch_task io" where
  "create_task env agent r = andthen tick (\<lambda>now. andthen (db_exc (create_watch_task now agent r)) (\<lambda>t.
     andthen (audit env ''watch_task_created''
       [(''task_id'', JStr (wt_id t)), (''tenant_id'', JStr (wt_tenant t)), (''agent_id'', JStr (wt_agent t)),
        (''profile'', JStr (profile_value (wt_profile t)))]) (\<lambda>_. ret t)))"

text \<open>\<^verbatim>\<open>_finding\<close>: its id is a hash of the tenant, the task and the code.\<close>

definition finding_id :: "crypto \<Rightarrow> string \<Rightarrow> string \<Rightarrow> string \<Rightarrow> string" where
  "finding_id cr tenant task code = sha256 cr (tenant @ [CHR 0x00] @ task @ [CHR 0x00] @ code)"

definition mk_finding :: "crypto \<Rightarrow> time \<Rightarrow> watch_task \<Rightarrow> alarm \<Rightarrow> watch_finding" where
  "mk_finding cr now task a =
     \<lparr>wf_id = finding_id cr (wt_tenant task) (wt_id task) (al_code a), wf_tenant = wt_tenant task, wf_agent = wt_agent task,
      wf_task = wt_id task, wf_code = al_code a, wf_severity = al_severity a, wf_confidence = al_confidence a,
      wf_summary = al_summary a, wf_evidence = al_evidence a, wf_action = al_action a, wf_status = ''open'',
      wf_occurrences = 1, wf_first_seen = now, wf_last_seen = now, wf_resolved = None, wf_reviewer = None, wf_note = []\<rparr>"

definition task_events :: "watch_task \<Rightarrow> store \<Rightarrow> watch_event list" where
  "task_events task st = list_watch_events (wt_id task) (Some (wt_tenant task)) (Some (wt_agent task)) 500 st"

definition analyze :: "deployment \<Rightarrow> watch_service \<Rightarrow> watch_task \<Rightarrow> time option \<Rightarrow> watch_finding list io" where
  "analyze env wv task given_now =
     andthen (case given_now of Some t \<Rightarrow> ret t | None \<Rightarrow> tick) (\<lambda>now.
     andthen (query (task_events task)) (\<lambda>events.
     andthen (each (\<lambda>a. andthen tick (\<lambda>t. ret (mk_finding (de_crypto env) t task a))) (alarms now task events)) (\<lambda>findings.
     andthen (each (\<lambda>f. andthen tick (\<lambda>t. db_exc (upsert_watch_finding t f))) findings) (\<lambda>persisted.
     andthen (each (\<lambda>f. audit env ''watch_finding_observed''
        [(''finding_id'', JStr (wf_id f)), (''task_id'', JStr (wf_task f)), (''tenant_id'', JStr (wf_tenant f)),
         (''agent_id'', JStr (wf_agent f)), (''code'', JStr (wf_code f)), (''severity'', JStr (wf_severity f)),
         (''monitor_only'', JBool (wv_monitor_only wv))]) persisted) (\<lambda>_.
     ret persisted)))))"

definition find_task :: "string \<Rightarrow> agent_principal \<Rightarrow> watch_task option io" where
  "find_task task agent = query (get_watch_task task (pr_tenant_id agent) (Some (pr_agent_id agent)))"

definition record_event :: "agent_principal \<Rightarrow> watch_event_request \<Rightarrow> watch_event io" where
  "record_event agent r = andthen fresh_id (\<lambda>i. andthen tick (\<lambda>now. db_exc (record_watch_event now i agent r)))"

definition ingest :: "deployment \<Rightarrow> watch_service \<Rightarrow> agent_principal \<Rightarrow> watch_event_request \<Rightarrow>
    (watch_event \<times> watch_finding list) io" where
  "ingest env wv agent r =
     (if \<not> wv_enabled wv then raise (ValueError ''SentinelGate Watch is disabled'')
      else andthen (find_task (er_task_id r) agent) (\<lambda>task. case task of
        None \<Rightarrow> raise (WatchTaskNotFound ''Watch task not found for this agent identity'')
      | Some t \<Rightarrow> andthen (record_event agent r) (\<lambda>e.
          andthen (find_task (er_task_id r) agent) (\<lambda>updated.
          andthen (analyze env wv (opt updated t) (Some (we_created e))) (\<lambda>fs. ret (e, fs))))))"

text \<open>The task of a gateway call is the call's task, or its trace.\<close>

definition call_task :: "tool_call \<Rightarrow> string" where
  "call_task call = opt (nonempty (tc_task_id call)) (tc_trace_id call)"

definition gateway_task_request :: "tool_call \<Rightarrow> watch_task_request" where
  "gateway_task_request call =
     \<lparr>wq_task_id = call_task call,
      wq_description = (if tc_purpose call \<noteq> [] then tc_purpose call else ''Gateway trace '' @ tc_trace_id call),
      wq_profile = BALANCED, wq_expected_tools = [], wq_success_criteria = [], wq_max_runtime = 3600,
      wq_max_tool_calls = 250, wq_max_cost = 10\<rparr>"

definition validated :: "('a \<Rightarrow> bool) \<Rightarrow> string \<Rightarrow> 'a \<Rightarrow> 'a io" where
  "validated P what x = (if P x then ret x else raise (ValueError what))"

definition gateway_task :: "tool_call \<Rightarrow> agent_principal \<Rightarrow> watch_task io" where
  "gateway_task call agent = andthen (find_task (call_task call) agent) (\<lambda>task. case task of
      Some t \<Rightarrow> ret t
    | None \<Rightarrow> andthen (validated watch_task_request_ok ''invalid WatchTaskCreateRequest'' (gateway_task_request call)) (\<lambda>r.
        andthen tick (\<lambda>now. db_exc (create_watch_task now agent r))))"

definition call_event :: "deployment \<Rightarrow> watch_task \<Rightarrow> tool_call \<Rightarrow> policy_decision \<Rightarrow> watch_event_request" where
  "call_event env t call d =
     \<lparr>er_task_id = wt_id t, er_type = TOOL_CALL, er_tool = Some (tc_tool_name call),
      er_outcome = Some (decision_value (pd_decision d)),
      er_error = (if pd_decision d = DENY \<and> pd_reasons d \<noteq> [] then Some (hd (pd_reasons d)) else None),
      er_fingerprint = Some (metadata_fingerprint env (tc_tool_name call @ [CHR 0x00] @ canonical_json (JDict (tc_arguments call)))),
      er_progress = None, er_input_tokens = 0, er_output_tokens = 0, er_cost = 0, er_duration = None\<rparr>"

definition observe_gateway_call :: "deployment \<Rightarrow> watch_service \<Rightarrow> tool_call \<Rightarrow> agent_principal \<Rightarrow> policy_decision \<Rightarrow>
    watch_finding list io" where
  "observe_gateway_call env wv call agent d =
     (if \<not> wv_enabled wv then ret []
      else andthen (gateway_task call agent) (\<lambda>t.
        andthen (validated watch_event_request_ok ''invalid WatchEventRequest'' (call_event env t call d)) (\<lambda>r.
        andthen (record_event agent r) (\<lambda>_.
        andthen (find_task (wt_id t) agent) (\<lambda>updated. analyze env wv (opt updated t) None)))))"

definition result_event :: "tool_call \<Rightarrow> string \<Rightarrow> rat \<Rightarrow> string option \<Rightarrow> watch_event_request" where
  "result_event call outcome duration error_code =
     \<lparr>er_task_id = call_task call, er_type = TOOL_RESULT, er_tool = Some (tc_tool_name call), er_outcome = Some outcome,
      er_error = error_code, er_fingerprint = None, er_progress = None, er_input_tokens = 0, er_output_tokens = 0,
      er_cost = 0, er_duration = Some duration\<rparr>"

definition observe_execution :: "deployment \<Rightarrow> watch_service \<Rightarrow> tool_call \<Rightarrow> agent_principal \<Rightarrow> string \<Rightarrow> rat \<Rightarrow>
    string option \<Rightarrow> watch_finding list io" where
  "observe_execution env wv call agent outcome duration error_code =
     (if \<not> wv_enabled wv then ret []
      else andthen (find_task (call_task call) agent) (\<lambda>task. case task of
        None \<Rightarrow> ret []
      | Some t \<Rightarrow> andthen (validated watch_event_request_ok ''invalid WatchEventRequest''
            (result_event call outcome duration error_code)) (\<lambda>r.
          andthen (record_event agent r) (\<lambda>_.
          andthen (find_task (wt_id t) agent) (\<lambda>updated. analyze env wv (opt updated t) None)))))"

section \<open>Watching is advisory\<close>

text \<open>Everything but the tables of watch and the audit log.\<close>

definition enforcement_view :: "store \<Rightarrow> store" where
  "enforcement_view st = st\<lparr>audit_events := [], watch_tasks := [], watch_events := [], watch_findings := []\<rparr>"

definition advisory :: "world \<Rightarrow> world \<Rightarrow> bool" where
  "advisory w w' \<longleftrightarrow> enforcement_view (wo_store w') = enforcement_view (wo_store w)
     \<and> wo_invoked w' = wo_invoked w \<and> wo_posted w' = wo_posted w"

interpretation adv: preserving advisory
  by unfold_locales (auto simp: advisory_def)

lemma adv_audit [simp]: "adv.keeps (audit env ty payload)"
  by (rule adv.keeps_audit) (simp add: advisory_def enforcement_view_def append_audit_def Let_def)

lemma adv_db_exc:
  "(\<And>st x st'. t st = Inr (x, st') \<Longrightarrow> enforcement_view st' = enforcement_view st) \<Longrightarrow> adv.keeps (db_exc t)"
  by (rule adv.keeps_db_exc) (simp add: advisory_def)

lemma create_watch_view: "create_watch_task now agent r st = Inr (t, st') \<Longrightarrow> enforcement_view st' = enforcement_view st"
  by (auto simp: create_watch_task_def Let_def enforcement_view_def split: option.splits if_splits)

lemma record_watch_view: "record_watch_event now i agent r st = Inr (e, st') \<Longrightarrow> enforcement_view st' = enforcement_view st"
  by (auto simp: record_watch_event_def Let_def enforcement_view_def split: option.splits if_splits)

lemma upsert_watch_view: "upsert_watch_finding now f st = Inr (x, st') \<Longrightarrow> enforcement_view st' = enforcement_view st"
  by (auto simp: upsert_watch_finding_def enforcement_view_def split: option.splits if_splits)

lemma create_watch_audit: "create_watch_task now agent r st = Inr (t, st') \<Longrightarrow> audit_events st' = audit_events st"
  by (auto simp: create_watch_task_def Let_def split: option.splits if_splits)

lemma record_watch_audit: "record_watch_event now i agent r st = Inr (e, st') \<Longrightarrow> audit_events st' = audit_events st"
  by (auto simp: record_watch_event_def Let_def split: option.splits if_splits)

lemma upsert_watch_audit: "upsert_watch_finding now f st = Inr (x, st') \<Longrightarrow> audit_events st' = audit_events st"
  by (auto simp: upsert_watch_finding_def split: option.splits if_splits)

text \<open>
  Both relations, advisory and the audit chain, pass through the same steps: stated once, for any
  relation that the four transactions keep.
\<close>

locale watch_relation = preserving +
  fixes env :: deployment
  assumes create_step: "keeps (db_exc (create_watch_task now agent r))"
    and record_step: "keeps (db_exc (record_watch_event now i agent q))"
    and upsert_step: "keeps (db_exc (upsert_watch_finding now f))"
    and audit_step: "keeps (audit env ty payload)"
begin

lemmas steps = create_step record_step upsert_step audit_step

lemma keeps_find_task [simp]: "keeps (find_task task agent)"
  by (simp add: find_task_def)

lemma keeps_validated [simp]: "keeps (validated P what x)"
  by (simp add: validated_def)

lemma keeps_record_event: "keeps (record_event agent r)"
  unfolding record_event_def by (intro keeps_andthen steps keeps_tick keeps_fresh_id)

lemma keeps_analyze: "keeps (analyze env wv task t)"
  unfolding analyze_def
  by (intro keeps_andthen keeps_each steps keeps_tick keeps_ret keeps_query) (simp split: option.split)

lemma keeps_create_task: "keeps (create_task env agent r)"
  unfolding create_task_def by (intro keeps_andthen steps keeps_tick keeps_ret)

lemma keeps_ingest: "keeps (ingest env wv agent r)"
  unfolding ingest_def
  by (intro keeps_if keeps_raise keeps_andthen keeps_option keeps_find_task keeps_record_event keeps_analyze keeps_ret)

lemma keeps_gateway_task: "keeps (gateway_task call agent)"
  unfolding gateway_task_def
  by (intro keeps_andthen keeps_option keeps_find_task keeps_validated steps keeps_tick keeps_ret)

lemma keeps_observe_gateway_call: "keeps (observe_gateway_call env wv call agent d)"
  unfolding observe_gateway_call_def
  by (intro keeps_if keeps_andthen keeps_gateway_task keeps_validated keeps_record_event keeps_find_task keeps_analyze keeps_ret)

lemma keeps_observe_execution: "keeps (observe_execution env wv call agent outcome duration err)"
  unfolding observe_execution_def
  by (intro keeps_if keeps_andthen keeps_option keeps_validated keeps_record_event keeps_find_task keeps_analyze keeps_ret)

end

interpretation wadv: watch_relation advisory env for env
  by unfold_locales
     (auto intro: adv_db_exc create_watch_view record_watch_view upsert_watch_view simp: adv_audit)

interpretation wchain: watch_relation "audit_kept env" env for env
  by unfold_locales
     (auto intro: chain_db_exc create_watch_audit record_watch_audit upsert_watch_audit simp: chain_audit)

section \<open>Properties\<close>

text \<open>
  Watching is advisory: whatever the events, and whether it succeeds or raises, no operation of
  the watch service changes a table other than its own and the audit log, invokes a tool or posts a
  request; and it keeps the audit chain verifiable.
\<close>

theorem watch_is_advisory:
  "advisory w (snd (ingest env wv agent r w)) \<and> advisory w (snd (observe_gateway_call env wv call agent d w))
   \<and> advisory w (snd (observe_execution env wv call agent outcome duration err w))
   \<and> advisory w (snd (create_task env agent q w)) \<and> audit_kept env w (snd (ingest env wv agent r w))
   \<and> audit_kept env w (snd (observe_gateway_call env wv call agent d w))"
  using wadv.keeps_ingest wadv.keeps_observe_gateway_call wadv.keeps_observe_execution wadv.keeps_create_task
    wchain.keeps_ingest wchain.keeps_observe_gateway_call
  by (simp add: adv.keeps_def chain.keeps_def)

text \<open>
  A reviewed finding is reopened: when an analysis raises the same alarm again, the finding that
  a reviewer resolved or acknowledged is open again and its resolution time is gone.
\<close>

theorem reviewed_finding_reopened:
  assumes "update_watch_finding t1 i status remark reviewer st = (Some f, st1)" and "wf_id g = i"
  shows "\<exists>h st2. upsert_watch_finding t2 g st1 = Inr (h, st2) \<and> wf_id h = i \<and> wf_status h = ''open''
     \<and> wf_resolved h = None \<and> wf_reviewer h = Some reviewer"
proof -
  have "select_one (\<lambda>x. wf_id x = i) (watch_findings st1) = Some f" "wf_reviewer f = Some reviewer"
    using assms(1)
    by (auto simp: update_watch_finding_def Let_def select_one_update split: if_splits)
  moreover have "wf_id f = i" using select_one_Some [OF calculation(1)] by simp
  ultimately show ?thesis using assms(2) by (auto simp: upsert_watch_finding_def reopen_finding_def)
qed

definition demo_finding :: watch_finding where
  "demo_finding = \<lparr>wf_id = ''f'', wf_tenant = ''t'', wf_agent = ''a'', wf_task = ''k'', wf_code = ''C'', wf_severity = ''high'',
     wf_confidence = 1, wf_summary = [], wf_evidence = [], wf_action = [], wf_status = ''open'', wf_occurrences = 1,
     wf_first_seen = 0, wf_last_seen = 0, wf_resolved = None, wf_reviewer = None, wf_note = []\<rparr>"

theorem reviewed_finding_reopened_witness:
  "\<exists>st1 f h st2. update_watch_finding 1 ''f'' ''resolved'' [] ''rv'' (empty_store\<lparr>watch_findings := [demo_finding]\<rparr>) = (Some f, st1)
     \<and> wf_status f = ''resolved'' \<and> upsert_watch_finding 2 demo_finding st1 = Inr (h, st2) \<and> wf_status h = ''open''"
proof -
  obtain f st1 where f: "update_watch_finding 1 ''f'' ''resolved'' [] ''rv'' (empty_store\<lparr>watch_findings := [demo_finding]\<rparr>) = (Some f, st1)"
      "wf_status f = ''resolved''"
    by (simp add: update_watch_finding_def Let_def demo_finding_def count_where_def select_one_def update_where_def)
  from reviewed_finding_reopened [OF f(1), of demo_finding 2] show ?thesis using f by (auto simp: demo_finding_def)
qed

end
