(* ===== verification/Executor.thy ===== *)
theory Executor
  imports Runtime
begin

text \<open>
  The tool registry of \<^verbatim>\<open>executor.py\<close>. A handler is code outside the registry: a function of its
  arguments and of the invocations before it, that raises or returns a plain value or a labelled
  result. Argument models are validators with their JSON schema; the JSON-schema library is the
  parameter \<open>schemas\<close>. Invoking a handler is recorded in the world, which is what the lemmas about
  the gateway count.
\<close>

section \<open>Tools\<close>

record tool_result =
  tr_output :: json
  tr_classification :: data_classification
  tr_labels :: "string list"
  tr_trust :: trust_level
  tr_sources :: "string list"

datatype handler_output = Plain json | Labelled tool_result

type_synonym handler = "(string \<times> (string, json) dict) list \<Rightarrow> (string, json) dict \<Rightarrow> exc + handler_output"

record arguments_model =
  am_validate :: "(string, json) dict \<Rightarrow> (string, json) dict option"
  am_schema :: json

record registered_tool =
  rt_handler :: handler
  rt_model :: "arguments_model option"
  rt_description :: string
  rt_schema :: "(string, json) dict option"

type_synonym registry = "(string, registered_tool) dict"

record schemas =
  js_check :: "(string, json) dict \<Rightarrow> bool"
  js_accepts :: "(string, json) dict \<Rightarrow> (string, json) dict \<Rightarrow> bool"

definition plain_result :: "json \<Rightarrow> tool_result" where
  "plain_result j = \<lparr>tr_output = j, tr_classification = PUBLIC, tr_labels = [], tr_trust = TRUSTED, tr_sources = []\<rparr>"

section \<open>Registration\<close>

definition register :: "string \<Rightarrow> handler \<Rightarrow> arguments_model option \<Rightarrow> string \<Rightarrow> registry \<Rightarrow> exc + registry" where
  "register name h model description reg =
     (if map_of reg name \<noteq> None then Inl (ValueError (''Tool already registered: '' @ name))
      else Inr (AList.update name \<lparr>rt_handler = h, rt_model = model, rt_description = description, rt_schema = None\<rparr> reg))"

definition register_schema :: "schemas \<Rightarrow> string \<Rightarrow> handler \<Rightarrow> (string, json) dict \<Rightarrow> string \<Rightarrow> registry \<Rightarrow> exc + registry" where
  "register_schema js name h schema description reg =
     (if map_of reg name \<noteq> None then Inr reg
      else if \<not> js_check js schema then Inl (ToolValidationError (''Invalid JSON schema for '' @ name))
      else Inr (AList.update name \<lparr>rt_handler = h, rt_model = None, rt_description = description, rt_schema = Some schema\<rparr> reg))"

text \<open>\<^verbatim>\<open>tool.input_schema or ...\<close>: an empty schema counts as none.\<close>

definition schema_of :: "registered_tool \<Rightarrow> (string, json) dict option" where
  "schema_of t = (case rt_schema t of Some (x # xs) \<Rightarrow> Some (x # xs) | _ \<Rightarrow> None)"

definition definition_json :: "string \<Rightarrow> registered_tool \<Rightarrow> json" where
  "definition_json name t = JDict
     [(''name'', JStr name),
      (''description'', JStr (if rt_description t \<noteq> [] then rt_description t else ''SentinelGate tool: '' @ name)),
      (''inputSchema'', case schema_of t of Some d \<Rightarrow> JDict d
         | None \<Rightarrow> (case rt_model t of Some m \<Rightarrow> am_schema m
             | None \<Rightarrow> JDict [(''type'', JStr ''object''), (''additionalProperties'', JBool False)]))]"

definition tool_definitions :: "registry \<Rightarrow> (string \<times> json) list" where
  "tool_definitions reg = map (\<lambda>(name, t). (name, definition_json name t)) (sort_key fst reg)"

section \<open>Validation and execution\<close>

definition validate_arguments :: "schemas \<Rightarrow> registry \<Rightarrow> string \<Rightarrow> (string, json) dict \<Rightarrow> exc + (string, json) dict" where
  "validate_arguments js reg name arguments =
     (let failed = Inl (ToolValidationError (''Arguments failed schema for '' @ name)) in
      case map_of reg name of
        None \<Rightarrow> Inr arguments
      | Some t \<Rightarrow> (case rt_model t of
          None \<Rightarrow> (case schema_of t of
              None \<Rightarrow> Inr arguments
            | Some schema \<Rightarrow> if js_accepts js schema arguments then Inr arguments else failed)
        | Some m \<Rightarrow> (case am_validate m arguments of Some d \<Rightarrow> Inr d | None \<Rightarrow> failed)))"

definition invoke :: "string \<Rightarrow> handler \<Rightarrow> (string, json) dict \<Rightarrow> handler_output io" where
  "invoke name h arguments = (\<lambda>w. (h (wo_invoked w) arguments, w\<lparr>wo_invoked := wo_invoked w @ [(name, arguments)]\<rparr>))"

definition labelled :: "handler_output \<Rightarrow> tool_result" where
  "labelled out = (case out of Plain j \<Rightarrow> plain_result j | Labelled r \<Rightarrow> r)"

definition execute_tool :: "schemas \<Rightarrow> registry \<Rightarrow> string \<Rightarrow> (string, json) dict \<Rightarrow> tool_result io" where
  "execute_tool js reg name arguments = (case map_of reg name of
      None \<Rightarrow> raise (ToolExecutionError (''No executor registered for tool: '' @ name))
    | Some t \<Rightarrow> andthen (lift (validate_arguments js reg name arguments)) (\<lambda>validated.
        catching (andthen (invoke name (rt_handler t) validated) (\<lambda>out. ret (labelled out)))
          (\<lambda>e. case e of ToolExecutionError m \<Rightarrow> raise (ToolExecutionError m)
             | _ \<Rightarrow> raise (ToolExecutionError (''Tool execution failed: '' @ name)))))"

section \<open>The demo registry\<close>

text \<open>Strict models: exactly the declared fields, each of its type.\<close>

definition str_field :: "(string, json) dict \<Rightarrow> string \<Rightarrow> string option" where
  "str_field d k = Option.bind (map_of d k) as_str"

definition exact_fields :: "string list \<Rightarrow> (string, json) dict \<Rightarrow> bool" where
  "exact_fields ks d \<longleftrightarrow> set (map fst d) = set ks"

definition search_arguments :: "(string, json) dict \<Rightarrow> (string, json) dict option" where
  "search_arguments d = (case str_field d ''query'' of None \<Rightarrow> None
     | Some q \<Rightarrow> if exact_fields [''query''] d \<and> 1 \<le> length q \<and> length q \<le> 500 then Some [(''query'', JStr q)] else None)"

text \<open>\<^verbatim>\<open>^[^\s@]+@[^\s@]+\.[^\s@]+$\<close>: one \<open>@\<close>, no white space, and a dot inside the domain.\<close>

definition address_char :: "char \<Rightarrow> bool" where
  "address_char c \<longleftrightarrow> \<not> is_space c \<and> c \<noteq> CHR ''@''"

definition email_ok :: "string \<Rightarrow> bool" where
  "email_ok s = (let local_part = takeWhile (\<lambda>c. c \<noteq> CHR ''@'') s; rest = dropWhile (\<lambda>c. c \<noteq> CHR ''@'') s
     in rest \<noteq> [] \<and> local_part \<noteq> [] \<and> list_all address_char local_part \<and> list_all address_char (tl rest)
        \<and> (let d = tl rest in list_ex (\<lambda>i. d ! i = CHR ''.'' \<and> 0 < i \<and> i + 1 < length d) [0 ..< length d]))"

definition email_arguments :: "(string, json) dict \<Rightarrow> (string, json) dict option" where
  "email_arguments d = (case (str_field d ''to'', str_field d ''subject'', str_field d ''body'') of
      (Some t, Some s, Some b) \<Rightarrow>
        if exact_fields [''to'', ''subject'', ''body''] d \<and> email_ok t \<and> length t \<le> 320 \<and> 1 \<le> length s \<and> length s \<le> 200
           \<and> length b \<le> 10000 then Some [(''to'', JStr t), (''subject'', JStr s), (''body'', JStr b)] else None
    | _ \<Rightarrow> None)"

definition customer_arguments :: "(string, json) dict \<Rightarrow> (string, json) dict option" where
  "customer_arguments d = (case str_field d ''customer_id'' of None \<Rightarrow> None
     | Some i \<Rightarrow> if exact_fields [''customer_id''] d \<and> ident_ok 128 i then Some [(''customer_id'', JStr i)] else None)"

definition entry :: "(string, json) dict \<Rightarrow> string \<Rightarrow> json" where
  "entry d k = dget d k JNull"

definition send_email_handler :: handler where
  "send_email_handler h arguments = Inr (Plain (JDict [(''simulated'', JBool True),
     (''message'', JStr ''Email accepted by the demo connector; no real email was sent.''), (''to'', entry arguments ''to'')]))"

definition read_customer_handler :: handler where
  "read_customer_handler h arguments = Inr (Plain (JDict [(''customer_id'', entry arguments ''customer_id''), (''status'', JStr ''demo-record'')]))"

text \<open>The schemas that the model library derives, and the search of the knowledge base, are arguments.\<close>

definition demo_registry :: "(string \<Rightarrow> json) \<Rightarrow> handler \<Rightarrow> exc + registry" where
  "demo_registry schema lookup =
     ebind (register ''search_knowledge'' lookup (Some \<lparr>am_validate = search_arguments, am_schema = schema ''SearchKnowledgeArguments''\<rparr>)
        ''Search the governed local knowledge base. Returned data carries signed provenance.'' []) (\<lambda>r1.
     ebind (register ''send_email'' send_email_handler (Some \<lparr>am_validate = email_arguments, am_schema = schema ''SendEmailArguments''\<rparr>)
        ''Submit an email through the guarded demo connector. This build does not send real email.'' r1) (\<lambda>r2.
     register ''read_customer_record'' read_customer_handler
        (Some \<lparr>am_validate = customer_arguments, am_schema = schema ''ReadCustomerArguments''\<rparr>)
        ''Read a simulated customer record through a sensitive-data boundary.'' r2))"

section \<open>Lemmas\<close>

lemma register_wf: "dict_wf reg \<Longrightarrow> register name h m d reg = Inr reg' \<Longrightarrow> dict_wf reg'"
  by (auto simp: register_def split: if_splits)

lemma register_schema_wf: "dict_wf reg \<Longrightarrow> register_schema js name h s d reg = Inr reg' \<Longrightarrow> dict_wf reg'"
  by (auto simp: register_schema_def split: if_splits)

text \<open>A registered tool is never replaced.\<close>

lemma register_tool_keeps: "register name h m d reg = Inr reg' \<Longrightarrow> map_of reg n = Some t \<Longrightarrow> map_of reg' n = Some t"
  by (auto simp: register_def update_conv' split: if_splits)

lemma register_schema_keeps: "register_schema js name h s d reg = Inr reg' \<Longrightarrow> map_of reg n = Some t \<Longrightarrow> map_of reg' n = Some t"
  by (auto simp: register_schema_def update_conv' split: if_splits)

lemma execute_tool_errors:
  "execute_tool js reg name arguments w = (Inl e, w') \<Longrightarrow> (\<exists>m. e = ToolExecutionError m \<or> e = ToolValidationError m)"
  by (auto simp: execute_tool_def andthen_def catching_def lift_def raise_def ret_def validate_arguments_def Let_def
      split: option.splits if_splits exc.splits prod.splits sum.splits)

text \<open>
  A tool runs at most once per execution, only when it is registered, and only on arguments its model
  or schema accepts; the store is not touched.
\<close>

lemma execute_tool_invokes:
  assumes "execute_tool js reg name arguments w = (r, w')"
  shows "wo_store w' = wo_store w \<and> wo_posted w' = wo_posted w
    \<and> (wo_invoked w' = wo_invoked w \<or> (\<exists>args. validate_arguments js reg name arguments = Inr args \<and> map_of reg name \<noteq> None
        \<and> wo_invoked w' = wo_invoked w @ [(name, args)]))"
  using assms
  by (auto simp: execute_tool_def andthen_def catching_def lift_def raise_def ret_def invoke_def
      split: option.splits exc.splits prod.splits sum.splits)

section \<open>Properties\<close>

text \<open>
  A tool that is executed ran once, on validated arguments: an execution leaves the store alone,
  raises nothing but tool errors, and when it invokes a handler the tool is registered and the
  handler's arguments are those its model or its schema accepted.
\<close>

theorem tool_runs_validated:
  assumes "execute_tool js reg name arguments w = (r, w')"
  shows "wo_store w' = wo_store w
    \<and> (\<forall>e. r = Inl e \<longrightarrow> (\<exists>m. e = ToolExecutionError m \<or> e = ToolValidationError m))
    \<and> (wo_invoked w' \<noteq> wo_invoked w \<longrightarrow> (\<exists>args t. map_of reg name = Some t \<and> wo_invoked w' = wo_invoked w @ [(name, args)]
        \<and> validate_arguments js reg name arguments = Inr args))"
  using execute_tool_invokes [OF assms] execute_tool_errors assms by blast

definition demo_schemas :: schemas where
  "demo_schemas = \<lparr>js_check = (\<lambda>s. True), js_accepts = (\<lambda>s d. True)\<rparr>"

theorem tool_runs_validated_witness:
  "\<exists>reg r w'. demo_registry (\<lambda>n. JNull) send_email_handler = Inr reg
     \<and> execute_tool demo_schemas reg ''read_customer_record'' [(''customer_id'', JStr ''c1'')] demo_world = (r, w')
     \<and> wo_store w' = empty_store \<and> wo_invoked w' = [(''read_customer_record'', [(''customer_id'', JStr ''c1'')])]"
proof -
  obtain reg where reg: "demo_registry (\<lambda>n. JNull) send_email_handler = Inr reg"
      "map_of reg ''read_customer_record'' = Some \<lparr>rt_handler = read_customer_handler,
        rt_model = Some \<lparr>am_validate = customer_arguments, am_schema = JNull\<rparr>,
        rt_description = ''Read a simulated customer record through a sensitive-data boundary.'', rt_schema = None\<rparr>"
    by (simp add: demo_registry_def register_def)
  have c: "customer_arguments [(''customer_id'', JStr ''c1'')] = Some [(''customer_id'', JStr ''c1'')]" by code_simp
  obtain r w' where e: "execute_tool demo_schemas reg ''read_customer_record'' [(''customer_id'', JStr ''c1'')] demo_world = (r, w')"
      "wo_invoked w' = [(''read_customer_record'', [(''customer_id'', JStr ''c1'')])]"
    by (simp add: execute_tool_def reg(2) andthen_def catching_def lift_def ret_def invoke_def validate_arguments_def c
      read_customer_handler_def demo_world_def)
  from tool_runs_validated [OF e(1)] show ?thesis using reg(1) e by (auto simp: demo_world_def)
qed

text \<open>
  A tool, once registered, is never replaced or removed by later registrations, which keep the
  names unique.
\<close>

theorem registered_tool_stays:
  assumes "dict_wf reg" and "map_of reg name = Some t"
    and "register n h m d reg = Inr reg' \<or> register_schema js n h s d reg = Inr reg'"
  shows "dict_wf reg' \<and> map_of reg' name = Some t"
  using assms(3) by (elim disjE) (simp_all add: register_wf [OF assms(1)] register_schema_wf [OF assms(1)]
    register_tool_keeps [OF _ assms(2)] register_schema_keeps [OF _ assms(2)])

theorem registered_tool_stays_witness:
  "\<exists>reg'. register_schema demo_schemas ''a'' send_email_handler [] ''d''
      [(''b'', \<lparr>rt_handler = send_email_handler, rt_model = None, rt_description = [], rt_schema = None\<rparr>)] = Inr reg'
     \<and> map_of reg' ''b'' = Some \<lparr>rt_handler = send_email_handler, rt_model = None, rt_description = [], rt_schema = None\<rparr>"
proof -
  let ?t = "\<lparr>rt_handler = send_email_handler, rt_model = None, rt_description = [], rt_schema = None\<rparr>"
  obtain reg' where r: "register_schema demo_schemas ''a'' send_email_handler [] ''d'' [(''b'', ?t)] = Inr reg'"
    by (simp add: register_schema_def demo_schemas_def)
  have "dict_wf [(''b'', ?t)]" "map_of [(''b'', ?t)] ''b'' = Some ?t" by (simp_all add: dict_wf_def)
  from registered_tool_stays [OF this, of "''a''" send_email_handler None "''d''" reg' demo_schemas "[]"] r show ?thesis by blast
qed

end
