(* ===== verification/Gateway.thy ===== *)
theory Gateway
  imports Watch Executor Store_Mcp Store_Incidents Store_Outbox Store_Limits Store_Agents
begin

text \<open>
  The gateway of \<^verbatim>\<open>service.py\<close>, operation by operation: the provenance of a call, the evaluation with
  its containment, rate, policy, tool-definition, argument and egress checks, the decision's records,
  the execution of an authorised call, approved executions, simulation and replay. Every call that
  changes the store is in it, in the order of the code. Each reading of the clock and each drawn
  identifier is taken from the world; the performance counter is read from the same clock.
\<close>

section \<open>The gateway\<close>

text \<open>The notifier's web client is a parameter: url, body and signature to success.\<close>

record notifier =
  nt_url :: "string option"
  nt_secret :: string
  nt_console :: string
  nt_post :: "string \<Rightarrow> string \<Rightarrow> string \<Rightarrow> bool"

record gateway =
  gw_policy :: policy
  gw_env :: deployment
  gw_provenance :: prov_service
  gw_registry :: registry
  gw_schemas :: schemas
  gw_mode :: enforcement_mode
  gw_notifier :: "notifier option"
  gw_durable :: bool
  gw_max_attempts :: int
  gw_watch :: "watch_service option"

definition notify :: "deployment \<Rightarrow> notifier \<Rightarrow> approval \<Rightarrow> string list \<Rightarrow> bool io" where
  "notify env nt a reasons = (case nt_url nt of
      None \<Rightarrow> ret False
    | Some url \<Rightarrow> if url = [] then ret False else
       (let payload = JDict
              [(''event'', JStr ''sentinelgate.approval.required''), (''approval_id'', JStr (av_id a)),
               (''tenant_id'', JStr (av_tenant a)), (''agent_id'', JStr (av_agent a)),
               (''tool_name'', JStr (tc_tool_name (av_request a))), (''trace_id'', JStr (tc_trace_id (av_request a))),
               (''reason_codes'', jstrs reasons), (''expires_at'', JStr (isoformat (av_expires a))),
               (''review_url'', JStr (nt_console nt @ ''/console/approvals'')),
               (''text'', JStr (''SentinelGate approval required: '' @ tc_tool_name (av_request a) @ '' for '' @ av_agent a
                  @ ''. Review: '' @ nt_console nt @ ''/console/approvals''))];
            body = canonical_json payload;
            signature = ''sha256='' @ hmac_hex (de_crypto env) (nt_secret nt) body
        in (\<lambda>w. (Inr (nt_post nt url body signature), w\<lparr>wo_posted := wo_posted w @ [(url, body, signature)]\<rparr>))))"

definition available_tools :: "gateway \<Rightarrow> agent_principal \<Rightarrow> json list" where
  "available_tools gw agent =
     map snd (filter (\<lambda>(name, d). case tool_config (gw_policy gw) name of
         None \<Rightarrow> False
       | Some cfg \<Rightarrow> pr_agent_id agent \<in> set (tl_allowed_agents cfg) \<and> set (tl_required_scopes cfg) \<subseteq> set (pr_scopes agent))
       (tool_definitions (gw_registry gw)))"

abbreviation gw_crypto :: "gateway \<Rightarrow> crypto" where
  "gw_crypto gw \<equiv> de_crypto (gw_env gw)"

abbreviation defaults :: "gateway \<Rightarrow> policy_defaults" where
  "defaults gw \<equiv> po_defaults (gw_policy gw)"

definition conclude :: "gateway \<Rightarrow> decision \<Rightarrow> string list \<Rightarrow> string \<Rightarrow> evaluation" where
  "conclude gw d reasons risk = mk_ev (gw_policy gw) d reasons risk"

section \<open>The provenance of a call\<close>

definition verify_tokens :: "gateway \<Rightarrow> string list \<Rightarrow> string \<Rightarrow> verified_provenance list io" where
  "verify_tokens gw tokens tenant =
     each (\<lambda>t. andthen tick (\<lambda>now. lift (verify_one (gw_crypto gw) (gw_provenance gw) now tenant t))) tokens"

definition other_trace :: "tool_call \<Rightarrow> verified_provenance \<Rightarrow> bool" where
  "other_trace call v \<longleftrightarrow> (case vp_trace_id v of None \<Rightarrow> False | Some t \<Rightarrow> t \<noteq> [] \<and> t \<noteq> tc_trace_id call)"

definition trace_context :: "tool_call \<Rightarrow> trace_overview \<Rightarrow> verified_provenance" where
  "trace_context call s =
     \<lparr>vp_source_id = ''trace:'' @ tc_trace_id call, vp_digest = ''trace-aggregate'', vp_trust = ts_trust s, vp_signals = [],
      vp_classification = ts_classification s, vp_labels = ts_labels s, vp_lineage_id = None,
      vp_trace_id = Some (tc_trace_id call), vp_parent_ids = [], vp_field_taint = []\<rparr>"

definition window_context :: "agent_principal \<Rightarrow> lineage_row list \<Rightarrow> verified_provenance" where
  "window_context agent rows =
     \<lparr>vp_source_id = ''agent-window:'' @ pr_agent_id agent, vp_digest = ''agent-window-aggregate'',
      vp_trust = least_trusted (map li_trust rows), vp_signals = [],
      vp_classification = highest_classification (map li_classification rows),
      vp_labels = sorted_set (concat (map li_labels rows)), vp_lineage_id = None, vp_trace_id = None,
      vp_parent_ids = [], vp_field_taint = []\<rparr>"

definition provenance_contexts :: "gateway \<Rightarrow> tool_call \<Rightarrow> agent_principal \<Rightarrow> verified_provenance list io" where
  "provenance_contexts gw call agent =
     andthen (verify_tokens gw (tc_provenance_tokens call) (pr_tenant_id agent)) (\<lambda>contexts.
     if list_ex (other_trace call) contexts then raise (TokenError ''Provenance trace mismatch'')
     else andthen (query (trace_summary (pr_tenant_id agent) (pr_agent_id agent) (tc_trace_id call))) (\<lambda>r.
       andthen (lift r) (\<lambda>summary.
       andthen tick (\<lambda>now.
       andthen (query (recent_agent_lineage now (pr_tenant_id agent) (pr_agent_id agent)
           (opt (df_cross_trace_window (defaults gw)) 900))) (\<lambda>recent.
         let others = filter (\<lambda>r. li_trace r \<noteq> tc_trace_id call) recent in
         ret (contexts @ (case summary of None \<Rightarrow> [] | Some s \<Rightarrow> [trace_context call s])
              @ (if others = [] then [] else [window_context agent others])))))))"

type_synonym cache = "(string, verified_provenance) dict"

definition cached_token :: "gateway \<Rightarrow> string \<Rightarrow> string \<Rightarrow> cache \<Rightarrow> (verified_provenance \<times> cache) io" where
  "cached_token gw token tenant cache = (case map_of cache token of
      Some v \<Rightarrow> ret (v, cache)
    | None \<Rightarrow> andthen tick (\<lambda>now. andthen (lift (verify_one (gw_crypto gw) (gw_provenance gw) now tenant token))
        (\<lambda>v. ret (v, AList.update token v cache))))"

definition bound_field :: "crypto \<Rightarrow> tool_call \<Rightarrow> json \<Rightarrow> string \<Rightarrow> verified_provenance \<Rightarrow> exc + field_taint" where
  "bound_field cr call v pointer source =
     (if other_trace call source then Inl (TokenError ''Field provenance trace mismatch'')
      else case map_of (vp_field_taint source) pointer of
        None \<Rightarrow> Inl (TokenError ''Signed source field does not exist'')
      | Some f \<Rightarrow> if ft_digest f \<noteq> value_digest cr v then Inl (TokenError ''Field provenance value mismatch'') else Inr f)"

fun bind_references :: "gateway \<Rightarrow> tool_call \<Rightarrow> string \<Rightarrow> json \<Rightarrow> field_reference list \<Rightarrow> cache \<Rightarrow> field_taint list \<Rightarrow>
    (cache \<times> field_taint list) io" where
  "bind_references gw call tenant v [] cache bound = ret (cache, bound)"
| "bind_references gw call tenant v (r # rs) cache bound =
     andthen (cached_token gw (fr_token r) tenant cache) (\<lambda>(source, cache').
     andthen (lift (bound_field (gw_crypto gw) call v (fr_pointer r) source)) (\<lambda>f.
     bind_references gw call tenant v rs cache' (bound @ [f])))"

definition destination_value :: "tool_call \<Rightarrow> string \<Rightarrow> exc + json" where
  "destination_value call pointer = (case resolve_pointer (JDict (tc_arguments call)) pointer of
      Inr v \<Rightarrow> Inr v | Inl e \<Rightarrow> Inl (TokenError ''Invalid field provenance binding''))"

fun bind_fields :: "gateway \<Rightarrow> tool_call \<Rightarrow> string \<Rightarrow> (string, field_reference list) dict \<Rightarrow> cache \<Rightarrow>
    (string, field_taint list) dict \<Rightarrow> (string, field_taint list) dict io" where
  "bind_fields gw call tenant [] cache result = ret result"
| "bind_fields gw call tenant ((destination, refs) # rest) cache result =
     (if length refs > 20 then raise (TokenError ''Too many provenance sources for field'')
      else andthen (lift (destination_value call destination)) (\<lambda>v.
        andthen (bind_references gw call tenant v refs cache []) (\<lambda>(cache', bound).
        bind_fields gw call tenant rest cache'
          (if bound = [] then result else AList.update destination (dget result destination [] @ bound) result))))"

definition field_contexts :: "gateway \<Rightarrow> tool_call \<Rightarrow> agent_principal \<Rightarrow> (string, field_taint list) dict io" where
  "field_contexts gw call agent =
     (if length (tc_field_provenance call) > 200 then raise (TokenError ''Too many field provenance bindings'')
      else bind_fields gw call (pr_tenant_id agent) (tc_field_provenance call) [] [])"

definition field_tokens :: "tool_call \<Rightarrow> string list" where
  "field_tokens call = sorted_set (concat (map (\<lambda>(p, refs). map fr_token refs) (tc_field_provenance call)))"

definition add_context :: "verified_provenance \<Rightarrow> verified_provenance list \<times> string list \<Rightarrow> verified_provenance list \<times> string list" where
  "add_context v acc = (case acc of (contexts, seen) \<Rightarrow>
     if vp_digest v \<in> set seen then (contexts, seen) else (contexts @ [v], vp_digest v # seen))"

definition all_contexts :: "gateway \<Rightarrow> tool_call \<Rightarrow> agent_principal \<Rightarrow> verified_provenance list io" where
  "all_contexts gw call agent =
     andthen (provenance_contexts gw call agent) (\<lambda>contexts.
     andthen (verify_tokens gw (field_tokens call) (pr_tenant_id agent)) (\<lambda>items.
     ret (fst (fold add_context items (contexts, map vp_digest contexts)))))"

section \<open>Tool definitions\<close>

definition integrity_reasons :: "observation_row \<Rightarrow> string list" where
  "integrity_reasons r = (''MCP_INTEGRITY:'' @ upper (ob_status r)) # map (\<lambda>f. ''MCP_FINDING:'' @ f) (ob_findings r)"

definition apply_mcp_integrity :: "gateway \<Rightarrow> tool_call \<Rightarrow> evaluation \<Rightarrow> evaluation io" where
  "apply_mcp_integrity gw call result =
     (if ev_decision result = DENY then ret result
      else let cfg = tool_config (gw_policy gw) (tc_tool_name call);
               expected = nonempty (Option.bind cfg tl_mcp_server_id);
               server = nonempty (tc_mcp_server_id call)
      in if expected \<noteq> None \<and> tc_mcp_server_id call \<noteq> expected then
           ret (conclude gw DENY [''MCP_SERVER_BINDING_REQUIRED''] ''critical'')
         else case server of
           None \<Rightarrow> ret result
         | Some s \<Rightarrow>
             andthen (query (get_mcp_tool_observation s (opt (Option.bind cfg tl_mcp_tool_name) (tc_tool_name call)))) (\<lambda>obs.
             case obs of
               None \<Rightarrow> ret (conclude gw DENY [''MCP_TOOL_NOT_INSPECTED''] ''critical'')
             | Some r \<Rightarrow> andthen tick (\<lambda>now.
                 if ob_observed r < now - seconds (opt (df_mcp_observation_ttl (defaults gw)) 3600) then
                   ret (conclude gw DENY [''MCP_TOOL_INSPECTION_STALE''] ''critical'')
                 else if ob_status r = ''blocked'' then ret (conclude gw DENY (integrity_reasons r) ''critical'')
                 else if ob_status r = ''review'' then
                   ret (conclude gw REQUIRE_APPROVAL (sorted_set (ev_reasons result @ integrity_reasons r)) ''high'')
                 else ret result)))"

section \<open>Recording a decision\<close>

text \<open>\<^verbatim>\<open>type(exc).__name__\<close>; a failed validation of a model is the library's \<^verbatim>\<open>ValidationError\<close>.\<close>

fun exc_name :: "exc \<Rightarrow> string" where
  "exc_name (TokenError m) = ''TokenError''"
| "exc_name (FieldTaintError m) = ''FieldTaintError''"
| "exc_name (ToolValidationError m) = ''ToolValidationError''"
| "exc_name (WatchTaskNotFound m) = ''WatchTaskNotFound''"
| "exc_name (ValueError m) = (if startswith m ''invalid '' then ''ValidationError'' else ''ValueError'')"
| "exc_name (KeyError m) = ''KeyError''"
| "exc_name (ToolExecutionError m) = ''ToolExecutionError''"
| "exc_name (StorageIntegrityError m) = ''StorageIntegrityError''"
| "exc_name (PolicyConfigurationError m) = ''PolicyConfigurationError''"
| "exc_name (AttributeError m) = ''AttributeError''"
| "exc_name (IntegrityError m) = ''IntegrityError''"
| "exc_name (TypeError m) = ''TypeError''"
| "exc_name (UpstreamMCPError m) = ''UpstreamMCPError''"
| "exc_name (RuntimeError m) = ''RuntimeError''"
| "exc_name (AdminIdentityError m) = ''AdminIdentityError''"
| "exc_name (HTTPException c m) = ''HTTPException''"

text \<open>The failure of an observation is recorded and does not reach the caller.\<close>

definition observed_safely :: "gateway \<Rightarrow> string \<Rightarrow> tool_call \<Rightarrow> agent_principal \<Rightarrow> (watch_service \<Rightarrow> watch_finding list io) \<Rightarrow> unit io" where
  "observed_safely gw event call agent observe = (case gw_watch gw of
      None \<Rightarrow> ret ()
    | Some wv \<Rightarrow> catching (andthen (observe wv) (\<lambda>_. ret ()))
        (\<lambda>e. andthen (audit (gw_env gw) event
            [(''request_id'', JStr (tc_request_id call)), (''tenant_id'', JStr (pr_tenant_id agent)),
             (''agent_id'', JStr (pr_agent_id agent)), (''error_type'', JStr (exc_name e))]) (\<lambda>_. ret ())))"

definition counts_as_violation :: "gateway \<Rightarrow> evaluation \<Rightarrow> bool" where
  "counts_as_violation gw result \<longleftrightarrow> gw_mode gw \<noteq> OBSERVE \<and> ev_decision result = DENY
     \<and> (ev_risk result = ''high'' \<or> ev_risk result = ''critical'')
     \<and> ''RATE_LIMIT_EXCEEDED'' \<notin> set (ev_reasons result) \<and> ''AGENT_QUARANTINED'' \<notin> set (ev_reasons result)"

definition punish :: "gateway \<Rightarrow> tool_call \<Rightarrow> agent_principal \<Rightarrow> evaluation \<Rightarrow> bool io" where
  "punish gw call agent result =
     (let window = opt (df_quarantine_window (defaults gw)) 300; threshold = opt (df_quarantine_threshold (defaults gw)) 5 in
      andthen tick (\<lambda>t1. andthen (db (record_violation t1 (pr_tenant_id agent) (pr_agent_id agent) (ev_risk result)
          (str_join '','' (ev_reasons result)) window)) (\<lambda>count.
      andthen tick (\<lambda>t2. andthen fresh_id (\<lambda>i. andthen (db_exc (upsert_incident t2 i (pr_tenant_id agent) (pr_agent_id agent)
          (tc_trace_id call) (ev_risk result)
          (''Blocked '' @ tc_tool_name call @ '': '' @ str_join '', '' (ev_reasons result)))) (\<lambda>_.
      if int count \<ge> threshold then
        andthen tick (\<lambda>t3. andthen tick (\<lambda>t4. andthen fresh_id (\<lambda>j. andthen (db (\<lambda>st. ((), quarantine t3 t4 j (pr_tenant_id agent) (pr_agent_id agent)
            (show_nat count @ '' high-risk denials in '' @ show_int window @ ''s'') st))) (\<lambda>_. ret True))))
      else ret False))))))"

definition decision_payload :: "tool_call \<Rightarrow> agent_principal \<Rightarrow> string \<Rightarrow> evaluation \<Rightarrow> security_finding list \<Rightarrow> string option \<Rightarrow>
    bool \<Rightarrow> (string, json) dict" where
  "decision_payload call agent digest result findings approval_id quarantined =
     [(''request'', redact (call_json call)), (''request_hash'', JStr digest), (''agent_id'', JStr (pr_agent_id agent)),
      (''tenant_id'', JStr (pr_tenant_id agent)), (''decision'', JStr (decision_value (ev_decision result))),
      (''reason_codes'', jstrs (ev_reasons result)), (''risk'', JStr (ev_risk result)),
      (''policy_version'', JStr (ev_version result)), (''security_findings'', JList (map finding_json findings)),
      (''approval_id'', jopt approval_id), (''quarantined'', JBool quarantined)]"

definition finalize :: "gateway \<Rightarrow> tool_call \<Rightarrow> agent_principal \<Rightarrow> string \<Rightarrow> evaluation \<Rightarrow> security_finding list \<Rightarrow>
    string option \<Rightarrow> bool \<Rightarrow> bool \<Rightarrow> policy_decision io" where
  "finalize gw call agent digest result findings approval_id quarantined side_effects =
     andthen
       (if side_effects then
          andthen tick (\<lambda>now. andthen (db (\<lambda>st. ((), record_action now (pr_tenant_id agent) (pr_agent_id agent) (tc_trace_id call)
              (tc_tool_name call) (opt (Option.bind (tool_config (gw_policy gw) (tc_tool_name call)) tl_category) ''other'')
              (decision_value (ev_decision result)) st))) (\<lambda>_.
          andthen (if counts_as_violation gw result then punish gw call agent result else ret False) (\<lambda>punished.
          andthen (audit (gw_env gw) ''policy_decision''
              (decision_payload call agent digest result findings approval_id (quarantined \<or> punished))) (\<lambda>i.
          ret (i, quarantined \<or> punished)))))
        else ret (''simulation'', quarantined))
       (\<lambda>(event_id, became).
        let d = \<lparr>pd_request_id = tc_request_id call, pd_request_hash = digest, pd_agent_id = pr_agent_id agent,
                 pd_tenant_id = pr_tenant_id agent, pd_decision = ev_decision result, pd_reasons = ev_reasons result,
                 pd_risk = ev_risk result, pd_policy_version = ev_version result, pd_findings = findings,
                 pd_approval_id = approval_id, pd_audit_event_id = event_id, pd_quarantined = became,
                 pd_mode = gw_mode gw, pd_enforced = (gw_mode gw \<noteq> OBSERVE)\<rparr>
        in andthen (if side_effects then observed_safely gw ''watch_observation_failed'' call agent
                       (\<lambda>wv. observe_gateway_call (gw_env gw) wv call agent d) else ret ())
             (\<lambda>_. ret d))"

end
