(* ===== verification/Gateway_Calls.thy ===== *)
theory Gateway_Calls
  imports Gateway
begin

text \<open>
  The operations of \<^verbatim>\<open>GatewayService\<close> on a call: evaluation, execution, execution after approval,
  and simulation.
\<close>

section \<open>Evaluation\<close>

definition vp_json :: "verified_provenance \<Rightarrow> json" where
  "vp_json v = JDict
     [(''source_id'', JStr (vp_source_id v)), (''content_digest'', JStr (vp_digest v)), (''trust'', JStr (trust_value (vp_trust v))),
      (''signals'', jstrs (vp_signals v)), (''classification'', JStr (classification_value (vp_classification v))),
      (''labels'', jstrs (vp_labels v)), (''lineage_id'', jopt (vp_lineage_id v)), (''trace_id'', jopt (vp_trace_id v)),
      (''parent_ids'', jstrs (vp_parent_ids v)), (''field_taint'', fields_json (vp_field_taint v))]"

definition snapshot_of :: "tool_call \<Rightarrow> agent_principal \<Rightarrow> verified_provenance list \<Rightarrow> (string, field_taint list) dict \<Rightarrow>
    security_finding list \<Rightarrow> decision \<Rightarrow> time \<Rightarrow> (string, json) dict" where
  "snapshot_of call agent contexts field_prov findings decision now =
     [(''tenant_id'', JStr (pr_tenant_id agent)), (''agent_id'', JStr (pr_agent_id agent)),
      (''scopes'', jstrs (sort (pr_scopes agent))),
      (''call'', call_json (call\<lparr>tc_provenance_tokens := [], tc_field_provenance := []\<rparr>)),
      (''provenance'', JList (map vp_json contexts)),
      (''field_provenance'', JDict (map (\<lambda>(p, items). (p, JList (map field_taint_json items))) field_prov)),
      (''findings'', JList (map finding_json findings)), (''original_decision'', JStr (decision_value decision)),
      (''created_at'', JStr (isoformat now))]"

text \<open>The containment and quarantine checks: the refusal, and whether it reports a quarantine.\<close>

definition containment_refusal :: "gateway \<Rightarrow> tool_call \<Rightarrow> containment_row option \<Rightarrow> (evaluation \<times> bool) option" where
  "containment_refusal gw call c = (case c of
      None \<Rightarrow> None
    | Some r \<Rightarrow>
        if co_mode r = QUARANTINE \<or> co_mode r = REVOKE then
          Some (conclude gw DENY [''AGENT_QUARANTINED'', ''CONTAINMENT:'' @ upper (containment_mode_value (co_mode r))] ''critical'', True)
        else if co_mode r = RESTRICT \<and> tc_tool_name call \<notin> set (co_allowed_tools r) then
          Some (conclude gw DENY [''CONTAINMENT:TOOL_RESTRICTED''] ''high'', False)
        else None)"

definition contained :: "gateway \<Rightarrow> tool_call \<Rightarrow> agent_principal \<Rightarrow> bool \<Rightarrow> (evaluation \<times> bool) option io" where
  "contained gw call agent side_effects =
     (if \<not> side_effects then ret None
      else andthen tick (\<lambda>t1. andthen (query (active_containment t1 (pr_tenant_id agent) (pr_agent_id agent))) (\<lambda>c.
        case containment_refusal gw call c of
          Some r \<Rightarrow> ret (Some r)
        | None \<Rightarrow> andthen tick (\<lambda>t2. andthen (query (is_quarantined t2 (pr_tenant_id agent) (pr_agent_id agent))) (\<lambda>q.
            ret (if q then Some (conclude gw DENY [''AGENT_QUARANTINED''] ''critical'', True) else None))))))"

definition admitted :: "gateway \<Rightarrow> agent_principal \<Rightarrow> bool \<Rightarrow> bool io" where
  "admitted gw agent operational = (if \<not> operational then ret True
     else andthen tick (\<lambda>now. db (rate_allowed now (pr_tenant_id agent) (pr_agent_id agent)
            (opt (df_requests_per_minute (defaults gw)) 60) 60)))"

text \<open>The arguments are validated when the call is not denied; only a validation error is caught.\<close>

definition validated_call :: "gateway \<Rightarrow> tool_call \<Rightarrow> evaluation \<Rightarrow> evaluation" where
  "validated_call gw call result = (if ev_decision result = DENY then result
     else case validate_arguments (gw_schemas gw) (gw_registry gw) (tc_tool_name call) (tc_arguments call) of
       Inr d \<Rightarrow> result
     | Inl e \<Rightarrow> conclude gw DENY [''INVALID_TOOL_ARGUMENTS''] ''high'')"

definition egress_size :: "tool_call \<Rightarrow> int" where
  "egress_size call = int (length (canonical_json (JDict (tc_arguments call))))"

definition is_egress :: "gateway \<Rightarrow> tool_call \<Rightarrow> bool" where
  "is_egress gw call \<longleftrightarrow> (case tool_config (gw_policy gw) (tc_tool_name call) of None \<Rightarrow> False | Some cfg \<Rightarrow> tl_egress cfg)"

definition hourly_budget :: "gateway \<Rightarrow> tool_call \<Rightarrow> int" where
  "hourly_budget gw call = opt (Option.bind (tool_config (gw_policy gw) (tc_tool_name call)) tl_hourly_egress_bytes)
     (opt (df_hourly_egress_bytes (defaults gw)) 1000000)"

definition single_budget :: "gateway \<Rightarrow> tool_call \<Rightarrow> int" where
  "single_budget gw call = opt (Option.bind (tool_config (gw_policy gw) (tc_tool_name call)) tl_max_egress_bytes)
     (opt (df_max_egress_bytes (defaults gw)) 100000)"

definition egress_checked :: "gateway \<Rightarrow> tool_call \<Rightarrow> agent_principal \<Rightarrow> bool \<Rightarrow> evaluation \<Rightarrow> evaluation io" where
  "egress_checked gw call agent operational result =
     (if \<not> (operational \<and> ev_decision result \<noteq> DENY \<and> is_egress gw call) then ret result
      else if egress_size call > single_budget gw call then
        ret (conclude gw DENY [''EGRESS_SINGLE_LIMIT_EXCEEDED''] ''critical'')
      else andthen tick (\<lambda>t1. andthen (query (egress_allowed t1 (pr_tenant_id agent) (pr_agent_id agent) (egress_size call) (hourly_budget gw call)))
        (\<lambda>allowed. if \<not> allowed then ret (conclude gw DENY [''EGRESS_HOURLY_BUDGET_EXCEEDED''] ''critical'')
          else andthen tick (\<lambda>t2. andthen (query (trace_has_category t2 (pr_tenant_id agent) (pr_agent_id agent) (tc_trace_id call)
              ''sensitive_read'' 900)) (\<lambda>suspicious.
            ret (if suspicious then conclude gw REQUIRE_APPROVAL
                    (sorted_set (ev_reasons result @ [''SUSPICIOUS_SEQUENCE:SENSITIVE_READ_TO_EGRESS''])) ''high''
                 else result))))))"

definition new_approval_record :: "string \<Rightarrow> time \<Rightarrow> tool_call \<Rightarrow> string \<Rightarrow> agent_principal \<Rightarrow> int \<Rightarrow> approval" where
  "new_approval_record i now call digest agent ttl =
     \<lparr>av_id = i, av_request = call, av_hash = digest, av_agent = pr_agent_id agent, av_tenant = pr_tenant_id agent,
      av_scopes = sort (pr_scopes agent), av_status = ''pending'', av_created = now, av_expires = now + seconds ttl,
      av_resolved = None, av_reviewer = None, av_note = []\<rparr>"

definition approval_notice :: "gateway \<Rightarrow> agent_principal \<Rightarrow> approval \<Rightarrow> evaluation \<Rightarrow> unit io" where
  "approval_notice gw agent a result =
     (if gw_durable gw then
        andthen fresh_id (\<lambda>j. andthen tick (\<lambda>now. andthen (db_exc (enqueue_outbox now j ''approval.required'' (av_id a)
            [(''approval_id'', JStr (av_id a)), (''reason_codes'', jstrs (ev_reasons result))] (gw_max_attempts gw))) (\<lambda>job.
          andthen (audit (gw_env gw) ''approval_notification_queued''
            [(''approval_id'', JStr (av_id a)), (''job_id'', JStr job), (''agent_id'', JStr (pr_agent_id agent)),
             (''tenant_id'', JStr (pr_tenant_id agent))]) (\<lambda>_. ret ()))))
      else case gw_notifier gw of
        None \<Rightarrow> ret ()
      | Some nt \<Rightarrow> if nt_url nt = None then ret ()
          else andthen (notify (gw_env gw) nt a (ev_reasons result)) (\<lambda>delivered.
            andthen (audit (gw_env gw) (if delivered then ''approval_notification_delivered'' else ''approval_notification_failed'')
              [(''approval_id'', JStr (av_id a)), (''agent_id'', JStr (pr_agent_id agent)), (''tenant_id'', JStr (pr_tenant_id agent))])
              (\<lambda>_. ret ())))"

definition approval_requested :: "gateway \<Rightarrow> tool_call \<Rightarrow> agent_principal \<Rightarrow> string \<Rightarrow> bool \<Rightarrow> evaluation \<Rightarrow> string option io" where
  "approval_requested gw call agent digest operational result =
     (if \<not> (ev_decision result = REQUIRE_APPROVAL \<and> operational) then ret None
      else let ttl = opt (df_approval_ttl (defaults gw)) 900 in
        andthen tick (\<lambda>now. andthen fresh_id (\<lambda>i. andthen fresh_nonce (\<lambda>nonce.
        andthen (db_exc (\<lambda>st. ebind (create_approval (gw_crypto gw) (de_data_key (gw_env gw)) nonce i now call digest agent ttl st)
           (\<lambda>st'. Inr ((), st')))) (\<lambda>_.
        andthen (approval_notice gw agent (new_approval_record i now call digest agent ttl) result) (\<lambda>_. ret (Some i)))))))"

definition snapshot_taken :: "gateway \<Rightarrow> tool_call \<Rightarrow> agent_principal \<Rightarrow> verified_provenance list \<Rightarrow> (string, field_taint list) dict \<Rightarrow>
    security_finding list \<Rightarrow> decision \<Rightarrow> unit io" where
  "snapshot_taken gw call agent contexts field_prov findings decision =
     andthen tick (\<lambda>now. andthen fresh_nonce (\<lambda>nonce. andthen fresh_id (\<lambda>i.
       db_exc (\<lambda>st. ebind (record_policy_snapshot (gw_crypto gw) (de_data_key (gw_env gw)) nonce i now
          (snapshot_of call agent contexts field_prov findings decision now) st) (\<lambda>st'. Inr ((), st'))))))"

text \<open>Both provenances of a call; a token error is a value here, every other exception passes.\<close>

definition both_contexts :: "gateway \<Rightarrow> tool_call \<Rightarrow> agent_principal \<Rightarrow>
    (verified_provenance list \<times> (string, field_taint list) dict) option io" where
  "both_contexts gw call agent =
     catching (andthen (provenance_contexts gw call agent) (\<lambda>contexts. andthen (field_contexts gw call agent) (\<lambda>fs.
         ret (Some (contexts, fs)))))
       (\<lambda>e. case e of TokenError m \<Rightarrow> ret None | _ \<Rightarrow> raise e)"

definition evaluate_policy :: "gateway \<Rightarrow> tool_call \<Rightarrow> agent_principal \<Rightarrow> string \<Rightarrow> bool \<Rightarrow> bool \<Rightarrow> security_finding list \<Rightarrow>
    verified_provenance list \<Rightarrow> (string, field_taint list) dict \<Rightarrow> policy_decision io" where
  "evaluate_policy gw call agent digest side_effects operational findings contexts field_prov =
     andthen (lift (evaluate (gw_policy gw) call agent contexts findings field_prov)) (\<lambda>r1.
     andthen (apply_mcp_integrity gw call r1) (\<lambda>r2.
     andthen (egress_checked gw call agent operational (validated_call gw call r2)) (\<lambda>result.
     andthen (approval_requested gw call agent digest operational result) (\<lambda>approval_id.
     andthen (if side_effects then snapshot_taken gw call agent contexts field_prov findings (ev_decision result) else ret ()) (\<lambda>_.
     finalize gw call agent digest result findings approval_id False side_effects)))))"

text \<open>A call that no containment refuses: the rate, the provenance, then the policy.\<close>

definition evaluate_uncontained :: "gateway \<Rightarrow> tool_call \<Rightarrow> agent_principal \<Rightarrow> string \<Rightarrow> bool \<Rightarrow> bool \<Rightarrow> security_finding list \<Rightarrow>
    policy_decision io" where
  "evaluate_uncontained gw call agent digest side_effects operational findings =
     andthen (admitted gw agent operational) (\<lambda>ok.
     if \<not> ok then finalize gw call agent digest (conclude gw DENY [''RATE_LIMIT_EXCEEDED''] ''high'') findings None False side_effects
     else andthen (both_contexts gw call agent) (\<lambda>ctx. case ctx of
         None \<Rightarrow> finalize gw call agent digest (conclude gw DENY [''INVALID_PROVENANCE''] ''critical'') findings None False side_effects
       | Some (contexts, field_prov) \<Rightarrow>
           evaluate_policy gw call agent digest side_effects operational findings contexts field_prov))"

definition evaluate_call :: "gateway \<Rightarrow> tool_call \<Rightarrow> agent_principal \<Rightarrow> bool \<Rightarrow> policy_decision io" where
  "evaluate_call gw call agent side_effects =
     (let digest = request_hash (gw_crypto gw) call agent;
          findings = scan_secrets (gw_crypto gw) (JDict (tc_arguments call)) ''$'';
          operational = (side_effects \<and> gw_mode gw \<noteq> OBSERVE)
      in andthen (contained gw call agent side_effects) (\<lambda>refusal. case refusal of
           Some (result, quarantined) \<Rightarrow> finalize gw call agent digest result findings None quarantined side_effects
         | None \<Rightarrow> evaluate_uncontained gw call agent digest side_effects operational findings))"

section \<open>Execution\<close>

definition result_of :: "tool_call \<Rightarrow> string \<Rightarrow> policy_decision option \<Rightarrow> execution_result" where
  "result_of call status d = \<lparr>xr_request_id = tc_request_id call, xr_status = status, xr_decision = d, xr_output = None,
     xr_approval_id = None, xr_token = None, xr_classification = None, xr_labels = [], xr_trace_id = None, xr_field_taint = []\<rparr>"

definition finish :: "tool_call \<Rightarrow> string \<Rightarrow> unit io" where
  "finish call status = andthen tick (\<lambda>now. db (\<lambda>st. ((), finish_execution now (tc_request_id call) status st)))"

definition milliseconds :: "time \<Rightarrow> time \<Rightarrow> rat" where
  "milliseconds started now = of_int (now - started) / 1000"

definition observe_result :: "gateway \<Rightarrow> tool_call \<Rightarrow> agent_principal \<Rightarrow> string \<Rightarrow> time \<Rightarrow> string option \<Rightarrow> unit io" where
  "observe_result gw call agent outcome started error_code =
     andthen tick (\<lambda>now. observed_safely gw ''watch_execution_observation_failed'' call agent
       (\<lambda>wv. observe_execution (gw_env gw) wv call agent outcome (milliseconds started now) error_code))"

definition output_lineage :: "tool_call \<Rightarrow> agent_principal \<Rightarrow> tool_result \<Rightarrow> verified_provenance list \<Rightarrow> attestation \<Rightarrow> time \<Rightarrow> lineage_row" where
  "output_lineage call agent result parents a now =
     \<lparr>li_id = at_lineage_id a, li_tenant = pr_tenant_id agent, li_agent = pr_agent_id agent, li_trace = tc_trace_id call,
      li_request = Some (tc_request_id call), li_parents = parent_lineage parents, li_source_type = ''tool_output'',
      li_source_id = (let s = str_join '','' (tr_sources result) in if s \<noteq> [] then s else ''tool:'' @ tc_tool_name call),
      li_destination = ''agent_context'', li_trust = at_trust a, li_classification = at_classification a,
      li_labels = at_labels a, li_digest = at_digest a, li_created = now, li_field_taint = at_field_taint a\<rparr>"

definition output_attested :: "gateway \<Rightarrow> tool_call \<Rightarrow> agent_principal \<Rightarrow> tool_result \<Rightarrow> (attestation \<times> verified_provenance list) io" where
  "output_attested gw call agent result =
     andthen (all_contexts gw call agent) (\<lambda>parents.
     andthen fresh_id (\<lambda>lineage_id. andthen fresh_id (\<lambda>jti. andthen tick (\<lambda>now.
     andthen (lift (derive_tool_output (gw_crypto gw) (gw_provenance gw) now lineage_id jti (pr_tenant_id agent)
       \<lparr>oq_trace_id = tc_trace_id call, oq_request_id = tc_request_id call, oq_tool_name = tc_tool_name call,
        oq_output = tr_output result, oq_trust = tr_trust result, oq_classification = tr_classification result,
        oq_labels = tr_labels result, oq_field_taint = None\<rparr> parents)) (\<lambda>a. ret (a, parents))))))"

definition tool_ran :: "gateway \<Rightarrow> tool_call \<Rightarrow> agent_principal \<Rightarrow> string \<Rightarrow> policy_decision option \<Rightarrow> time \<Rightarrow>
    tool_result \<Rightarrow> execution_result io" where
  "tool_ran gw call agent digest d started result =
     (let found = scan_secrets (gw_crypto gw) (tr_output result) ''$'' in
     if found \<noteq> [] then
       andthen (observe_result gw call agent ''output_blocked'' started (Some ''DLP_OUTPUT_BLOCKED'')) (\<lambda>_.
       andthen (finish call ''output_blocked'') (\<lambda>_.
       andthen (audit (gw_env gw) ''tool_output_blocked'' [(''request_id'', JStr (tc_request_id call)), (''request_hash'', JStr digest),
          (''findings'', JList (map finding_json found))]) (\<lambda>_.
       ret (result_of call ''output_blocked'' d))))
     else
       andthen (finish call ''succeeded'') (\<lambda>_.
       andthen (audit (gw_env gw) ''tool_executed'' [(''request_id'', JStr (tc_request_id call)), (''request_hash'', JStr digest),
          (''agent_id'', JStr (pr_agent_id agent)), (''tenant_id'', JStr (pr_tenant_id agent)),
          (''tool_name'', JStr (tc_tool_name call)), (''output'', redact (tr_output result))]) (\<lambda>_.
       andthen (output_attested gw call agent result) (\<lambda>(a, parents).
       andthen tick (\<lambda>now. andthen (db (\<lambda>st. ((), record_lineage (output_lineage call agent result parents a now) st))) (\<lambda>_.
       andthen (observe_result gw call agent ''succeeded'' started None) (\<lambda>_.
       ret ((result_of call ''succeeded'' d)\<lparr>xr_output := Some (tr_output result), xr_token := Some (at_token a),
          xr_classification := Some (at_classification a), xr_labels := at_labels a, xr_trace_id := Some (tc_trace_id call),
          xr_field_taint := at_field_taint a\<rparr>))))))))"

definition run_tool :: "gateway \<Rightarrow> tool_call \<Rightarrow> agent_principal \<Rightarrow> string \<Rightarrow> policy_decision option \<Rightarrow> time \<Rightarrow> execution_result io" where
  "run_tool gw call agent digest d started =
     andthen (execute_tool (gw_schemas gw) (gw_registry gw) (tc_tool_name call) (tc_arguments call))
       (tool_ran gw call agent digest d started)"

fun tool_failure :: "exc \<Rightarrow> string option" where
  "tool_failure (ToolExecutionError m) = Some m"
| "tool_failure (ToolValidationError m) = Some m"
| "tool_failure _ = None"

definition execution_failed :: "gateway \<Rightarrow> tool_call \<Rightarrow> agent_principal \<Rightarrow> string \<Rightarrow> policy_decision option \<Rightarrow> time \<Rightarrow> exc \<Rightarrow> execution_result io" where
  "execution_failed gw call agent digest d started e = (case tool_failure e of
      None \<Rightarrow> raise e
    | Some message \<Rightarrow>
        andthen (finish call ''failed'') (\<lambda>_.
        andthen (audit (gw_env gw) ''tool_execution_failed'' [(''request_id'', JStr (tc_request_id call)),
          (''request_hash'', JStr digest), (''error'', JStr message)]) (\<lambda>_.
        andthen (observe_result gw call agent ''failed'' started (Some (exc_name e))) (\<lambda>_.
        ret (result_of call ''failed'' d)))))"

definition replay_blocked :: "gateway \<Rightarrow> tool_call \<Rightarrow> string \<Rightarrow> policy_decision option \<Rightarrow> execution_result io" where
  "replay_blocked gw call digest d =
     andthen (audit (gw_env gw) ''execution_replay_blocked''
       [(''request_id'', JStr (tc_request_id call)), (''request_hash'', JStr digest)]) (\<lambda>_. ret (result_of call ''replay_blocked'' d))"

definition reserved_egress :: "gateway \<Rightarrow> tool_call \<Rightarrow> agent_principal \<Rightarrow> bool io" where
  "reserved_egress gw call agent = (if is_egress gw call
     then andthen tick (\<lambda>now. db (reserve_egress now (pr_tenant_id agent) (pr_agent_id agent) (egress_size call) (hourly_budget gw call)))
     else ret True)"

definition budget_exceeded :: "gateway \<Rightarrow> tool_call \<Rightarrow> agent_principal \<Rightarrow> policy_decision option \<Rightarrow> execution_result io" where
  "budget_exceeded gw call agent d =
     andthen (finish call ''egress_budget_exceeded'') (\<lambda>_.
     andthen (audit (gw_env gw) ''execution_egress_budget_blocked''
       [(''request_id'', JStr (tc_request_id call)), (''agent_id'', JStr (pr_agent_id agent)),
        (''tenant_id'', JStr (pr_tenant_id agent)), (''bytes'', JInt (egress_size call))]) (\<lambda>_.
     ret (result_of call ''egress_budget_exceeded'' d)))"

definition attempt :: "gateway \<Rightarrow> tool_call \<Rightarrow> agent_principal \<Rightarrow> string \<Rightarrow> policy_decision option \<Rightarrow> time \<Rightarrow> execution_result io" where
  "attempt gw call agent digest d started =
     catching (run_tool gw call agent digest d started) (execution_failed gw call agent digest d started)"

definition execute_claimed :: "gateway \<Rightarrow> tool_call \<Rightarrow> agent_principal \<Rightarrow> string \<Rightarrow> policy_decision option \<Rightarrow> execution_result io" where
  "execute_claimed gw call agent digest d =
     andthen (reserved_egress gw call agent) (\<lambda>reserved.
       if \<not> reserved then budget_exceeded gw call agent d else andthen tick (attempt gw call agent digest d))"

definition execute_authorized :: "gateway \<Rightarrow> tool_call \<Rightarrow> agent_principal \<Rightarrow> string \<Rightarrow> policy_decision option \<Rightarrow> execution_result io" where
  "execute_authorized gw call agent digest d =
     andthen tick (\<lambda>now. andthen (db (claim_execution now (tc_request_id call) digest)) (\<lambda>claimed.
       if \<not> claimed then replay_blocked gw call digest d else execute_claimed gw call agent digest d))"

definition execute_call :: "gateway \<Rightarrow> tool_call \<Rightarrow> agent_principal \<Rightarrow> execution_result io" where
  "execute_call gw call agent =
     andthen (evaluate_call gw call agent True) (\<lambda>d.
     if gw_mode gw = OBSERVE then
       ret ((result_of call ''observed_not_executed'' (Some d))\<lparr>xr_trace_id := Some (tc_trace_id call)\<rparr>)
     else case pd_decision d of
       DENY \<Rightarrow> ret (result_of call (if gw_mode gw = WARN then ''warning_blocked'' else ''denied'') (Some d))
     | REQUIRE_APPROVAL \<Rightarrow> ret ((result_of call ''pending_approval'' (Some d))\<lparr>xr_approval_id := pd_approval_id d\<rparr>)
     | ALLOW \<Rightarrow> execute_authorized gw call agent (pd_request_hash d) (Some d))"

section \<open>Execution after approval\<close>

definition approved_principal :: "approval \<Rightarrow> agent_principal" where
  "approved_principal a = \<lparr>pr_agent_id = av_agent a, pr_tenant_id = av_tenant a, pr_scopes = av_scopes a,
     pr_token_id = ''approval:'' @ av_id a, pr_expires_at = av_expires a\<rparr>"

definition integrity_failure :: "gateway \<Rightarrow> string \<Rightarrow> execution_result option io" where
  "integrity_failure gw i = andthen (audit (gw_env gw) ''approval_integrity_failure'' [(''approval_id'', JStr i)]) (\<lambda>_. ret None)"

definition read_approval :: "gateway \<Rightarrow> string \<Rightarrow> (approval option) option io" where
  "read_approval gw i =
     catching (andthen (query (get_approval (gw_crypto gw) (de_data_key (gw_env gw)) i)) (\<lambda>r. andthen (lift r) (\<lambda>a. ret (Some a))))
       (\<lambda>e. case e of StorageIntegrityError m \<Rightarrow> ret None | _ \<Rightarrow> raise e)"

definition current_policy :: "gateway \<Rightarrow> approval \<Rightarrow> verified_provenance list \<Rightarrow> (string, field_taint list) dict \<Rightarrow> execution_result option io" where
  "current_policy gw a contexts field_prov =
     (let call = av_request a; agent = approved_principal a;
          findings = scan_secrets (gw_crypto gw) (JDict (tc_arguments call)) ''$'' in
      andthen (lift (evaluate (gw_policy gw) call agent contexts findings field_prov)) (\<lambda>r1.
      andthen (apply_mcp_integrity gw call r1) (\<lambda>current.
      if ev_decision current = DENY then
        andthen (audit (gw_env gw) ''approved_execution_blocked_by_current_policy''
          [(''approval_id'', JStr (av_id a)), (''reasons'', jstrs (ev_reasons current))]) (\<lambda>_.
        ret (Some (result_of call ''blocked_by_current_policy'' None)))
      else andthen tick (\<lambda>now. andthen (db (consume_approval now (av_id a))) (\<lambda>consumed.
        if \<not> consumed then ret None
        else andthen (execute_authorized gw call agent (av_hash a) None) (\<lambda>r. ret (Some r)))))))"

definition execute_approved :: "gateway \<Rightarrow> string \<Rightarrow> execution_result option io" where
  "execute_approved gw i =
     andthen (read_approval gw i) (\<lambda>read. case read of
       None \<Rightarrow> integrity_failure gw i
     | Some None \<Rightarrow> ret None
     | Some (Some a) \<Rightarrow>
         if av_status a \<noteq> ''approved'' then ret None
         else andthen tick (\<lambda>t1. if av_expires a \<le> t1 then ret None
         else if request_hash (gw_crypto gw) (av_request a) (approved_principal a) \<noteq> av_hash a then integrity_failure gw (av_id a)
         else andthen tick (\<lambda>t2. andthen (query (is_quarantined t2 (av_tenant a) (av_agent a))) (\<lambda>q.
           if q then ret (Some (result_of (av_request a) ''agent_quarantined'' None))
           else andthen (both_contexts gw (av_request a) (approved_principal a)) (\<lambda>ctx. case ctx of
               None \<Rightarrow> ret (Some (result_of (av_request a) ''provenance_expired_or_invalid'' None))
             | Some (contexts, field_prov) \<Rightarrow> current_policy gw a contexts field_prov)))))"

section \<open>Simulation\<close>

record simulation_request =
  sq_agent_id :: string
  sq_tenant_id :: string
  sq_scopes :: "string list"
  sq_calls :: "tool_call list"

definition simulate :: "gateway \<Rightarrow> simulation_request \<Rightarrow> policy_decision list io" where
  "simulate gw r = andthen tick (\<lambda>now.
     each (\<lambda>call. evaluate_call gw call \<lparr>pr_agent_id = sq_agent_id r, pr_tenant_id = sq_tenant_id r, pr_scopes = sq_scopes r,
       pr_token_id = ''simulation'', pr_expires_at = now + seconds 3600\<rparr> False) (sq_calls r))"

end
