(* ===== verification/Replay.thy ===== *)
theory Replay
  imports Gateway_Calls
begin

text \<open>
  \<^verbatim>\<open>GatewayService.replay_policy\<close>: the stored policy snapshots, read back and decided again by the
  current engine or by the engine of another policy. Every reader fails the way the code does: a
  missing key is a \<^verbatim>\<open>KeyError\<close>, a value that no model accepts a validation error.
\<close>

section \<open>Reading a snapshot\<close>

definition vp_ok :: "verified_provenance \<Rightarrow> bool" where
  "vp_ok v \<longleftrightarrow> record_ok (vp_labels v) (vp_trace_id v) (vp_field_taint v)"

definition vp_of_json :: "json \<Rightarrow> verified_provenance option" where
  "vp_of_json j = (case as_dict j of None \<Rightarrow> None | Some d \<Rightarrow>
     (case (Option.bind (map_of d ''source_id'') as_str, Option.bind (map_of d ''content_digest'') as_str,
            Option.bind (Option.bind (map_of d ''trust'') as_str) trust_of, Option.bind (map_of d ''signals'') as_strs,
            Option.bind (as_str (dget d ''classification'' (JStr ''public''))) classification_of,
            as_strs (dget d ''labels'' (JList [])), as_opt_str (dget d ''lineage_id'' JNull),
            as_opt_str (dget d ''trace_id'' JNull), as_strs (dget d ''parent_ids'' (JList [])),
            Option.bind (as_dict (dget d ''field_taint'' (JDict []))) fields_of_items) of
        (Some s, Some g, Some t, Some sg, Some c, Some ls, Some li, Some tr, Some ps, Some fs) \<Rightarrow>
          (let v = \<lparr>vp_source_id = s, vp_digest = g, vp_trust = t, vp_signals = sg, vp_classification = c, vp_labels = ls,
                    vp_lineage_id = li, vp_trace_id = tr, vp_parent_ids = ps, vp_field_taint = fs\<rparr>
           in if vp_ok v then Some v else None)
      | _ \<Rightarrow> None))"

definition finding_of_json :: "json \<Rightarrow> security_finding option" where
  "finding_of_json j = (case as_dict j of None \<Rightarrow> None | Some d \<Rightarrow>
     (case (Option.bind (map_of d ''code'') as_str, Option.bind (map_of d ''severity'') as_str,
            Option.bind (map_of d ''path'') as_str, Option.bind (map_of d ''fingerprint'') as_str) of
        (Some c, Some s, Some p, Some f) \<Rightarrow> Some \<lparr>sf_code = c, sf_severity = s, sf_path = p, sf_fingerprint = f\<rparr>
      | _ \<Rightarrow> None))"

definition model_of :: "string \<Rightarrow> ('a \<Rightarrow> 'b option) \<Rightarrow> 'a \<Rightarrow> exc + 'b" where
  "model_of name f j = (case f j of Some x \<Rightarrow> Inr x | None \<Rightarrow> Inl (ValueError (''invalid '' @ name)))"

definition at_key :: "(string, json) dict \<Rightarrow> string \<Rightarrow> exc + json" where
  "at_key d k = (case map_of d k of Some v \<Rightarrow> Inr v | None \<Rightarrow> Inl (KeyError k))"

fun items_of :: "json \<Rightarrow> exc + json list" where
  "items_of (JList xs) = Inr xs"
| "items_of (JStr s) = Inr (map (\<lambda>c. JStr [c]) s)"
| "items_of (JDict kvs) = Inr (map (JStr \<circ> fst) kvs)"
| "items_of _ = Inl (TypeError ''not iterable'')"

text \<open>The items of a mapping; anything else has no \<^verbatim>\<open>items\<close>.\<close>

fun entries_of :: "json \<Rightarrow> exc + (string, json) dict" where
  "entries_of (JDict kvs) = Inr kvs"
| "entries_of _ = Inl (AttributeError ''items'')"

definition read_principal :: "(string, json) dict \<Rightarrow> time \<Rightarrow> exc + agent_principal" where
  "read_principal s now =
     ebind (at_key s ''agent_id'') (\<lambda>a. ebind (at_key s ''tenant_id'') (\<lambda>t. ebind (at_key s ''scopes'') (\<lambda>sc.
     ebind (items_of sc) (\<lambda>items.
       case (as_str a, as_str t, collect as_str items) of
         (Some agent, Some tenant, Some scopes) \<Rightarrow>
           Inr \<lparr>pr_agent_id = agent, pr_tenant_id = tenant, pr_scopes = scopes, pr_token_id = ''policy-replay'',
                pr_expires_at = now + seconds 300\<rparr>
       | _ \<Rightarrow> Inl (ValueError ''invalid AgentPrincipal'')))))"

definition read_fields :: "(string, json) dict \<Rightarrow> exc + (string, field_taint list) dict" where
  "read_fields s = ebind (entries_of (dget s ''field_provenance'' (JDict [])))
     (traverse (\<lambda>(p, v). ebind (items_of v) (\<lambda>items.
        ebind (traverse (model_of ''FieldTaint'' field_taint_of_json) items) (\<lambda>fs. Inr (p, fs)))))"

section \<open>Replaying\<close>

record replay_decision =
  ry_request_id :: string
  ry_trace_id :: string
  ry_tool :: string
  ry_original :: decision
  ry_replayed :: decision
  ry_changed :: bool
  ry_reasons :: "string list"

record replay_result =
  rr_policy_version :: string
  rr_evaluated :: nat
  rr_changed :: nat
  rr_allow :: nat
  rr_deny :: nat
  rr_require_approval :: nat
  rr_decisions :: "replay_decision list"

definition replay_one :: "policy \<Rightarrow> time \<Rightarrow> json \<Rightarrow> exc + replay_decision" where
  "replay_one engine now snapshot = (case snapshot of JDict s \<Rightarrow>
     ebind (ebind (at_key s ''call'') (model_of ''ToolCallRequest'' call_of_json)) (\<lambda>call.
     ebind (read_principal s now) (\<lambda>agent.
     ebind (ebind (ebind (at_key s ''provenance'') items_of) (traverse (model_of ''VerifiedProvenance'' vp_of_json))) (\<lambda>provenance.
     ebind (ebind (ebind (at_key s ''findings'') items_of) (traverse (model_of ''SecurityFinding'' finding_of_json))) (\<lambda>findings.
     ebind (read_fields s) (\<lambda>field_prov.
     ebind (evaluate engine call agent provenance findings field_prov) (\<lambda>outcome.
     ebind (ebind (at_key s ''original_decision'') (model_of ''Decision'' (\<lambda>v. Option.bind (as_str v) decision_of))) (\<lambda>original.
       Inr \<lparr>ry_request_id = tc_request_id call, ry_trace_id = tc_trace_id call, ry_tool = tc_tool_name call,
            ry_original = original, ry_replayed = ev_decision outcome, ry_changed = (ev_decision outcome \<noteq> original),
            ry_reasons = ev_reasons outcome\<rparr>)))))))
   | _ \<Rightarrow> Inl (TypeError ''snapshot''))"

definition replayed_as :: "decision \<Rightarrow> replay_decision list \<Rightarrow> nat" where
  "replayed_as d rs = length (filter (\<lambda>r. ry_replayed r = d) rs)"

definition replay_result_of :: "policy \<Rightarrow> replay_decision list \<Rightarrow> replay_result" where
  "replay_result_of engine rs =
     \<lparr>rr_policy_version = po_version engine, rr_evaluated = length rs, rr_changed = length (filter ry_changed rs),
      rr_allow = replayed_as ALLOW rs, rr_deny = replayed_as DENY rs,
      rr_require_approval = replayed_as REQUIRE_APPROVAL rs, rr_decisions = rs\<rparr>"

text \<open>The engine of another policy starts without runtime tools.\<close>

definition replay_engine :: "gateway \<Rightarrow> policy option \<Rightarrow> exc + policy" where
  "replay_engine gw other = (case other of None \<Rightarrow> Inr (gw_policy gw)
     | Some p \<Rightarrow> ebind (validate_policy p) (\<lambda>_. Inr (p\<lparr>po_runtime := []\<rparr>)))"

definition replay_policy :: "gateway \<Rightarrow> policy option \<Rightarrow> nat \<Rightarrow> replay_result io" where
  "replay_policy gw other limit =
     andthen (lift (replay_engine gw other)) (\<lambda>engine.
     andthen (query (list_policy_snapshots (gw_crypto gw) (de_data_key (gw_env gw)) limit)) (\<lambda>r.
     andthen (lift r) (\<lambda>snapshots.
     andthen (each (\<lambda>s. andthen tick (\<lambda>now. lift (replay_one engine now s))) snapshots) (\<lambda>rs.
     ret (replay_result_of engine rs)))))"

section \<open>Round trips\<close>

text \<open>Every value a verified provenance holds was validated when it was made.\<close>

definition vp_valid :: "verified_provenance \<Rightarrow> bool" where
  "vp_valid v \<longleftrightarrow> vp_ok v \<and> list_all (\<lambda>(p, f). field_taint_ok f) (vp_field_taint v)"

lemma vp_roundtrip: "vp_valid v \<Longrightarrow> vp_of_json (vp_json v) = Some v"
proof -
  assume v: "vp_valid v"
  have fs: "fields_of_items (map (\<lambda>(p, f). (p, field_taint_json f)) (vp_field_taint v)) = Some (vp_field_taint v)"
    "as_dict (fields_json (vp_field_taint v)) = Some (map (\<lambda>(p, f). (p, field_taint_json f)) (vp_field_taint v))"
    using fields_roundtrip [of "vp_field_taint v"] v by (auto simp: vp_valid_def list_all_iff)
  show ?thesis using v by (simp add: vp_of_json_def vp_json_def dget_def Let_def fs vp_valid_def vp_ok_def)
qed

lemma finding_roundtrip: "finding_of_json (finding_json f) = Some f"
  by (simp add: finding_of_json_def finding_json_def)

lemma traverse_model: "(\<And>x. x \<in> set xs \<Longrightarrow> f (g x) = Some x) \<Longrightarrow> traverse (model_of n f) (map g xs) = Inr xs"
  by (induction xs) (auto simp: model_of_def)

lemma fields_read:
  assumes "\<And>p fs f. (p, fs) \<in> set d \<Longrightarrow> f \<in> set fs \<Longrightarrow> field_taint_ok f"
    and "map_of s ''field_provenance'' = Some (JDict (map (\<lambda>(p, items). (p, JList (map field_taint_json items))) d))"
  shows "read_fields s = Inr d"
proof -
  have "traverse (\<lambda>(p, v). ebind (items_of v) (\<lambda>items. ebind (traverse (model_of ''FieldTaint'' field_taint_of_json) items)
      (\<lambda>fs. Inr (p, fs)))) (map (\<lambda>(p, items). (p, JList (map field_taint_json items))) d) = Inr d"
    using assms(1)
  proof (induction d)
    case (Cons e d)
    obtain p fs where e: "e = (p, fs)" by force
    have "traverse (model_of ''FieldTaint'' field_taint_of_json) (map field_taint_json fs) = Inr fs"
      by (rule traverse_model) (use Cons.prems e in \<open>auto intro: field_taint_roundtrip\<close>)
    moreover have "traverse (\<lambda>(p, v). ebind (items_of v) (\<lambda>items. ebind (traverse (model_of ''FieldTaint'' field_taint_of_json) items)
      (\<lambda>fs. Inr (p, fs)))) (map (\<lambda>(p, items). (p, JList (map field_taint_json items))) d) = Inr d"
      by (rule Cons.IH) (use Cons.prems in auto)
    ultimately show ?case by (simp add: e)
  qed simp
  then show ?thesis by (simp add: read_fields_def dget_def assms(2))
qed

text \<open>The decision depends on the agent's name and scopes and on the call's tool and arguments only.\<close>

lemma evaluate_cong:
  assumes "tc_tool_name c = tc_tool_name call" "tc_arguments c = tc_arguments call"
    and "pr_agent_id b = pr_agent_id agent" "set (pr_scopes b) = set (pr_scopes agent)"
  shows "evaluate p c b = evaluate p call agent"
  by (intro ext) (simp only: evaluate_def assms)

lemma call_cleared_ok: "tool_call_ok c \<Longrightarrow> tool_call_ok (c\<lparr>tc_provenance_tokens := [], tc_field_provenance := []\<rparr>)"
  by (simp add: tool_call_ok_def)

definition replayed :: "tool_call \<Rightarrow> decision \<Rightarrow> evaluation \<Rightarrow> replay_decision" where
  "replayed call original outcome =
     \<lparr>ry_request_id = tc_request_id call, ry_trace_id = tc_trace_id call, ry_tool = tc_tool_name call, ry_original = original,
      ry_replayed = ev_decision outcome, ry_changed = (ev_decision outcome \<noteq> original), ry_reasons = ev_reasons outcome\<rparr>"

section \<open>Properties\<close>

text \<open>
  C31. Replaying a decision's snapshot puts the same question to the engine again: for the snapshot a
  gateway takes of a call, the replay reads back the call, the agent, the provenance, the findings
  and the field bindings, and reports what the engine decides on exactly the original input (without
  the tokens), or fails as the engine fails; it marks a change when the decision differs from the
  recorded one.
\<close>

theorem replay_asks_the_same:
  assumes "tool_call_ok call" and "list_all vp_valid contexts"
    and "list_all (\<lambda>(p, fs). list_all field_taint_ok fs) field_prov"
  shows "replay_one engine now (JDict (snapshot_of call agent contexts field_prov findings original taken)) =
    (case evaluate engine call agent contexts findings field_prov of
       Inl e \<Rightarrow> Inl e | Inr outcome \<Rightarrow> Inr (replayed call original outcome))"
proof -
  let ?s = "snapshot_of call agent contexts field_prov findings original taken"
  let ?c = "call\<lparr>tc_provenance_tokens := [], tc_field_provenance := []\<rparr>"
  let ?a = "\<lparr>pr_agent_id = pr_agent_id agent, pr_tenant_id = pr_tenant_id agent, pr_scopes = sort (pr_scopes agent),
     pr_token_id = ''policy-replay'', pr_expires_at = now + seconds 300\<rparr>"
  have call: "call_of_json (call_json ?c) = Some ?c" using assms(1) by (intro call_roundtrip call_cleared_ok)
  have scopes: "collect as_str (map JStr ss) = Some ss" for ss by simp
  have agent: "read_principal ?s now = Inr ?a"
    by (simp add: read_principal_def at_key_def snapshot_of_def jstrs_def)
  have fields: "read_fields ?s = Inr field_prov"
    by (rule fields_read) (use assms(3) in \<open>auto simp: list_all_iff snapshot_of_def\<close>)
  have contexts: "traverse (model_of ''VerifiedProvenance'' vp_of_json) (map vp_json contexts) = Inr contexts"
    by (rule traverse_model) (use assms(2) in \<open>auto simp: list_all_iff intro: vp_roundtrip\<close>)
  have findings: "traverse (model_of ''SecurityFinding'' finding_of_json) (map finding_json findings) = Inr findings"
    by (rule traverse_model) (rule finding_roundtrip)
  have keys: "at_key ?s ''call'' = Inr (call_json ?c)" "at_key ?s ''provenance'' = Inr (JList (map vp_json contexts))"
    "at_key ?s ''findings'' = Inr (JList (map finding_json findings))"
    "at_key ?s ''original_decision'' = Inr (JStr (decision_value original))"
    by (simp_all add: at_key_def snapshot_of_def)
  have ev: "evaluate engine ?c ?a = evaluate engine call agent" by (rule evaluate_cong) simp_all
  show ?thesis
    unfolding replay_one_def
    by (simp add: keys agent fields contexts findings call ev model_of_def [of "''ToolCallRequest''"]
        model_of_def [of "''Decision''"] replayed_def split: sum.split)
qed

definition demo_context :: verified_provenance where
  "demo_context = (demo_source UNTRUSTED INTERNAL)\<lparr>vp_labels := [''customer''], vp_trace_id := Some ''t1''\<rparr>"

theorem replay_asks_the_same_witness:
  "replay_one demo_policy 9 (JDict (snapshot_of (demo_call ''mail'') demo_agent [demo_context] [] [] ALLOW 0)) =
     (case evaluate demo_policy (demo_call ''mail'') demo_agent [demo_context] [] [] of
        Inl e \<Rightarrow> Inl e | Inr outcome \<Rightarrow> Inr (replayed (demo_call ''mail'') ALLOW outcome))"
proof (rule replay_asks_the_same)
  show "tool_call_ok (demo_call ''mail'')" by code_simp
  show "list_all vp_valid [demo_context]" by code_simp
qed simp

end
