(* ===== verification/Gateway_Steps.thy ===== *)
theory Gateway_Steps
  imports Replay
begin

text \<open>
  What the gateway does to the store, as a step relation: each of its transactions is a step, and
  every operation of the gateway is proved to be a sequence of steps, whether it returns or raises.
  A fact about the store that each step keeps is then a fact about every run of the gateway. The
  locale \<open>gateway_relation\<close> holds the one proof per operation; it is interpreted for the steps with
  and without the invocation of a tool, and \<open>preserving\<close> for the operations that have no effect.
\<close>

section \<open>Steps\<close>

inductive gateway_step :: "deployment \<Rightarrow> store \<Rightarrow> store \<Rightarrow> bool" for env where
  Audited: "gateway_step env st (append_audit (de_crypto env) (de_audit_key env) now i ty payload st)"
| Watched: "create_watch_task now agent q st = Inr (t, st') \<Longrightarrow> gateway_step env st st'"
| Observed: "record_watch_event now i agent e st = Inr (v, st') \<Longrightarrow> gateway_step env st st'"
| Alarmed: "upsert_watch_finding now f st = Inr (g, st') \<Longrightarrow> gateway_step env st st'"
| Rated: "gateway_step env st (snd (rate_allowed now tenant a limit window st))"
| Reserved: "gateway_step env st (snd (reserve_egress now tenant a amount limit st))"
| Acted: "gateway_step env st (record_action now tenant a trace tool category d st)"
| Violated: "gateway_step env st (snd (record_violation now tenant a severity reason window st))"
| Reported: "upsert_incident now i tenant a trace severity summary st = Inr (j, st') \<Longrightarrow> gateway_step env st st'"
| Quarantined: "gateway_step env st (quarantine now again i tenant a reason st)"
| Requested: "create_approval cr key nonce i now call digest agent ttl st = Inr st' \<Longrightarrow> gateway_step env st st'"
| Queued: "enqueue_outbox now i kind dedup payload m st = Inr (j, st') \<Longrightarrow> gateway_step env st st'"
| Snapped: "record_policy_snapshot cr key nonce i now snapshot st = Inr st' \<Longrightarrow> gateway_step env st st'"
| Claimed: "gateway_step env st (snd (claim_execution now request digest st))"
| Finished: "gateway_step env st (finish_execution now request status st)"
| Derived: "gateway_step env st (record_lineage row st)"
| Consumed: "gateway_step env st (snd (consume_approval now i st))"

inductive_cases gateway_stepE: "gateway_step env st st'"

section \<open>Every operation is a sequence of steps\<close>

locale gateway_relation = preserving +
  fixes env :: deployment
  assumes step: "gateway_step env (wo_store w) st \<Longrightarrow> rel w (w\<lparr>wo_store := st\<rparr>)"
    and posted: "rel w (w\<lparr>wo_posted := wo_posted w @ ps\<rparr>)"
begin

lemma step_db: "(\<And>st. gateway_step env st (snd (t st))) \<Longrightarrow> keeps (db t)"
  by (rule keeps_db) (simp add: step)

lemma step_db_unit: "(\<And>st. gateway_step env st (t st)) \<Longrightarrow> keeps (db (\<lambda>st. (u, t st)))"
  by (rule step_db) simp

lemma step_db_exc: "(\<And>st x st'. t st = Inr (x, st') \<Longrightarrow> gateway_step env st st') \<Longrightarrow> keeps (db_exc t)"
  by (rule keeps_db_exc) (simp add: step)

lemma step_db_new: "(\<And>st st'. t st = Inr st' \<Longrightarrow> gateway_step env st st') \<Longrightarrow> keeps (db_exc (\<lambda>st. ebind (t st) (\<lambda>st'. Inr (u, st'))))"
  by (rule step_db_exc) (auto simp: ebind_Inr_iff)

lemma keeps_record: "keeps (audit env ty payload)"
  by (rule keeps_audit) (simp add: step Audited)

lemma keeps_prod: "(\<And>a b. keeps (f a b)) \<Longrightarrow> keeps (case p of (a, b) \<Rightarrow> f a b)"
  by (simp split: prod.split)

lemma keeps_post: "keeps (\<lambda>w. (r w, w\<lparr>wo_posted := wo_posted w @ ps\<rparr>))"
  by (simp add: keeps_def posted)

lemmas transactions =
  step_db [OF Rated] step_db [OF Reserved] step_db_unit [OF Acted] step_db [OF Violated] step_db_exc [OF Reported]
  step_db_unit [OF Quarantined] step_db_new [OF Requested] step_db_exc [OF Queued] step_db_new [OF Snapped]
  step_db [OF Claimed] step_db_unit [OF Finished] step_db_unit [OF Derived] step_db [OF Consumed] keeps_record

lemmas quiet_steps = keeps_ret keeps_raise keeps_lift keeps_query keeps_tick keeps_fresh_id keeps_fresh_nonce

end

sublocale gateway_relation \<subseteq> watch: watch_relation rel env
  by unfold_locales (rule step_db_exc, erule Watched, rule step_db_exc, erule Observed, rule step_db_exc, erule Alarmed,
    rule keeps_record)

context gateway_relation
begin

lemmas run_rules = keeps_andthen keeps_if keeps_option keeps_prod transactions quiet_steps

lemma keeps_verify_tokens: "keeps (verify_tokens gw tokens tenant)"
  unfolding verify_tokens_def by (intro keeps_each run_rules)

lemma keeps_provenance: "keeps (provenance_contexts gw call agent)"
  unfolding provenance_contexts_def Let_def by (intro run_rules keeps_verify_tokens)

lemma keeps_cached_token: "keeps (cached_token gw token tenant cache)"
  unfolding cached_token_def by (intro run_rules)

lemma keeps_bind_references: "keeps (bind_references gw call tenant v refs cache bound)"
  by (induction refs arbitrary: cache bound) (auto intro!: keeps_andthen keeps_cached_token keeps_prod)

lemma keeps_bind_fields: "keeps (bind_fields gw call tenant d cache result)"
proof (induction d arbitrary: cache result)
  case (Cons e d)
  obtain p refs where "e = (p, refs)" by force
  then show ?case by (simp add: keeps_andthen keeps_bind_references keeps_prod Cons split: prod.split)
qed simp

lemma keeps_fields: "keeps (field_contexts gw call agent)"
  unfolding field_contexts_def by (intro run_rules keeps_bind_fields)

lemma keeps_both: "keeps (both_contexts gw call agent)"
  unfolding both_contexts_def
  by (intro keeps_catching keeps_andthen keeps_provenance keeps_fields keeps_ret) (auto split: exc.split)

lemma keeps_all_contexts: "keeps (all_contexts gw call agent)"
  unfolding all_contexts_def by (intro run_rules keeps_provenance keeps_verify_tokens)

lemma keeps_integrity: "keeps (apply_mcp_integrity gw call result)"
  unfolding apply_mcp_integrity_def Let_def by (intro run_rules)

lemma keeps_notify: "keeps (notify e nt a reasons)"
  unfolding notify_def Let_def by (intro keeps_option keeps_if keeps_ret keeps_post)

lemma keeps_contained: "keeps (contained gw call agent side_effects)"
  unfolding contained_def by (intro run_rules)

lemma keeps_admitted: "keeps (admitted gw agent operational)"
  unfolding admitted_def by (intro run_rules)

lemma keeps_egress: "keeps (egress_checked gw call agent operational result)"
  unfolding egress_checked_def by (intro run_rules)

lemma keeps_snapshot: "keeps (snapshot_taken gw call agent contexts field_prov findings d)"
  unfolding snapshot_taken_def by (intro run_rules)

lemma keeps_notice: "gw_env gw = env \<Longrightarrow> keeps (approval_notice gw agent a result)"
  unfolding approval_notice_def by (simp only:) (intro run_rules keeps_notify)

lemma keeps_requested: "gw_env gw = env \<Longrightarrow> keeps (approval_requested gw call agent digest operational result)"
  unfolding approval_requested_def Let_def by (simp only:) (intro run_rules keeps_notice)

lemma keeps_observed:
  "gw_env gw = env \<Longrightarrow> (\<And>wv. keeps (m wv)) \<Longrightarrow> keeps (observed_safely gw event call agent m)"
  unfolding observed_safely_def by (simp only:) (intro run_rules keeps_catching)

lemma keeps_punish: "keeps (punish gw call agent result)"
  unfolding punish_def Let_def by (intro run_rules)

lemma keeps_finalize: "gw_env gw = env \<Longrightarrow> keeps (finalize gw call agent digest result findings i q side_effects)"
  unfolding finalize_def Let_def
  by (intro run_rules keeps_punish keeps_observed) (simp_all only: watch.keeps_observe_gateway_call transactions)

lemma keeps_evaluate_policy:
  "gw_env gw = env \<Longrightarrow> keeps (evaluate_policy gw call agent digest side_effects operational findings contexts field_prov)"
  unfolding evaluate_policy_def
  by (intro run_rules keeps_integrity keeps_egress keeps_requested keeps_snapshot keeps_finalize)

lemma keeps_evaluate: "gw_env gw = env \<Longrightarrow> keeps (evaluate_call gw call agent side_effects)"
  unfolding evaluate_call_def evaluate_uncontained_def Let_def
  by (intro run_rules keeps_contained keeps_admitted keeps_both keeps_evaluate_policy keeps_finalize)

lemma keeps_finish: "keeps (finish call status)"
  unfolding finish_def by (intro run_rules)

lemma keeps_observe_result: "gw_env gw = env \<Longrightarrow> keeps (observe_result gw call agent outcome started err)"
  unfolding observe_result_def by (intro run_rules keeps_observed) (simp_all only: watch.keeps_observe_execution)

lemma keeps_output_attested: "keeps (output_attested gw call agent result)"
  unfolding output_attested_def by (intro run_rules keeps_all_contexts)

lemma keeps_failed: "gw_env gw = env \<Longrightarrow> keeps (execution_failed gw call agent digest d started e)"
  unfolding execution_failed_def by (simp only:) (intro run_rules keeps_finish keeps_observe_result)

lemma keeps_read_approval: "keeps (read_approval gw i)"
  unfolding read_approval_def by (intro keeps_catching run_rules) (auto split: exc.split)

lemma keeps_integrity_failure: "gw_env gw = env \<Longrightarrow> keeps (integrity_failure gw i)"
  unfolding integrity_failure_def by (simp only:) (intro run_rules)

lemma keeps_blocked: "gw_env gw = env \<Longrightarrow> keeps (replay_blocked gw call digest d)"
  unfolding replay_blocked_def by (simp only:) (intro run_rules)

lemma keeps_reserved: "keeps (reserved_egress gw call agent)"
  unfolding reserved_egress_def by (intro run_rules)

lemma keeps_exceeded: "gw_env gw = env \<Longrightarrow> keeps (budget_exceeded gw call agent d)"
  unfolding budget_exceeded_def by (simp only:) (intro run_rules keeps_finish)

lemma keeps_tool_ran: "gw_env gw = env \<Longrightarrow> keeps (tool_ran gw call agent digest d started result)"
  unfolding tool_ran_def Let_def
  by (simp only:) (intro run_rules keeps_observe_result keeps_finish keeps_output_attested)

lemma keeps_simulate: "gw_env gw = env \<Longrightarrow> keeps (simulate gw r)"
  unfolding simulate_def by (intro run_rules keeps_each keeps_evaluate)

lemma keeps_replay: "keeps (replay_policy gw other limit)"
  unfolding replay_policy_def by (intro run_rules keeps_each)

end

text \<open>With the invocation of a handler among the steps, the executions follow.\<close>

locale gateway_run = gateway_relation +
  assumes invoked: "rel w (w\<lparr>wo_invoked := wo_invoked w @ [i]\<rparr>)"
begin

lemma keeps_invoke: "keeps (invoke name h arguments)"
  by (simp add: keeps_def invoke_def invoked)

lemma keeps_execute_tool: "keeps (execute_tool js reg name arguments)"
  unfolding execute_tool_def by (intro run_rules keeps_catching keeps_invoke) (auto split: exc.split)

lemma keeps_run_tool: "gw_env gw = env \<Longrightarrow> keeps (run_tool gw call agent digest d started)"
  unfolding run_tool_def by (intro run_rules keeps_execute_tool keeps_tool_ran)

lemma keeps_attempt: "gw_env gw = env \<Longrightarrow> keeps (attempt gw call agent digest d started)"
  unfolding attempt_def by (intro keeps_catching keeps_run_tool keeps_failed)

lemma keeps_claimed: "gw_env gw = env \<Longrightarrow> keeps (execute_claimed gw call agent digest d)"
  unfolding execute_claimed_def by (intro run_rules keeps_reserved keeps_exceeded keeps_attempt)

lemma keeps_authorized: "gw_env gw = env \<Longrightarrow> keeps (execute_authorized gw call agent digest d)"
  unfolding execute_authorized_def by (intro run_rules keeps_blocked keeps_claimed)

lemma keeps_execute: "gw_env gw = env \<Longrightarrow> keeps (execute_call gw call agent)"
  unfolding execute_call_def
  by (intro run_rules keeps_evaluate) (simp_all add: keeps_authorized split: decision.split)

lemma keeps_current_policy: "gw_env gw = env \<Longrightarrow> keeps (current_policy gw a contexts field_prov)"
  unfolding current_policy_def Let_def
  by (simp only:) (intro run_rules keeps_integrity keeps_authorized)

lemma keeps_approved: "gw_env gw = env \<Longrightarrow> keeps (execute_approved gw i)"
  unfolding execute_approved_def
  by (intro run_rules keeps_read_approval keeps_integrity_failure keeps_both keeps_current_policy)

end

end
