(* ===== verification/Gateway_Runs.thy ===== *)
theory Gateway_Runs
  imports Gateway_Steps
begin

text \<open>
  Runs of the gateway: sequences of evaluations, executions, approved executions, simulations and
  replays, each from the world its predecessor left, whether that returned or raised. The step
  relation gives what no run undoes and keeps the audit chain; the operations without effect are
  interpreted on their own.
\<close>

section \<open>Interpretations\<close>

definition stepped :: "deployment \<Rightarrow> world \<Rightarrow> world \<Rightarrow> bool" where
  "stepped env w w' \<longleftrightarrow> (gateway_step env)\<^sup>*\<^sup>* (wo_store w) (wo_store w')"

interpretation steps: gateway_run "stepped env" env for env
  by unfold_locales (auto simp: stepped_def)

definition calm :: "deployment \<Rightarrow> world \<Rightarrow> world \<Rightarrow> bool" where
  "calm env w w' \<longleftrightarrow> stepped env w w' \<and> wo_invoked w' = wo_invoked w"

interpretation calm: gateway_relation "calm env" env for env
  by unfold_locales (auto simp: calm_def stepped_def)

definition untouched :: "world \<Rightarrow> world \<Rightarrow> bool" where
  "untouched w w' \<longleftrightarrow> wo_store w' = wo_store w \<and> wo_invoked w' = wo_invoked w \<and> wo_posted w' = wo_posted w"

interpretation dry: preserving untouched
  by unfold_locales (auto simp: untouched_def)

section \<open>Operations without effect\<close>

lemmas dry_rules = dry.keeps_andthen dry.keeps_if dry.keeps_option dry.keeps_ret dry.keeps_raise dry.keeps_lift dry.keeps_query
  dry.keeps_tick dry.keeps_fresh_id dry.keeps_fresh_nonce

lemma dry_prod: "(\<And>a b. dry.keeps (f a b)) \<Longrightarrow> dry.keeps (case p of (a, b) \<Rightarrow> f a b)"
  by (simp split: prod.split)

lemma dry_verify_tokens: "dry.keeps (verify_tokens gw tokens tenant)"
  unfolding verify_tokens_def by (intro dry.keeps_each dry_rules)

lemma dry_provenance: "dry.keeps (provenance_contexts gw call agent)"
  unfolding provenance_contexts_def Let_def by (intro dry_rules dry_verify_tokens)

lemma dry_bind_references: "dry.keeps (bind_references gw call tenant v refs cache bound)"
proof (induction refs arbitrary: cache bound)
  case (Cons r rs)
  have "dry.keeps (cached_token gw (fr_token r) tenant cache)"
    unfolding cached_token_def by (intro dry_rules)
  then show ?case by (simp add: dry.keeps_andthen Cons split: prod.split)
qed simp

lemma dry_bind_fields: "dry.keeps (bind_fields gw call tenant d cache result)"
proof (induction d arbitrary: cache result)
  case (Cons e d)
  obtain p refs where "e = (p, refs)" by force
  then show ?case by (simp add: dry.keeps_andthen dry_bind_references Cons split: prod.split)
qed simp

lemma dry_fields: "dry.keeps (field_contexts gw call agent)"
  unfolding field_contexts_def by (intro dry_rules dry_bind_fields)

lemma dry_both: "dry.keeps (both_contexts gw call agent)"
  unfolding both_contexts_def
  by (intro dry.keeps_catching dry.keeps_andthen dry_provenance dry_fields dry.keeps_ret) (auto split: exc.split)

lemma dry_integrity: "dry.keeps (apply_mcp_integrity gw call result)"
  unfolding apply_mcp_integrity_def Let_def by (intro dry_rules)

lemma dry_finalize: "dry.keeps (finalize gw call agent digest result findings i q False)"
  unfolding finalize_def Let_def if_False by (intro dry_rules dry_prod)

lemma dry_evaluate: "dry.keeps (evaluate_call gw call agent False)"
proof -
  have p: "dry.keeps (evaluate_policy gw call agent digest False False findings contexts field_prov)" for digest findings contexts field_prov
    unfolding evaluate_policy_def egress_checked_def approval_requested_def
    by (simp only: simp_thms if_False if_True) (intro dry_rules dry_integrity dry_finalize)
  show ?thesis
    unfolding evaluate_call_def evaluate_uncontained_def Let_def contained_def admitted_def
    by (simp only: simp_thms if_False if_True) (intro dry_rules dry_prod dry_both dry_finalize p)
qed

lemma dry_simulate: "dry.keeps (simulate gw r)"
  unfolding simulate_def by (intro dry_rules dry.keeps_each dry_evaluate)

lemma dry_replay: "dry.keeps (replay_policy gw other limit)"
  unfolding replay_policy_def by (intro dry_rules dry.keeps_each)

section \<open>What no step undoes\<close>

text \<open>
  Claimed request ids, final approvals, open quarantines, containments, recorded lineage and queued
  notifications stay; tokens and agents do not change.
\<close>

definition protections_kept :: "store \<Rightarrow> store \<Rightarrow> bool" where
  "protections_kept st st' \<longleftrightarrow>
     {i. claimed i st} \<subseteq> {i. claimed i st'}
     \<and> (\<forall>i. final_status (status_of i st) \<longrightarrow> status_of i st' = status_of i st)
     \<and> (\<forall>t a. held t a st \<longrightarrow> held t a st')
     \<and> set (containments st) \<subseteq> set (containments st')
     \<and> set (lineage_events st) \<subseteq> set (lineage_events st')
     \<and> set (outbox_jobs st) \<subseteq> set (outbox_jobs st')
     \<and> agent_tokens st' = agent_tokens st \<and> agents st' = agents st
     \<and> mcp_tool_baselines st' = mcp_tool_baselines st \<and> mcp_tool_observations st' = mcp_tool_observations st"

text \<open>The tables that a step writes; every other table is left as it was.\<close>

definition protected_view :: "store \<Rightarrow> store" where
  "protected_view st = st\<lparr>audit_events := [], rate_events := [], violations := [], incidents := [], egress_events := [],
     action_events := [], policy_snapshots := [], worker_heartbeats := [], watch_tasks := [], watch_events := [], watch_findings := []\<rparr>"

lemma protected_view_kept: "protected_view st' = protected_view st \<Longrightarrow> protections_kept st st'"
proof -
  assume v: "protected_view st' = protected_view st"
  have "executions st' = executions st" "approvals st' = approvals st" "quarantines st' = quarantines st"
    "containments st' = containments st" "lineage_events st' = lineage_events st" "outbox_jobs st' = outbox_jobs st"
    "agent_tokens st' = agent_tokens st" "agents st' = agents st" "mcp_tool_baselines st' = mcp_tool_baselines st"
    "mcp_tool_observations st' = mcp_tool_observations st"
    using arg_cong [OF v, of executions] arg_cong [OF v, of approvals] arg_cong [OF v, of quarantines]
      arg_cong [OF v, of containments] arg_cong [OF v, of lineage_events] arg_cong [OF v, of outbox_jobs]
      arg_cong [OF v, of agent_tokens] arg_cong [OF v, of agents] arg_cong [OF v, of mcp_tool_baselines]
      arg_cong [OF v, of mcp_tool_observations]
    by (simp_all add: protected_view_def)
  then show ?thesis by (simp add: protections_kept_def claimed_def status_of_def held_def)
qed

lemma kept_refl: "protections_kept st st"
  by (simp add: protections_kept_def)

lemma kept_trans: "protections_kept a b \<Longrightarrow> protections_kept b c \<Longrightarrow> protections_kept a c"
  unfolding protections_kept_def by (intro conjI; (fastforce | metis))

lemma claim_kept: "claimed j st \<Longrightarrow> claimed j (snd (claim_execution now request digest st))"
  by (auto simp: claim_execution_def claimed_def)

lemma step_kept: "gateway_step env st st' \<Longrightarrow> protections_kept st st'"
proof (induction rule: gateway_step.induct)
  case (Audited st now i ty payload)
  show ?case by (rule protected_view_kept) (simp add: append_audit_def Let_def protected_view_def)
next
  case (Watched now agent q st t st')
  then show ?case
    by (intro protected_view_kept)
       (auto simp: create_watch_task_def Let_def protected_view_def split: option.splits if_splits)
next
  case (Observed now i agent e st v st')
  then show ?case
    by (intro protected_view_kept) (auto simp: record_watch_event_def Let_def protected_view_def split: option.splits if_splits)
next
  case (Alarmed now f st g st')
  then show ?case
    by (intro protected_view_kept) (auto simp: upsert_watch_finding_def protected_view_def split: option.splits if_splits)
next
  case (Rated st now tenant a limit window)
  show ?case by (rule protected_view_kept) (simp add: rate_allowed_def Let_def protected_view_def)
next
  case (Reserved st now tenant a amount limit)
  show ?case by (rule protected_view_kept) (simp add: reserve_egress_def Let_def protected_view_def)
next
  case (Acted st now tenant a trace tool category d)
  show ?case by (rule protected_view_kept) (simp add: record_action_def protected_view_def)
next
  case (Violated st now tenant a severity reason window)
  show ?case by (rule protected_view_kept) (simp add: record_violation_def Let_def protected_view_def)
next
  case (Reported now i tenant a trace severity summary st j st')
  then show ?case
    by (intro protected_view_kept) (auto simp: upsert_incident_def Let_def protected_view_def split: option.splits if_splits)
next
  case (Quarantined st now again i tenant a reason)
  have "containments (quarantine now again i tenant a reason st) = containments st @ [fst (contain_agent again again i tenant a QUARANTINE reason
      ''sentinelgate-auto-response'' 900 [] None st)]"
    by (simp add: quarantine_def contain_agent_def Let_def)
  then show ?case using quarantine_keeps
    by (auto simp: protections_kept_def claimed_def status_of_def quarantine_def contain_agent_def Let_def)
next
  case (Requested cr key nonce i now call digest agent ttl st st')
  have "status_of j st' = status_of j st" if "final_status (status_of j st)" for j
    using create_status [OF Requested, of j] created_absent [OF Requested] that by (auto simp: final_status_def)
  with Requested show ?case by (auto simp: protections_kept_def claimed_def create_approval_def held_def split: if_splits)
next
  case (Queued now i kind dedup payload m st j st')
  then show ?case
    by (auto simp: enqueue_outbox_def protections_kept_def claimed_def status_of_def held_def split: option.splits if_splits)
next
  case (Snapped cr key nonce i now snapshot st st')
  then show ?case
    by (intro protected_view_kept) (auto simp: record_policy_snapshot_def ebind_Inr_iff protected_view_def)
next
  case (Claimed st now request digest)
  have "protections_kept st (st\<lparr>executions := xs\<rparr>)" if "\<And>j. claimed j st \<Longrightarrow> claimed j (st\<lparr>executions := xs\<rparr>)" for xs
    using that by (auto simp: protections_kept_def status_of_def held_def)
  then show ?case using claim_kept [of _ st now request digest] kept_refl by (auto simp: claim_execution_def split: if_splits)
next
  case (Finished st now request status)
  show ?case by (auto simp: protections_kept_def claimed_ids status_of_def held_def finish_ids simp del: set_map)
     (auto simp: finish_execution_def)
next
  case (Derived st row)
  show ?case by (auto simp: protections_kept_def record_lineage_def claimed_def status_of_def held_def)
next
  case (Consumed st now i)
  obtain b st' where c: "consume_approval now i st = (b, st')" by force
  have "status_of j st' = status_of j st" if "final_status (status_of j st)" for j
    using consume_status [OF c, of j] that by (auto simp: final_status_def)
  with c show ?case
    by (auto simp: protections_kept_def claimed_def consume_approval_def held_def split: option.splits if_splits)
qed

lemma steps_kept: "(gateway_step env)\<^sup>*\<^sup>* st st' \<Longrightarrow> protections_kept st st'"
  by (induction rule: rtranclp_induct) (auto intro: kept_refl kept_trans step_kept)

lemma step_audit:
  "gateway_step env st st' \<Longrightarrow> audit_events st' = audit_events st
     \<or> (\<exists>now i ty payload. st' = append_audit (de_crypto env) (de_audit_key env) now i ty payload st)"
proof (induction rule: gateway_step.induct)
  case (Watched now agent q st t st')
  then show ?case using create_watch_audit by blast
next
  case (Observed now i agent e st v st')
  then show ?case using record_watch_audit by blast
next
  case (Alarmed now f st g st')
  then show ?case using upsert_watch_audit by blast
next
  case (Reported now i tenant a trace severity summary st j st')
  then show ?case by (auto simp: upsert_incident_def Let_def split: option.splits if_splits)
next
  case (Requested cr key nonce i now call digest agent ttl st st')
  then show ?case by (auto simp: create_approval_def split: if_splits)
next
  case (Queued now i kind dedup payload m st j st')
  then show ?case by (auto simp: enqueue_outbox_def split: option.splits if_splits)
next
  case (Snapped cr key nonce i now snapshot st st')
  then show ?case by (auto simp: record_policy_snapshot_def ebind_Inr_iff)
next
  case (Consumed st now i)
  then show ?case by (simp add: consume_approval_def split: option.split)
qed (auto simp: rate_allowed_def reserve_egress_def record_action_def record_violation_def
  quarantine_def contain_agent_def claim_execution_def finish_execution_def record_lineage_def Let_def)

lemma step_audit_wf:
  assumes "gateway_step env st st'" and "audit_wf (de_crypto env) (de_audit_key env) st"
  shows "audit_wf (de_crypto env) (de_audit_key env) st'"
  using step_audit [OF assms(1)] assms(2) append_audit_wf audit_wf_cong by metis

lemma steps_audit_wf:
  "(gateway_step env)\<^sup>*\<^sup>* st st' \<Longrightarrow> audit_wf (de_crypto env) (de_audit_key env) st \<Longrightarrow>
   audit_wf (de_crypto env) (de_audit_key env) st'"
  by (induction rule: rtranclp_induct) (auto intro: step_audit_wf)

section \<open>Runs\<close>

datatype gateway_op =
    Evaluate tool_call agent_principal
  | Execute tool_call agent_principal
  | Execute_Approved string
  | Simulate simulation_request
  | Replay_Policy "policy option" nat

fun perform :: "gateway \<Rightarrow> gateway_op \<Rightarrow> world \<Rightarrow> world" where
  "perform gw (Evaluate call agent) w = snd (evaluate_call gw call agent True w)"
| "perform gw (Execute call agent) w = snd (execute_call gw call agent w)"
| "perform gw (Execute_Approved i) w = snd (execute_approved gw i w)"
| "perform gw (Simulate r) w = snd (simulate gw r w)"
| "perform gw (Replay_Policy other limit) w = snd (replay_policy gw other limit w)"

abbreviation run_gateway :: "gateway \<Rightarrow> gateway_op list \<Rightarrow> world \<Rightarrow> world" where
  "run_gateway gw ops w \<equiv> fold (perform gw) ops w"

lemma perform_stepped: "stepped (gw_env gw) w (perform gw op w)"
  using steps.keeps_evaluate [of gw "gw_env gw"] steps.keeps_execute [of gw "gw_env gw"] steps.keeps_approved [of gw "gw_env gw"]
    steps.keeps_simulate [of gw "gw_env gw"] steps.keeps_replay
  by (cases op) (simp_all add: steps.keeps_def)

lemma run_stepped: "stepped (gw_env gw) w (run_gateway gw ops w)"
proof (induction ops arbitrary: w)
  case (Cons op ops)
  show ?case using perform_stepped [of gw w op] Cons [of "perform gw op w"] by (simp add: stepped_def)
qed (simp add: stepped_def)

end
