(* ===== verification/Gateway_Safety.thy ===== *)
theory Gateway_Safety
  imports Gateway_Runs
begin

text \<open>
  What the gateway guarantees of a tool handler: it is invoked only for a call that the policy, the
  provenance, the containment and the limits allow, or for a current approval, on validated
  arguments, and once per request id over any run.
\<close>

section \<open>The decision of an evaluation\<close>

lemma conclude_decision [simp]: "ev_decision (conclude gw d reasons risk) = d"
  by (simp add: conclude_def mk_ev_def)

lemma finalize_decision:
  "finalize gw call agent digest result findings i q b w = (Inr d, w') \<Longrightarrow>
     pd_decision d = ev_decision result \<and> pd_request_hash d = digest \<and> pd_request_id d = tc_request_id call
     \<and> pd_reasons d = ev_reasons result \<and> pd_approval_id d = i"
  by (auto simp: finalize_def andthen_Inr_iff Let_def ret_run)

lemma integrity_allows:
  "apply_mcp_integrity gw call r w = (Inr r', w') \<Longrightarrow> ev_decision r' = ALLOW \<Longrightarrow> r' = r"
  by (auto simp: apply_mcp_integrity_def Let_def ret_run andthen_query andthen_Inr_iff split: if_splits option.splits)

text \<open>
  The tool's definition is in order: the call names the server that the tool belongs to, and for a
  named server the tool was inspected recently and not blocked, nor, unless a reviewer has seen the
  call, found in need of review.
\<close>

definition integrity_holds :: "gateway \<Rightarrow> tool_call \<Rightarrow> bool \<Rightarrow> world \<Rightarrow> bool" where
  "integrity_holds gw call reviewed w \<longleftrightarrow> (let cfg = tool_config (gw_policy gw) (tc_tool_name call);
       expected = nonempty (Option.bind cfg tl_mcp_server_id)
     in (expected \<noteq> None \<longrightarrow> tc_mcp_server_id call = expected)
        \<and> (\<forall>s. nonempty (tc_mcp_server_id call) = Some s \<longrightarrow>
             (\<exists>obs. get_mcp_tool_observation s (opt (Option.bind cfg tl_mcp_tool_name) (tc_tool_name call)) (wo_store w) = Some obs
                \<and> wo_clock w (wo_ticks w) - seconds (opt (df_mcp_observation_ttl (defaults gw)) 3600) \<le> ob_observed obs
                \<and> ob_status obs \<noteq> ''blocked'' \<and> (reviewed \<or> ob_status obs \<noteq> ''review''))))"

lemma integrity_checked:
  assumes "apply_mcp_integrity gw call r w = (Inr r', w')" and "ev_decision r' \<noteq> DENY"
  shows "integrity_holds gw call (ev_decision r' \<noteq> ALLOW) w"
  using assms by (auto simp: apply_mcp_integrity_def integrity_holds_def Let_def ret_run andthen_query andthen_tick
      split: if_splits option.splits)

lemma integrity_denies: "ev_decision r = DENY \<Longrightarrow> apply_mcp_integrity gw call r w = (Inr r, w)"
  by (simp add: apply_mcp_integrity_def ret_run)

lemma validated_allows:
  "ev_decision (validated_call gw call r) = ALLOW \<Longrightarrow> validated_call gw call r = r
     \<and> (\<exists>args. validate_arguments (gw_schemas gw) (gw_registry gw) (tc_tool_name call) (tc_arguments call) = Inr args)"
  by (auto simp: validated_call_def split: if_splits sum.splits)

lemma egress_allows:
  "egress_checked gw call agent operational result w = (Inr r, w') \<Longrightarrow> ev_decision r = ALLOW \<Longrightarrow> r = result"
  by (auto simp: egress_checked_def ret_run andthen_query andthen_Inr_iff split: if_splits)

lemma egress_within:
  "egress_checked gw call agent True result w = (Inr r, w') \<Longrightarrow> ev_decision r = ALLOW \<Longrightarrow> is_egress gw call \<Longrightarrow>
     egress_size call \<le> single_budget gw call"
  by (auto simp: egress_checked_def ret_run andthen_query andthen_Inr_iff split: if_splits)

lemma contained_none:
  "contained gw call agent True w = (Inr None, w') \<Longrightarrow>
     containment_refusal gw call (active_containment (wo_clock w (wo_ticks w)) (pr_tenant_id agent) (pr_agent_id agent) (wo_store w)) = None
     \<and> \<not> is_quarantined (wo_clock w (Suc (wo_ticks w))) (pr_tenant_id agent) (pr_agent_id agent) (wo_store w)"
  by (auto simp: contained_def andthen_query andthen_Inr_iff tick_def ret_run split: option.splits if_splits)

text \<open>What an evaluation that allows a call has established.\<close>

definition cleared :: "gateway \<Rightarrow> tool_call \<Rightarrow> agent_principal \<Rightarrow> world \<Rightarrow> bool" where
  "cleared gw call agent w \<longleftrightarrow>
     containment_refusal gw call (active_containment (wo_clock w (wo_ticks w)) (pr_tenant_id agent) (pr_agent_id agent) (wo_store w)) = None
     \<and> \<not> is_quarantined (wo_clock w (Suc (wo_ticks w))) (pr_tenant_id agent) (pr_agent_id agent) (wo_store w)
     \<and> (\<exists>contexts fs w1 w2. both_contexts gw call agent w1 = (Inr (Some (contexts, fs)), w2) \<and> calm (gw_env gw) w w1
         \<and> permits (gw_policy gw) call agent contexts (scan_secrets (gw_crypto gw) (JDict (tc_arguments call)) ''$'') fs
         \<and> integrity_holds gw call False w2)
     \<and> (gw_mode gw \<noteq> OBSERVE \<longrightarrow> is_egress gw call \<longrightarrow> egress_size call \<le> single_budget gw call)
     \<and> (\<exists>args. validate_arguments (gw_schemas gw) (gw_registry gw) (tc_tool_name call) (tc_arguments call) = Inr args)"

lemma policy_allows:
  assumes "evaluate_policy gw call agent digest se operational findings contexts fs w = (Inr d, w')" and "pd_decision d = ALLOW"
  shows "permits (gw_policy gw) call agent contexts findings fs
    \<and> integrity_holds gw call False w
    \<and> (operational \<longrightarrow> is_egress gw call \<longrightarrow> egress_size call \<le> single_budget gw call)
    \<and> (\<exists>args. validate_arguments (gw_schemas gw) (gw_registry gw) (tc_tool_name call) (tc_arguments call) = Inr args)"
proof -
  obtain r1 r2 r w3 w4 w5 w6 where r1: "evaluate (gw_policy gw) call agent contexts findings fs = Inr r1"
    and r2: "apply_mcp_integrity gw call r1 w = (Inr r2, w3)"
    and r: "egress_checked gw call agent operational (validated_call gw call r2) w3 = (Inr r, w4)"
    and f: "\<exists>i. finalize gw call agent digest r findings i False se w5 = (Inr d, w6)"
    using assms(1) by (fastforce simp: evaluate_policy_def andthen_Inr_iff lift_run)
  have allow: "ev_decision r = ALLOW" using f assms(2) finalize_decision by metis
  have "r = validated_call gw call r2" by (rule egress_allows [OF r allow])
  with allow have v: "r = r2" "\<exists>args. validate_arguments (gw_schemas gw) (gw_registry gw) (tc_tool_name call) (tc_arguments call) = Inr args"
    using validated_allows [of gw call r2] by auto
  then have "r2 = r1" using integrity_allows [OF r2] allow by simp
  then have "allowed (evaluate (gw_policy gw) call agent contexts findings fs)"
    using r1 v(1) allow by (simp add: allowed_def)
  moreover have "integrity_holds gw call False w" using integrity_checked [OF r2] \<open>r2 = r1\<close> v(1) allow by simp
  ultimately show ?thesis using evaluate_allow v(2) egress_within r allow by (cases operational) auto
qed

lemma contained_decision:
  "contained gw call agent b w = (Inr (Some (r, q)), w') \<Longrightarrow> ev_decision r = DENY"
  by (auto simp: contained_def containment_refusal_def andthen_Inr_iff andthen_query tick_def ret_run
      split: option.splits if_splits)

lemma uncontained_allows:
  assumes "evaluate_uncontained gw call agent digest se operational findings w = (Inr d, w')" and "pd_decision d = ALLOW"
  shows "\<exists>contexts fs w1 w2. both_contexts gw call agent w1 = (Inr (Some (contexts, fs)), w2) \<and> calm (gw_env gw) w w1
    \<and> permits (gw_policy gw) call agent contexts findings fs \<and> integrity_holds gw call False w2
    \<and> (operational \<longrightarrow> is_egress gw call \<longrightarrow> egress_size call \<le> single_budget gw call)
    \<and> (\<exists>args. validate_arguments (gw_schemas gw) (gw_registry gw) (tc_tool_name call) (tc_arguments call) = Inr args)"
proof -
  have no: "finalize gw call agent digest (conclude gw DENY rs risk) findings i q se v = (Inr d, w') \<Longrightarrow> False" for rs risk i q v
    using finalize_decision [of gw call agent digest "conclude gw DENY rs risk" findings i q se v d w'] assms(2) by simp
  obtain ok w1 where a: "admitted gw agent operational w = (Inr ok, w1)"
    and r1: "(if \<not> ok then finalize gw call agent digest (conclude gw DENY [''RATE_LIMIT_EXCEEDED''] ''high'') findings None False se
     else andthen (both_contexts gw call agent) (\<lambda>ctx. case ctx of
         None \<Rightarrow> finalize gw call agent digest (conclude gw DENY [''INVALID_PROVENANCE''] ''critical'') findings None False se
       | Some (contexts, field_prov) \<Rightarrow>
           evaluate_policy gw call agent digest se operational findings contexts field_prov)) w1 = (Inr d, w')"
    using assms(1) unfolding evaluate_uncontained_def andthen_Inr_iff [of "admitted gw agent operational"] by blast
  then have ok by (cases ok) (auto dest: no)
  then obtain ctx w2 where b: "both_contexts gw call agent w1 = (Inr ctx, w2)"
    and r2: "(case ctx of
         None \<Rightarrow> finalize gw call agent digest (conclude gw DENY [''INVALID_PROVENANCE''] ''critical'') findings None False se
       | Some (contexts, field_prov) \<Rightarrow>
           evaluate_policy gw call agent digest se operational findings contexts field_prov) w2 = (Inr d, w')"
    using r1 by (auto simp: andthen_Inr_iff [of "both_contexts gw call agent"])
  then obtain contexts fs where ctx: "ctx = Some (contexts, fs)" by (cases ctx) (auto dest: no)
  then have p: "evaluate_policy gw call agent digest se operational findings contexts fs w2 = (Inr d, w')" using r2 by simp
  show ?thesis
    using policy_allows [OF p assms(2)] b ctx calm.keepsD [OF calm.keeps_admitted a, of "gw_env gw"] by blast
qed

lemma evaluate_allows:
  assumes "evaluate_call gw call agent True w = (Inr d, w')" and "pd_decision d = ALLOW"
  shows "cleared gw call agent w"
proof -
  obtain refusal w1 where c: "contained gw call agent True w = (Inr refusal, w1)"
    and r: "(case refusal of
           Some (result, quarantined) \<Rightarrow> finalize gw call agent (request_hash (gw_crypto gw) call agent) result
             (scan_secrets (gw_crypto gw) (JDict (tc_arguments call)) ''$'') None quarantined True
         | None \<Rightarrow> evaluate_uncontained gw call agent (request_hash (gw_crypto gw) call agent) True (True \<and> gw_mode gw \<noteq> OBSERVE)
             (scan_secrets (gw_crypto gw) (JDict (tc_arguments call)) ''$'')) w1 = (Inr d, w')"
    using assms(1) unfolding evaluate_call_def Let_def andthen_Inr_iff [of "contained gw call agent True"] by blast
  have "refusal = None"
  proof (cases refusal)
    case (Some x)
    obtain result q where x: "x = (result, q)" by force
    have "ev_decision result = DENY" using c Some x by (auto dest: contained_decision)
    then show ?thesis using r finalize_decision assms(2) by (fastforce simp: Some x simp del: scan_secrets.simps)
  qed
  then have u: "evaluate_uncontained gw call agent (request_hash (gw_crypto gw) call agent) True (gw_mode gw \<noteq> OBSERVE)
      (scan_secrets (gw_crypto gw) (JDict (tc_arguments call)) ''$'') w1 = (Inr d, w')"
    and n: "contained gw call agent True w = (Inr None, w1)"
    using r c by (simp_all del: scan_secrets.simps)
  have step: "calm (gw_env gw) w w1" using calm.keepsD [OF calm.keeps_contained c] .
  show ?thesis
    using uncontained_allows [OF u assms(2)] contained_none [OF n] calm.rel_trans [OF step]
    unfolding cleared_def by blast
qed

section \<open>The invocation of a handler\<close>

lemma calm_invoked: "calm env w w' \<Longrightarrow> wo_invoked w' = wo_invoked w"
  by (simp add: calm_def)

lemma stepped_claimed: "stepped env w w' \<Longrightarrow> claimed i (wo_store w) \<Longrightarrow> claimed i (wo_store w')"
  using steps_kept [of env "wo_store w" "wo_store w'"] by (auto simp: stepped_def protections_kept_def)

text \<open>The handler ran once, on the arguments that the tool's model or schema accepted.\<close>

definition ran_once :: "gateway \<Rightarrow> tool_call \<Rightarrow> world \<Rightarrow> world \<Rightarrow> bool" where
  "ran_once gw call w w' \<longleftrightarrow> (\<exists>args. validate_arguments (gw_schemas gw) (gw_registry gw) (tc_tool_name call) (tc_arguments call) = Inr args
     \<and> wo_invoked w' = wo_invoked w @ [(tc_tool_name call, args)])"

text \<open>An operation without an invocation, run on a world with the same invocations.\<close>

lemma calm_same: "calm.keeps env m \<Longrightarrow> m w = (r, w') \<Longrightarrow> wo_invoked w' = wo_invoked w"
  by (drule calm.keepsD) (auto dest: calm_invoked)

lemma attempt_same:
  assumes env: "gw_env gw = env" and run: "attempt gw call agent digest d started w = (r, w')"
    and t: "execute_tool (gw_schemas gw) (gw_registry gw) (tc_tool_name call) (tc_arguments call) w = (x, w1)"
  shows "wo_invoked w' = wo_invoked w1"
proof -
  have failed: "execution_failed gw call agent digest d started e v = (q, v') \<Longrightarrow> wo_invoked v' = wo_invoked v" for e v q v'
    using calm_same [OF calm.keeps_failed [OF env]] .
  have ran: "tool_ran gw call agent digest d started y v = (q, v') \<Longrightarrow> wo_invoked v' = wo_invoked v" for y v q v'
    using calm_same [OF calm.keeps_tool_ran [OF env]] .
  show ?thesis
  proof (cases x)
    case (Inl e)
    then show ?thesis using failed run by (auto simp: attempt_def catching_def run_tool_def andthen_def t)
  next
    case (Inr y)
    then show ?thesis using failed ran run
      by (fastforce simp: attempt_def catching_def run_tool_def andthen_def t split: prod.splits sum.splits)
  qed
qed

lemma attempt_invokes:
  assumes "gw_env gw = env" and run: "attempt gw call agent digest d started w = (r, w')" and i: "wo_invoked w' \<noteq> wo_invoked w"
  shows "ran_once gw call w w'"
proof -
  obtain x w1 where t: "execute_tool (gw_schemas gw) (gw_registry gw) (tc_tool_name call) (tc_arguments call) w = (x, w1)" by force
  show ?thesis using attempt_same [OF assms(1) run t] i execute_tool_invokes [OF t] by (auto simp: ran_once_def)
qed

lemma claimed_invokes:
  assumes env: "gw_env gw = env" and run: "execute_claimed gw call agent digest d w = (r, w')" and i: "wo_invoked w' \<noteq> wo_invoked w"
  shows "ran_once gw call w w'"
proof -
  obtain x w1 where b: "reserved_egress gw call agent w = (x, w1)" by force
  have w1: "wo_invoked w1 = wo_invoked w" using calm_same [OF calm.keeps_reserved b] .
  have "x = Inr True"
  proof (rule ccontr)
    assume "x \<noteq> Inr True"
    then have "x = Inr False \<or> (\<exists>e. x = Inl e)" by (cases x) auto
    then have "wo_invoked w' = wo_invoked w1"
      using run b calm_same [OF calm.keeps_exceeded [OF env]] by (auto simp: execute_claimed_def andthen_def)
    then show False using i w1 by simp
  qed
  then have "attempt gw call agent digest d (wo_clock w1 (wo_ticks w1)) (w1\<lparr>wo_ticks := Suc (wo_ticks w1)\<rparr>) = (r, w')"
    using run b by (simp add: execute_claimed_def andthen_def tick_def)
  from attempt_invokes [OF env this] show ?thesis using i w1 by (simp add: ran_once_def)
qed

lemma authorized_invokes:
  assumes env: "gw_env gw = env" and run: "execute_authorized gw call agent digest d w = (r, w')" and i: "wo_invoked w' \<noteq> wo_invoked w"
  shows "\<not> claimed (tc_request_id call) (wo_store w) \<and> claimed (tc_request_id call) (wo_store w') \<and> ran_once gw call w w'"
proof -
  let ?c = "claim_execution (wo_clock w (wo_ticks w)) (tc_request_id call) digest (wo_store w)"
  let ?w1 = "w\<lparr>wo_ticks := Suc (wo_ticks w), wo_store := snd ?c\<rparr>"
  have step: "(if \<not> fst ?c then replay_blocked gw call digest d else execute_claimed gw call agent digest d) ?w1 = (r, w')"
    using run by (simp add: execute_authorized_def andthen_tick andthen_db)
  have c: "fst ?c"
  proof (rule ccontr)
    assume "\<not> fst ?c"
    then have "wo_invoked w' = wo_invoked ?w1" using step calm_same [OF calm.keeps_blocked [OF env]] by simp
    then show False using i by simp
  qed
  then have run1: "execute_claimed gw call agent digest d ?w1 = (r, w')" using step by simp
  have "ran_once gw call ?w1 w'" using claimed_invokes [OF env run1] i by simp
  moreover have "\<not> claimed (tc_request_id call) (wo_store w)" "claimed (tc_request_id call) (wo_store ?w1)"
    using c by (auto simp: claim_execution_def claimed_def list_ex_iff split: if_splits)
  moreover have "stepped env ?w1 w'"
    using steps.keepsD [OF steps.keeps_claimed [OF env] run1] .
  ultimately show ?thesis using stepped_claimed by (auto simp: ran_once_def)
qed

section \<open>Executions\<close>

lemma execute_invokes:
  assumes "execute_call gw call agent w = (r, w')" and i: "wo_invoked w' \<noteq> wo_invoked w"
  shows "gw_mode gw \<noteq> OBSERVE \<and> cleared gw call agent w
    \<and> \<not> claimed (tc_request_id call) (wo_store w) \<and> claimed (tc_request_id call) (wo_store w') \<and> ran_once gw call w w'"
proof -
  obtain x w1 where e: "evaluate_call gw call agent True w = (x, w1)" by force
  have w1: "wo_invoked w1 = wo_invoked w" using calm_same [OF calm.keeps_evaluate [OF refl] e] .
  obtain d where d: "x = Inr d" using assms w1 e by (cases x) (auto simp: execute_call_def andthen_def)
  have mode: "gw_mode gw \<noteq> OBSERVE" using assms w1 e d by (auto simp: execute_call_def andthen_def ret_run split: if_splits)
  have allow: "pd_decision d = ALLOW"
    using assms w1 e d by (auto simp: execute_call_def andthen_def ret_run split: if_splits decision.splits)
  have run: "execute_authorized gw call agent (pd_request_hash d) (Some d) w1 = (r, w')"
    using assms(1) e d mode allow by (simp add: execute_call_def andthen_def)
  have a: "\<not> claimed (tc_request_id call) (wo_store w1)" "claimed (tc_request_id call) (wo_store w')" "ran_once gw call w1 w'"
    using authorized_invokes [OF refl run] i w1 by simp_all
  moreover have "stepped (gw_env gw) w w1" using steps.keepsD [OF steps.keeps_evaluate [OF refl] e] .
  then have "\<not> claimed (tc_request_id call) (wo_store w)" using a(1) stepped_claimed by blast
  ultimately show ?thesis
    using mode evaluate_allows [of gw call agent w d w1] e d allow w1 by (simp add: ran_once_def)
qed

text \<open>What an approved execution has established when it invokes a handler.\<close>

definition approval_current :: "gateway \<Rightarrow> string \<Rightarrow> approval \<Rightarrow> world \<Rightarrow> bool" where
  "approval_current gw i a w \<longleftrightarrow>
     get_approval (gw_crypto gw) (de_data_key (gw_env gw)) i (wo_store w) = Inr (Some a)
     \<and> av_status a = ''approved'' \<and> wo_clock w (wo_ticks w) < av_expires a
     \<and> request_hash (gw_crypto gw) (av_request a) (approved_principal a) = av_hash a
     \<and> \<not> is_quarantined (wo_clock w (Suc (wo_ticks w))) (av_tenant a) (av_agent a) (wo_store w)
     \<and> (\<exists>contexts fs e w1 w2. both_contexts gw (av_request a) (approved_principal a) w1 = (Inr (Some (contexts, fs)), w2)
          \<and> wo_store w1 = wo_store w
          \<and> evaluate (gw_policy gw) (av_request a) (approved_principal a) contexts
               (scan_secrets (gw_crypto gw) (JDict (tc_arguments (av_request a))) ''$'') fs = Inr e
          \<and> ev_decision e \<noteq> DENY \<and> integrity_holds gw (av_request a) True w2)"

lemma approval_read:
  assumes "get_approval cr key i st = Inr (Some a)" shows "av_id a = i \<and> status_of i st = Some (av_status a)"
proof -
  obtain row where row: "select_one (\<lambda>r. ap_id r = i) (approvals st) = Some row" "approval_from_row cr key row = Inr a"
    using assms by (auto simp: get_approval_def ebind_Inr_iff split: option.splits)
  have "ap_id row = i" using select_one_Some [OF row(1)] by simp
  then show ?thesis using row by (auto simp: status_of_def approval_from_row_def ebind_Inr_iff split: option.splits)
qed

lemma current_policy_invokes:
  assumes run: "current_policy gw a contexts fs w = (r, w')" and i: "wo_invoked w' \<noteq> wo_invoked w"
  shows "(\<exists>e. evaluate (gw_policy gw) (av_request a) (approved_principal a) contexts
            (scan_secrets (gw_crypto gw) (JDict (tc_arguments (av_request a))) ''$'') fs = Inr e \<and> ev_decision e \<noteq> DENY)
    \<and> integrity_holds gw (av_request a) True w
    \<and> status_of (av_id a) (wo_store w') = Some ''consumed''
    \<and> \<not> claimed (tc_request_id (av_request a)) (wo_store w) \<and> claimed (tc_request_id (av_request a)) (wo_store w')
    \<and> ran_once gw (av_request a) w w'"
proof -
  let ?call = "av_request a" let ?agent = "approved_principal a"
  let ?ev = "evaluate (gw_policy gw) ?call ?agent contexts (scan_secrets (gw_crypto gw) (JDict (tc_arguments ?call)) ''$'') fs"
  obtain e where e: "?ev = Inr e" using run i
    by (cases ?ev) (auto simp: current_policy_def Let_def andthen_def lift_run simp del: scan_secrets.simps)
  obtain x w1 where m: "apply_mcp_integrity gw ?call e w = (x, w1)" by force
  have w1: "wo_invoked w1 = wo_invoked w" "stepped (gw_env gw) w w1"
    using calm_same [OF calm.keeps_integrity m] steps.keepsD [OF steps.keeps_integrity m] by auto
  obtain current where c: "x = Inr current"
    using run i w1 e m by (cases x) (auto simp: current_policy_def Let_def andthen_def lift_run simp del: scan_secrets.simps)
  have rest: "(if ev_decision current = DENY then
        andthen (audit (gw_env gw) ''approved_execution_blocked_by_current_policy''
          [(''approval_id'', JStr (av_id a)), (''reasons'', jstrs (ev_reasons current))]) (\<lambda>_.
        ret (Some (result_of ?call ''blocked_by_current_policy'' None)))
      else andthen tick (\<lambda>now. andthen (db (consume_approval now (av_id a))) (\<lambda>consumed.
        if \<not> consumed then ret None
        else andthen (execute_authorized gw ?call ?agent (av_hash a) None) (\<lambda>r. ret (Some r))))) w1 = (r, w')"
    using run e m c by (simp add: current_policy_def Let_def andthen_def [of "lift z" for z] lift_run andthen_def
        [of "apply_mcp_integrity gw ?call e"] del: scan_secrets.simps)
  have blocked: "calm.keeps (gw_env gw) (andthen (audit (gw_env gw) ''approved_execution_blocked_by_current_policy''
          [(''approval_id'', JStr (av_id a)), (''reasons'', jstrs (ev_reasons current))]) (\<lambda>_.
        ret (Some (result_of ?call ''blocked_by_current_policy'' None))))"
    by (intro calm.run_rules)
  have nd: "ev_decision current \<noteq> DENY" using rest calm_same [OF blocked] i w1(1) by (auto split: if_splits)
  let ?c = "consume_approval (wo_clock w1 (wo_ticks w1)) (av_id a) (wo_store w1)"
  let ?w2 = "w1\<lparr>wo_ticks := Suc (wo_ticks w1), wo_store := snd ?c\<rparr>"
  have rest2: "(if \<not> fst ?c then ret None else andthen (execute_authorized gw ?call ?agent (av_hash a) None) (\<lambda>r. ret (Some r))) ?w2 = (r, w')"
    using rest nd by (simp add: andthen_tick andthen_db)
  have fst: "fst ?c" using rest2 i w1(1) by (auto simp: ret_run split: if_splits)
  obtain y where x: "execute_authorized gw ?call ?agent (av_hash a) None ?w2 = (y, w')"
    using rest2 fst by (auto simp: andthen_def ret_run split: prod.splits sum.splits)
  have au: "\<not> claimed (tc_request_id ?call) (wo_store ?w2)" "claimed (tc_request_id ?call) (wo_store w')" "ran_once gw ?call ?w2 w'"
    using authorized_invokes [OF refl x] i w1(1) by simp_all
  have consumed: "status_of (av_id a) (snd ?c) = Some ''consumed''"
    using consume_status [of "wo_clock w1 (wo_ticks w1)" "av_id a" "wo_store w1" True "snd ?c" "av_id a"] fst by (metis prod.collapse)
  have kept: "protections_kept (snd ?c) (wo_store w')"
    using steps.keepsD [OF steps.keeps_authorized [OF refl] x] steps_kept by (simp add: stepped_def)
  have "claimed j (wo_store w) \<Longrightarrow> claimed j (wo_store ?w2)" for j
    using stepped_claimed [OF w1(2)] by (simp add: claimed_def consume_approval_def split: option.splits)
  moreover have "e = current \<or> ev_decision e \<noteq> DENY"
    using integrity_denies [of e gw ?call w] m c by auto
  moreover have "integrity_holds gw ?call True w"
    using integrity_checked [of gw ?call e w current w1] m c nd by (auto simp: integrity_holds_def Let_def)
  ultimately show ?thesis
    using e nd au consumed kept w1(1) by (auto simp: ran_once_def protections_kept_def final_status_def simp del: scan_secrets.simps)
qed

lemma approved_invokes:
  assumes run: "execute_approved gw i w = (r, w')" and inv: "wo_invoked w' \<noteq> wo_invoked w"
  shows "\<exists>a. approval_current gw i a w \<and> status_of i (wo_store w') = Some ''consumed''
    \<and> \<not> claimed (tc_request_id (av_request a)) (wo_store w) \<and> claimed (tc_request_id (av_request a)) (wo_store w')
    \<and> ran_once gw (av_request a) w w'"
proof -
  let ?g = "get_approval (gw_crypto gw) (de_data_key (gw_env gw)) i (wo_store w)"
  have fail: "integrity_failure gw j v = (q, v') \<Longrightarrow> wo_invoked v' = wo_invoked v" for j v q v'
    using calm_same [OF calm.keeps_integrity_failure [OF refl]] .
  have fixed: "ret x v = (q, v') \<Longrightarrow> wo_invoked v' = wo_invoked v" for x :: "execution_result option" and v q v'
    by (auto simp: ret_run)
  have read: "read_approval gw i w = (case ?g of Inr x \<Rightarrow> (Inr (Some x), w)
      | Inl e \<Rightarrow> (case e of StorageIntegrityError m \<Rightarrow> (Inr None, w) | _ \<Rightarrow> (Inl e, w)))"
    by (simp add: read_approval_def catching_def andthen_def query_def lift_def ret_def raise_def split: sum.split exc.split)
  obtain a where a: "?g = Inr (Some a)"
    using run inv fail fixed
    by (fastforce simp: execute_approved_def andthen_def read split: sum.splits exc.splits option.splits)
  let ?w1 = "w\<lparr>wo_ticks := Suc (wo_ticks w)\<rparr>" let ?w2 = "w\<lparr>wo_ticks := Suc (Suc (wo_ticks w))\<rparr>"
  have ai: "av_id a = i" using approval_read [OF a] by simp
  have g1: "av_status a = ''approved''"
    using run inv by (auto simp: execute_approved_def andthen_def [of "read_approval gw i"] read a ret_run split: if_splits)
  have g2: "wo_clock w (wo_ticks w) < av_expires a"
    using run inv g1
    by (auto simp: execute_approved_def andthen_def [of "read_approval gw i"] read a ret_run andthen_tick not_le [symmetric] split: if_splits)
  have g3: "request_hash (gw_crypto gw) (av_request a) (approved_principal a) = av_hash a"
    using run inv g1 g2 fail [of "av_id a" ?w1]
    by (auto simp: execute_approved_def andthen_def [of "read_approval gw i"] read a andthen_tick split: if_splits)
  let ?q = "is_quarantined (wo_clock w (Suc (wo_ticks w))) (av_tenant a) (av_agent a) (wo_store w)"
  have rest: "(if ?q then ret (Some (result_of (av_request a) ''agent_quarantined'' None))
           else andthen (both_contexts gw (av_request a) (approved_principal a)) (\<lambda>ctx. case ctx of
               None \<Rightarrow> ret (Some (result_of (av_request a) ''provenance_expired_or_invalid'' None))
             | Some (contexts, field_prov) \<Rightarrow> current_policy gw a contexts field_prov)) ?w2 = (r, w')"
    using run g1 g2 g3 by (simp add: execute_approved_def andthen_def [of "read_approval gw i"] read a andthen_tick andthen_query)
  have g4: "\<not> ?q" using rest inv by (auto simp: ret_run split: if_splits)
  obtain x w3 where b: "both_contexts gw (av_request a) (approved_principal a) ?w2 = (x, w3)" by force
  have w3: "wo_invoked w3 = wo_invoked w" "wo_store w3 = wo_store w"
    using dry.keepsD [OF dry_both b] by (simp_all add: untouched_def)
  have "\<exists>contexts fs. x = Inr (Some (contexts, fs))"
    using rest g4 b w3(1) inv by (auto simp: andthen_def ret_run split: sum.splits option.splits)
  then obtain contexts fs where x: "x = Inr (Some (contexts, fs))" by blast
  have cp: "current_policy gw a contexts fs w3 = (r, w')" using rest g4 b x by (simp add: andthen_def)
  have "wo_invoked w' \<noteq> wo_invoked w3" using inv w3(1) by simp
  note f = current_policy_invokes [OF cp this]
  have "wo_store ?w2 = wo_store w" by simp
  then have "approval_current gw i a w" unfolding approval_current_def using a g1 g2 g3 g4 b x f by blast
  then show ?thesis using f ai w3 by (auto simp: ran_once_def)
qed

section \<open>Once per request\<close>

text \<open>The request that an operation would execute.\<close>

fun request_of :: "gateway \<Rightarrow> gateway_op \<Rightarrow> world \<Rightarrow> string" where
  "request_of gw (Execute call agent) w = tc_request_id call"
| "request_of gw (Execute_Approved i) w = (case get_approval (gw_crypto gw) (de_data_key (gw_env gw)) i (wo_store w) of
      Inr (Some a) \<Rightarrow> tc_request_id (av_request a) | _ \<Rightarrow> [])"
| "request_of gw _ w = []"

text \<open>The request ids of the operations of a run that invoked a handler.\<close>

fun invocations :: "gateway \<Rightarrow> gateway_op list \<Rightarrow> world \<Rightarrow> string list" where
  "invocations gw [] w = []"
| "invocations gw (op # ops) w =
     (if wo_invoked (perform gw op w) = wo_invoked w then [] else [request_of gw op w])
       @ invocations gw ops (perform gw op w)"

lemma perform_invokes:
  assumes "wo_invoked (perform gw op w) \<noteq> wo_invoked w"
  shows "\<not> claimed (request_of gw op w) (wo_store w) \<and> claimed (request_of gw op w) (wo_store (perform gw op w))
    \<and> length (wo_invoked (perform gw op w)) = Suc (length (wo_invoked w))"
proof (cases op)
  case (Evaluate call agent)
  then show ?thesis
    using assms calm_same [OF calm.keeps_evaluate [OF refl], of gw call agent True w] by (metis perform.simps(1) surjective_pairing)
next
  case (Execute call agent)
  obtain r w' where e: "execute_call gw call agent w = (r, w')" by force
  with Execute show ?thesis using execute_invokes [OF e] assms by (auto simp: ran_once_def)
next
  case (Execute_Approved i)
  obtain r w' where e: "execute_approved gw i w = (r, w')" by force
  with Execute_Approved show ?thesis using approved_invokes [OF e] assms by (auto simp: ran_once_def approval_current_def)
next
  case (Simulate r)
  then show ?thesis using assms dry_simulate [of gw r] by (simp add: dry.keeps_def untouched_def)
next
  case (Replay_Policy other limit)
  then show ?thesis using assms dry_replay [of gw other limit] by (simp add: dry.keeps_def untouched_def)
qed

lemma invocations_new: "i \<in> set (invocations gw ops w) \<Longrightarrow> \<not> claimed i (wo_store w)"
proof (induction ops arbitrary: w)
  case (Cons op ops)
  show ?case
    using Cons perform_invokes [of gw op w] stepped_claimed [OF perform_stepped, of i w gw op] by (auto split: if_splits)
qed simp

lemma invocations_once:
  "distinct (invocations gw ops w) \<and>
   length (wo_invoked (run_gateway gw ops w)) = length (wo_invoked w) + length (invocations gw ops w)"
proof (induction ops arbitrary: w)
  case (Cons op ops)
  show ?case
    using Cons [of "perform gw op w"] perform_invokes [of gw op w] invocations_new [of "request_of gw op w" gw ops "perform gw op w"]
    by auto
qed simp

end
