(* ===== verification/Gateway_Liveness.thy ===== *)
theory Gateway_Liveness
  imports Gateway_Safety
begin

text \<open>
  The converse of the safety of executions: a call that nothing stands against is executed. What may
  stand against it is listed as conditions on the world: containments, the rate of the agent, the
  provenance, the policy, the definition of the tool, the egress budget, and an earlier claim of the
  request id. The first two and the provenance are taken at the readings of the clock that the
  evaluation takes, the others whenever the clock is read.
\<close>

section \<open>What may stand against a call\<close>

text \<open>No containment or quarantine in force refuses the call, and the agent has requests left in the last minute.\<close>

definition unhindered :: "gateway \<Rightarrow> tool_call \<Rightarrow> agent_principal \<Rightarrow> world \<Rightarrow> bool" where
  "unhindered gw call agent w \<longleftrightarrow>
     containment_refusal gw call (active_containment (wo_clock w (wo_ticks w)) (pr_tenant_id agent) (pr_agent_id agent) (wo_store w)) = None
     \<and> \<not> is_quarantined (wo_clock w (Suc (wo_ticks w))) (pr_tenant_id agent) (pr_agent_id agent) (wo_store w)
     \<and> int (length (filter (\<lambda>e. be_tenant e = pr_tenant_id agent \<and> be_agent e = pr_agent_id agent
           \<and> recent (wo_clock w (Suc (Suc (wo_ticks w))) - seconds 60) e) (rate_events (wo_store w))))
         < opt (df_requests_per_minute (defaults gw)) 60"

text \<open>The tokens of the call verify and bind its fields: this is what the evaluation reads of its provenance.\<close>

definition resolves :: "gateway \<Rightarrow> tool_call \<Rightarrow> agent_principal \<Rightarrow> world \<Rightarrow> verified_provenance list \<Rightarrow>
    (string, field_taint list) dict \<Rightarrow> bool" where
  "resolves gw call agent w contexts fs \<longleftrightarrow>
     fst (both_contexts gw call agent (w\<lparr>wo_ticks := wo_ticks w + 3\<rparr>)) = Inr (Some (contexts, fs))"

text \<open>The tool's definition is in order whenever the clock is read.\<close>

definition always_vetted :: "gateway \<Rightarrow> tool_call \<Rightarrow> world \<Rightarrow> bool" where
  "always_vetted gw call w \<longleftrightarrow> (\<forall>n. integrity_holds gw call False (w\<lparr>wo_ticks := n\<rparr>))"

text \<open>A call to an egress tool is within both budgets and follows no sensitive read of its trace.\<close>

definition within_budget :: "gateway \<Rightarrow> tool_call \<Rightarrow> agent_principal \<Rightarrow> world \<Rightarrow> bool" where
  "within_budget gw call agent w \<longleftrightarrow> (is_egress gw call \<longrightarrow> egress_size call \<le> single_budget gw call
     \<and> (\<forall>n. egress_allowed (wo_clock w n) (pr_tenant_id agent) (pr_agent_id agent) (egress_size call) (hourly_budget gw call) (wo_store w)
          \<and> \<not> trace_has_category (wo_clock w n) (pr_tenant_id agent) (pr_agent_id agent) (tc_trace_id call) ''sensitive_read'' 900 (wo_store w)))"

definition executable :: "gateway \<Rightarrow> tool_call \<Rightarrow> (string, json) dict \<Rightarrow> bool" where
  "executable gw call args \<longleftrightarrow> map_of (gw_registry gw) (tc_tool_name call) \<noteq> None
     \<and> validate_arguments (gw_schemas gw) (gw_registry gw) (tc_tool_name call) (tc_arguments call) = Inr args"

section \<open>What the parts of an evaluation leave alone\<close>

text \<open>No operation of the gateway changes the clock.\<close>

interpretation clocked: gateway_relation "\<lambda>w w'. wo_clock w' = wo_clock w" env for env
  by unfold_locales auto

text \<open>The provenance of a call reads nothing of the store but the lineage.\<close>

definition same_sources :: "world \<Rightarrow> world \<Rightarrow> bool" where
  "same_sources w v \<longleftrightarrow> lineage_events (wo_store v) = lineage_events (wo_store w) \<and> wo_clock v = wo_clock w \<and> wo_ticks v = wo_ticks w"

definition agrees :: "'a io \<Rightarrow> bool" where
  "agrees m \<longleftrightarrow> (\<forall>w v. same_sources w v \<longrightarrow> fst (m w) = fst (m v) \<and> same_sources (snd (m w)) (snd (m v)))"

lemma agrees_basic: "agrees (ret x)" "agrees (raise e)" "agrees (lift r)" "agrees tick"
  by (simp_all add: agrees_def ret_run raise_run lift_run tick_def same_sources_def)

lemma agrees_query: "(\<And>st st'. lineage_events st = lineage_events st' \<Longrightarrow> q st = q st') \<Longrightarrow> agrees (query q)"
  unfolding agrees_def same_sources_def query_run fst_conv snd_conv by metis

lemma agrees_andthen:
  assumes "agrees m" "\<And>x. agrees (f x)" shows "agrees (andthen m f)"
  unfolding agrees_def
proof (intro allI impI)
  fix w v assume s: "same_sources w v"
  obtain r w1 v1 where m: "m w = (r, w1)" "m v = (r, v1)" "same_sources w1 v1"
    using assms(1) [unfolded agrees_def, rule_format, OF s] that [of "fst (m v)" "snd (m w)" "snd (m v)"] by (simp add: prod_eq_iff)
  show "fst (andthen m f w) = fst (andthen m f v) \<and> same_sources (snd (andthen m f w)) (snd (andthen m f v))"
  proof (cases r)
    case (Inr x)
    have "fst (f x w1) = fst (f x v1) \<and> same_sources (snd (f x w1)) (snd (f x v1))"
      using assms(2) [of x] m(3) by (simp add: agrees_def)
    then show ?thesis by (simp add: andthen_def m(1,2) Inr)
  qed (simp add: andthen_def m)
qed

lemma agrees_catching:
  assumes "agrees m" "\<And>e. agrees (h e)" shows "agrees (catching m h)"
  unfolding agrees_def
proof (intro allI impI)
  fix w v assume s: "same_sources w v"
  obtain r w1 v1 where m: "m w = (r, w1)" "m v = (r, v1)" "same_sources w1 v1"
    using assms(1) [unfolded agrees_def, rule_format, OF s] that [of "fst (m v)" "snd (m w)" "snd (m v)"] by (simp add: prod_eq_iff)
  show "fst (catching m h w) = fst (catching m h v) \<and> same_sources (snd (catching m h w)) (snd (catching m h v))"
  proof (cases r)
    case (Inl e)
    have "fst (h e w1) = fst (h e v1) \<and> same_sources (snd (h e w1)) (snd (h e v1))"
      using assms(2) [of e] m(3) by (simp add: agrees_def)
    then show ?thesis by (simp add: catching_def m(1,2) Inl)
  qed (simp add: catching_def m)
qed

lemma agrees_if: "(c \<Longrightarrow> agrees m) \<Longrightarrow> (\<not> c \<Longrightarrow> agrees n) \<Longrightarrow> agrees (if c then m else n)"
  and agrees_option: "agrees n \<Longrightarrow> (\<And>x. agrees (s x)) \<Longrightarrow> agrees (case v of None \<Rightarrow> n | Some x \<Rightarrow> s x)"
  and agrees_prod: "(\<And>a b. agrees (g a b)) \<Longrightarrow> agrees (case p of (a, b) \<Rightarrow> g a b)"
  by (simp_all split: option.split prod.split)

lemma agrees_each: assumes "\<And>x. agrees (f x)" shows "agrees (each f xs)"
proof (induction xs)
  case (Cons x xs)
  show ?case unfolding each.simps by (intro agrees_andthen assms Cons agrees_basic)
qed (simp add: agrees_basic)

lemmas agree_rules = agrees_andthen agrees_catching agrees_each agrees_if agrees_option agrees_prod agrees_basic

lemma agrees_references: "agrees (bind_references gw call tenant v refs cache bound)"
proof (induction refs arbitrary: cache bound)
  case (Cons r rs)
  show ?case unfolding bind_references.simps cached_token_def by (intro agree_rules Cons)
qed (simp add: agrees_basic)

lemma agrees_bind: "agrees (bind_fields gw call tenant d cache result)"
proof (induction d arbitrary: cache result)
  case (Cons e d)
  obtain p refs where "e = (p, refs)" by force
  then show ?case by (simp only: bind_fields.simps) (intro agree_rules agrees_references Cons)
qed (simp add: agrees_basic)

lemma agrees_both: "agrees (both_contexts gw call agent)"
proof -
  have l: "trace_summary t a i st = trace_summary t a i st'" "recent_agent_lineage n t a s st = recent_agent_lineage n t a s st'"
    if "lineage_events st = lineage_events st'" for t a i n s st st'
    using that by (simp_all add: trace_summary_def trace_records_def list_lineage_def recent_agent_lineage_def Let_def)
  have p: "agrees (provenance_contexts gw call agent)"
    unfolding provenance_contexts_def verify_tokens_def Let_def by (intro agree_rules agrees_query l)
  have f: "agrees (field_contexts gw call agent)"
    unfolding field_contexts_def by (intro agree_rules agrees_bind)
  show ?thesis unfolding both_contexts_def by (intro agree_rules p f) (auto simp: agrees_basic split: exc.split)
qed

lemma contexts_resolved:
  assumes "resolves gw call agent w contexts fs" "lineage_events st = lineage_events (wo_store w)"
  shows "\<exists>w2. both_contexts gw call agent (w\<lparr>wo_ticks := wo_ticks w + 3, wo_store := st\<rparr>) = (Inr (Some (contexts, fs)), w2)
    \<and> wo_store w2 = st \<and> wo_invoked w2 = wo_invoked w \<and> wo_clock w2 = wo_clock w"
proof -
  let ?w1 = "w\<lparr>wo_ticks := wo_ticks w + 3, wo_store := st\<rparr>"
  obtain r w2 where b: "both_contexts gw call agent ?w1 = (r, w2)" by force
  have "same_sources (w\<lparr>wo_ticks := wo_ticks w + 3\<rparr>) ?w1" using assms(2) by (simp add: same_sources_def)
  then have "r = Inr (Some (contexts, fs))"
    using agrees_both [of gw call agent] b assms(1) unfolding agrees_def resolves_def by (metis fst_conv)
  then show ?thesis
    using b dry.keepsD [OF dry_both b] clocked.keepsD [OF clocked.keeps_both b] by (simp add: untouched_def)
qed

section \<open>Evaluation\<close>

lemma snapshot_recorded: "record_policy_snapshot cr key nonce i now (snapshot_of call agent contexts fs findings d t) st =
   Inr (st\<lparr>policy_snapshots := keep_newest snapshot_limit (policy_snapshots st @ [new_snapshot cr key nonce i now (snapshot_of call agent contexts fs findings d t)
     (pr_tenant_id agent) (pr_agent_id agent) (tc_trace_id call) (tc_tool_name call)])\<rparr>)"
  by (simp add: record_policy_snapshot_def snapshot_of_def text_at_def dict_at_def call_json_def)

text \<open>An observation never raises and is advisory, so recording an allowing decision claims nothing, spends no egress and runs no tool.\<close>

definition unspent :: "world \<Rightarrow> world \<Rightarrow> bool" where
  "unspent w w' \<longleftrightarrow> executions (wo_store w') = executions (wo_store w) \<and> egress_events (wo_store w') = egress_events (wo_store w)
     \<and> wo_invoked w' = wo_invoked w \<and> wo_clock w' = wo_clock w"

interpretation thrifty: preserving unspent
  by unfold_locales (auto simp: unspent_def)

lemma view_tables:
  assumes "enforcement_view st' = enforcement_view st"
  shows "executions st' = executions st" "egress_events st' = egress_events st"
proof -
  have "executions (enforcement_view st) = executions st" "egress_events (enforcement_view st) = egress_events st" for st
    by (simp_all add: enforcement_view_def)
  then show "executions st' = executions st" "egress_events st' = egress_events st" using assms by metis+
qed

lemma observed_returns:
  "\<exists>w'. observed_safely gw ''watch_observation_failed'' call agent (\<lambda>wv. observe_gateway_call (gw_env gw) wv call agent d) w = (Inr (), w')
     \<and> unspent w w'"
proof (cases "gw_watch gw")
  case None
  then show ?thesis by (simp add: observed_safely_def ret_run unspent_def)
next
  case (Some wv)
  let ?m = "observe_gateway_call (gw_env gw) wv call agent d"
  obtain r w1 where m: "?m w = (r, w1)" by force
  have a: "unspent w w1"
  proof -
    have "advisory w w1" using adv.keepsD [OF wadv.keeps_observe_gateway_call m] .
    moreover have "wo_clock w1 = wo_clock w" using clocked.keepsD [OF clocked.watch.keeps_observe_gateway_call m] .
    ultimately show ?thesis by (auto simp: advisory_def unspent_def dest: view_tables)
  qed
  show ?thesis
  proof (cases r)
    case (Inr x)
    then show ?thesis using m a by (simp add: observed_safely_def Some catching_def andthen_def ret_run)
  next
    case (Inl e)
    then show ?thesis using m a
      by (simp add: observed_safely_def Some catching_def andthen_def [of ?m] andthen_audit ret_run unspent_def append_audit_def Let_def)
  qed
qed

lemma finalize_returns:
  assumes "ev_decision r \<noteq> DENY"
  shows "\<exists>d w1. finalize gw call agent digest r findings i q True w = (Inr d, w1) \<and> pd_decision d = ev_decision r \<and> unspent w w1"
proof -
  have "\<not> counts_as_violation gw r" using assms by (simp add: counts_as_violation_def)
  then obtain j w1 where r: "andthen tick (\<lambda>now. andthen (db (\<lambda>st. ((), record_action now (pr_tenant_id agent) (pr_agent_id agent) (tc_trace_id call)
              (tc_tool_name call) (opt (Option.bind (tool_config (gw_policy gw) (tc_tool_name call)) tl_category) ''other'')
              (decision_value (ev_decision r)) st))) (\<lambda>_.
          andthen (if counts_as_violation gw r then punish gw call agent r else ret False) (\<lambda>punished.
          andthen (audit (gw_env gw) ''policy_decision''
              (decision_payload call agent digest r findings i (q \<or> punished))) (\<lambda>i.
          ret (i, q \<or> punished))))) w = (Inr (j, q), w1)" "unspent w w1"
    by (simp add: andthen_tick andthen_db andthen_audit ret_run record_action_def append_audit_def Let_def unspent_def)
  let ?d = "\<lparr>pd_request_id = tc_request_id call, pd_request_hash = digest, pd_agent_id = pr_agent_id agent,
     pd_tenant_id = pr_tenant_id agent, pd_decision = ev_decision r, pd_reasons = ev_reasons r, pd_risk = ev_risk r,
     pd_policy_version = ev_version r, pd_findings = findings, pd_approval_id = i, pd_audit_event_id = j, pd_quarantined = q,
     pd_mode = gw_mode gw, pd_enforced = (gw_mode gw \<noteq> OBSERVE)\<rparr>"
  obtain w2 where o: "observed_safely gw ''watch_observation_failed'' call agent (\<lambda>wv. observe_gateway_call (gw_env gw) wv call agent ?d) w1
      = (Inr (), w2)" "unspent w1 w2"
    using observed_returns by blast
  have "finalize gw call agent digest r findings i q True w = (Inr ?d, w2)"
    using o(1) by (simp add: finalize_def andthen_def [of "andthen tick z" for z] r(1) Let_def
      andthen_def [of "observed_safely a b c d e" for a b c d e] ret_run)
  then show ?thesis using r(2) o(2) thrifty.rel_trans by (intro exI [of _ ?d]) auto
qed

lemma integrity_passes:
  assumes "integrity_holds gw call False w" "ev_decision r = ALLOW"
  shows "\<exists>n. apply_mcp_integrity gw call r w = (Inr r, w\<lparr>wo_ticks := n\<rparr>)"
proof (cases "nonempty (tc_mcp_server_id call)")
  case None
  have "apply_mcp_integrity gw call r w = (Inr r, w\<lparr>wo_ticks := wo_ticks w\<rparr>)"
    using assms None by (auto simp: apply_mcp_integrity_def integrity_holds_def Let_def ret_run)
  then show ?thesis by blast
next
  case (Some s)
  have "apply_mcp_integrity gw call r w = (Inr r, w\<lparr>wo_ticks := Suc (wo_ticks w)\<rparr>)"
    using assms Some by (auto simp: apply_mcp_integrity_def integrity_holds_def Let_def ret_run andthen_query andthen_tick)
  then show ?thesis by blast
qed

lemma egress_passes:
  assumes "within_budget gw call agent w" "ev_decision r = ALLOW" "wo_clock v = wo_clock w"
    "egress_events (wo_store v) = egress_events (wo_store w)" "action_events (wo_store v) = action_events (wo_store w)"
  shows "\<exists>n. egress_checked gw call agent True r v = (Inr r, v\<lparr>wo_ticks := n\<rparr>)"
proof (cases "is_egress gw call")
  case False
  then have "egress_checked gw call agent True r v = (Inr r, v\<lparr>wo_ticks := wo_ticks v\<rparr>)" by (simp add: egress_checked_def ret_run)
  then show ?thesis by blast
next
  case True
  have "egress_size call \<le> single_budget gw call"
    and "egress_allowed (wo_clock v n) (pr_tenant_id agent) (pr_agent_id agent) (egress_size call) (hourly_budget gw call) (wo_store v)"
    and "\<not> trace_has_category (wo_clock v n) (pr_tenant_id agent) (pr_agent_id agent) (tc_trace_id call) ''sensitive_read'' 900 (wo_store v)" for n
    using assms True by (simp_all add: within_budget_def egress_allowed_def trace_has_category_def)
  then have "egress_checked gw call agent True r v = (Inr r, v\<lparr>wo_ticks := Suc (Suc (wo_ticks v))\<rparr>)"
    using assms(2) True by (simp add: egress_checked_def andthen_tick andthen_query ret_run not_less)
  then show ?thesis by blast
qed

lemma policy_runs:
  assumes p: "permits (gw_policy gw) call agent contexts findings fs" and x: "executable gw call args"
    and i: "integrity_holds gw call False v" and b: "within_budget gw call agent w" and v: "wo_clock v = wo_clock w"
    "egress_events (wo_store v) = egress_events (wo_store w)" "action_events (wo_store v) = action_events (wo_store w)"
  shows "\<exists>d w1. evaluate_policy gw call agent digest True True findings contexts fs v = (Inr d, w1) \<and> pd_decision d = ALLOW \<and> unspent v w1"
proof -
  obtain r where r: "evaluate (gw_policy gw) call agent contexts findings fs = Inr r" "ev_decision r = ALLOW"
    using p evaluate_allow [of "gw_policy gw" call agent contexts findings fs] by (auto simp: allowed_def split: sum.splits)
  obtain n where n: "apply_mcp_integrity gw call r v = (Inr r, v\<lparr>wo_ticks := n\<rparr>)" using integrity_passes [OF i r(2)] by blast
  obtain m where m: "egress_checked gw call agent True r (v\<lparr>wo_ticks := n\<rparr>) = (Inr r, v\<lparr>wo_ticks := m\<rparr>)"
    using egress_passes [OF b r(2), of "v\<lparr>wo_ticks := n\<rparr>"] v by auto
  obtain w2 where s: "snapshot_taken gw call agent contexts fs findings ALLOW (v\<lparr>wo_ticks := m\<rparr>) = (Inr (), w2)" "unspent v w2"
    by (simp add: snapshot_taken_def andthen_tick andthen_id andthen_nonce db_exc_def snapshot_recorded unspent_def)
  obtain d w1 where f: "finalize gw call agent digest r findings None False True w2 = (Inr d, w1)" "pd_decision d = ALLOW" "unspent w2 w1"
    using finalize_returns [of r gw call agent digest findings None False w2] r(2) by auto
  have c: "validated_call gw call r = r" using x r(2) by (simp add: validated_call_def executable_def)
  have "evaluate_policy gw call agent digest True True findings contexts fs v = (Inr d, w1)"
    using f(1) s(1) by (simp add: evaluate_policy_def andthen_def [of "lift z" for z] r lift_run
      andthen_def [of "apply_mcp_integrity a b c" for a b c] n c andthen_def [of "egress_checked a b c d e" for a b c d e] m
      approval_requested_def ret_run andthen_def [of "snapshot_taken a b c d e f g" for a b c d e f g])
  then show ?thesis using f(2,3) s(2) thrifty.rel_trans by blast
qed

lemma unhindered_evaluated:
  assumes o: "gw_mode gw \<noteq> OBSERVE" and u: "unhindered gw call agent w" and c: "resolves gw call agent w contexts fs"
    and p: "permits (gw_policy gw) call agent contexts (scan_secrets (gw_crypto gw) (JDict (tc_arguments call)) ''$'') fs"
    and x: "executable gw call args" and v: "always_vetted gw call w" and b: "within_budget gw call agent w"
  shows "\<exists>d w1. evaluate_call gw call agent True w = (Inr d, w1) \<and> pd_decision d = ALLOW \<and> unspent w w1"
proof -
  let ?fs = "scan_secrets (gw_crypto gw) (JDict (tc_arguments call)) ''$''" and ?d = "request_hash (gw_crypto gw) call agent"
  let ?w = "w\<lparr>wo_ticks := Suc (Suc (wo_ticks w))\<rparr>"
  let ?rate = "rate_allowed (wo_clock w (Suc (Suc (wo_ticks w)))) (pr_tenant_id agent) (pr_agent_id agent)
      (opt (df_requests_per_minute (defaults gw)) 60) 60 (wo_store w)"
  let ?w1 = "w\<lparr>wo_ticks := wo_ticks w + 3, wo_store := snd ?rate\<rparr>"
  have kept: "filter (\<lambda>x. recent c x \<and> A x \<and> B x \<and> recent c x) es = filter (\<lambda>x. A x \<and> B x \<and> recent c x) es" for c A B and es :: "budget_event list"
    by (rule filter_cong) auto
  have rate: "fst ?rate" "\<exists>es. snd ?rate = (wo_store w)\<lparr>rate_events := es\<rparr>"
    using u by (auto simp: unhindered_def rate_allowed_def Let_def kept)
  then have st: "lineage_events (snd ?rate) = lineage_events (wo_store w)" "executions (snd ?rate) = executions (wo_store w)"
    "egress_events (snd ?rate) = egress_events (wo_store w)" "action_events (snd ?rate) = action_events (wo_store w)"
    "mcp_tool_observations (snd ?rate) = mcp_tool_observations (wo_store w)"
    by auto
  have a: "admitted gw agent True ?w = (Inr True, ?w1)"
    using rate(1) by (simp add: admitted_def andthen_tick db_def eval_nat_numeral)
  obtain w2 where w2: "both_contexts gw call agent ?w1 = (Inr (Some (contexts, fs)), w2)" "wo_store w2 = snd ?rate"
      "wo_invoked w2 = wo_invoked w" "wo_clock w2 = wo_clock w"
    using contexts_resolved [OF c st(1)] by blast
  have i: "integrity_holds gw call False w2"
    using v st(5) w2(2,4) by (simp add: always_vetted_def integrity_holds_def Let_def get_mcp_tool_observation_def)
  obtain d w3 where e: "evaluate_policy gw call agent ?d True True ?fs contexts fs w2 = (Inr d, w3)" "pd_decision d = ALLOW" "unspent w2 w3"
    using policy_runs [OF p x i b w2(4), of ?d] st(3,4) w2(2) by auto
  have n: "contained gw call agent True w = (Inr None, ?w)"
    using u by (simp add: unhindered_def contained_def andthen_tick andthen_query ret_run)
  have "evaluate_call gw call agent True w = (Inr d, w3)"
    using e(1) o by (simp add: evaluate_call_def Let_def andthen_def [of "contained a b c d" for a b c d] n evaluate_uncontained_def
     andthen_def [of "admitted a b c" for a b c] a andthen_def [of "both_contexts a b c" for a b c] w2(1) del: scan_secrets.simps)
  moreover have "unspent w w2" using w2 st by (simp add: unspent_def)
  ultimately show ?thesis using e(2,3) thrifty.rel_trans by blast
qed

section \<open>Execution\<close>

lemma tool_invoked:
  assumes "executable gw call args"
  shows "\<exists>x. execute_tool (gw_schemas gw) (gw_registry gw) (tc_tool_name call) (tc_arguments call) w =
     (x, w\<lparr>wo_invoked := wo_invoked w @ [(tc_tool_name call, args)]\<rparr>)"
proof -
  obtain t where "map_of (gw_registry gw) (tc_tool_name call) = Some t"
    "validate_arguments (gw_schemas gw) (gw_registry gw) (tc_tool_name call) (tc_arguments call) = Inr args"
    using assms by (auto simp: executable_def)
  then show ?thesis
    by (cases "rt_handler t (wo_invoked w) args")
       (auto simp: execute_tool_def lift_def andthen_def catching_def invoke_def ret_def raise_def split: exc.split)
qed

lemma egress_reserved:
  assumes "within_budget gw call agent w" "wo_clock v = wo_clock w" "egress_events (wo_store v) = egress_events (wo_store w)"
  shows "\<exists>w'. reserved_egress gw call agent v = (Inr True, w') \<and> executions (wo_store w') = executions (wo_store v) \<and> wo_invoked w' = wo_invoked v"
proof (cases "is_egress gw call")
  case True
  let ?now = "wo_clock v (wo_ticks v)"
  have kept: "filter (\<lambda>x. recent c x \<and> A x \<and> B x \<and> recent c x) es = filter (\<lambda>x. A x \<and> B x \<and> recent c x) es" for c A B and es :: "budget_event list"
    by (rule filter_cong) auto
  have "egress_allowed ?now (pr_tenant_id agent) (pr_agent_id agent) (egress_size call) (hourly_budget gw call) (wo_store v)"
    using assms True by (simp add: within_budget_def egress_allowed_def)
  then have "fst (reserve_egress ?now (pr_tenant_id agent) (pr_agent_id agent) (egress_size call) (hourly_budget gw call) (wo_store v))"
    by (simp add: egress_allowed_def reserve_egress_def Let_def used_def kept)
  moreover have "executions (snd (reserve_egress n t a s l st)) = executions st" for n t a s l st
    by (simp add: reserve_egress_def Let_def)
  ultimately show ?thesis using True by (simp add: reserved_egress_def andthen_tick db_def)
qed (simp add: reserved_egress_def ret_run)

lemma authorized_runs:
  assumes x: "executable gw call args" and b: "within_budget gw call agent w" and n: "\<not> claimed (tc_request_id call) (wo_store v)"
    and v: "wo_clock v = wo_clock w" "egress_events (wo_store v) = egress_events (wo_store w)"
  shows "\<exists>r w'. execute_authorized gw call agent digest d v = (r, w') \<and> wo_invoked w' = wo_invoked v @ [(tc_tool_name call, args)]"
proof -
  let ?c = "claim_execution (wo_clock v (wo_ticks v)) (tc_request_id call) digest (wo_store v)"
  let ?v = "v\<lparr>wo_ticks := Suc (wo_ticks v), wo_store := snd ?c\<rparr>"
  have c: "fst ?c" using n by (auto simp: claim_execution_def claimed_def list_ex_iff) (metis image_eqI)
  have "egress_events (snd ?c) = egress_events (wo_store v)" by (simp add: claim_execution_def)
  then obtain u where u: "reserved_egress gw call agent ?v = (Inr True, u)" "wo_invoked u = wo_invoked v"
    using egress_reserved [OF b, of ?v] v by auto
  let ?u = "u\<lparr>wo_ticks := Suc (wo_ticks u)\<rparr>"
  obtain r w' where a: "attempt gw call agent digest d (wo_clock u (wo_ticks u)) ?u = (r, w')" by force
  have "execute_authorized gw call agent digest d v = (r, w')"
    using a c by (simp add: execute_authorized_def execute_claimed_def andthen_tick andthen_db
      andthen_def [of "reserved_egress a b c" for a b c] u(1))
  moreover have "wo_invoked w' = wo_invoked v @ [(tc_tool_name call, args)]"
  proof -
    obtain y where t: "execute_tool (gw_schemas gw) (gw_registry gw) (tc_tool_name call) (tc_arguments call) ?u =
       (y, ?u\<lparr>wo_invoked := wo_invoked ?u @ [(tc_tool_name call, args)]\<rparr>)"
      using tool_invoked [OF x] by blast
    show ?thesis using attempt_same [OF refl a t] u(2) by simp
  qed
  ultimately show ?thesis by blast
qed

lemma unhindered_runs:
  assumes "gw_mode gw \<noteq> OBSERVE" "unhindered gw call agent w" "resolves gw call agent w contexts fs"
    "permits (gw_policy gw) call agent contexts (scan_secrets (gw_crypto gw) (JDict (tc_arguments call)) ''$'') fs"
    "executable gw call args" "always_vetted gw call w" "within_budget gw call agent w" "\<not> claimed (tc_request_id call) (wo_store w)"
  shows "\<exists>r w'. execute_call gw call agent w = (r, w') \<and> wo_invoked w' = wo_invoked w @ [(tc_tool_name call, args)]"
proof -
  obtain d w1 where e: "evaluate_call gw call agent True w = (Inr d, w1)" "pd_decision d = ALLOW" "unspent w w1"
    using unhindered_evaluated [OF assms(1-7)] by blast
  have s: "\<not> claimed (tc_request_id call) (wo_store w1)" "wo_clock w1 = wo_clock w" "egress_events (wo_store w1) = egress_events (wo_store w)"
    "wo_invoked w1 = wo_invoked w"
    using assms(8) e(3) by (simp_all add: claimed_def unspent_def)
  obtain r w' where "execute_authorized gw call agent (pd_request_hash d) (Some d) w1 = (r, w')"
      "wo_invoked w' = wo_invoked w @ [(tc_tool_name call, args)]"
    using authorized_runs [OF assms(5,7) s(1-3)] s(4) by fastforce
  then show ?thesis using e assms(1) by (simp add: execute_call_def andthen_def)
qed

section \<open>A call without provenance, of an agent without rows\<close>

definition quiet :: "agent_principal \<Rightarrow> world \<Rightarrow> bool" where
  "quiet agent w \<longleftrightarrow> list_all (\<lambda>c. \<not> (co_tenant c = pr_tenant_id agent \<and> co_agent c = pr_agent_id agent)) (containments (wo_store w))
     \<and> list_all (\<lambda>q. \<not> (qu_tenant q = pr_tenant_id agent \<and> qu_agent q = pr_agent_id agent)) (quarantines (wo_store w))
     \<and> list_all (\<lambda>e. \<not> (be_tenant e = pr_tenant_id agent \<and> be_agent e = pr_agent_id agent)) (rate_events (wo_store w))
     \<and> list_all (\<lambda>r. li_agent r \<noteq> pr_agent_id agent) (lineage_events (wo_store w))"

lemma quiet_free:
  assumes "quiet agent w"
  shows "active_containment n (pr_tenant_id agent) (pr_agent_id agent) (wo_store w) = None"
    "\<not> is_quarantined n (pr_tenant_id agent) (pr_agent_id agent) (wo_store w)"
proof -
  have "filter (\<lambda>c. co_tenant c = pr_tenant_id agent \<and> co_agent c = pr_agent_id agent \<and> containment_live k c) (containments (wo_store w)) = []" for k
    using assms by (auto simp: quiet_def list_all_iff filter_empty_conv)
  then show c: "active_containment n (pr_tenant_id agent) (pr_agent_id agent) (wo_store w) = None" for n
    by (simp add: active_containment_def newest_first_def)
  show "\<not> is_quarantined n (pr_tenant_id agent) (pr_agent_id agent) (wo_store w)"
    using assms c [of n] by (auto simp: is_quarantined_def quiet_def list_all_iff list_ex_iff quarantine_open_def)
qed

lemma quiet_unhindered:
  assumes "quiet agent w" "0 < opt (df_requests_per_minute (defaults gw)) 60"
  shows "unhindered gw call agent w"
proof -
  have "filter (\<lambda>e. be_tenant e = pr_tenant_id agent \<and> be_agent e = pr_agent_id agent \<and> recent c e) (rate_events (wo_store w)) = []" for c
    using assms(1) by (auto simp: quiet_def list_all_iff filter_empty_conv)
  then show ?thesis using quiet_free [OF assms(1)] assms(2) by (simp add: unhindered_def containment_refusal_def)
qed

lemma plain_contexts:
  assumes "tc_provenance_tokens call = []" "tc_field_provenance call = []"
    "list_all (\<lambda>r. li_agent r \<noteq> pr_agent_id agent) (lineage_events (wo_store w))"
  shows "both_contexts gw call agent w = (Inr (Some ([], [])), w\<lparr>wo_ticks := Suc (wo_ticks w)\<rparr>)"
proof -
  have kept: "li_agent (lineage_from_row r) = li_agent r" "li_tenant (lineage_from_row r) = li_tenant r" for r
    by (simp_all add: lineage_from_row_def)
  have age: "set (by_age rs) = set rs" for rs :: "lineage_row list" by (simp add: by_age_def)
  have "trace_records (pr_tenant_id agent) (pr_agent_id agent) i (wo_store w) = []" for i
    using assms(3) by (auto simp: trace_records_def list_lineage_def filter_empty_conv kept age list_all_iff given_def split: option.splits)
  then have "trace_summary (pr_tenant_id agent) (pr_agent_id agent) i (wo_store w) = Inr None" for i
    by (simp add: trace_summary_def Let_def)
  moreover have "recent_agent_lineage n (pr_tenant_id agent) (pr_agent_id agent) s (wo_store w) = []" for n s
  proof -
    have "filter (\<lambda>r. li_tenant r = pr_tenant_id agent \<and> li_agent r = pr_agent_id agent \<and> n - seconds s \<le> li_created r)
        (lineage_events (wo_store w)) = []"
      using assms(3) by (auto simp: filter_empty_conv list_all_iff)
    then show ?thesis by (simp add: recent_agent_lineage_def by_age_def)
  qed
  ultimately have "provenance_contexts gw call agent w = (Inr [], w\<lparr>wo_ticks := Suc (wo_ticks w)\<rparr>)"
    using assms(1) by (simp add: provenance_contexts_def verify_tokens_def andthen_query
      andthen_def [of "lift z" for z] lift_run andthen_tick ret_run Let_def)
  then show ?thesis
    using assms(2) by (simp add: both_contexts_def catching_def andthen_def [of "provenance_contexts x y z" for x y z] field_contexts_def
      ret_run)
qed

end
