(* ===== verification/Gateway_Demo.thy ===== *)
theory Gateway_Demo
  imports Gateway_Liveness
begin

text \<open>
  A small gateway with one tool, a call that it allows and an approval that it executes, evaluated
  step by step: the concrete worlds at which the properties of the gateway are applied.
\<close>

section \<open>The gateway\<close>

definition note_tool :: registered_tool where
  "note_tool = \<lparr>rt_handler = (\<lambda>h a. Inr (Plain JNull)), rt_model = None, rt_description = [], rt_schema = None\<rparr>"

definition note_policy :: policy where
  "note_policy = \<lparr>po_version = ''v1'', po_defaults = demo_defaults,
     po_tools = [(''note'', Tool (demo_tool\<lparr>tl_egress := False, tl_sensitive := False, tl_requires_provenance := False,
        tl_blocked_argument_patterns := [], tl_field_policies := Policies []\<rparr>))], po_runtime = []\<rparr>"

definition demo_env :: deployment where
  "demo_env = \<lparr>de_crypto = demo_crypto, de_audit_key = ''k'', de_data_key = ''d''\<rparr>"

definition demo_gateway :: gateway where
  "demo_gateway = \<lparr>gw_policy = note_policy, gw_env = demo_env, gw_provenance = demo_service,
     gw_registry = [(''note'', note_tool)], gw_schemas = demo_schemas, gw_mode = ENFORCE, gw_notifier = None, gw_durable = False,
     gw_max_attempts = 8, gw_watch = None\<rparr>"
definition demo_request :: tool_call where
  "demo_request = (demo_call ''note'')\<lparr>tc_arguments := []\<rparr>"

lemmas gdefs = demo_gateway_def demo_env_def demo_request_def note_policy_def note_tool_def demo_defs demo_world_def demo_schemas_def

lemma ev: "evaluate (gw_policy demo_gateway) demo_request demo_agent [] [] [] =
    Inr \<lparr>ev_decision = ALLOW, ev_reasons = [''POLICY_EFFECT:allow''], ev_risk = ''high'', ev_version = ''v1''\<rparr>"
  by code_simp

lemma tc: "tool_config (gw_policy demo_gateway) ''note'' = Some (demo_tool\<lparr>tl_egress := False, tl_sensitive := False, tl_requires_provenance := False,
        tl_blocked_argument_patterns := [], tl_field_policies := Policies []\<rparr>)"
  by code_simp

lemma demo_fields:
   "tc_request_id demo_request = ''r1''" "tc_tool_name demo_request = ''note''" "tc_arguments demo_request = []" "tc_mcp_server_id demo_request = None"
   "tc_trace_id demo_request = ''t1''"
   "gw_mode demo_gateway = ENFORCE" "gw_env demo_gateway = demo_env" "gw_registry demo_gateway = [(''note'', note_tool)]" "gw_watch demo_gateway = None"
   "po_defaults (gw_policy demo_gateway) = demo_defaults"
  by (simp_all add: demo_request_def demo_call_def demo_gateway_def note_policy_def)

lemma demo_call_fields: "tc_provenance_tokens demo_request = []" "tc_field_provenance demo_request = []"
  by (simp_all add: demo_request_def demo_call_def)

lemma quiet_demo: "quiet agent demo_world"
  by (simp add: quiet_def demo_world_def empty_store_def)

lemma demo_not_egress: "\<not> is_egress demo_gateway demo_request"
  by (simp add: is_egress_def demo_fields tc)

lemma demo_permits: "permits (gw_policy demo_gateway) demo_request demo_agent []
    (scan_secrets (gw_crypto demo_gateway) (JDict (tc_arguments demo_request)) ''$'') []"
  using ev by (simp add: evaluate_allow [symmetric] allowed_def demo_fields unique_findings_def)

lemma demo_budget: "within_budget demo_gateway demo_request agent w"
  by (simp add: within_budget_def demo_not_egress)

lemma demo_unhindered: "quiet demo_agent w \<Longrightarrow> unhindered demo_gateway demo_request demo_agent w"
  by (rule quiet_unhindered) (simp_all add: demo_fields demo_defaults_def)

lemma demo_resolves: "quiet demo_agent w \<Longrightarrow> resolves demo_gateway demo_request demo_agent w [] []"
  using plain_contexts [OF demo_call_fields, of demo_agent "w\<lparr>wo_ticks := wo_ticks w + 3\<rparr>" demo_gateway]
  by (simp add: resolves_def quiet_def)

lemma demo_enforced: "gw_mode demo_gateway \<noteq> OBSERVE"
  by (simp add: demo_fields)

lemma demo_executable: "executable demo_gateway demo_request []"
  by (simp add: executable_def demo_fields validate_arguments_def note_tool_def schema_of_def)

lemma demo_vetted: "always_vetted demo_gateway demo_request w"
  by (simp add: always_vetted_def integrity_holds_def Let_def demo_fields tc demo_tool_def nonempty_def)

lemma demo_runs:
  assumes "quiet demo_agent w" "\<not> claimed ''r1'' (wo_store w)"
  shows "\<exists>r w'. execute_call demo_gateway demo_request demo_agent w = (r, w') \<and> wo_invoked w' = wo_invoked w @ [(''note'', [])]"
  using unhindered_runs [OF demo_enforced demo_unhindered [OF assms(1)] demo_resolves [OF assms(1)] demo_permits demo_executable demo_vetted demo_budget]
    assms(2) by (simp add: demo_fields)

section \<open>An approval\<close>

definition demo_approved :: approval_row where
  "demo_approved = (new_approval demo_crypto ''d'' (replicate 12 CHR ''n'') ''ap'' 0 demo_request
     (request_hash demo_crypto demo_request demo_agent) demo_agent 900)\<lparr>ap_status := ''approved''\<rparr>"

text \<open>A containment that restricts the agent to another tool.\<close>

definition restriction :: containment_row where
  "restriction = \<lparr>co_id = ''c'', co_tenant = ''acme'', co_agent = ''a1'', co_mode = RESTRICT, co_reason = [], co_reviewer = ''rv'',
     co_allowed_tools = [''other''], co_incident = None, co_created = 0, co_expires = 900000000, co_released = None\<rparr>"

definition approval_world :: "containment_row list \<Rightarrow> world" where
  "approval_world cs = demo_world\<lparr>wo_store := empty_store\<lparr>approvals := [demo_approved], containments := cs\<rparr>\<rparr>"

definition demo_approval :: approval where
  "demo_approval = (new_approval_record ''ap'' 0 demo_request (request_hash demo_crypto demo_request demo_agent) demo_agent 900)
     \<lparr>av_status := ''approved''\<rparr>"

lemma demo_approval_in:
  assumes "approvals st = [demo_approved]"
  shows "get_approval (gw_crypto demo_gateway) (de_data_key (gw_env demo_gateway)) ''ap'' st = Inr (Some demo_approval)"
proof -
  have ok: "aead_ok demo_crypto" "length (replicate 12 CHR ''n'') = 12"
    using startswith_append [of "k @ n @ p" s for k n p s] by (simp_all add: aead_ok_def demo_crypto_def)
  have call: "tool_call_ok demo_request" "tool_call_wf demo_request"
    by code_simp (simp add: tool_call_wf_def demo_request_def demo_call_def dict_wf_def)
  note r = approval_roundtrip [OF ok call, of "''d''" "''ap''" 0 "request_hash demo_crypto demo_request demo_agent" demo_agent 900]
  have "approval_from_row demo_crypto ''d'' demo_approved = Inr demo_approval"
    using r by (auto simp: approval_from_row_def demo_approved_def demo_approval_def new_approval_record_def new_approval_def ebind_Inr_iff
      split: option.splits)
  then show ?thesis
    using assms by (simp add: get_approval_def select_one_def demo_approved_def new_approval_def demo_fields demo_env_def)
qed

lemma demo_approval_read:
  "get_approval (gw_crypto demo_gateway) (de_data_key (gw_env demo_gateway)) ''ap'' (wo_store (approval_world cs)) = Inr (Some demo_approval)"
  by (rule demo_approval_in) (simp add: approval_world_def)

lemma demo_same_principal:
  "request_hash cr call (approved_principal demo_approval) = request_hash cr call demo_agent"
  "evaluate p call (approved_principal demo_approval) = evaluate p call demo_agent"
  by (simp add: request_hash_def request_body_def approved_principal_def demo_approval_def new_approval_record_def,
      rule evaluate_cong) (simp_all add: approved_principal_def demo_approval_def new_approval_record_def)

lemma demo_approval_fields:
  "av_status demo_approval = ''approved''" "av_expires demo_approval = 900000000" "av_request demo_approval = demo_request"
  "av_tenant demo_approval = ''acme''" "av_agent demo_approval = ''a1''" "av_id demo_approval = ''ap''"
  "av_hash demo_approval = request_hash demo_crypto demo_request demo_agent"
  by (simp_all add: demo_approval_def new_approval_record_def seconds_def demo_agent_def)

lemma demo_current_runs:
  assumes "approvals (wo_store w) = [demo_approved]" "executions (wo_store w) = []" "wo_clock w (wo_ticks w) < 900000000"
  shows "\<exists>r w'. current_policy demo_gateway demo_approval [] [] w = (r, w') \<and> wo_invoked w' = wo_invoked w @ [(''note'', [])]"
proof -
  let ?st = "snd (consume_approval (wo_clock w (wo_ticks w)) ''ap'' (wo_store w))"
  have c: "fst (consume_approval (wo_clock w (wo_ticks w)) ''ap'' (wo_store w))" "executions ?st = []"
    using assms by (simp_all add: consume_approval_def select_one_def demo_approved_def new_approval_def consumable_def seconds_def)
  obtain r w' where "execute_authorized demo_gateway demo_request (approved_principal demo_approval) (av_hash demo_approval) None
      (w\<lparr>wo_ticks := Suc (wo_ticks w), wo_store := ?st\<rparr>) = (r, w')" "wo_invoked w' = wo_invoked w @ [(''note'', [])]"
    using authorized_runs [OF demo_executable demo_budget, of "w\<lparr>wo_ticks := Suc (wo_ticks w), wo_store := ?st\<rparr>" "w\<lparr>wo_store := ?st\<rparr>"
      "approved_principal demo_approval" "av_hash demo_approval" None] c(2) by (auto simp: claimed_def demo_fields)
  then show ?thesis
    by (simp add: current_policy_def Let_def andthen_def [of "lift z" for z] lift_run demo_same_principal ev apply_mcp_integrity_def
      demo_fields demo_approval_fields tc demo_tool_def nonempty_def ret_run andthen_def [of "execute_authorized g a b c d" for g a b c d]
      andthen_tick andthen_db c unique_findings_def split: sum.split)
qed

text \<open>The approval runs in every world that has it and nothing that stops it, at the first readings of the clock.\<close>

lemma approval_runs_in:
  assumes st: "approvals (wo_store w) = [demo_approved]" "executions (wo_store w) = []" "lineage_events (wo_store w) = []"
    and no: "\<And>n. \<not> is_quarantined n ''acme'' ''a1'' (wo_store w)"
    and t: "wo_clock w = wo_clock demo_world" "wo_ticks w \<le> 1"
  shows "\<exists>r w'. execute_approved demo_gateway ''ap'' w = (r, w') \<and> wo_invoked w' = wo_invoked w @ [(''note'', [])]"
proof -
  let ?w = "w\<lparr>wo_ticks := Suc (Suc (Suc (wo_ticks w)))\<rparr>"
  have clock: "wo_clock w = (\<lambda>n. 1000000 * int n)" using t(1) by (simp add: demo_world_def)
  have read: "read_approval demo_gateway ''ap'' w = (Inr (Some (Some demo_approval)), w)"
    by (simp add: read_approval_def catching_def andthen_def query_run lift_run ret_run demo_approval_in [OF st(1)])
  have "approvals (wo_store ?w) = [demo_approved]" "executions (wo_store ?w) = []" "wo_clock ?w (wo_ticks ?w) < 900000000"
    using st clock t(2) by simp_all
  from demo_current_runs [OF this]
  obtain r w' where c: "current_policy demo_gateway demo_approval [] [] ?w = (r, w')" "wo_invoked w' = wo_invoked ?w @ [(''note'', [])]"
    by blast
  have b: "both_contexts demo_gateway demo_request (approved_principal demo_approval) (w\<lparr>wo_ticks := Suc (Suc (wo_ticks w))\<rparr>) = (Inr (Some ([], [])), ?w)"
    using plain_contexts [OF demo_call_fields, of "approved_principal demo_approval" "w\<lparr>wo_ticks := Suc (Suc (wo_ticks w))\<rparr>" demo_gateway] st(3)
    by simp
  have "execute_approved demo_gateway ''ap'' w = (r, w')"
    using c(1) b no t(2)
    by (simp add: execute_approved_def andthen_def [of "read_approval a b" for a b] read demo_approval_fields andthen_tick andthen_query
      demo_same_principal demo_fields demo_env_def andthen_def [of "both_contexts a b c" for a b c] clock)
  then show ?thesis using c(2) by simp
qed

lemma demo_approved_runs:
  assumes "cs = [] \<or> cs = [restriction]"
  shows "\<exists>r w'. execute_approved demo_gateway ''ap'' (approval_world cs) = (r, w') \<and> wo_invoked w' \<noteq> wo_invoked (approval_world cs)"
proof -
  have "\<not> is_quarantined n ''acme'' ''a1'' (wo_store (approval_world cs))" for n
    using assms by (auto simp: is_quarantined_def active_containment_def newest_first_def approval_world_def empty_store_def restriction_def
      split: if_splits)
  from approval_runs_in [OF _ _ _ this] show ?thesis by (auto simp: approval_world_def empty_store_def demo_world_def)
qed

lemma restricted_refused:
  "\<exists>r. containment_refusal demo_gateway demo_request (active_containment (wo_clock (approval_world [restriction]) 0) ''acme'' ''a1''
     (wo_store (approval_world [restriction]))) = Some (r, False) \<and> ev_decision r = DENY \<and> ev_reasons r = [''CONTAINMENT:TOOL_RESTRICTED'']"
  by (simp add: approval_world_def demo_world_def empty_store_def active_containment_def newest_first_def restriction_def
    containment_live_def containment_refusal_def conclude_def mk_ev_def demo_fields)

end
