(* ===== verification/Gateway_Properties.thy ===== *)
theory Gateway_Properties
  imports Gateway_Demo
begin

text \<open>
  The properties of the gateway: which calls run, how often, what no run undoes, and what has no
  effect; each applied to the small gateway of \<open>Gateway_Demo\<close>.
\<close>

section \<open>Properties\<close>

text \<open>
  C3. A tool handler is invoked only for a call that was cleared: whatever a direct execution does and
  whether it returns or raises, if it invoked a handler then the gateway enforces, the agent was
  neither quarantined nor contained away from the tool, the policy permits the call with the
  provenance that was verified for it, the arguments passed the tool's schema and, for an egress
  tool, are within its size limit, the request id had not been claimed and now is, and exactly one
  invocation with the validated arguments was added.
\<close>

theorem only_cleared_calls_run:
  assumes "execute_call gw call agent w = (r, w')" and "wo_invoked w' \<noteq> wo_invoked w"
  shows "gw_mode gw \<noteq> OBSERVE \<and> cleared gw call agent w
    \<and> \<not> claimed (tc_request_id call) (wo_store w) \<and> claimed (tc_request_id call) (wo_store w') \<and> ran_once gw call w w'"
  using assms by (rule execute_invokes)

theorem only_cleared_calls_run_witness:
  "cleared demo_gateway demo_request demo_agent demo_world \<and> \<not> claimed ''r1'' (wo_store demo_world)"
proof -
  obtain r w' where e: "execute_call demo_gateway demo_request demo_agent demo_world = (r, w')" and i: "wo_invoked w' = [(''note'', [])]"
    using demo_runs [OF quiet_demo] by (auto simp: demo_world_def claimed_def empty_store_def)
  have "wo_invoked w' \<noteq> wo_invoked demo_world" using i by (simp add: demo_world_def)
  from only_cleared_calls_run [OF e this] show ?thesis by (simp add: demo_fields)
qed





text \<open>
  C5. A stored call is executed only under a current approval: if the execution of an approval invoked a
  handler, the approval was approved and unexpired, its stored request hashes to the hash that was
  approved, the agent is not quarantined, the current policy does not deny the call with freshly
  verified provenance, the approval is consumed afterwards, and the handler ran once on validated
  arguments.
\<close>

theorem only_current_approvals_run:
  assumes "execute_approved gw i w = (r, w')" and "wo_invoked w' \<noteq> wo_invoked w"
  shows "\<exists>a. approval_current gw i a w \<and> status_of i (wo_store w') = Some ''consumed''
    \<and> \<not> claimed (tc_request_id (av_request a)) (wo_store w) \<and> claimed (tc_request_id (av_request a)) (wo_store w')
    \<and> ran_once gw (av_request a) w w'"
  using assms by (rule approved_invokes)

theorem only_current_approvals_run_witness:
  "\<exists>a. approval_current demo_gateway ''ap'' a (approval_world [])"
proof -
  obtain r w' where e: "execute_approved demo_gateway ''ap'' (approval_world []) = (r, w')" "wo_invoked w' \<noteq> wo_invoked (approval_world [])"
    using demo_approved_runs [of "[]"] by blast
  from only_current_approvals_run [OF e] show ?thesis by blast
qed

text \<open>
  No request runs twice: in any run of the gateway, over direct executions, approved executions,
  evaluations, simulations and replays in any order, the requests whose handler was invoked are
  distinct, and there was one invocation for each.
\<close>

theorem request_runs_once:
  "distinct (invocations gw ops w) \<and>
   length (wo_invoked (run_gateway gw ops w)) = length (wo_invoked w) + length (invocations gw ops w)"
  by (rule invocations_once)

text \<open>
  A run of the gateway undoes no protection: claimed request ids, rejected and consumed approvals,
  open quarantines, containments, recorded lineage and queued notifications are still there after
  it, and tokens, agents and the inspections of tool definitions are unchanged.
\<close>

theorem run_undoes_no_protection:
  "protections_kept (wo_store w) (wo_store (run_gateway gw ops w))"
  using run_stepped [of gw w ops] by (simp add: stepped_def steps_kept)

text \<open>
  A run of the gateway keeps the audit chain: from a store whose chain is in order, the chain
  verifies after any run, whether the operations returned or raised.
\<close>

theorem run_keeps_audit_chain:
  assumes "audit_wf (gw_crypto gw) (de_audit_key (gw_env gw)) (wo_store w)"
  shows "verify_audit_chain (gw_crypto gw) (de_audit_key (gw_env gw)) (wo_store (run_gateway gw ops w))"
  using run_stepped [of gw w ops] steps_audit_wf [OF _ assms] by (simp add: stepped_def audit_wf_verifies)

theorem run_keeps_audit_chain_witness:
  "verify_audit_chain demo_crypto ''k'' (wo_store (run_gateway demo_gateway
     [Execute demo_request demo_agent, Execute_Approved ''ap'', Evaluate demo_request demo_agent] demo_world))"
proof -
  have "audit_wf (gw_crypto demo_gateway) (de_audit_key (gw_env demo_gateway)) (wo_store demo_world)"
    by (simp add: audit_wf_def demo_world_def empty_store_def)
  from run_keeps_audit_chain [OF this, of "[Execute demo_request demo_agent, Execute_Approved ''ap'', Evaluate demo_request demo_agent]"]
  show ?thesis unfolding demo_fields demo_env_def deployment.select_convs .
qed

text \<open>
  C30. Simulating calls and replaying decisions has no effect: the store, the invocations of handlers
  and the posted requests are as before, whether the operation returned or raised.
\<close>

theorem simulation_without_effect:
  "untouched w (snd (simulate gw r w)) \<and> untouched w (snd (replay_policy gw other limit w))
   \<and> untouched w (snd (evaluate_call gw call agent False w))"
  using dry_simulate dry_replay dry_evaluate by (simp add: dry.keeps_def)

text \<open>
  A contained agent is refused: when the containment or the quarantine in force at the evaluation
  refuses the call, a direct execution invokes no handler.
\<close>

theorem contained_agent_runs_nothing:
  assumes "containment_refusal gw call (active_containment (wo_clock w (wo_ticks w)) (pr_tenant_id agent) (pr_agent_id agent) (wo_store w)) \<noteq> None
    \<or> is_quarantined (wo_clock w (Suc (wo_ticks w))) (pr_tenant_id agent) (pr_agent_id agent) (wo_store w)"
  shows "wo_invoked (snd (execute_call gw call agent w)) = wo_invoked w"
proof (rule ccontr)
  obtain r w' where e: "execute_call gw call agent w = (r, w')" by force
  assume "wo_invoked (snd (execute_call gw call agent w)) \<noteq> wo_invoked w"
  then have "cleared gw call agent w" using execute_invokes [OF e] e by simp
  then show False using assms by (auto simp: cleared_def)
qed

theorem contained_agent_runs_nothing_witness:
  "wo_invoked (snd (execute_call demo_gateway demo_request demo_agent (approval_world [restriction]))) = []"
proof -
  let ?w = "approval_world [restriction]"
  have w: "wo_ticks ?w = 0" "wo_invoked ?w = []" by (simp_all add: approval_world_def demo_world_def)
  have "containment_refusal demo_gateway demo_request (active_containment (wo_clock ?w (wo_ticks ?w)) (pr_tenant_id demo_agent)
      (pr_agent_id demo_agent) (wo_store ?w)) \<noteq> None"
    using restricted_refused by (auto simp: w demo_agent_def)
  from contained_agent_runs_nothing [OF disjI1 [OF this]] show ?thesis by (simp add: w)
qed

text \<open>
  A restriction of an agent to other tools does not reach approved calls: there are a gateway, an
  approval and a containment such that the direct call of the tool invokes nothing and the execution
  of the approval invokes the handler of the same tool for the same agent.
\<close>

theorem approval_outruns_restriction:
  "\<exists>gw call agent i w. (\<exists>r. containment_refusal gw call
       (active_containment (wo_clock w (wo_ticks w)) (pr_tenant_id agent) (pr_agent_id agent) (wo_store w)) = Some (r, False))
     \<and> wo_invoked (snd (execute_call gw call agent w)) = wo_invoked w
     \<and> (\<exists>a. approval_current gw i a w \<and> av_request a = call \<and> av_agent a = pr_agent_id agent \<and> av_tenant a = pr_tenant_id agent)
     \<and> wo_invoked (snd (execute_approved gw i w)) \<noteq> wo_invoked w"
proof -
  let ?w = "approval_world [restriction]"
  obtain r w' where e: "execute_approved demo_gateway ''ap'' ?w = (r, w')" "wo_invoked w' \<noteq> wo_invoked ?w"
    using demo_approved_runs [of "[restriction]"] by blast
  obtain a where a: "approval_current demo_gateway ''ap'' a ?w" using approved_invokes [OF e] by blast
  have "a = demo_approval" using a demo_approval_read by (simp add: approval_current_def)
  then have a: "approval_current demo_gateway ''ap'' demo_approval ?w" using a by simp
  have refusal: "\<exists>r. containment_refusal demo_gateway demo_request (active_containment (wo_clock ?w (wo_ticks ?w)) (pr_tenant_id demo_agent)
      (pr_agent_id demo_agent) (wo_store ?w)) = Some (r, False)"
    using restricted_refused by (auto simp: approval_world_def demo_world_def demo_agent_def)
  have "wo_invoked (snd (execute_call demo_gateway demo_request demo_agent ?w)) = wo_invoked ?w"
  proof (rule ccontr)
    assume n: "wo_invoked (snd (execute_call demo_gateway demo_request demo_agent ?w)) \<noteq> wo_invoked ?w"
    obtain q v where v: "execute_call demo_gateway demo_request demo_agent ?w = (q, v)" by force
    then have "cleared demo_gateway demo_request demo_agent ?w" using execute_invokes [OF v] n by simp
    then show False using refusal by (auto simp: cleared_def)
  qed
  then show ?thesis using refusal a e demo_approval_fields
    by (intro exI [of _ demo_gateway] exI [of _ demo_request] exI [of _ demo_agent] exI [of _ "''ap''"] exI [of _ ?w])
       (auto simp: demo_agent_def)
qed

end
