(* ===== verification/Worker.thy ===== *)
theory Worker
  imports Gateway
begin

text \<open>
  The durable worker of \<^verbatim>\<open>worker.py\<close>: one round claims a job of the outbox, delivers the notice of
  its approval and completes the job, or gives it back for a later attempt whatever went wrong. The
  loop around it, the signals and the command line are not modelled. The payload of a job is the
  dictionary that the gateway queued; its reason codes are a list of texts.
\<close>

section \<open>One round\<close>

record work_result =
  wr_claimed :: bool
  wr_completed :: bool
  wr_job :: "string option"

record durable_worker =
  dw_env :: deployment
  dw_notifier :: notifier
  dw_id :: string
  dw_lease :: int

definition beat :: "durable_worker \<Rightarrow> int \<Rightarrow> int \<Rightarrow> unit io" where
  "beat dw processed failed = andthen tick (\<lambda>now. db (\<lambda>st. ((), heartbeat_worker now (dw_id dw) processed failed st)))"

definition job_approval :: "json \<Rightarrow> exc + string" where
  "job_approval payload = (case payload of
      JDict d \<Rightarrow> (case map_of d ''approval_id'' of None \<Rightarrow> Inl (KeyError ''approval_id'') | Some v \<Rightarrow> Inr (py_str v))
    | _ \<Rightarrow> Inl (TypeError ''payload''))"

definition job_reasons :: "json \<Rightarrow> exc + string list" where
  "job_reasons payload = (case Option.bind (as_dict payload) (\<lambda>d. as_strs (dget d ''reason_codes'' (JList []))) of
      Some ss \<Rightarrow> Inr ss | None \<Rightarrow> Inl (TypeError ''reason_codes''))"

definition complete_held_job :: "durable_worker \<Rightarrow> job_row \<Rightarrow> unit io" where
  "complete_held_job dw job = andthen tick (\<lambda>now. andthen (db (complete_outbox now (jo_id job) (dw_id dw))) (\<lambda>_. beat dw 1 0))"

definition stored_approval :: "durable_worker \<Rightarrow> string \<Rightarrow> approval option io" where
  "stored_approval dw i = andthen (query (get_approval (de_crypto (dw_env dw)) (de_data_key (dw_env dw)) i)) lift"

definition deliver :: "durable_worker \<Rightarrow> job_row \<Rightarrow> json \<Rightarrow> work_result io" where
  "deliver dw job payload =
     (if jo_kind job \<noteq> ''approval.required'' then raise (RuntimeError (''Unsupported outbox job kind: '' @ jo_kind job))
      else andthen (lift (job_approval payload)) (\<lambda>i.
        andthen (stored_approval dw i) (\<lambda>found. case found of
          None \<Rightarrow> raise (RuntimeError ''Approval record is unavailable'')
        | Some a \<Rightarrow>
            if av_status a \<noteq> ''pending'' then
              andthen (complete_held_job dw job) (\<lambda>_.
              andthen (audit (dw_env dw) ''approval_notification_skipped''
                [(''approval_id'', JStr i), (''reason'', JStr ''approval_not_pending'')]) (\<lambda>_.
              ret \<lparr>wr_claimed = True, wr_completed = True, wr_job = Some (jo_id job)\<rparr>))
            else andthen (lift (job_reasons payload)) (\<lambda>reasons.
              andthen (notify (dw_env dw) (dw_notifier dw) a reasons) (\<lambda>delivered.
              if \<not> delivered then raise (RuntimeError ''Webhook delivery did not return a success response'')
              else andthen (complete_held_job dw job) (\<lambda>_.
                andthen (audit (dw_env dw) ''approval_notification_delivered''
                  [(''approval_id'', JStr i), (''job_id'', JStr (jo_id job)), (''attempt'', JInt (jo_attempts job))]) (\<lambda>_.
                ret \<lparr>wr_claimed = True, wr_completed = True, wr_job = Some (jo_id job)\<rparr>)))))))"

definition retry_delay :: "int \<Rightarrow> int" where
  "retry_delay attempts = min 300 (2 ^ nat (min attempts 8))"

definition give_up :: "durable_worker \<Rightarrow> job_row \<Rightarrow> exc \<Rightarrow> work_result io" where
  "give_up dw job e =
     andthen tick (\<lambda>now. andthen (db (retry_outbox now (jo_id job) (dw_id dw) (exc_name e @ '': '' @ exc_text e)
        (retry_delay (jo_attempts job)))) (\<lambda>_.
     andthen (beat dw 0 1) (\<lambda>_.
     andthen (audit (dw_env dw) ''approval_notification_retry''
       [(''job_id'', JStr (jo_id job)), (''attempt'', JInt (jo_attempts job)),
        (''retry_seconds'', JInt (retry_delay (jo_attempts job))), (''error_type'', JStr (exc_name e))]) (\<lambda>_.
     ret \<lparr>wr_claimed = True, wr_completed = False, wr_job = Some (jo_id job)\<rparr>))))"

definition claimed_job :: "durable_worker \<Rightarrow> (job_row \<times> json) option io" where
  "claimed_job dw = andthen tick (\<lambda>now. andthen (db (claim_outbox now (dw_id dw) (dw_lease dw))) lift)"

definition process_one :: "durable_worker \<Rightarrow> work_result io" where
  "process_one dw = andthen (beat dw 0 0) (\<lambda>_. andthen (claimed_job dw) (\<lambda>job. case job of
      None \<Rightarrow> ret \<lparr>wr_claimed = False, wr_completed = False, wr_job = None\<rparr>
    | Some (j, payload) \<Rightarrow> catching (deliver dw j payload) (give_up dw j)))"

section \<open>What a round does to the jobs\<close>

definition same_jobs :: "world \<Rightarrow> world \<Rightarrow> bool" where
  "same_jobs w w' \<longleftrightarrow> outbox_jobs (wo_store w') = outbox_jobs (wo_store w)"

definition done_result :: "job_row \<Rightarrow> work_result" where
  "done_result job = \<lparr>wr_claimed = True, wr_completed = True, wr_job = Some (jo_id job)\<rparr>"

lemma beat_run: "\<exists>w'. beat dw p f w = (Inr (), w') \<and> same_jobs w w'"
  by (simp add: beat_def andthen_tick db_def heartbeat_worker_def same_jobs_def)

lemma audit_run: "\<exists>i w'. audit env ty p w = (Inr i, w') \<and> same_jobs w w'"
  using andthen_audit [of env ty p ret w] by (simp add: audit_def andthen_tick andthen_id andthen_db ret_run same_jobs_def)

lemma notify_run: "\<exists>b w'. notify env nt a reasons w = (Inr b, w') \<and> wo_store w' = wo_store w"
  by (auto simp: notify_def ret_run Let_def split: option.split)

lemma complete_held_run:
  "\<exists>now w'. complete_held_job dw job w = (Inr (), w') \<and>
     outbox_jobs (wo_store w') = update_where (held_by (jo_id job) (dw_id dw)) (complete_job now) (outbox_jobs (wo_store w))"
proof -
  let ?now = "wo_clock w (wo_ticks w)"
  let ?w = "w\<lparr>wo_ticks := Suc (wo_ticks w), wo_store := snd (complete_outbox ?now (jo_id job) (dw_id dw) (wo_store w))\<rparr>"
  obtain w' where "beat dw 1 0 ?w = (Inr (), w')" "same_jobs ?w w'" using beat_run by blast
  then show ?thesis by (auto simp: complete_held_job_def andthen_tick andthen_db same_jobs_def complete_jobs)
qed

lemma completed_run:
  "\<exists>now w'. andthen (complete_held_job dw job) (\<lambda>_. andthen (audit env ty p) (\<lambda>_. ret r)) w = (Inr r, w') \<and>
     outbox_jobs (wo_store w') = update_where (held_by (jo_id job) (dw_id dw)) (complete_job now) (outbox_jobs (wo_store w))"
proof -
  obtain now w1 where c: "complete_held_job dw job w = (Inr (), w1)"
      "outbox_jobs (wo_store w1) = update_where (held_by (jo_id job) (dw_id dw)) (complete_job now) (outbox_jobs (wo_store w))"
    using complete_held_run by blast
  obtain i w2 where "audit env ty p w1 = (Inr i, w2)" "same_jobs w1 w2" using audit_run by blast
  with c show ?thesis by (auto simp: andthen_def ret_run same_jobs_def)
qed

text \<open>A delivery either raises with the job as it was, or completes it.\<close>

lemma deliver_cases:
  assumes "deliver dw job payload w = (r, w')"
  shows "(\<exists>e. r = Inl e) \<and> same_jobs w w' \<or> r = Inr (done_result job) \<and> (\<exists>now. outbox_jobs (wo_store w') =
    update_where (held_by (jo_id job) (dw_id dw)) (complete_job now) (outbox_jobs (wo_store w)))"
proof -
  let ?done = "\<lambda>ty p. andthen (complete_held_job dw job) (\<lambda>_. andthen (audit (dw_env dw) ty p) (\<lambda>_. ret (done_result job)))"
  have fin: "?done ty p v = (r, w') \<Longrightarrow> wo_store v = wo_store w \<Longrightarrow> ?thesis" for ty p v
    using completed_run [of dw job "dw_env dw" ty p "done_result job" v] by auto
  have fail: "(Inl e, v) = (r, w') \<Longrightarrow> wo_store v = wo_store w \<Longrightarrow> ?thesis" for e v by (auto simp: same_jobs_def)
  have send: "andthen (notify (dw_env dw) (dw_notifier dw) a reasons) (\<lambda>delivered. if \<not> delivered then raise e else ?done ty p) w = (r, w') \<Longrightarrow> ?thesis"
    for a reasons e ty p
  proof -
    obtain b v where "notify (dw_env dw) (dw_notifier dw) a reasons w = (Inr b, v)" "wo_store v = wo_store w" using notify_run by blast
    then show "andthen (notify (dw_env dw) (dw_notifier dw) a reasons) (\<lambda>delivered. if \<not> delivered then raise e else ?done ty p) w = (r, w') \<Longrightarrow> ?thesis"
      using fin fail by (auto simp: andthen_def [of "notify a b c d" for a b c d] raise_run split: if_splits)
  qed
  show ?thesis
    using assms fin [of _ _ w] fail [of _ w] send
    unfolding deliver_def stored_approval_def andthen_assoc andthen_query andthen_lift done_result_def [symmetric]
    by (auto simp: andthen_lift andthen_query raise_run split: if_splits sum.splits option.splits)
qed

lemma give_up_run:
  "\<exists>w'. give_up dw job e w = (Inr \<lparr>wr_claimed = True, wr_completed = False, wr_job = Some (jo_id job)\<rparr>, w') \<and>
     outbox_jobs (wo_store w') = outbox_jobs (snd (retry_outbox (wo_clock w (wo_ticks w)) (jo_id job) (dw_id dw)
       (exc_name e @ '': '' @ exc_text e) (retry_delay (jo_attempts job)) (wo_store w)))"
proof -
  let ?w = "w\<lparr>wo_ticks := Suc (wo_ticks w), wo_store := snd (retry_outbox (wo_clock w (wo_ticks w)) (jo_id job) (dw_id dw)
       (exc_name e @ '': '' @ exc_text e) (retry_delay (jo_attempts job)) (wo_store w))\<rparr>"
  obtain w1 where b: "beat dw 0 1 ?w = (Inr (), w1)" "same_jobs ?w w1" using beat_run by blast
  let ?audit = "audit (dw_env dw) ''approval_notification_retry'' [(''job_id'', JStr (jo_id job)), (''attempt'', JInt (jo_attempts job)),
        (''retry_seconds'', JInt (retry_delay (jo_attempts job))), (''error_type'', JStr (exc_name e))]"
  obtain i w2 where "?audit w1 = (Inr i, w2)" "same_jobs w1 w2" using audit_run by blast
  with b show ?thesis by (auto simp: give_up_def andthen_tick andthen_db andthen_def [of "beat a b c" for a b c]
      andthen_def [of "audit a b c" for a b c] ret_run same_jobs_def)
qed

section \<open>Time passes\<close>

text \<open>Every step of a round reads the clock at a later tick, and none changes the clock.\<close>

definition time_passes :: "world \<Rightarrow> world \<Rightarrow> bool" where
  "time_passes w w' \<longleftrightarrow> wo_clock w' = wo_clock w \<and> wo_ticks w \<le> wo_ticks w'"

interpretation onward: preserving time_passes
  by unfold_locales (auto simp: time_passes_def)

lemma later_steps [simp]: "onward.keeps (db t)" "onward.keeps (audit env ty payload)" "onward.keeps (beat dw p f)"
proof -
  have d: "onward.keeps (db t)" for t :: "store \<Rightarrow> 'b \<times> store" by (rule onward.keeps_db) (simp add: time_passes_def)
  show "onward.keeps (db t)" by (rule d)
  show "onward.keeps (audit env ty payload)" by (rule onward.keeps_audit) (simp add: time_passes_def)
  show "onward.keeps (beat dw p f)" unfolding beat_def by (intro onward.keeps_rules d onward.keeps_tick)
qed

lemma later_notify [simp]: "onward.keeps (notify env nt a reasons)"
  by (auto simp: onward.keeps_def notify_def ret_run Let_def time_passes_def split: option.split)

lemma later_complete [simp]: "onward.keeps (complete_held_job dw job)"
  unfolding complete_held_job_def by (intro onward.keeps_rules) simp_all

lemma later_deliver: "onward.keeps (deliver dw job payload)"
  unfolding deliver_def stored_approval_def
  by (intro onward.keeps_rules) (simp_all add: onward.keeps_andthen)

lemma later_give_up: "onward.keeps (give_up dw job e)"
  unfolding give_up_def by (intro onward.keeps_rules) simp_all

lemma later_settle: "onward.keeps (catching (deliver dw job payload) (give_up dw job))"
  by (intro onward.keeps_rules later_deliver later_give_up)

lemma later_claimed: "onward.keeps (claimed_job dw)"
  unfolding claimed_job_def by (intro onward.keeps_rules) simp_all

lemma later_round: "onward.keeps (process_one dw)"
  unfolding process_one_def
  by (intro onward.keeps_rules later_claimed) (auto intro!: onward.keeps_rules later_settle split: option.split)

lemma later_trans: "time_passes a b \<Longrightarrow> time_passes b c \<Longrightarrow> time_passes a c"
  by (simp add: time_passes_def)

lemma later_clock: "time_passes w w' \<Longrightarrow> mono (wo_clock w) \<Longrightarrow> wo_clock w (wo_ticks w) \<le> wo_clock w' (wo_ticks w')"
  by (simp add: time_passes_def monoD)

section \<open>A round\<close>

lemma wf_same: "jobs_wf st \<Longrightarrow> outbox_jobs st' = outbox_jobs st \<Longrightarrow> jobs_wf st'"
  by (simp add: jobs_wf_def)

lemma job_at_cong: "outbox_jobs st = outbox_jobs st' \<Longrightarrow> job_at i st = job_at i st'"
  by (simp add: job_at_def)

text \<open>A round is a heartbeat, a claim, and for a claimed job a delivery or a retry.\<close>

lemma round_cases:
  assumes "process_one dw w = (r, w')"
  obtains (Idle) t v where "same_jobs w v" "claim_outbox t (dw_id dw) (dw_lease dw) (wo_store v) = (Inr None, wo_store w')"
      "r = Inr \<lparr>wr_claimed = False, wr_completed = False, wr_job = None\<rparr>" "time_passes w v" "t = wo_clock v (wo_ticks v)"
  | (Bad) t v e where "same_jobs w v" "claim_outbox t (dw_id dw) (dw_lease dw) (wo_store v) = (Inl e, wo_store w')" "r = Inl e" "time_passes w v" "t = wo_clock v (wo_ticks v)"
  | (Taken) t v v1 j payload where "same_jobs w v"
      "claim_outbox t (dw_id dw) (dw_lease dw) (wo_store v) = (Inr (Some (j, payload)), wo_store v1)"
      "catching (deliver dw j payload) (give_up dw j) v1 = (r, w')" "time_passes w v" "t = wo_clock v (wo_ticks v)" "time_passes v v1"
proof -
  obtain v where b: "beat dw 0 0 w = (Inr (), v)" "same_jobs w v" using beat_run by blast
  have l: "time_passes w v" using onward.keepsD [OF later_steps(3) b(1)] .
  let ?t = "wo_clock v (wo_ticks v)"
  let ?c = "claim_outbox ?t (dw_id dw) (dw_lease dw) (wo_store v)"
  let ?v1 = "v\<lparr>wo_ticks := Suc (wo_ticks v), wo_store := snd ?c\<rparr>"
  have c: "claimed_job dw v = (fst ?c, ?v1)"
    by (simp add: claimed_job_def andthen_tick andthen_db lift_run)
  have pair: "?c = (fst ?c, wo_store ?v1)" by simp
  have run: "process_one dw w = (case fst ?c of Inl e \<Rightarrow> (Inl e, ?v1) | Inr None \<Rightarrow>
        (Inr \<lparr>wr_claimed = False, wr_completed = False, wr_job = None\<rparr>, ?v1)
      | Inr (Some (j, payload)) \<Rightarrow> catching (deliver dw j payload) (give_up dw j) ?v1)"
    by (simp add: process_one_def andthen_def b(1) c ret_run split: sum.split option.split)
  show thesis
  proof (cases "fst ?c")
    case (Inl e)
    have w': "w' = ?v1" "r = Inl e" using run assms Inl by auto
    show thesis by (rule Bad [OF b(2), of ?t e]) (use pair Inl w' l in auto)
  next
    case (Inr x)
    show thesis
    proof (cases x)
      case None
      have w': "w' = ?v1" "r = Inr \<lparr>wr_claimed = False, wr_completed = False, wr_job = None\<rparr>" using run assms Inr None by auto
      show thesis by (rule Idle [OF b(2), of ?t]) (use pair Inr None w' l in auto)
    next
      case (Some jp)
      obtain j payload where jp: "jp = (j, payload)" by force
      have d: "catching (deliver dw j payload) (give_up dw j) ?v1 = (r, w')" using run assms Inr Some jp by auto
      have f: "fst ?c = Inr (Some (j, payload))" using Inr Some jp by simp
      have "?c = (Inr (Some (j, payload)), wo_store ?v1)" using pair unfolding f .
      then show thesis by (rule Taken [OF b(2) _ d l]) (simp_all add: time_passes_def)
    qed
  qed
qed

text \<open>The two ways in which a taken job is settled.\<close>

definition settled_as :: "bool \<Rightarrow> job_row \<Rightarrow> bool" where
  "settled_as completed j \<longleftrightarrow> (if completed then jo_status j = ''completed''
     else jo_status j = ''retry'' \<and> jo_attempts j < jo_max_attempts j
        \<and> (\<exists>now. jo_next_attempt j = now + seconds (retry_delay (jo_attempts j)))
      \<or> jo_status j = ''dead'' \<and> jo_max_attempts j \<le> jo_attempts j)"

text \<open>How the row of a taken job ends the round: completed, or given back at the time of a clock reading of the round.\<close>

definition settles :: "world \<Rightarrow> job_row \<Rightarrow> bool \<Rightarrow> (job_row \<Rightarrow> job_row) \<Rightarrow> bool" where
  "settles w' j completed f \<longleftrightarrow> (if completed then \<exists>now. f = complete_job now
     else \<exists>n err. n \<le> wo_ticks w' \<and> f = give_back (wo_clock w' n + seconds (retry_delay (jo_attempts j)))
            (if jo_attempts j \<ge> jo_max_attempts j then ''dead'' else ''retry'') err)"

lemma taken_jobs:
  assumes wf: "jobs_wf (wo_store v)" and c: "claim_outbox t (dw_id dw) lease (wo_store v) = (Inr (Some (j, payload)), wo_store v1)"
    and d: "catching (deliver dw j payload) (give_up dw j) v1 = (r, w')"
  shows "\<exists>b f. r = Inr \<lparr>wr_claimed = True, wr_completed = b, wr_job = Some (jo_id j)\<rparr> \<and> settles w' j b f
    \<and> outbox_jobs (wo_store w') = update_where (held_by (jo_id j) (dw_id dw)) f (outbox_jobs (wo_store v1))"
proof -
  note row = claim_row [OF wf c]
  obtain x w1 where x: "deliver dw j payload v1 = (x, w1)" by force
  from deliver_cases [OF x] show ?thesis
  proof (elim disjE conjE exE)
    fix e assume e: "x = Inl e" and same: "same_jobs v1 w1"
    obtain w2 where g: "give_up dw j e w1 = (Inr \<lparr>wr_claimed = True, wr_completed = False, wr_job = Some (jo_id j)\<rparr>, w2)"
      "outbox_jobs (wo_store w2) = outbox_jobs (snd (retry_outbox (wo_clock w1 (wo_ticks w1)) (jo_id j) (dw_id dw)
         (exc_name e @ '': '' @ exc_text e) (retry_delay (jo_attempts j)) (wo_store w1)))"
      using give_up_run by blast
    have l: "wo_clock w1 = wo_clock w2" "wo_ticks w1 \<le> wo_ticks w2"
      using onward.keepsD [OF later_give_up g(1)] by (simp_all add: time_passes_def)
    have "job_at (jo_id j) (wo_store w1) = Some j" using row same job_at_cong by (metis same_jobs_def)
    then have o: "outbox_jobs (wo_store w2) = update_where (held_by (jo_id j) (dw_id dw))
        (give_back (wo_clock w2 (wo_ticks w1) + seconds (retry_delay (jo_attempts j)))
          (if jo_attempts j \<ge> jo_max_attempts j then ''dead'' else ''retry'') (exc_name e @ '': '' @ exc_text e)) (outbox_jobs (wo_store v1))"
      using g(2) same by (simp add: retry_jobs job_at_def l(1) same_jobs_def)
    moreover have "settles w2 j False (give_back (wo_clock w2 (wo_ticks w1) + seconds (retry_delay (jo_attempts j)))
          (if jo_attempts j \<ge> jo_max_attempts j then ''dead'' else ''retry'') (exc_name e @ '': '' @ exc_text e))"
      using l(2) by (auto simp: settles_def)
    moreover have "r = Inr \<lparr>wr_claimed = True, wr_completed = False, wr_job = Some (jo_id j)\<rparr>" "w' = w2"
      using d x e g(1) by (simp_all add: catching_def)
    ultimately show ?thesis by blast
  next
    fix now assume fin: "x = Inr (done_result j)"
      and o: "outbox_jobs (wo_store w1) = update_where (held_by (jo_id j) (dw_id dw)) (complete_job now) (outbox_jobs (wo_store v1))"
    have "r = Inr \<lparr>wr_claimed = True, wr_completed = True, wr_job = Some (jo_id j)\<rparr>" "w' = w1" "settles w' j True (complete_job now)"
      using d x fin by (auto simp: catching_def done_result_def settles_def)
    then show ?thesis using o by blast
  qed
qed

lemma settles_as: "settles w' j b f \<Longrightarrow> settled_as b (f j)"
  by (auto simp: settles_def settled_as_def give_back_def complete_job_def split: if_splits)

lemma taken_settled:
  assumes wf: "jobs_wf (wo_store v)" and c: "claim_outbox t (dw_id dw) lease (wo_store v) = (Inr (Some (j, payload)), wo_store v1)"
    and d: "catching (deliver dw j payload) (give_up dw j) v1 = (r, w')"
  shows "\<exists>k b. r = Inr \<lparr>wr_claimed = True, wr_completed = b, wr_job = Some (jo_id j)\<rparr> \<and> job_at (jo_id j) (wo_store w') = Some k \<and> settled_as b k"
proof -
  note row = claim_row [OF wf c]
  then have held: "held_by (jo_id j) (dw_id dw) j" by (simp add: held_by_def)
  obtain b f where r: "r = Inr \<lparr>wr_claimed = True, wr_completed = b, wr_job = Some (jo_id j)\<rparr>" and f: "settles w' j b f"
    and o: "outbox_jobs (wo_store w') = update_where (held_by (jo_id j) (dw_id dw)) f (outbox_jobs (wo_store v1))"
    using taken_jobs [OF wf c d] by blast
  from f have i: "jo_id (f j) = jo_id j" for j by (auto simp: settles_def split: if_splits)
  from job_at_update [OF o, of "jo_id j"] i row held have "job_at (jo_id j) (wo_store w') = Some (f j)" by simp
  then show ?thesis using r settles_as [OF f] by blast
qed

section \<open>The attempts that remain\<close>

definition attempts_left :: "job_row \<Rightarrow> nat" where
  "attempts_left j = nat (jo_max_attempts j - jo_attempts j)"

definition remaining :: "store \<Rightarrow> nat" where
  "remaining st = sum_list (map attempts_left (outbox_jobs st))"

lemma sum_update_one:
  fixes f :: "'a \<Rightarrow> nat"
  assumes "distinct (map k xs)" "x \<in> set xs"
  shows "sum_list (map f (update_where (\<lambda>r. k r = k x) g xs)) + f x = sum_list (map f xs) + f (g x)"
  using assms
proof (induction xs)
  case (Cons y ys)
  show ?case
  proof (cases "x = y")
    case True
    then have "update_where (\<lambda>r. k r = k x) g ys = ys"
      using Cons.prems(1) True by (intro update_where_id) (auto, metis image_eqI)
    then show ?thesis using True by (simp add: update_where_def)
  next
    case False
    then have "x \<in> set ys" "k y \<noteq> k x" using Cons.prems by auto
    then show ?thesis using Cons by (simp add: update_where_def)
  qed
qed simp

lemma claim_uses_one:
  assumes "jobs_wf st" "next_job t lease (outbox_jobs st) = Some j"
  shows "Suc (remaining (snd (claim_outbox t w lease st))) = remaining st"
proof -
  have j: "j \<in> set (outbox_jobs st)" "claimable t lease j" using next_job_Some [OF assms(2)] by auto
  have "sum_list (map attempts_left (update_where (\<lambda>r. jo_id r = jo_id j) (start_attempt t w) (outbox_jobs st))) + attempts_left j =
      sum_list (map attempts_left (outbox_jobs st)) + attempts_left (start_attempt t w j)"
    using assms(1) j(1) by (intro sum_update_one) (simp_all add: jobs_wf_def)
  moreover have "attempts_left j = Suc (attempts_left (start_attempt t w j))"
    using j(2) by (auto simp: attempts_left_def start_attempt_def claimable_def)
  ultimately show ?thesis by (simp add: remaining_def claim_jobs assms(2))
qed

lemma remaining_update:
  "outbox_jobs st' = update_where P f (outbox_jobs st) \<Longrightarrow> (\<And>j. attempts_left (f j) = attempts_left j) \<Longrightarrow> remaining st' = remaining st"
  by (simp add: remaining_def map_update_where)

lemma settle_keeps:
  assumes "catching (deliver dw j payload) (give_up dw j) v = (r, w')" and "jobs_wf (wo_store v)"
  shows "jobs_wf (wo_store w') \<and> remaining (wo_store w') = remaining (wo_store v)"
proof -
  have left: "attempts_left (complete_job now k) = attempts_left k" "attempts_left (give_back n s e k) = attempts_left k" for now k n s e
    by (simp_all add: attempts_left_def complete_job_def give_back_def)
  have finish: ?thesis if o: "outbox_jobs (wo_store w') = outbox_jobs (snd (complete_outbox now i q (wo_store v)))" for now i q
  proof
    show "jobs_wf (wo_store w')" using step_wf [OF assms(2), of "Finish now i q"] by (rule wf_same) (simp add: o)
    show "remaining (wo_store w') = remaining (wo_store v)" by (rule remaining_update [OF o [unfolded complete_jobs] left(1)])
  qed
  have returned: ?thesis if "outbox_jobs (wo_store w') = outbox_jobs (snd (retry_outbox now i q err delay st))"
    "outbox_jobs st = outbox_jobs (wo_store v)" for now i q err delay st
  proof -
    have "jobs_wf st" using assms(2) that(2) by (rule wf_same)
    then have "jobs_wf (job_step (Give_Back now i q err delay) st)" by (rule step_wf)
    then have "jobs_wf (wo_store w')" by (rule wf_same) (simp add: that(1))
    moreover have "remaining (wo_store w') = remaining st"
      using that(1) left(2) by (auto simp: retry_jobs remaining_def map_update_where split: option.splits)
    ultimately show ?thesis using that(2) by (simp add: remaining_def)
  qed
  obtain x w1 where x: "deliver dw j payload v = (x, w1)" by force
  from deliver_cases [OF x] show ?thesis
  proof (elim disjE conjE exE)
    fix e assume e: "x = Inl e" and same: "same_jobs v w1"
    obtain w2 where "give_up dw j e w1 = (Inr \<lparr>wr_claimed = True, wr_completed = False, wr_job = Some (jo_id j)\<rparr>, w2)"
      "outbox_jobs (wo_store w2) = outbox_jobs (snd (retry_outbox (wo_clock w1 (wo_ticks w1)) (jo_id j) (dw_id dw) (exc_name e @ '': '' @ exc_text e)
         (retry_delay (jo_attempts j)) (wo_store w1)))"
      using give_up_run by blast
    with returned show ?thesis using assms(1) x e same by (auto simp: catching_def same_jobs_def)
  next
    fix now assume f: "x = Inr (done_result j)"
      and o: "outbox_jobs (wo_store w1) = update_where (held_by (jo_id j) (dw_id dw)) (complete_job now) (outbox_jobs (wo_store v))"
    have "w' = w1" using assms(1) x f by (simp add: catching_def)
    then show ?thesis using finish o by (simp add: complete_jobs)
  qed
qed

text \<open>A round that takes a job, even one whose payload does not read, uses one of the remaining attempts.\<close>

definition idle :: "exc + work_result \<Rightarrow> bool" where
  "idle r \<longleftrightarrow> (case r of Inr x \<Rightarrow> \<not> wr_claimed x | Inl e \<Rightarrow> False)"

lemma round_remaining:
  assumes wf: "jobs_wf (wo_store w)" and run: "process_one dw w = (r, w')"
  shows "jobs_wf (wo_store w') \<and> remaining (wo_store w) = (if idle r then 0 else 1) + remaining (wo_store w')"
proof -
  have claim: "jobs_wf st' \<and> remaining (wo_store w) = (if next_job t (dw_lease dw) (outbox_jobs (wo_store v)) = None then 0 else 1) + remaining st'"
    if "same_jobs w v" "claim_outbox t (dw_id dw) (dw_lease dw) (wo_store v) = (x, st')" for t v x st'
  proof -
    have v: "jobs_wf (wo_store v)" "remaining (wo_store v) = remaining (wo_store w)"
      using wf_same [OF wf] that(1) by (auto simp: same_jobs_def remaining_def)
    have st': "st' = snd (claim_outbox t (dw_id dw) (dw_lease dw) (wo_store v))" using that(2) by simp
    have "jobs_wf st'" using step_wf [OF v(1), of "Take t (dw_id dw) (dw_lease dw)"] st' by simp
    moreover have "remaining (wo_store v) = (if next_job t (dw_lease dw) (outbox_jobs (wo_store v)) = None then 0 else 1) + remaining st'"
    proof (cases "next_job t (dw_lease dw) (outbox_jobs (wo_store v))")
      case None
      then show ?thesis by (simp add: st' remaining_def claim_jobs)
    next
      case (Some j)
      then show ?thesis using claim_uses_one [OF v(1) Some, of "dw_id dw"] by (simp add: st')
    qed
    ultimately show ?thesis using v(2) by simp
  qed
  have idle_claim: "next_job t lease (outbox_jobs st) = None" if "claim_outbox t i lease st = (Inr None, st')" for t i lease st st'
    using that by (auto simp: claim_outbox_def Let_def split: option.splits)
  from run show ?thesis
  proof (cases rule: round_cases)
    case (Idle t v)
    then show ?thesis using claim [OF Idle(1,2)] idle_claim [OF Idle(2)] by (simp add: idle_def)
  next
    case (Bad t v e)
    have "next_job t (dw_lease dw) (outbox_jobs (wo_store v)) \<noteq> None"
      using Bad(2) by (auto simp: claim_outbox_def Let_def split: option.splits)
    then show ?thesis using claim [OF Bad(1,2)] Bad(3) by (simp add: idle_def)
  next
    case (Taken t v v1 j payload)
    have n: "next_job t (dw_lease dw) (outbox_jobs (wo_store v)) \<noteq> None"
      using claim_result [OF Taken(2)] by auto
    have v: "jobs_wf (wo_store v)" using wf_same [OF wf] Taken(1) by (simp add: same_jobs_def)
    have "\<not> idle r" using taken_settled [OF v Taken(2,3)] by (auto simp: idle_def)
    moreover have c: "jobs_wf (wo_store v1)" "remaining (wo_store w) = Suc (remaining (wo_store v1))" using claim [OF Taken(1,2)] n by simp_all
    ultimately show ?thesis using settle_keeps [OF Taken(3) c(1)] by simp
  qed
qed

section \<open>Rounds and pauses\<close>

text \<open>The rounds of any workers, each after a pause: how many of them took a job.\<close>

definition after_pause :: "int \<Rightarrow> world \<Rightarrow> world" where
  "after_pause pause w = w\<lparr>wo_clock := \<lambda>n. wo_clock w n + pause\<rparr>"

fun rounds :: "(int \<times> durable_worker) list \<Rightarrow> world \<Rightarrow> nat \<times> world" where
  "rounds [] w = (0, w)"
| "rounds ((pause, dw) # rest) w = (case process_one dw (after_pause pause w) of (r, w1) \<Rightarrow> (case rounds rest w1 of
      (n, w') \<Rightarrow> ((if idle r then 0 else 1) + n, w')))"

lemma wait_store [simp]: "wo_store (after_pause pause w) = wo_store w" "wo_ticks (after_pause pause w) = wo_ticks w"
  by (simp_all add: after_pause_def)

text \<open>
  A job is finished when it is completed or dead. It is in reach at a time when its payload reads
  and it is finished, or each of the workers may claim it from that time on.
\<close>

definition job_finished :: "job_row \<Rightarrow> bool" where
  "job_finished j \<longleftrightarrow> jo_status j \<in> {''completed'', ''dead''}"

definition in_reach :: "durable_worker list \<Rightarrow> time \<Rightarrow> job_row \<Rightarrow> bool" where
  "in_reach dws t j \<longleftrightarrow> loads (jo_payload j) \<noteq> None
     \<and> (job_finished j \<or> list_all (\<lambda>dw. claimable t (dw_lease dw) j) dws)"

definition jobs_in_reach :: "durable_worker list \<Rightarrow> time \<Rightarrow> world \<Rightarrow> bool" where
  "jobs_in_reach dws t w \<longleftrightarrow> list_all (in_reach dws t) (outbox_jobs (wo_store w))"

abbreviation time_of :: "world \<Rightarrow> time" where
  "time_of w \<equiv> wo_clock w (wo_ticks w)"

lemma claimable_later: "claimable t lease j \<Longrightarrow> t \<le> u \<Longrightarrow> claimable u lease j"
  by (auto simp: claimable_def split: option.splits)

lemma reach_later: "in_reach dws t j \<Longrightarrow> t \<le> u \<Longrightarrow> in_reach dws u j"
  by (auto simp: in_reach_def list_all_iff intro: claimable_later)

lemma retry_delay_bound: "retry_delay n \<le> 300"
  by (simp add: retry_delay_def)

text \<open>The row that a taken job leaves is finished, or in reach five minutes after the round.\<close>

lemma settled_in_reach:
  assumes f: "settles w' j b f" and m: "mono (wo_clock w')" and l: "loads (jo_payload j) \<noteq> None"
  shows "in_reach dws (wo_clock w' (wo_ticks w') + seconds 300) (f j)"
proof (cases b)
  case True
  then show ?thesis using f l by (auto simp: settles_def in_reach_def job_finished_def complete_job_def)
next
  case False
  then obtain n err where n: "n \<le> wo_ticks w'" and f: "f = give_back (wo_clock w' n + seconds (retry_delay (jo_attempts j)))
      (if jo_attempts j \<ge> jo_max_attempts j then ''dead'' else ''retry'') err"
    using f by (auto simp: settles_def)
  have "wo_clock w' n \<le> wo_clock w' (wo_ticks w')" using m n by (rule monoD)
  then have "wo_clock w' n + seconds (retry_delay (jo_attempts j)) \<le> wo_clock w' (wo_ticks w') + seconds 300"
    using retry_delay_bound [of "jo_attempts j"] by (simp add: seconds_def)
  then show ?thesis using l by (auto simp: f in_reach_def job_finished_def give_back_def claimable_def list_all_iff)
qed

lemma settles_id: "settles w' j b f \<Longrightarrow> jo_id (f k) = jo_id k"
  by (auto simp: settles_def split: if_splits)

text \<open>The rows after a round that took a job: the job's row settled, all others as they were.\<close>

lemma taken_rows:
  assumes wf: "jobs_wf (wo_store v)" and c: "claim_outbox t (dw_id dw) lease (wo_store v) = (Inr (Some (j, payload)), wo_store v1)"
    and d: "catching (deliver dw j payload) (give_up dw j) v1 = (r, w')"
  obtains b f where "\<not> idle r" "settles w' j b f" "loads (jo_payload j) \<noteq> None"
    "map jo_id (outbox_jobs (wo_store w')) = map jo_id (outbox_jobs (wo_store v))"
    "set (outbox_jobs (wo_store w')) \<subseteq> insert (f j) (set (outbox_jobs (wo_store v)))"
proof -
  obtain b f where r: "r = Inr \<lparr>wr_claimed = True, wr_completed = b, wr_job = Some (jo_id j)\<rparr>" and f: "settles w' j b f"
    and o: "outbox_jobs (wo_store w') = update_where (held_by (jo_id j) (dw_id dw)) f (outbox_jobs (wo_store v1))"
    using taken_jobs [OF wf c d] by blast
  obtain k where k: "next_job t lease (outbox_jobs (wo_store v)) = Some k" "j = start_attempt t (dw_id dw) k"
      "loads (jo_payload k) = Some payload" "wo_store v1 = job_step (Take t (dw_id dw) lease) (wo_store v)"
    using claim_result [OF c] by blast
  have o1: "outbox_jobs (wo_store v1) = update_where (\<lambda>r. jo_id r = jo_id k) (start_attempt t (dw_id dw)) (outbox_jobs (wo_store v))"
    by (simp add: k(4) claim_jobs k(1))
  have kv: "k \<in> set (outbox_jobs (wo_store v))" using next_job_Some [OF k(1)] by simp
  have row: "(if held_by (jo_id j) (dw_id dw) (if jo_id x = jo_id k then start_attempt t (dw_id dw) x else x)
      then f (if jo_id x = jo_id k then start_attempt t (dw_id dw) x else x)
      else (if jo_id x = jo_id k then start_attempt t (dw_id dw) x else x)) \<in> {f j, x}" if x: "x \<in> set (outbox_jobs (wo_store v))" for x
  proof (cases "jo_id x = jo_id k")
    case True
    then have "x = k" using wf_idD [OF wf x kv] by simp
    then show ?thesis by (simp add: k(2) held_by_def start_attempt_def)
  qed (simp add: k(2) held_by_def)
  have "set (outbox_jobs (wo_store w')) \<subseteq> insert (f j) (set (outbox_jobs (wo_store v)))"
    using row by (fastforce simp: o o1 update_where_def)
  moreover have "map jo_id (outbox_jobs (wo_store w')) = map jo_id (outbox_jobs (wo_store v))"
    by (simp add: o o1 map_update_where settles_id [OF f])
  moreover have "\<not> idle r" "loads (jo_payload j) \<noteq> None" using r k(2,3) by (simp_all add: idle_def start_attempt_def)
  ultimately show thesis using that f by blast
qed

text \<open>
  A round keeps the jobs in reach within five minutes of its end. When it finds nothing it leaves the jobs as
  they were, and if it came when they had come in reach, all are finished.
\<close>

lemma round_in_reach:
  assumes wf: "jobs_wf (wo_store w)" and m: "mono (wo_clock w)" and reach: "jobs_in_reach dws t w" "t \<le> time_of w + seconds 300"
    and dw: "dw \<in> set dws" and pause: "0 \<le> pause" and run: "process_one dw (after_pause pause w) = (r, w')"
  shows "mono (wo_clock w') \<and> time_of w + pause \<le> time_of w' \<and> jobs_in_reach dws (time_of w' + seconds 300) w'
    \<and> map jo_id (outbox_jobs (wo_store w')) = map jo_id (outbox_jobs (wo_store w))
    \<and> (idle r \<longrightarrow> outbox_jobs (wo_store w') = outbox_jobs (wo_store w)
        \<and> (t \<le> time_of w + pause \<longrightarrow> list_all job_finished (outbox_jobs (wo_store w'))))"
proof -
  let ?w = "after_pause pause w"
  have mw: "mono (wo_clock ?w)" using m by (auto simp: after_pause_def mono_def)
  have t: "time_of w + pause \<le> time_of v \<and> mono (wo_clock v)" if "time_passes ?w v" for v
    using later_clock [OF that mw] that mw by (simp add: time_passes_def after_pause_def)
  have far: "t \<le> time_of v + seconds 300" if "time_passes ?w v" for v
    using t [OF that] reach(2) pause by simp
  have old: "in_reach dws t k" if "k \<in> set (outbox_jobs (wo_store w))" for k
    using reach(1) that by (simp add: jobs_in_reach_def list_all_iff)
  from run show ?thesis
  proof (cases rule: round_cases)
    case (Idle u v)
    have w': "outbox_jobs (wo_store w') = outbox_jobs (wo_store w)" and n: "next_job u (dw_lease dw) (outbox_jobs (wo_store w)) = None"
      using Idle(1,2) by (auto simp: same_jobs_def claim_outbox_def Let_def split: option.splits)
    have k: "time_passes ?w w'" using later_round run by (rule onward.keepsD)
    have "job_finished k" if "k \<in> set (outbox_jobs (wo_store w))" "t \<le> time_of w + pause" for k
    proof (rule ccontr)
      assume "\<not> job_finished k"
      then have "claimable t (dw_lease dw) k" using old [OF that(1)] dw by (auto simp: in_reach_def list_all_iff)
      moreover have "t \<le> u" using t [OF Idle(4)] Idle(5) that(2) by simp
      ultimately have "claimable u (dw_lease dw) k" by (rule claimable_later)
      then show False using n that(1) by (auto simp: next_job_None)
    qed
    moreover have "in_reach dws (wo_clock w' (wo_ticks w') + seconds 300) x" if "x \<in> set (outbox_jobs (wo_store w))" for x
      using reach_later [OF old [OF that] far [OF k]] .
    ultimately show ?thesis using w' t [OF k] by (auto simp: jobs_in_reach_def list_all_iff)
  next
    case (Bad u v e)
    obtain k where "k \<in> set (outbox_jobs (wo_store w))" "loads (jo_payload k) = None"
      using Bad(1,2) next_job_Some by (fastforce simp: same_jobs_def claim_outbox_def Let_def start_attempt_def split: option.splits)
    then have False using old [of k] by (simp add: in_reach_def)
    then show ?thesis ..
  next
    case (Taken u v v1 j payload)
    have v: "jobs_wf (wo_store v)" "outbox_jobs (wo_store v) = outbox_jobs (wo_store w)"
      using wf_same [OF wf] Taken(1) by (simp_all add: same_jobs_def)
    have k: "time_passes ?w w'" using onward.keepsD [OF later_settle Taken(3)] Taken(4,6) by (auto simp: time_passes_def)
    obtain b f where f: "\<not> idle r" "settles w' j b f" "loads (jo_payload j) \<noteq> None"
      "map jo_id (outbox_jobs (wo_store w')) = map jo_id (outbox_jobs (wo_store v))"
      "set (outbox_jobs (wo_store w')) \<subseteq> insert (f j) (set (outbox_jobs (wo_store v)))"
      using taken_rows [OF v(1) Taken(2,3)] .
    have "in_reach dws (wo_clock w' (wo_ticks w') + seconds 300) x" if "x \<in> set (outbox_jobs (wo_store w'))" for x
    proof (cases "x = f j")
      case True
      then show ?thesis using settled_in_reach [OF f(2) _ f(3)] t [OF k] by simp
    next
      case False
      then have "x \<in> set (outbox_jobs (wo_store w))" using that f(5) v(2) by auto
      from reach_later [OF old [OF this] far [OF k]] show ?thesis .
    qed
    then show ?thesis using f(1,4) v(2) t [OF k] by (simp add: jobs_in_reach_def list_all_iff)
  qed
qed

lemma finished_idle:
  assumes f: "list_all job_finished (outbox_jobs (wo_store w))" and wf: "jobs_wf (wo_store w)" and run: "process_one dw w = (r, w')"
  shows "idle r"
proof -
  have none: "next_job t lease (outbox_jobs (wo_store v)) = None" if "same_jobs w v" for t lease v
    using f that by (force simp: next_job_None same_jobs_def list_all_iff job_finished_def claimable_def)
  from run show ?thesis
  proof (cases rule: round_cases)
    case (Bad t v e)
    then show ?thesis using none [OF Bad(1)] by (auto simp: claim_outbox_def Let_def)
  next
    case (Taken t v v1 j payload)
    then show ?thesis using none [OF Taken(1)] claim_result [OF Taken(2)] by auto
  qed (simp add: idle_def)
qed

lemma out_of_attempts: "in_reach dws t j \<Longrightarrow> dws \<noteq> [] \<Longrightarrow> attempts_left j = 0 \<Longrightarrow> job_finished j"
  by (cases dws) (auto simp: in_reach_def claimable_def attempts_left_def)

lemma rounds_append:
  "rounds (ps @ qs) w = (case rounds ps w of (n, w1) \<Rightarrow> case rounds qs w1 of (m, w') \<Rightarrow> (n + m, w'))"
  by (induction ps arbitrary: w) (auto split: prod.splits)

text \<open>
  A phase: rounds of any workers whose pauses add up to the time at which the jobs are in reach. Either one of
  the rounds takes a job, or all are finished.
\<close>

lemma phase_progress:
  "jobs_wf (wo_store w) \<Longrightarrow> mono (wo_clock w) \<Longrightarrow> jobs_in_reach dws t w \<Longrightarrow> t \<le> time_of w + seconds 300
    \<Longrightarrow> list_all (\<lambda>(pause, dw). 0 \<le> pause \<and> dw \<in> set dws) ps \<Longrightarrow> rounds ps w = (n, w')
    \<Longrightarrow> jobs_wf (wo_store w') \<and> mono (wo_clock w') \<and> n + remaining (wo_store w') = remaining (wo_store w)
      \<and> map jo_id (outbox_jobs (wo_store w')) = map jo_id (outbox_jobs (wo_store w))
      \<and> (ps \<noteq> [] \<longrightarrow> jobs_in_reach dws (time_of w' + seconds 300) w')
      \<and> (ps \<noteq> [] \<and> t \<le> time_of w + sum_list (map fst ps) \<longrightarrow> 0 < n \<or> list_all job_finished (outbox_jobs (wo_store w')))
      \<and> (list_all job_finished (outbox_jobs (wo_store w)) \<longrightarrow> list_all job_finished (outbox_jobs (wo_store w')))"
proof (induction ps arbitrary: w n w' t)
  case (Cons x ps)
  obtain pause dw where x: "x = (pause, dw)" by force
  obtain r w1 where p: "process_one dw (after_pause pause w) = (r, w1)" by force
  obtain m w2 where q: "rounds ps w1 = (m, w2)" by force
  have n: "n = (if idle r then 0 else 1) + m" "w' = w2" using Cons.prems(6) p q x by simp_all
  have x': "0 \<le> pause" "dw \<in> set dws" "list_all (\<lambda>(pause, dw). 0 \<le> pause \<and> dw \<in> set dws) ps" using Cons.prems(5) x by simp_all
  have wf: "jobs_wf (wo_store (after_pause pause w))" using Cons.prems(1) by simp
  note rem = round_remaining [OF wf p, simplified]
  note here = round_in_reach [OF Cons.prems(1-4) x'(2,1) p]
  let ?t = "if idle r then t else time_of w1 + seconds 300"
  have reach: "jobs_in_reach dws ?t w1" "?t \<le> time_of w1 + seconds 300"
    using here Cons.prems(3,4) x'(1) by (auto simp: jobs_in_reach_def)
  note rest = Cons.IH [OF _ _ reach x'(3) q]
  have stay: "list_all job_finished (outbox_jobs (wo_store w1))" if "list_all job_finished (outbox_jobs (wo_store w))"
    using here that finished_idle [OF _ wf p] by simp
  have late: "0 < n \<or> list_all job_finished (outbox_jobs (wo_store w'))" if "t \<le> time_of w + sum_list (map fst (x # ps))"
  proof (cases "idle r \<and> \<not> t \<le> time_of w + pause")
    case True
    then have "ps \<noteq> []" "t \<le> time_of w1 + sum_list (map fst ps)" using that here x by auto
    then show ?thesis using True rest here rem n by auto
  next
    case False
    then show ?thesis using rest here rem n by (cases "idle r") auto
  qed
  have "jobs_in_reach dws (time_of w' + seconds 300) w'"
    using rest here rem n q by (cases ps) auto
  then show ?case using rest here rem n late stay by auto
qed auto

text \<open>Phases of five minutes, at least as many as attempts are left, finish every job.\<close>

lemma phases_finish:
  "jobs_wf (wo_store w) \<Longrightarrow> mono (wo_clock w) \<Longrightarrow> jobs_in_reach dws (time_of w + seconds 300) w \<Longrightarrow> dws \<noteq> []
    \<Longrightarrow> list_all (\<lambda>ps. ps \<noteq> [] \<and> seconds 300 \<le> sum_list (map fst ps) \<and> list_all (\<lambda>(pause, dw). 0 \<le> pause \<and> dw \<in> set dws) ps) phases
    \<Longrightarrow> remaining (wo_store w) \<le> length phases \<or> list_all job_finished (outbox_jobs (wo_store w))
    \<Longrightarrow> rounds (concat phases) w = (n, w')
    \<Longrightarrow> list_all job_finished (outbox_jobs (wo_store w')) \<and> map jo_id (outbox_jobs (wo_store w')) = map jo_id (outbox_jobs (wo_store w))
      \<and> jobs_wf (wo_store w') \<and> n + remaining (wo_store w') = remaining (wo_store w)"
proof (induction phases arbitrary: w n w')
  case Nil
  have "job_finished j" if j: "j \<in> set (outbox_jobs (wo_store w))" for j
  proof (rule disjE [OF Nil.prems(6)])
    assume "remaining (wo_store w) \<le> length []"
    then have "attempts_left j = 0" using j by (auto simp: remaining_def)
    then show ?thesis using j Nil.prems(3,4) out_of_attempts by (auto simp: jobs_in_reach_def list_all_iff)
  qed (use j in \<open>auto simp: list_all_iff\<close>)
  then show ?case using Nil.prems by (auto simp: list_all_iff)
next
  case (Cons ps phases)
  obtain k w1 where p: "rounds ps w = (k, w1)" by force
  obtain m w2 where q: "rounds (concat phases) w1 = (m, w2)" by force
  have n: "n = k + m" "w' = w2" using Cons.prems(7) p q by (simp_all add: rounds_append)
  have ps: "ps \<noteq> []" "time_of w + seconds 300 \<le> time_of w + sum_list (map fst ps)"
      "list_all (\<lambda>(pause, dw). 0 \<le> pause \<and> dw \<in> set dws) ps" using Cons.prems(5) by simp_all
  note here = phase_progress [OF Cons.prems(1-3) order_refl ps(3) p]
  have "remaining (wo_store w1) \<le> length phases \<or> list_all job_finished (outbox_jobs (wo_store w1))"
    using Cons.prems(6) here ps(1,2) by auto
  from Cons.IH [OF _ _ _ Cons.prems(4) _ this q] show ?case using Cons.prems(5) here ps(1) n by auto
qed

lemma caught_claims:
  "\<exists>b w'. catching (deliver dw j payload) (give_up dw j) v = (Inr \<lparr>wr_claimed = True, wr_completed = b, wr_job = Some (jo_id j)\<rparr>, w')"
proof -
  obtain x w1 where x: "deliver dw j payload v = (x, w1)" by force
  from deliver_cases [OF x] show ?thesis
  proof (elim disjE conjE exE)
    fix e assume "x = Inl e"
    then show ?thesis using x give_up_run [of dw j e w1] by (auto simp: catching_def)
  qed (auto simp: catching_def x done_result_def)
qed

section \<open>A queue of one job\<close>

definition demo_worker :: durable_worker where
  "demo_worker = \<lparr>dw_env = \<lparr>de_crypto = demo_crypto, de_audit_key = ''k'', de_data_key = ''d''\<rparr>,
     dw_notifier = \<lparr>nt_url = None, nt_secret = [], nt_console = [], nt_post = (\<lambda>u b s. False)\<rparr>, dw_id = ''w'', dw_lease = 30\<rparr>"

definition queue_world :: "string \<Rightarrow> world" where
  "queue_world payload = demo_world\<lparr>wo_store := empty_store\<lparr>outbox_jobs := [(new_job 0 ''j'' ''approval.required'' ''a'' [] 3)\<lparr>jo_payload := payload\<rparr>]\<rparr>\<rparr>"

lemma queue_wf: "jobs_wf (wo_store (queue_world payload))" "remaining (wo_store (queue_world payload)) = 3"
  by (simp_all add: queue_world_def jobs_wf_def job_ok_def new_job_def remaining_def attempts_left_def)

lemma queue_claim:
  "claim_outbox 1000000 ''w'' 30 (st\<lparr>outbox_jobs := outbox_jobs (wo_store (queue_world payload))\<rparr>) =
     (case loads payload of None \<Rightarrow> Inl (ValueError ''JSONDecodeError'')
        | Some v \<Rightarrow> Inr (Some (start_attempt 1000000 ''w'' (hd (outbox_jobs (wo_store (queue_world payload)))), v)),
      st\<lparr>outbox_jobs := [start_attempt 1000000 ''w'' (hd (outbox_jobs (wo_store (queue_world payload))))]\<rparr>)"
  by (simp add: queue_world_def claim_outbox_def next_job_def claimable_def new_job_def update_where_def start_attempt_def Let_def
    split: option.split)

lemma queue_round:
  "\<exists>v. process_one demo_worker (queue_world payload) = (case loads payload of None \<Rightarrow> (Inl (ValueError ''JSONDecodeError''), v)
     | Some x \<Rightarrow> catching (deliver demo_worker (start_attempt 1000000 ''w'' (hd (outbox_jobs (wo_store (queue_world payload))))) x)
         (give_up demo_worker (start_attempt 1000000 ''w'' (hd (outbox_jobs (wo_store (queue_world payload)))))) v)"
proof -
  obtain hs where "beat demo_worker 0 0 (queue_world payload) =
      (Inr (), (queue_world payload)\<lparr>wo_ticks := 1, wo_store := (wo_store (queue_world payload))\<lparr>worker_heartbeats := hs\<rparr>\<rparr>)"
    by (simp add: beat_def andthen_tick db_def heartbeat_worker_def queue_world_def demo_world_def)
  moreover have "wo_clock (queue_world payload) 1 = 1000000" by (simp add: queue_world_def demo_world_def)
  moreover have "(wo_store (queue_world payload))\<lparr>worker_heartbeats := hs\<rparr> =
      ((wo_store (queue_world payload))\<lparr>worker_heartbeats := hs\<rparr>)\<lparr>outbox_jobs := outbox_jobs (wo_store (queue_world payload))\<rparr>"
    by simp
  ultimately show ?thesis
    using queue_claim [of payload "(wo_store (queue_world payload))\<lparr>worker_heartbeats := hs\<rparr>"]
    by (cases "loads payload") (auto simp: process_one_def andthen_def [of "beat a b c" for a b c] claimed_job_def andthen_assoc andthen_tick
      andthen_db andthen_lift demo_worker_def)
qed

section \<open>Properties\<close>

text \<open>
  The worker settles every job it takes: a round that reports a job leaves it completed when it
  reports completion, and otherwise waiting for a retry after the delay of its attempt, or dead when
  its attempts are used up; whatever the delivery did, the job is not left in processing.
\<close>

theorem round_settles_job:
  assumes "jobs_wf (wo_store w)" and "process_one dw w = (Inr r, w')" and "wr_claimed r"
  shows "\<exists>i k. wr_job r = Some i \<and> job_at i (wo_store w') = Some k \<and> settled_as (wr_completed r) k"
  using assms(2)
proof (cases rule: round_cases)
  case (Taken t v v1 j payload)
  have v: "jobs_wf (wo_store v)" using wf_same [OF assms(1)] Taken(1) by (simp add: same_jobs_def)
  show ?thesis using taken_settled [OF v Taken(2,3)] by auto
qed (use assms(3) in auto)

theorem round_settles_job_witness:
  "\<exists>r w' k. process_one demo_worker (queue_world ''{}'') = (Inr r, w') \<and> job_at ''j'' (wo_store w') = Some k \<and> settled_as (wr_completed r) k"
proof -
  have l: "loads ''{}'' = Some (JDict [])" by code_simp
  obtain b w' where p: "process_one demo_worker (queue_world ''{}'') =
      (Inr \<lparr>wr_claimed = True, wr_completed = b, wr_job = Some ''j''\<rparr>, w')"
  proof -
    let ?j = "start_attempt 1000000 ''w'' (hd (outbox_jobs (wo_store (queue_world ''{}''))))"
    obtain v where v: "process_one demo_worker (queue_world ''{}'') = catching (deliver demo_worker ?j (JDict [])) (give_up demo_worker ?j) v"
      using queue_round [of "''{}''"] by (auto simp: l)
    have "jo_id ?j = ''j''" by (simp add: queue_world_def new_job_def)
    then show thesis using that v caught_claims [of demo_worker ?j "JDict []" v] by auto
  qed
  from round_settles_job [OF queue_wf(1) p] show ?thesis using p by auto
qed

text \<open>
  A failure of a delivery does not escape the worker: a round raises only when the claimed job's
  stored payload is not JSON, which no payload that was queued is; every other exception becomes a
  retry.
\<close>

theorem round_contains_failures:
  assumes "process_one dw w = (Inl e, w')" and "jobs_wf (wo_store w)"
  shows "\<exists>j \<in> set (outbox_jobs (wo_store w)). loads (jo_payload j) = None"
  using assms(1)
proof (cases rule: round_cases)
  case (Bad t v f)
  obtain j where "next_job t (dw_lease dw) (outbox_jobs (wo_store v)) = Some j" "loads (jo_payload j) = None"
    using Bad(2) by (auto simp: claim_outbox_def Let_def start_attempt_def split: option.splits)
  then show ?thesis using next_job_Some Bad(1) by (metis same_jobs_def)
next
  case (Taken t v v1 j payload)
  have v: "jobs_wf (wo_store v)" using wf_same [OF assms(2)] Taken(1) by (simp add: same_jobs_def)
  show ?thesis using taken_settled [OF v Taken(2,3)] by auto
qed simp

theorem round_contains_failures_witness:
  "\<exists>j \<in> set (outbox_jobs (wo_store (queue_world ''x''))). loads (jo_payload j) = None"
proof -
  have l: "loads ''x'' = None" by code_simp
  obtain w' where p: "process_one demo_worker (queue_world ''x'') = (Inl (ValueError ''JSONDecodeError''), w')"
    using queue_round [of "''x''"] by (auto simp: l)
  show ?thesis by (rule round_contains_failures [OF p queue_wf(1)])
qed

text \<open>
  C34. The workers drain the queue. Let any workers make rounds, with any pauses, in phases of at least
  five minutes each, as many as attempts are left: then every job is completed, or dead with all its
  attempts used, however the deliveries fare, and none is lost. The jobs must be in reach: five
  minutes from the first clock reading each one, whose payload reads, is completed or dead or can be
  claimed by the workers, as is every job queued before that, every retry and every job whose worker
  crashed more than a lease ago with an attempt left. Each round that takes a job uses one attempt.
\<close>

theorem workers_drain:
  assumes "jobs_wf (wo_store w)" and "mono (wo_clock w)"
    and "jobs_in_reach dws (wo_clock w (wo_ticks w) + seconds 300) w" and "dws \<noteq> []"
    and "list_all (\<lambda>ps. ps \<noteq> [] \<and> seconds 300 \<le> sum_list (map fst ps) \<and> list_all (\<lambda>(pause, dw). 0 \<le> pause \<and> dw \<in> set dws) ps) phases"
    and "remaining (wo_store w) \<le> length phases" and "rounds (concat phases) w = (n, w')"
  shows "(\<forall>j \<in> set (outbox_jobs (wo_store w')). jo_status j = ''completed''
       \<or> jo_status j = ''dead'' \<and> jo_max_attempts j \<le> jo_attempts j)
    \<and> map jo_id (outbox_jobs (wo_store w')) = map jo_id (outbox_jobs (wo_store w))
    \<and> n + remaining (wo_store w') = remaining (wo_store w)"
  using phases_finish [OF assms(1-5) disjI1 [OF assms(6)] assms(7)]
  by (auto simp: list_all_iff job_finished_def jobs_wf_def job_ok_def)

text \<open>A worker that polls every second for a quarter of an hour drains a queue of one job.\<close>

theorem workers_drain_witness:
  "\<exists>n w'. rounds (concat (replicate 3 (replicate 300 (seconds 1, demo_worker)))) (queue_world ''{}'') = (n, w')
    \<and> map jo_id (outbox_jobs (wo_store w')) = [''j'']
    \<and> (\<forall>j \<in> set (outbox_jobs (wo_store w')). jo_status j = ''completed'' \<or> jo_status j = ''dead'' \<and> jo_max_attempts j \<le> jo_attempts j)"
proof -
  let ?phases = "replicate 3 (replicate 300 (seconds 1, demo_worker))"
  have "loads ''{}'' = Some (JDict [])" by code_simp
  then have r: "jobs_in_reach [demo_worker] (time_of (queue_world ''{}'') + seconds 300) (queue_world ''{}'')"
    by (simp add: jobs_in_reach_def in_reach_def queue_world_def claimable_def new_job_def demo_world_def seconds_def demo_worker_def)
  have m: "mono (wo_clock (queue_world ''{}''))" by (simp add: queue_world_def demo_world_def mono_def)
  have ps: "list_all (\<lambda>ps. ps \<noteq> [] \<and> seconds 300 \<le> sum_list (map fst ps)
      \<and> list_all (\<lambda>(pause, dw). 0 \<le> pause \<and> dw \<in> set [demo_worker]) ps) ?phases"
    by (simp add: list_all_iff sum_list_replicate seconds_def)
  obtain n w' where e: "rounds (concat ?phases) (queue_world ''{}'') = (n, w')" by force
  have "map jo_id (outbox_jobs (wo_store (queue_world ''{}''))) = [''j'']" by (simp add: queue_world_def new_job_def)
  moreover have l: "remaining (wo_store (queue_world ''{}'')) \<le> length ?phases" using queue_wf(2) [of "''{}''"] by simp
  ultimately show ?thesis using workers_drain [OF queue_wf(1) m r _ ps l e] by (intro exI [of _ n] exI [of _ w'] conjI e) simp_all
qed

end
