(* ===== verification/Mcp.thy ===== *)
theory Mcp
  imports Gateway_Demo
begin

text \<open>
  \<^verbatim>\<open>mcp.py\<close>: the JSON-RPC messages of the MCP endpoint. A message is answered by a result or an
  error object; a tool call becomes a request of the gateway with a fresh request id, the trace id
  of its metadata or a fresh one, and the tool server that the route forces.
\<close>

section \<open>Messages\<close>

definition PROTOCOL_VERSION :: string where
  "PROTOCOL_VERSION = ''2025-06-18''"

definition rpc_result :: "json \<Rightarrow> json \<Rightarrow> json" where
  "rpc_result i r = JDict [(''jsonrpc'', JStr ''2.0''), (''id'', i), (''result'', r)]"

definition rpc_error :: "json \<Rightarrow> int \<Rightarrow> string \<Rightarrow> json" where
  "rpc_error i code message = JDict [(''jsonrpc'', JStr ''2.0''), (''id'', i),
     (''error'', JDict [(''code'', JInt code), (''message'', JStr message)])]"

text \<open>\<^verbatim>\<open>d.get(k)\<close>, and the values that Python counts as false.\<close>

definition server_info :: json where
  "server_info = JDict
     [(''protocolVersion'', JStr PROTOCOL_VERSION),
      (''capabilities'', JDict [(''tools'', JDict [(''listChanged'', JBool False)])]),
      (''serverInfo'', JDict [(''name'', JStr ''SentinelGate''), (''version'', JStr ''0.11.0'')]),
      (''instructions'', JStr (''All tool calls are identity-, provenance-, taint- and policy-checked. ''
         @ ''Pass trace metadata in params._meta.sentinelgate.''))]"

section \<open>Tool calls\<close>

text \<open>\<^verbatim>\<open>(params.get("_meta") or {}).get("sentinelgate") or {}\<close>: a truthy value without \<^verbatim>\<open>get\<close> raises.\<close>

definition call_metadata :: "(string, json) dict \<Rightarrow> exc + json" where
  "call_metadata params = (case or_else (jget params ''_meta'') (JDict []) of
      JDict m \<Rightarrow> Inr (or_else (jget m ''sentinelgate'') (JDict []))
    | _ \<Rightarrow> Inl (AttributeError ''get''))"

definition metadata_text :: "(string, json) dict \<Rightarrow> string \<Rightarrow> string \<Rightarrow> string" where
  "metadata_text m k d = (case map_of m k of None \<Rightarrow> d | Some v \<Rightarrow> py_str v)"

text \<open>The request, from the two fresh ids; \<open>None\<close> is a validation error.\<close>

definition call_of_message :: "string option \<Rightarrow> string \<Rightarrow> string \<Rightarrow> string \<Rightarrow> (string, json) dict \<Rightarrow> (string, json) dict \<Rightarrow> tool_call option" where
  "call_of_message server request trace name arguments m =
     Option.bind (as_strs (or_else (jget m ''provenance_tokens'') (JList []))) (\<lambda>tokens.
     Option.bind (if falsy (jget m ''trace_id'') then Some trace else as_str (jget m ''trace_id'')) (\<lambda>trace_id.
       let call = \<lparr>tc_request_id = request, tc_user_id = metadata_text m ''user_id'' ''mcp-user'', tc_tool_name = name,
             tc_arguments = arguments, tc_provenance_tokens = tokens, tc_field_provenance = [],
             tc_purpose = metadata_text m ''purpose'' ''MCP tool invocation'', tc_trace_id = trace_id, tc_task_id = None,
             tc_mcp_server_id = server\<rparr>
       in if tool_call_ok call then Some call else None))"

definition shown_trace :: "execution_result \<Rightarrow> tool_call \<Rightarrow> string" where
  "shown_trace x call = (case xr_trace_id x of None \<Rightarrow> tc_trace_id call | Some t \<Rightarrow> if t = [] then tc_trace_id call else t)"

fun mode_value :: "enforcement_mode \<Rightarrow> string" where
  "mode_value OBSERVE = ''observe''"
| "mode_value WARN = ''warn''"
| "mode_value ENFORCE = ''enforce''"

definition visible_result :: "execution_result \<Rightarrow> tool_call \<Rightarrow> json" where
  "visible_result x call = JDict
     [(''status'', JStr (xr_status x)),
      (''output'', case xr_output x of None \<Rightarrow> JNull | Some j \<Rightarrow> j),
      (''decision'', case xr_decision x of None \<Rightarrow> JNull | Some d \<Rightarrow> JStr (decision_value (pd_decision d))),
      (''reasons'', case xr_decision x of None \<Rightarrow> JList [] | Some d \<Rightarrow> jstrs (pd_reasons d)),
      (''approval_id'', jopt (xr_approval_id x)),
      (''classification'', case xr_classification x of None \<Rightarrow> JNull | Some c \<Rightarrow> JStr (classification_value c)),
      (''taint_labels'', jstrs (xr_labels x)),
      (''trace_id'', JStr (shown_trace x call))]"

definition security_metadata :: "execution_result \<Rightarrow> tool_call \<Rightarrow> json" where
  "security_metadata x call = JDict
     [(''trace_id'', JStr (shown_trace x call)),
      (''output_provenance_token'', jopt (xr_token x)),
      (''enforcement_mode'', case xr_decision x of None \<Rightarrow> JNull | Some d \<Rightarrow> JStr (mode_value (pd_mode d)))]"

definition call_response :: "execution_result \<Rightarrow> tool_call \<Rightarrow> json" where
  "call_response x call = JDict
     [(''content'', JList [JDict [(''type'', JStr ''text''), (''text'', JStr (canonical_json (visible_result x call)))]]),
      (''structuredContent'', visible_result x call),
      (''isError'', JBool (xr_status x \<noteq> ''succeeded'')),
      (''_meta'', JDict [(''sentinelgate'', security_metadata x call)])]"

definition tools_call :: "json \<Rightarrow> (string, json) dict \<Rightarrow> agent_principal \<Rightarrow> gateway \<Rightarrow> string option \<Rightarrow> json io" where
  "tools_call i params agent gw server =
     andthen (lift (call_metadata params)) (\<lambda>metadata.
     case (as_str (jget params ''name''), as_dict (or_else (jget params ''arguments'') (JDict [])), as_dict metadata) of
       (Some name, Some arguments, Some m) \<Rightarrow>
         andthen fresh_id (\<lambda>request. andthen fresh_id (\<lambda>trace.
         case call_of_message server request trace name arguments m of
           None \<Rightarrow> ret (rpc_error i (-32602) ''Invalid SentinelGate metadata'')
         | Some call \<Rightarrow> andthen (execute_call gw call agent) (\<lambda>x. ret (rpc_result i (call_response x call)))))
     | _ \<Rightarrow> ret (rpc_error i (-32602) ''Invalid tool call parameters''))"

definition handle_mcp :: "(string, json) dict \<Rightarrow> agent_principal \<Rightarrow> gateway \<Rightarrow> string option \<Rightarrow> json io" where
  "handle_mcp payload agent gw server =
     (let i = jget payload ''id'' in
      case (map_of payload ''jsonrpc'', map_of payload ''method'') of
        (Some (JStr version), Some (JStr m)) \<Rightarrow>
          if version \<noteq> ''2.0'' then ret (rpc_error i (-32600) ''Invalid JSON-RPC request'')
          else (case or_else (jget payload ''params'') (JDict []) of
            JDict params \<Rightarrow>
              if m = ''initialize'' then ret (rpc_result i server_info)
              else if m = ''ping'' then ret (rpc_result i (JDict []))
              else if m = ''tools/list'' then ret (rpc_result i (JDict [(''tools'', JList (available_tools gw agent))]))
              else if m \<noteq> ''tools/call'' then ret (rpc_error i (-32601) ''Method not found'')
              else tools_call i params agent gw server
          | _ \<Rightarrow> ret (rpc_error i (-32602) ''params must be an object''))
      | _ \<Rightarrow> ret (rpc_error i (-32600) ''Invalid JSON-RPC request''))"

section \<open>What a message can do\<close>

definition is_tools_call :: "(string, json) dict \<Rightarrow> bool" where
  "is_tools_call payload \<longleftrightarrow> map_of payload ''jsonrpc'' = Some (JStr ''2.0'') \<and> map_of payload ''method'' = Some (JStr ''tools/call'')"

lemma as_str_iff: "as_str v = Some s \<longleftrightarrow> v = JStr s"
  by (cases v) auto

lemma as_dict_iff: "as_dict v = Some d \<longleftrightarrow> v = JDict d"
  by (cases v) auto

text \<open>A message that runs something is a tool call whose request is the one executed.\<close>

lemma handle_mcp_calls:
  assumes h: "handle_mcp payload agent gw server w = (r, w')"
  shows "w' = w \<and> (\<exists>j. r = Inr j \<or> r = Inl (AttributeError ''get''))
    \<or> wo_store w' = wo_store w \<and> wo_invoked w' = wo_invoked w \<and> wo_posted w' = wo_posted w \<and> (\<exists>j. r = Inr j)
    \<or> is_tools_call payload \<and> (\<exists>params call w1 x. or_else (jget payload ''params'') (JDict []) = JDict params
        \<and> jget params ''name'' = JStr (tc_tool_name call) \<and> tc_mcp_server_id call = server \<and> tool_call_ok call
        \<and> tc_request_id call = wo_ids w (wo_drawn w) \<and> w1 = w\<lparr>wo_drawn := Suc (Suc (wo_drawn w))\<rparr>
        \<and> execute_call gw call agent w1 = (x, w')
        \<and> r = (case x of Inl e \<Rightarrow> Inl e | Inr y \<Rightarrow> Inr (rpc_result (jget payload ''id'') (call_response y call))))"
proof -
  have t: "?thesis" if "tools_call i params agent gw server w = (r, w')" "or_else (jget payload ''params'') (JDict []) = JDict params"
    "is_tools_call payload" "i = jget payload ''id''" for i params
  proof (cases "call_metadata params")
    case (Inl e)
    then have "e = AttributeError ''get''" by (auto simp: call_metadata_def split: json.splits)
    then show ?thesis using that(1) Inl by (simp add: tools_call_def andthen_lift)
  next
    case (Inr metadata)
    note run = that(1)
    let ?request = "wo_ids w (wo_drawn w)" and ?trace = "wo_ids w (Suc (wo_drawn w))" and ?w1 = "w\<lparr>wo_drawn := Suc (Suc (wo_drawn w))\<rparr>"
    consider (bad) "r = Inr (rpc_error i (-32602) ''Invalid tool call parameters'')" "w' = w"
      | (call) name arguments m where "jget params ''name'' = JStr name" "(case call_of_message server ?request ?trace name arguments m of
           None \<Rightarrow> ret (rpc_error i (-32602) ''Invalid SentinelGate metadata'')
         | Some call \<Rightarrow> andthen (execute_call gw call agent) (\<lambda>x. ret (rpc_result i (call_response x call)))) ?w1 = (r, w')"
      using run Inr by (auto simp: tools_call_def andthen_lift andthen_id ret_run as_str_iff split: option.splits)
    then show ?thesis
    proof cases
      case bad
      then show ?thesis by simp
    next
      case (call name arguments m)
      show ?thesis
      proof (cases "call_of_message server ?request ?trace name arguments m")
        case None
        then show ?thesis using call(2) by (auto simp: ret_run)
      next
        case (Some c)
        then have c: "tc_tool_name c = name" "tc_mcp_server_id c = server" "tool_call_ok c" "tc_request_id c = ?request"
          by (auto simp: call_of_message_def bind_eq_Some_conv Let_def split: if_splits)
        obtain x where x: "execute_call gw c agent ?w1 = (x, w')"
          "r = (case x of Inl e \<Rightarrow> Inl e | Inr y \<Rightarrow> Inr (rpc_result i (call_response y c)))"
          using call(2) Some by (auto simp: andthen_def ret_run split: prod.splits sum.splits)
        show ?thesis using call(1) c x that(2-4) by blast
      qed
    qed
  qed
  show ?thesis
    using h t by (auto simp: handle_mcp_def Let_def ret_run is_tools_call_def split: option.splits json.splits if_splits)
qed

section \<open>Properties\<close>

text \<open>
  C19. A message of the MCP endpoint runs a tool only as a cleared call: if a handler was invoked, the
  message was a well-formed tool call, its request carries a fresh request id and the server the
  route forces, the gateway cleared it for the agent of the token, and the handler ran once on
  validated arguments.
\<close>

theorem mcp_runs_cleared_calls:
  assumes "handle_mcp payload agent gw server w = (r, w')" and "wo_invoked w' \<noteq> wo_invoked w"
  shows "is_tools_call payload \<and> gw_mode gw \<noteq> OBSERVE \<and> (\<exists>call. tool_call_ok call \<and> tc_mcp_server_id call = server
    \<and> tc_request_id call = wo_ids w (wo_drawn w) \<and> \<not> claimed (tc_request_id call) (wo_store w)
    \<and> cleared gw call agent (w\<lparr>wo_drawn := Suc (Suc (wo_drawn w))\<rparr>) \<and> ran_once gw call w w')"
proof -
  let ?w1 = "w\<lparr>wo_drawn := Suc (Suc (wo_drawn w))\<rparr>"
  obtain call x where c: "is_tools_call payload" "tool_call_ok call" "tc_mcp_server_id call = server"
      "tc_request_id call = wo_ids w (wo_drawn w)" "execute_call gw call agent ?w1 = (x, w')"
    using handle_mcp_calls [OF assms(1)] assms(2) by auto
  have "wo_invoked w' \<noteq> wo_invoked ?w1" using assms(2) by simp
  from execute_invokes [OF c(5) this] show ?thesis using c by (auto simp: ran_once_def)
qed

definition demo_message :: "string \<Rightarrow> (string, json) dict" where
  "demo_message m = [(''jsonrpc'', JStr ''2.0''), (''id'', JInt 1), (''method'', JStr m),
     (''params'', JDict [(''name'', JStr ''note''), (''_meta'', JDict [(''sentinelgate'', JDict
        [(''user_id'', JStr ''u1''), (''trace_id'', JStr ''t1''), (''purpose'', JStr [])])])])]"

definition message_world :: world where
  "message_world = demo_world\<lparr>wo_ids := (\<lambda>n. if n = 0 then ''r1'' else ''id'' @ show_nat n)\<rparr>"

lemma demo_message_runs: "\<exists>r w'. handle_mcp (demo_message ''tools/call'') demo_agent demo_gateway None message_world = (r, w')
    \<and> wo_invoked w' = [(''note'', [])]"
proof -
  let ?w = "message_world\<lparr>wo_drawn := 2\<rparr>"
  have call: "call_of_message None ''r1'' t ''note'' [] [(''user_id'', JStr ''u1''), (''trace_id'', JStr ''t1''), (''purpose'', JStr [])]
      = Some demo_request" for t
    by code_simp
  have "quiet demo_agent ?w" "\<not> claimed ''r1'' (wo_store ?w)"
    using quiet_demo by (simp_all add: quiet_def claimed_def message_world_def demo_world_def empty_store_def)
  then obtain r w' where e: "execute_call demo_gateway demo_request demo_agent ?w = (r, w')" "wo_invoked w' = [(''note'', [])]"
    using demo_runs [of ?w] by (auto simp: message_world_def demo_world_def)
  have w: "wo_ids message_world 0 = ''r1''" "wo_drawn message_world = 0"
    by (simp_all add: message_world_def demo_world_def)
  show ?thesis using e
    by (simp add: handle_mcp_def demo_message_def Let_def or_else_def jget_def dget_def tools_call_def andthen_lift call_metadata_def
      andthen_id w call andthen_def [of "execute_call a b c" for a b c] numeral_2_eq_2 ret_run split: sum.split)
qed

theorem mcp_runs_cleared_calls_witness:
  "\<exists>call. tc_request_id call = ''r1'' \<and> cleared demo_gateway call demo_agent (message_world\<lparr>wo_drawn := 2\<rparr>)"
proof -
  obtain r w' where r: "handle_mcp (demo_message ''tools/call'') demo_agent demo_gateway None message_world = (r, w')"
      "wo_invoked w' = [(''note'', [])]"
    using demo_message_runs by blast
  then have "wo_invoked w' \<noteq> wo_invoked message_world" by (simp add: message_world_def demo_world_def)
  from mcp_runs_cleared_calls [OF r(1) this] show ?thesis by (auto simp: message_world_def demo_world_def numeral_2_eq_2)
qed

text \<open>
  Every message that is not a tool call is answered, without an exception and without any effect,
  by a result or an error object that carries the id of the message; so is a tool call, unless its
  \<^verbatim>\<open>_meta\<close> is a value without \<^verbatim>\<open>get\<close> or the gateway itself raises.
\<close>

definition reply_to :: "json \<Rightarrow> json \<Rightarrow> bool" where
  "reply_to i j \<longleftrightarrow> (\<exists>r. j = rpc_result i r) \<or> (\<exists>c m. j = rpc_error i c m)"

theorem mcp_messages_answered:
  shows "(\<exists>r w'. handle_mcp payload agent gw server w = (r, w') \<and> (\<forall>j. r = Inr j \<longrightarrow> reply_to (jget payload ''id'') j)
    \<and> (\<not> is_tools_call payload \<longrightarrow> w' = w \<and> r \<noteq> Inl e))"
proof -
  have call: "reply_to i j" if "tools_call i params agent gw server v = (Inr j, v')" for i params v v' j
    using that by (auto simp: tools_call_def andthen_lift andthen_id ret_run reply_to_def andthen_def [of "execute_call a b c" for a b c]
      split: option.splits sum.splits prod.splits)
  obtain r w' where r: "handle_mcp payload agent gw server w = (r, w')" by force
  have "\<forall>j. r = Inr j \<longrightarrow> reply_to (jget payload ''id'') j"
    using r call [of "jget payload ''id''" _ w _ w'] by (auto simp: handle_mcp_def Let_def ret_run reply_to_def
      split: option.splits json.splits if_splits)
  moreover have "\<not> is_tools_call payload \<Longrightarrow> w' = w \<and> r \<noteq> Inl e"
    using r by (auto simp: handle_mcp_def Let_def ret_run is_tools_call_def split: option.splits json.splits if_splits)
  ultimately show ?thesis using r by blast
qed

text \<open>A tool call whose \<^verbatim>\<open>_meta\<close> is a non-empty text raises instead of being answered.\<close>

theorem malformed_meta_raises:
  "fst (handle_mcp [(''jsonrpc'', JStr ''2.0''), (''method'', JStr ''tools/call''), (''params'', JDict [(''_meta'', JStr (c # s))])]
     agent gw server w) = Inl (AttributeError ''get'')"
  by (simp add: handle_mcp_def Let_def or_else_def jget_def dget_def tools_call_def andthen_lift call_metadata_def)

end
