(* ===== verification/Mcp_Security.thy ===== *)
theory Mcp_Security
  imports Runtime Store_Mcp
begin

text \<open>
  \<^verbatim>\<open>mcp_security.py\<close>: the inspection of a manifest of MCP tools. Each definition is searched for
  instructions, hidden controls and fields that ask for credentials, compared with the accepted
  baseline of its name, and gets a status; a definition is stored as the new baseline when it is
  clean or an administrator accepts it. Characters are those of Latin-1.
\<close>

section \<open>Manifests and reports\<close>

record tool_manifest =
  mt_name :: string
  mt_description :: string
  mt_input_schema :: "(string, json) dict"
  mt_annotations :: "(string, json) dict"

definition tool_manifest_ok :: "tool_manifest \<Rightarrow> bool" where
  "tool_manifest_ok t \<longleftrightarrow> tool_name_ok (mt_name t) \<and> length (mt_description t) \<le> 20000"

record inspection_request =
  iq_tools :: "tool_manifest list"
  iq_accept :: bool

definition inspection_request_ok :: "inspection_request \<Rightarrow> bool" where
  "inspection_request_ok q \<longleftrightarrow> iq_tools q \<noteq> [] \<and> length (iq_tools q) \<le> 500 \<and> list_all tool_manifest_ok (iq_tools q)"

record tool_finding =
  fi_code :: string
  fi_severity :: string
  fi_location :: string
  fi_detail :: string

record tool_inspection =
  ti_server :: string
  ti_tool :: string
  ti_digest :: string
  ti_baseline :: "string option"
  ti_status :: string
  ti_changed :: bool
  ti_findings :: "tool_finding list"

record inspection_result =
  ir_server :: string
  ir_safe :: bool
  ir_accepted :: bool
  ir_at :: time
  ir_tools :: "tool_inspection list"

definition manifest_json :: "tool_manifest \<Rightarrow> json" where
  "manifest_json t = JDict [(''name'', JStr (mt_name t)), (''description'', JStr (mt_description t)),
     (''inputSchema'', JDict (mt_input_schema t)), (''annotations'', JDict (mt_annotations t))]"

definition manifest_digest :: "crypto \<Rightarrow> tool_manifest \<Rightarrow> string" where
  "manifest_digest cr t = sha256 cr (canonical_json (manifest_json t))"

section \<open>What is looked for\<close>

definition SENSITIVE_SCHEMA_NAMES :: re where
  "SENSITIVE_SCHEMA_NAMES = alts
     [seqs [lits True ''system'', optional (Chars True (any_of ''_-'')), lits True ''prompt''],
      seqs [lits True ''developer'', optional (Chars True (any_of ''_-'')), lits True ''message''],
      lits True ''authorization'', lits True ''cookie'',
      seqs [lits True ''private'', optional (Chars True (any_of ''_-'')), lits True ''key''],
      lits True ''secret'', lits True ''token'']"

fun schema_paths :: "json \<Rightarrow> string \<Rightarrow> string list"
  and schema_item_paths :: "(string \<times> json) list \<Rightarrow> string \<Rightarrow> string list"
  and schema_elem_paths :: "nat \<Rightarrow> json list \<Rightarrow> string \<Rightarrow> string list" where
  "schema_paths (JDict kvs) path = schema_item_paths kvs path"
| "schema_paths (JList xs) path = schema_elem_paths 0 xs path"
| "schema_paths _ path = []"
| "schema_item_paths [] path = []"
| "schema_item_paths ((k, v) # kvs) path =
     (if search SENSITIVE_SCHEMA_NAMES k then [path @ ''.'' @ k] else []) @ schema_paths v (path @ ''.'' @ k) @ schema_item_paths kvs path"
| "schema_elem_paths i [] path = []"
| "schema_elem_paths i (x # xs) path = schema_paths x (path @ ''['' @ show_nat i @ '']'') @ schema_elem_paths (Suc i) xs path"

text \<open>The Unicode categories Cc and Cf in Latin-1, save line breaks and tabs.\<close>

definition hidden_control :: "char \<Rightarrow> bool" where
  "hidden_control c \<longleftrightarrow> (let n = of_char c :: nat in (n < 32 \<or> 127 \<le> n \<and> n \<le> 159 \<or> n = 173) \<and> n \<noteq> 9 \<and> n \<noteq> 10 \<and> n \<noteq> 13)"

definition has_hidden_controls :: "string \<Rightarrow> bool" where
  "has_hidden_controls s = list_ex hidden_control s"

definition critical :: "string \<Rightarrow> string \<Rightarrow> string \<Rightarrow> tool_finding" where
  "critical code location detail = \<lparr>fi_code = code, fi_severity = ''critical'', fi_location = location, fi_detail = detail\<rparr>"

definition high :: "string \<Rightarrow> string \<Rightarrow> string \<Rightarrow> tool_finding" where
  "high code location detail = \<lparr>fi_code = code, fi_severity = ''high'', fi_location = location, fi_detail = detail\<rparr>"

definition content_findings :: "tool_manifest \<Rightarrow> tool_finding list" where
  "content_findings t = (let schema_text = canonical_json (JDict (mt_input_schema t)) in
     map (\<lambda>signal. critical (''DESCRIPTION_'' @ signal) ''description'' ''Instruction-like content appeared in the tool description.'')
       (injection_signals (mt_description t))
     @ map (\<lambda>signal. critical (''SCHEMA_'' @ signal) ''inputSchema'' ''Instruction-like content appeared in the input schema.'')
       (injection_signals schema_text)
     @ (if has_hidden_controls (mt_description t) \<or> has_hidden_controls schema_text
        then [critical ''HIDDEN_UNICODE_CONTROL'' ''definition'' ''The definition contains non-printing control characters.''] else [])
     @ map (\<lambda>path. high ''SENSITIVE_SCHEMA_FIELD'' path ''The schema requests a credential- or prompt-like field.'')
       (sorted_set (schema_paths (JDict (mt_input_schema t)) ''inputSchema'')))"

definition context_findings :: "bool \<Rightarrow> string list \<Rightarrow> bool \<Rightarrow> tool_finding list" where
  "context_findings duplicate owners changed =
     (if duplicate then [critical ''DUPLICATE_TOOL_NAME'' ''name'' ''The same manifest declares this tool name more than once.''] else [])
     @ (if owners \<noteq> [] then [high ''CROSS_SERVER_NAME_COLLISION'' ''name''
          (''Also registered by: '' @ str_join '', '' (take 5 owners))] else [])
     @ (if changed then [critical ''TOOL_DEFINITION_CHANGED'' ''definition''
          ''The definition differs from the accepted baseline.''] else [])"

section \<open>Inspection\<close>

definition blocking :: "bool \<Rightarrow> tool_finding \<Rightarrow> bool" where
  "blocking accept f \<longleftrightarrow> fi_severity f = ''critical'' \<and> \<not> (accept \<and> fi_code f = ''TOOL_DEFINITION_CHANGED'')"

definition manifest_status :: "bool \<Rightarrow> tool_finding list \<Rightarrow> string" where
  "manifest_status accept findings =
     (if list_ex (blocking accept) findings then ''blocked'' else if findings \<noteq> [] then ''review'' else ''trusted'')"

definition becomes_baseline :: "bool \<Rightarrow> string option \<Rightarrow> bool \<Rightarrow> tool_finding list \<Rightarrow> bool" where
  "becomes_baseline accept baseline changed findings \<longleftrightarrow>
     accept \<and> \<not> list_ex (blocking accept) findings \<or> baseline = None \<and> findings = []
     \<or> baseline \<noteq> None \<and> \<not> changed \<and> findings = []"

definition inspect_tool :: "deployment \<Rightarrow> string \<Rightarrow> inspection_request \<Rightarrow> tool_manifest \<Rightarrow> tool_inspection io" where
  "inspect_tool env server q t =
     andthen (query (get_mcp_tool_baseline server (mt_name t))) (\<lambda>found. andthen (lift found) (\<lambda>row.
     andthen (query (mcp_tool_name_owners (mt_name t) server)) (\<lambda>owners.
       let digest = manifest_digest (de_crypto env) t;
           baseline = map_option (\<lambda>b. ba_digest (fst b)) row;
           changed = (baseline \<noteq> None \<and> baseline \<noteq> Some digest);
           duplicate = 1 < length (filter (\<lambda>t'. mt_name t' = mt_name t) (iq_tools q));
           findings = content_findings t @ context_findings duplicate owners changed;
           status = manifest_status (iq_accept q) findings
       in andthen tick (\<lambda>now.
          andthen (db (\<lambda>st. ((), record_mcp_tool_observation now server (mt_name t) digest status (map fi_code findings) st))) (\<lambda>_.
          andthen (if becomes_baseline (iq_accept q) baseline changed findings
                   then andthen tick (\<lambda>now. db (\<lambda>st. ((), upsert_mcp_tool_baseline now server (mt_name t) digest (manifest_json t) status st)))
                   else ret ()) (\<lambda>_.
          ret \<lparr>ti_server = server, ti_tool = mt_name t, ti_digest = digest, ti_baseline = baseline, ti_status = status,
               ti_changed = changed, ti_findings = findings\<rparr>))))))"

fun baselines_present :: "string \<Rightarrow> tool_inspection list \<Rightarrow> bool io" where
  "baselines_present server [] = ret True"
| "baselines_present server (i # is) =
     andthen (query (get_mcp_tool_baseline server (ti_tool i))) (\<lambda>found. andthen (lift found) (\<lambda>row.
       if row = None then ret False else baselines_present server is))"

definition inspection_json :: "tool_inspection \<Rightarrow> json" where
  "inspection_json i = JDict [(''name'', JStr (ti_tool i)), (''digest'', JStr (ti_digest i)), (''status'', JStr (ti_status i)),
     (''findings'', JList (map (\<lambda>f. JStr (fi_code f)) (ti_findings i)))]"

definition conclude_inspection :: "deployment \<Rightarrow> string \<Rightarrow> tool_inspection list \<Rightarrow> inspection_result io" where
  "conclude_inspection env server results =
     (let safe = list_all (\<lambda>i. ti_status i \<noteq> ''blocked'') results
      in andthen (if safe then baselines_present server results else ret False) (\<lambda>accepted.
         andthen (audit env ''mcp_manifest_inspected''
           [(''server_id'', JStr server), (''safe'', JBool safe), (''accepted'', JBool accepted),
            (''tools'', JList (map inspection_json results))]) (\<lambda>_.
         andthen tick (\<lambda>now.
         ret \<lparr>ir_server = server, ir_safe = safe, ir_accepted = accepted, ir_at = now, ir_tools = results\<rparr>))))"

definition inspect_manifest :: "deployment \<Rightarrow> string \<Rightarrow> inspection_request \<Rightarrow> inspection_result io" where
  "inspect_manifest env server q = andthen (each (inspect_tool env server q) (iq_tools q)) (conclude_inspection env server)"

section \<open>One tool\<close>

text \<open>The digest that a server's tool is pinned to.\<close>

definition pinned :: "string \<Rightarrow> string \<Rightarrow> store \<Rightarrow> string option" where
  "pinned server tool st = map_option ba_digest (select_one (\<lambda>b. ba_server b = server \<and> ba_tool b = tool) (mcp_tool_baselines st))"

lemma pinned_observation [simp]: "pinned s u (record_mcp_tool_observation now server tool digest status codes st) = pinned s u st"
  by (simp add: pinned_def record_mcp_tool_observation_def)

lemma pinned_upsert:
  "pinned s u (upsert_mcp_tool_baseline now server tool digest d status st) = (if s = server \<and> u = tool then Some digest else pinned s u st)"
proof -
  have k: "(\<lambda>b. ba_server b = x \<and> ba_tool b = y) = (\<lambda>b. (ba_server b, ba_tool b) = (x, y))" for x y
    by (simp add: fun_eq_iff)
  have sel: "mcp_tool_baselines (st\<lparr>mcp_tool_baselines := X\<rparr>) = X" for X by simp
  show ?thesis unfolding pinned_def upsert_mcp_tool_baseline_def k sel
    by (subst select_one_upsert [where k = "\<lambda>b. (ba_server b, ba_tool b)"]) (auto split: option.split)
qed

lemma baseline_digest: "get_mcp_tool_baseline server tool st = Inr r \<Longrightarrow> map_option (\<lambda>b. ba_digest (fst b)) r = pinned server tool st"
  by (auto simp: get_mcp_tool_baseline_def pinned_def read_baseline_def ebind_Inr_iff split: option.splits)

definition inspection_findings :: "crypto \<Rightarrow> string \<Rightarrow> inspection_request \<Rightarrow> tool_manifest \<Rightarrow> store \<Rightarrow> tool_finding list" where
  "inspection_findings cr server q t st = content_findings t @ context_findings
     (1 < length (filter (\<lambda>t'. mt_name t' = mt_name t) (iq_tools q))) (mcp_tool_name_owners (mt_name t) server st)
     (pinned server (mt_name t) st \<noteq> None \<and> pinned server (mt_name t) st \<noteq> Some (manifest_digest cr t))"

definition pins :: "crypto \<Rightarrow> string \<Rightarrow> inspection_request \<Rightarrow> tool_manifest \<Rightarrow> store \<Rightarrow> bool" where
  "pins cr server q t st \<longleftrightarrow> becomes_baseline (iq_accept q) (pinned server (mt_name t) st)
     (pinned server (mt_name t) st \<noteq> None \<and> pinned server (mt_name t) st \<noteq> Some (manifest_digest cr t)) (inspection_findings cr server q t st)"

text \<open>An inspection of a tool fails on an unreadable baseline, before any change; else it is as described.\<close>

lemma inspect_tool_cases:
  assumes "inspect_tool env server q t w = (r, w')"
  obtains e where "r = Inl e" "w' = w" "get_mcp_tool_baseline server (mt_name t) (wo_store w) = Inl e"
  | i where "r = Inr i" "ti_server i = server" "ti_tool i = mt_name t" "ti_digest i = manifest_digest (de_crypto env) t"
      "ti_baseline i = pinned server (mt_name t) (wo_store w)"
      "ti_findings i = inspection_findings (de_crypto env) server q t (wo_store w)"
      "ti_status i = manifest_status (iq_accept q) (ti_findings i)"
      "ti_changed i = (pinned server (mt_name t) (wo_store w) \<noteq> None \<and> pinned server (mt_name t) (wo_store w) \<noteq> Some (ti_digest i))"
      "\<exists>now'. wo_store w' = (let st = record_mcp_tool_observation (wo_clock w (wo_ticks w)) server (mt_name t) (ti_digest i) (ti_status i)
          (map fi_code (ti_findings i)) (wo_store w)
        in if pins (de_crypto env) server q t (wo_store w)
           then upsert_mcp_tool_baseline now' server (mt_name t) (ti_digest i) (manifest_json t) (ti_status i) st else st)"
proof (cases "get_mcp_tool_baseline server (mt_name t) (wo_store w)")
  case (Inl e)
  then have "r = Inl e" "w' = w" using assms by (simp_all add: inspect_tool_def andthen_query andthen_lift)
  then show thesis using Inl by (rule that(1))
next
  case (Inr row)
  let ?st = "wo_store w" and ?fs = "inspection_findings (de_crypto env) server q t (wo_store w)"
  let ?base = "pinned server (mt_name t) ?st" and ?d = "manifest_digest (de_crypto env) t" and ?now = "wo_clock w (wo_ticks w)"
  let ?i = "\<lparr>ti_server = server, ti_tool = mt_name t, ti_digest = ?d, ti_baseline = ?base, ti_status = manifest_status (iq_accept q) ?fs,
      ti_changed = (?base \<noteq> None \<and> ?base \<noteq> Some ?d), ti_findings = ?fs\<rparr>"
  let ?seen = "record_mcp_tool_observation ?now server (mt_name t) ?d (manifest_status (iq_accept q) ?fs) (map fi_code ?fs) ?st"
  have run: "inspect_tool env server q t w = andthen (if pins (de_crypto env) server q t ?st
       then andthen tick (\<lambda>now. db (\<lambda>st. ((), upsert_mcp_tool_baseline now server (mt_name t) ?d (manifest_json t)
         (manifest_status (iq_accept q) ?fs) st))) else ret ()) (\<lambda>_. ret ?i) (w\<lparr>wo_ticks := Suc (wo_ticks w), wo_store := ?seen\<rparr>)"
    unfolding inspect_tool_def andthen_query Inr andthen_lift sum.case baseline_digest [OF Inr] Let_def andthen_tick andthen_db
      inspection_findings_def pins_def by simp
  have i: "r = Inr ?i" and "\<exists>now'. wo_store w' = (if pins (de_crypto env) server q t ?st
      then upsert_mcp_tool_baseline now' server (mt_name t) ?d (manifest_json t) (manifest_status (iq_accept q) ?fs) ?seen else ?seen)"
    using run assms by (auto simp: andthen_assoc andthen_tick andthen_db ret_run split: if_splits)
  then obtain now' where w': "wo_store w' = (if pins (de_crypto env) server q t ?st
      then upsert_mcp_tool_baseline now' server (mt_name t) ?d (manifest_json t) (manifest_status (iq_accept q) ?fs) ?seen else ?seen)" by blast
  show thesis
    by (rule that(2) [OF i]; (intro exI [of _ now'])?) (simp_all add: Let_def w')
qed

text \<open>What an inspection pins.\<close>

lemma inspect_tool_pinned:
  assumes "inspect_tool env server q t w = (Inr i, w')"
  shows "pinned s u (wo_store w') = (if s = server \<and> u = mt_name t \<and> pins (de_crypto env) server q t (wo_store w)
    then Some (manifest_digest (de_crypto env) t) else pinned s u (wo_store w))"
  using assms by (cases rule: inspect_tool_cases) (auto simp: Let_def pinned_upsert)

lemma unblocked_unique:
  assumes "\<not> list_ex (blocking a) (inspection_findings cr server q t st)"
  shows "length (filter (\<lambda>t'. mt_name t' = mt_name t) (iq_tools q)) \<le> 1"
  using assms by (auto simp: inspection_findings_def context_findings_def critical_def blocking_def split: if_splits)

lemma trusted_pins:
  assumes "inspection_findings cr server q t st = []"
  shows "pins cr server q t st"
  using assms by (auto simp: pins_def becomes_baseline_def inspection_findings_def context_findings_def split: if_splits)

lemma manifest_trusted_iff: "manifest_status a fs = ''trusted'' \<longleftrightarrow> fs = []"
  by (cases fs) (auto simp: manifest_status_def)

text \<open>Without an acceptance a pinned digest stays; a digest is pinned for clean definitions only.\<close>

lemma pins_unaccepted:
  assumes "pins cr server q t st" "\<not> iq_accept q"
  shows "inspection_findings cr server q t st = [] \<and> pinned server (mt_name t) st \<in> {None, Some (manifest_digest cr t)}"
  using assms by (auto simp: pins_def becomes_baseline_def)

definition pins_kept :: "world \<Rightarrow> world \<Rightarrow> bool" where
  "pins_kept w w' \<longleftrightarrow> (\<forall>s u d. pinned s u (wo_store w) = Some d \<longrightarrow> pinned s u (wo_store w') = Some d)"

interpretation pinning: preserving pins_kept
  by unfold_locales (auto simp: pins_kept_def)

lemma pinning_tool: "\<not> iq_accept q \<Longrightarrow> pinning.keeps (inspect_tool env server q t)"
proof -
  assume q: "\<not> iq_accept q"
  have "pins_kept w w'" if r: "inspect_tool env server q t w = (r, w')" for w r w'
  proof (cases r)
    case (Inl e)
    with r show ?thesis by (cases rule: inspect_tool_cases) (auto simp: pins_kept_def)
  next
    case (Inr i)
    show ?thesis using inspect_tool_pinned [OF r [unfolded Inr]] pins_unaccepted [OF _ q] by (fastforce simp: pins_kept_def)
  qed
  then show ?thesis by (metis pinning.keeps_def prod.collapse)
qed

section \<open>A manifest\<close>

lemma each_Cons_Inr: "each f (x # xs) w = (Inr zs, w') \<longleftrightarrow>
    (\<exists>y ys w1. f x w = (Inr y, w1) \<and> each f xs w1 = (Inr ys, w') \<and> zs = y # ys)"
  by (auto simp: andthen_Inr_iff ret_run)

definition named :: "string \<Rightarrow> tool_manifest list \<Rightarrow> nat" where
  "named n ts = length (filter (\<lambda>t. mt_name t = n) ts)"

text \<open>
  What a report says of a tool: a trusted tool was not pinned to another definition before, and a
  trusted or accepted one is pinned to this definition afterwards.
\<close>

definition reported :: "crypto \<Rightarrow> string \<Rightarrow> inspection_request \<Rightarrow> store \<Rightarrow> store \<Rightarrow> tool_manifest \<Rightarrow> tool_inspection \<Rightarrow> bool" where
  "reported cr server q st st' t i \<longleftrightarrow> ti_tool i = mt_name t \<and> ti_digest i = manifest_digest cr t
     \<and> (ti_status i = ''trusted'' \<longrightarrow> named (mt_name t) (iq_tools q) \<le> 1 \<and> pinned server (mt_name t) st \<in> {None, Some (manifest_digest cr t)})
     \<and> (ti_status i = ''trusted'' \<or> iq_accept q \<and> ti_status i \<noteq> ''blocked'' \<longrightarrow> pinned server (mt_name t) st' = Some (manifest_digest cr t))"

lemma each_other_names:
  "each (inspect_tool env server q) ts w = (Inr is, w') \<Longrightarrow> named n ts = 0 \<Longrightarrow> pinned server n (wo_store w') = pinned server n (wo_store w)"
proof (induction ts arbitrary: w "is")
  case Nil
  then show ?case by (simp add: ret_run)
next
  case (Cons t ts)
  then obtain i js w1 where r: "inspect_tool env server q t w = (Inr i, w1)" "each (inspect_tool env server q) ts w1 = (Inr js, w')"
    unfolding each_Cons_Inr by blast
  have n: "n \<noteq> mt_name t" "named n ts = 0" using Cons.prems(2) by (auto simp: named_def split: if_splits)
  show ?case using Cons.IH [OF r(2) n(2)] inspect_tool_pinned [OF r(1), of server n] n(1) by simp
qed

lemma tool_reported:
  assumes r: "inspect_tool env server q t w = (Inr i, w1)"
    and later: "named (mt_name t) (iq_tools q) \<le> 1 \<Longrightarrow> pinned server (mt_name t) (wo_store w') = pinned server (mt_name t) (wo_store w1)"
  shows "reported (de_crypto env) server q (wo_store w) (wo_store w') t i"
  using r
proof (cases rule: inspect_tool_cases)
  case (2 j)
  let ?fs = "inspection_findings (de_crypto env) server q t (wo_store w)"
  have i: "i = j" using 2(1) by simp
  have st: "ti_status i = manifest_status (iq_accept q) ?fs" using 2 i by simp
  have once: "named (mt_name t) (iq_tools q) \<le> 1" if "ti_status i \<noteq> ''blocked''"
    using unblocked_unique that unfolding st named_def by (auto simp: manifest_status_def split: if_splits)
  have pin: "pinned server (mt_name t) (wo_store w') = Some (manifest_digest (de_crypto env) t)"
    if "ti_status i \<noteq> ''blocked''" "pins (de_crypto env) server q t (wo_store w)"
    using later [OF once] inspect_tool_pinned [OF r, of server "mt_name t"] that by simp
  have "pins (de_crypto env) server q t (wo_store w)" if "iq_accept q" "ti_status i \<noteq> ''blocked''"
    using that unfolding st by (auto simp: pins_def becomes_baseline_def manifest_status_def split: if_splits)
  moreover have "?fs = []" if "ti_status i = ''trusted''" using that unfolding st manifest_trusted_iff .
  moreover have "pinned server (mt_name t) (wo_store w) \<in> {None, Some (manifest_digest (de_crypto env) t)}" if "?fs = []"
    using that by (auto simp: inspection_findings_def context_findings_def split: if_splits)
  ultimately show ?thesis using 2 i pin once trusted_pins by (auto simp: reported_def)
qed auto

lemma each_reported:
  assumes "each (inspect_tool env server q) ts w = (Inr is, w')" "\<And>n. named n ts \<le> named n (iq_tools q)"
  shows "list_all2 (reported (de_crypto env) server q (wo_store w) (wo_store w')) ts is"
  using assms
proof (induction ts arbitrary: w "is")
  case Nil
  then show ?case by (simp add: ret_run)
next
  case (Cons t ts)
  then obtain i js w1 where r: "inspect_tool env server q t w = (Inr i, w1)" "each (inspect_tool env server q) ts w1 = (Inr js, w')"
      and js: "is = i # js"
    unfolding each_Cons_Inr by blast
  have le: "named n ts \<le> named n (iq_tools q)" for n
    using Cons.prems(2) [of n] by (simp add: named_def split: if_splits)
  have here: "reported (de_crypto env) server q (wo_store w) (wo_store w') t i"
  proof (rule tool_reported [OF r(1)])
    assume "named (mt_name t) (iq_tools q) \<le> 1"
    moreover have "named (mt_name t) (t # ts) = Suc (named (mt_name t) ts)" by (simp add: named_def)
    ultimately have "named (mt_name t) ts = 0" using Cons.prems(2) [of "mt_name t"] by linarith
    then show "pinned server (mt_name t) (wo_store w') = pinned server (mt_name t) (wo_store w1)" by (rule each_other_names [OF r(2)])
  qed
  have "reported (de_crypto env) server q (wo_store w) (wo_store w') u j"
    if u: "u \<in> set ts" and rep: "reported (de_crypto env) server q (wo_store w1) (wo_store w') u j" for u j
  proof (cases "ti_status j = ''trusted''")
    case True
    then have "named (mt_name u) (iq_tools q) \<le> 1" using rep by (simp add: reported_def)
    moreover have "named (mt_name u) ts > 0" using u by (auto simp: named_def filter_empty_conv)
    moreover have "named (mt_name u) (t # ts) = (if mt_name t = mt_name u then 1 else 0) + named (mt_name u) ts" by (simp add: named_def)
    ultimately have "mt_name t \<noteq> mt_name u" using Cons.prems(2) [of "mt_name u"] by (auto split: if_splits)
    then have "pinned server (mt_name u) (wo_store w) = pinned server (mt_name u) (wo_store w1)"
      using inspect_tool_pinned [OF r(1), of server "mt_name u"] by simp
    with rep show ?thesis by (simp add: reported_def)
  qed (use rep in \<open>simp add: reported_def\<close>)
  with Cons.IH [OF r(2) le] have "list_all2 (reported (de_crypto env) server q (wo_store w) (wo_store w')) ts js"
    by (rule list.rel_mono_strong)
  with here show ?case by (simp add: js)
qed

text \<open>The rest of an inspection leaves the baselines alone.\<close>

definition baselines_same :: "world \<Rightarrow> world \<Rightarrow> bool" where
  "baselines_same w w' \<longleftrightarrow> mcp_tool_baselines (wo_store w') = mcp_tool_baselines (wo_store w)"

interpretation unpinned: preserving baselines_same
  by unfold_locales (auto simp: baselines_same_def)

lemma unpinned_audit: "unpinned.keeps (audit env ty payload)"
  by (rule unpinned.keeps_audit) (simp add: baselines_same_def append_audit_def Let_def)

lemma unpinned_present: "unpinned.keeps (baselines_present server is)"
  by (induction "is") (auto intro!: unpinned.keeps_andthen)

lemma unpinned_conclude: "unpinned.keeps (conclude_inspection env server rs)"
  unfolding conclude_inspection_def Let_def
  by (intro unpinned.keeps_andthen unpinned.keeps_if unpinned_present unpinned_audit unpinned.keeps_ret unpinned.keeps_tick)

lemma same_pinned: "baselines_same w w' \<Longrightarrow> pinned s u (wo_store w') = pinned s u (wo_store w)"
  by (simp add: baselines_same_def pinned_def)

lemma manifest_reported:
  assumes "inspect_manifest env server q w = (Inr report, w')"
  shows "list_all2 (reported (de_crypto env) server q (wo_store w) (wo_store w')) (iq_tools q) (ir_tools report)"
proof -
  obtain rs w1 where e: "each (inspect_tool env server q) (iq_tools q) w = (Inr rs, w1)"
      and rest: "conclude_inspection env server rs w1 = (Inr report, w')"
    using assms unfolding inspect_manifest_def andthen_Inr_iff by blast
  have s: "baselines_same w1 w'" using unpinned_conclude rest by (rule unpinned.keepsD)
  have "ir_tools report = rs" using rest by (auto simp: conclude_inspection_def Let_def andthen_Inr_iff ret_run)
  with each_reported [OF e] show ?thesis
    by (simp add: reported_def [abs_def] same_pinned [OF s])
qed

lemma pinning_manifest: "\<not> iq_accept q \<Longrightarrow> pinning.keeps (inspect_manifest env server q)"
proof -
  assume q: "\<not> iq_accept q"
  have "pinning.keeps (conclude_inspection env server rs)" for rs
    using unpinned_conclude [of env server rs] same_pinned unfolding pinning.keeps_def unpinned.keeps_def pins_kept_def by metis
  then show ?thesis unfolding inspect_manifest_def by (intro pinning.keeps_andthen pinning.keeps_each pinning_tool [OF q])
qed

section \<open>Properties\<close>

definition trusted_in :: "inspection_result \<Rightarrow> string \<Rightarrow> bool" where
  "trusted_in report n \<longleftrightarrow> list_ex (\<lambda>i. ti_tool i = n \<and> ti_status i = ''trusted'') (ir_tools report)"

fun inspect_all :: "deployment \<Rightarrow> (string \<times> inspection_request) list \<Rightarrow> world \<Rightarrow> world" where
  "inspect_all env [] w = w"
| "inspect_all env ((server, q) # qs) w = inspect_all env qs (snd (inspect_manifest env server q w))"

lemma pinning_all: "list_all (\<lambda>(server, q). \<not> iq_accept q) qs \<Longrightarrow> pins_kept w (inspect_all env qs w)"
proof (induction qs arbitrary: w)
  case (Cons sq qs)
  obtain server q where sq: "sq = (server, q)" by force
  have "pins_kept w (snd (inspect_manifest env server q w))"
    using pinning_manifest [of q env server] Cons.prems sq by (simp add: pinning.keeps_def)
  moreover have "pins_kept (snd (inspect_manifest env server q w)) (inspect_all env qs (snd (inspect_manifest env server q w)))"
    using Cons sq by simp
  ultimately show ?case using pinning.rel_trans by (simp add: sq)
qed (simp add: pins_kept_def)

lemma unique_named:
  assumes "named n ts \<le> 1" "a \<in> set ts" "b \<in> set ts" "mt_name a = n" "mt_name b = n"
  shows "a = b"
proof -
  have ab: "a \<in> set (filter (\<lambda>t. mt_name t = n) ts)" "b \<in> set (filter (\<lambda>t. mt_name t = n) ts)" using assms by simp_all
  moreover have "length (filter (\<lambda>t. mt_name t = n) ts) \<le> 1" using assms(1) by (simp add: named_def)
  ultimately show ?thesis by (cases "filter (\<lambda>t. mt_name t = n) ts") (auto simp: length_Suc_conv le_Suc_eq)
qed

lemma trusted_reported:
  assumes r: "inspect_manifest env server q w = (Inr report, w')" and t: "trusted_in report (mt_name a)" and a: "a \<in> set (iq_tools q)"
  shows "pinned server (mt_name a) (wo_store w) \<in> {None, Some (manifest_digest (de_crypto env) a)}
    \<and> pinned server (mt_name a) (wo_store w') = Some (manifest_digest (de_crypto env) a)"
proof -
  obtain i where i: "i \<in> set (ir_tools report)" "ti_tool i = mt_name a" "ti_status i = ''trusted''"
    using t by (auto simp: trusted_in_def list_ex_iff)
  obtain b where b: "b \<in> set (iq_tools q)" "reported (de_crypto env) server q (wo_store w) (wo_store w') b i"
    using manifest_reported [OF r] i(1) by (metis in_set_conv_nth list_all2_conv_all_nth)
  then have "mt_name b = mt_name a" "named (mt_name a) (iq_tools q) \<le> 1" using i(2,3) by (auto simp: reported_def)
  then have "b = a" using unique_named [of "mt_name a" "iq_tools q"] a b(1) by auto
  then show ?thesis using b(2) i(3) by (simp add: reported_def)
qed

text \<open>
  C17. No rug pull: once a tool of a server was reported trusted, then whatever manifests of whatever
  servers are inspected without an administrator's acceptance, a definition of the same name that a
  later inspection of the server reports trusted is the same definition (up to the order of
  dictionary keys), or else these two definitions have different canonical texts with the same
  SHA-256: to slip in another definition, a server must have found a second text with the hash of
  its own first definition.
\<close>

theorem no_rug_pull:
  assumes "inspect_manifest env server q w = (Inr report, w1)" and "a \<in> set (iq_tools q)" and "trusted_in report (mt_name a)"
    and "list_all (\<lambda>(s, p). \<not> iq_accept p) between"
    and "inspect_manifest env server q' (inspect_all env between w1) = (Inr report', w2)" and "b \<in> set (iq_tools q')"
    and "mt_name b = mt_name a" and "trusted_in report' (mt_name b)"
    and "json_wf (manifest_json a)" and "json_wf (manifest_json b)"
  shows "sort_keys (manifest_json b) = sort_keys (manifest_json a)
    \<or> canonical_json (manifest_json b) \<noteq> canonical_json (manifest_json a)
      \<and> sha256 (de_crypto env) (canonical_json (manifest_json b)) = sha256 (de_crypto env) (canonical_json (manifest_json a))"
proof -
  have "pinned server (mt_name a) (wo_store (inspect_all env between w1)) = Some (manifest_digest (de_crypto env) a)"
    using trusted_reported [OF assms(1,3,2)] pinning_all [OF assms(4), of w1 env] by (simp add: pins_kept_def)
  then have "manifest_digest (de_crypto env) b = manifest_digest (de_crypto env) a"
    using trusted_reported [OF assms(5,8,6)] assms(7) by auto
  then show ?thesis
    using canonical_json_inject [OF assms(10,9)] by (auto simp: manifest_digest_def)
qed

definition demo_tool_manifest :: tool_manifest where
  "demo_tool_manifest = \<lparr>mt_name = ''t'', mt_description = '''', mt_input_schema = [], mt_annotations = []\<rparr>"
definition demo_inspection :: inspection_request where
  "demo_inspection = \<lparr>iq_tools = [demo_tool_manifest], iq_accept = False\<rparr>"
definition text_env :: deployment where
  "text_env = \<lparr>de_crypto = demo_crypto\<lparr>sha256 := (\<lambda>s. s)\<rparr>, de_audit_key = ''k'', de_data_key = ''d''\<rparr>"

definition demo_baseline :: "time \<Rightarrow> time \<Rightarrow> baseline_row" where
  "demo_baseline now now' = \<lparr>ba_server = ''s'', ba_tool = ''t'', ba_digest = canonical_json (manifest_json demo_tool_manifest),
     ba_definition = canonical_value (manifest_json demo_tool_manifest), ba_status = ''trusted'', ba_first_seen = now, ba_last_seen = now'\<rparr>"

lemma demo_content: "content_findings demo_tool_manifest = []"
  by code_simp

lemma demo_loads: "\<exists>j. loads (canonical_value (manifest_json demo_tool_manifest)) = Some j"
proof -
  have "loads (canonical_value (manifest_json demo_tool_manifest)) = Some (sort_keys (manifest_json demo_tool_manifest))" by code_simp
  then show ?thesis by blast
qed


lemma demo_tool_inspected:
  assumes "mcp_tool_baselines (wo_store w) = [] \<or> (\<exists>n n'. mcp_tool_baselines (wo_store w) = [demo_baseline n n'])"
    and r: "inspect_tool text_env ''s'' demo_inspection demo_tool_manifest w = (r, w1)"
  shows "\<exists>i n n' ob. r = Inr i \<and> ti_tool i = ''t'' \<and> ti_status i = ''trusted'' \<and> mcp_tool_baselines (wo_store w1) = [demo_baseline n n']
    \<and> get_mcp_tool_observation ''s'' ''t'' (wo_store w1) = Some ob \<and> ob_status ob = ''trusted'' \<and> ob_observed ob = wo_clock w (wo_ticks w)"
proof -
  let ?st = "wo_store w" and ?cr = "de_crypto text_env"
  obtain j where j: "loads (canonical_value (manifest_json demo_tool_manifest)) = Some j" using demo_loads by blast
  have n: "mt_name demo_tool_manifest = ''t''" "manifest_digest ?cr demo_tool_manifest = canonical_json (manifest_json demo_tool_manifest)"
    by (simp_all add: demo_tool_manifest_def manifest_digest_def text_env_def)
  have ok: "\<exists>x. get_mcp_tool_baseline ''s'' ''t'' ?st = Inr x"
    and fs: "inspection_findings ?cr ''s'' demo_inspection demo_tool_manifest ?st = []"
    using assms(1) by (auto simp: get_mcp_tool_baseline_def select_one_def read_baseline_def demo_baseline_def j inspection_findings_def
        demo_content context_findings_def demo_inspection_def mcp_tool_name_owners_def pinned_def n)
  from fs have pins: "pins ?cr ''s'' demo_inspection demo_tool_manifest ?st" by (rule trusted_pins)
  from r show ?thesis
  proof (cases rule: inspect_tool_cases)
    case (2 i)
    have "\<exists>n n'. mcp_tool_baselines (wo_store w1) = [demo_baseline n n']"
      using assms(1) 2 pins fs n by (auto simp: Let_def record_mcp_tool_observation_def upsert_mcp_tool_baseline_def upsert_def update_where_def
          demo_baseline_def manifest_status_def)
    moreover have "\<exists>ob. get_mcp_tool_observation ''s'' ''t'' (wo_store w1) = Some ob \<and> ob_status ob = ''trusted''
        \<and> ob_observed ob = wo_clock w (wo_ticks w)"
    proof -
      have up: "get_mcp_tool_observation s t (upsert_mcp_tool_baseline now server tool d j status st) = get_mcp_tool_observation s t st"
        for s t now server tool d j status st by (simp add: get_mcp_tool_observation_def upsert_mcp_tool_baseline_def)
      show ?thesis
        using 2 pins fs n by (auto simp: Let_def up observation_upsert manifest_status_def split: option.split)
    qed
    ultimately show ?thesis using 2 fs n by (auto simp: manifest_status_def)
  qed (use ok n in auto)
qed

lemma demo_inspected:
  assumes "mcp_tool_baselines (wo_store w) = [] \<or> (\<exists>n n'. mcp_tool_baselines (wo_store w) = [demo_baseline n n'])"
  shows "\<exists>r w1 n n' ob. inspect_manifest text_env ''s'' demo_inspection w = (Inr r, w1) \<and> trusted_in r ''t''
    \<and> mcp_tool_baselines (wo_store w1) = [demo_baseline n n'] \<and> ir_safe r \<and> ir_accepted r
    \<and> list_all (\<lambda>i. ti_status i = ''trusted'') (ir_tools r)
    \<and> get_mcp_tool_observation ''s'' ''t'' (wo_store w1) = Some ob \<and> ob_status ob = ''trusted'' \<and> ob_observed ob = wo_clock w (wo_ticks w)"
proof -
  obtain j where j: "loads (canonical_value (manifest_json demo_tool_manifest)) = Some j" using demo_loads by blast
  obtain i w1 n n' ob where t: "inspect_tool text_env ''s'' demo_inspection demo_tool_manifest w = (Inr i, w1)" "ti_tool i = ''t''"
      "ti_status i = ''trusted''" "mcp_tool_baselines (wo_store w1) = [demo_baseline n n']"
      "get_mcp_tool_observation ''s'' ''t'' (wo_store w1) = Some ob" "ob_status ob = ''trusted''" "ob_observed ob = wo_clock w (wo_ticks w)"
    using demo_tool_inspected [OF assms] by (metis surj_pair)
  have q: "iq_tools demo_inspection = [demo_tool_manifest]" by (simp add: demo_inspection_def)
  have g: "get_mcp_tool_baseline ''s'' ''t'' (wo_store w1) = Inr (Some (demo_baseline n n', j))"
    by (simp add: get_mcp_tool_baseline_def t(4) select_one_def read_baseline_def demo_baseline_def j)
  have e: "each (inspect_tool text_env ''s'' demo_inspection) [demo_tool_manifest] w = (Inr [i], w1)"
    by (simp add: andthen_def t(1) ret_run)
  show ?thesis
    by (simp add: inspect_manifest_def q andthen_def [of "each f xs" for f xs] e del: each.simps)
       (simp add: conclude_inspection_def t(2,3) andthen_assoc andthen_query andthen_lift g
        andthen_audit andthen_tick ret_run trusted_in_def append_audit_def Let_def t(4),
        use t(5-7) in \<open>simp add: get_mcp_tool_observation_def, blast\<close>)
qed

text \<open>With a hash that never collides, the second inspection trusts the same definition.\<close>

theorem no_rug_pull_witness:
  "\<exists>r w1 r' w2 b. inspect_manifest text_env ''s'' demo_inspection demo_world = (Inr r, w1)
     \<and> inspect_manifest text_env ''s'' demo_inspection w1 = (Inr r', w2) \<and> trusted_in r' (mt_name b)
     \<and> b \<in> set (iq_tools demo_inspection) \<and> sort_keys (manifest_json b) = sort_keys (manifest_json demo_tool_manifest)"
proof -
  obtain r w1 n n' where 1: "inspect_manifest text_env ''s'' demo_inspection demo_world = (Inr r, w1)" "trusted_in r ''t''"
      "mcp_tool_baselines (wo_store w1) = [demo_baseline n n']"
    using demo_inspected [of demo_world] by (auto simp: demo_world_def empty_store_def)
  obtain r' w2 where 2: "inspect_manifest text_env ''s'' demo_inspection w1 = (Inr r', w2)" "trusted_in r' ''t''"
    using demo_inspected [of w1] 1(3) by blast
  have m: "demo_tool_manifest \<in> set (iq_tools demo_inspection)" "mt_name demo_tool_manifest = ''t''" "json_wf (manifest_json demo_tool_manifest)"
    by (simp_all add: demo_inspection_def demo_tool_manifest_def manifest_json_def dict_wf_def)
  have "sort_keys (manifest_json demo_tool_manifest) = sort_keys (manifest_json demo_tool_manifest)
    \<or> canonical_json (manifest_json demo_tool_manifest) \<noteq> canonical_json (manifest_json demo_tool_manifest)
      \<and> sha256 (de_crypto text_env) (canonical_json (manifest_json demo_tool_manifest)) =
        sha256 (de_crypto text_env) (canonical_json (manifest_json demo_tool_manifest))"
    by (rule no_rug_pull [where between = "[]" and report = r and report' = r' and ?w1.0 = w1 and ?w2.0 = w2, OF 1(1) m(1) _ _ _ m(1) refl _ m(3,3)])
      (use 1 2 m(2) in simp_all)
  then show ?thesis using 1 2 m by (intro exI [of _ r] exI [of _ w1] exI [of _ r'] exI [of _ w2] exI [of _ demo_tool_manifest]) simp
qed

section \<open>What can become a baseline\<close>

definition screened :: "tool_manifest \<Rightarrow> bool" where
  "screened t \<longleftrightarrow> injection_signals (mt_description t) = [] \<and> injection_signals (canonical_json (JDict (mt_input_schema t))) = []
     \<and> \<not> has_hidden_controls (mt_description t) \<and> \<not> has_hidden_controls (canonical_json (JDict (mt_input_schema t)))"

definition baselines_screened :: "crypto \<Rightarrow> store \<Rightarrow> bool" where
  "baselines_screened cr st \<longleftrightarrow> (\<forall>b \<in> set (mcp_tool_baselines st). \<exists>t. screened t \<and> ba_tool b = mt_name t
     \<and> ba_digest b = manifest_digest cr t \<and> ba_definition b = canonical_value (manifest_json t))"

lemma pins_screened:
  assumes "pins cr server q t st" shows "screened t"
proof -
  have none: "f \<in> set (content_findings t) \<Longrightarrow> \<not> blocking (iq_accept q) f" for f
    using assms by (auto simp: pins_def becomes_baseline_def inspection_findings_def list_ex_iff)
  have crit: "code \<noteq> ''TOOL_DEFINITION_CHANGED'' \<Longrightarrow> critical code loc d \<notin> set (content_findings t)" for code loc d
    using none [of "critical code loc d"] by (auto simp: blocking_def critical_def)
  have "x \<notin> set (injection_signals (mt_description t))" for x
    using crit [of "''DESCRIPTION_'' @ x" "''description''" "''Instruction-like content appeared in the tool description.''"] by (auto simp: content_findings_def Let_def)
  moreover have "x \<notin> set (injection_signals (canonical_json (JDict (mt_input_schema t))))" for x
    using crit [of "''SCHEMA_'' @ x" "''inputSchema''" "''Instruction-like content appeared in the input schema.''"] by (auto simp: content_findings_def Let_def)
  moreover have "\<not> (has_hidden_controls (mt_description t) \<or> has_hidden_controls (canonical_json (JDict (mt_input_schema t))))"
    using crit [of "''HIDDEN_UNICODE_CONTROL''" "''definition''" "''The definition contains non-printing control characters.''"] by (auto simp: content_findings_def Let_def)
  ultimately show ?thesis unfolding screened_def by (metis list.set_intros(1) neq_Nil_conv)
qed

lemma screened_upsert:
  "baselines_screened cr st \<Longrightarrow> screened t \<Longrightarrow>
     baselines_screened cr (upsert_mcp_tool_baseline now server (mt_name t) (manifest_digest cr t) (manifest_json t) status st)"
  by (auto simp: baselines_screened_def upsert_mcp_tool_baseline_def upsert_def update_where_def)

definition screening_kept :: "deployment \<Rightarrow> world \<Rightarrow> world \<Rightarrow> bool" where
  "screening_kept env w w' \<longleftrightarrow> (baselines_screened (de_crypto env) (wo_store w) \<longrightarrow> baselines_screened (de_crypto env) (wo_store w'))"

interpretation screening: preserving "screening_kept env" for env
  by unfold_locales (auto simp: screening_kept_def)

lemma screening_tool: "screening.keeps env (inspect_tool env server q t)"
proof -
  have "screening_kept env w w'" if r: "inspect_tool env server q t w = (r, w')" for w r w'
    using r
  proof (cases rule: inspect_tool_cases)
    case (2 i)
    have "baselines_screened (de_crypto env) (record_mcp_tool_observation now server n d s fs st) = baselines_screened (de_crypto env) st"
      for now n d s fs st by (simp add: baselines_screened_def record_mcp_tool_observation_def)
    note seen = this
    have "baselines_screened (de_crypto env) (wo_store w')" if "baselines_screened (de_crypto env) (wo_store w)"
      using 2(9) screened_upsert [OF _ pins_screened, of "de_crypto env" _ _ server q t "wo_store w"] that seen
      by (auto simp: 2(4) Let_def split: if_splits)
    then show ?thesis by (simp add: screening_kept_def)
  qed (simp add: screening_kept_def)
  then show ?thesis by (metis screening.keeps_def prod.collapse)
qed

lemma screening_manifest: "screening.keeps env (inspect_manifest env server q)"
proof -
  have "screening.keeps env (conclude_inspection env server rs)" for rs
    using unpinned_conclude [of env server rs]
    by (simp add: screening.keeps_def unpinned.keeps_def screening_kept_def baselines_same_def baselines_screened_def)
  then show ?thesis unfolding inspect_manifest_def by (intro screening.keeps_andthen screening.keeps_each screening_tool)
qed

lemma screening_all: "screening_kept env w (inspect_all env qs w)"
proof (induction env qs w rule: inspect_all.induct)
  case (2 env server q qs w)
  then show ?case using screening_manifest [of env server q] screening.rel_trans by (simp add: screening.keeps_def) blast
qed (simp add: screening_kept_def)

text \<open>
  C18. Not even an administrator's acceptance makes a definition with visible instructions a baseline:
  after any inspections from an empty store, every baseline is the definition of a tool whose
  description carries no injection signal and no hidden control character, and whose schema, as
  canonical JSON text, carries no injection signal and no character that is hidden in that text.
  (The text escapes the control characters below the space, and the annotations are not searched:
  a baseline can have controls in the strings of its schema, and anything in its annotations.)
\<close>

theorem no_poisoned_baseline:
  "baselines_screened (de_crypto env) (wo_store (inspect_all env qs (w\<lparr>wo_store := empty_store\<rparr>)))"
  using screening_all [of env "w\<lparr>wo_store := empty_store\<rparr>" qs] by (simp add: screening_kept_def baselines_screened_def empty_store_def)

text \<open>
  In the schema the search for hidden controls runs over the canonical text, in which the control
  characters below the space are escaped: such a control in a schema is never found.
\<close>

lemma hex_no_control: "d < 16 \<Longrightarrow> 32 \<le> (of_char (hex_char d) :: nat)"
  by (simp add: hex_char_def)

lemma esc_no_controls: "list_all (\<lambda>c. 32 \<le> (of_char c :: nat)) (esc_char False c)"
  using hex_no_control [of "of_char c div 16"] hex_no_control [of "of_char c mod 16"]
  by (simp add: esc_char_def Let_def)

lemma quote_no_controls: "list_all (\<lambda>c. 32 \<le> (of_char c :: nat)) (quote False s)"
  using esc_no_controls by (auto simp: quote_def list_all_iff)

lemma show_nat_no_controls: "list_all (\<lambda>c. 32 \<le> (of_char c :: nat)) (show_nat n)"
  by (auto simp: list_all_iff is_digit_def Let_def dest!: show_nat_digits)

lemma dumps_no_controls:
  "\<not> a \<Longrightarrow> list_all (\<lambda>c. 32 \<le> (of_char c :: nat)) (dumps a v)"
  "\<not> a \<Longrightarrow> list_all (\<lambda>c. 32 \<le> (of_char c :: nat)) (dumps_elems a xs)"
  "\<not> a \<Longrightarrow> list_all (\<lambda>c. 32 \<le> (of_char c :: nat)) (dumps_items a kvs)"
  by (induction a v and a xs and a kvs rule: dumps_dumps_elems_dumps_items.induct)
     (auto simp: quote_no_controls show_int_def show_nat_no_controls split: list.splits)

theorem schema_controls_escaped:
  "list_all (\<lambda>c. hidden_control c \<longrightarrow> 127 \<le> (of_char c :: nat)) (canonical_json v)"
  using dumps_no_controls(1) [of False "sort_keys v"] unfolding canonical_json_def by (auto simp: list_all_iff hidden_control_def Let_def)

end
