(* ===== verification/Upstream_Mcp.thy ===== *)
theory Upstream_Mcp
  imports Mcp Mcp_Security
begin

text \<open>
  \<^verbatim>\<open>upstream_mcp.py\<close>: the mediation of remote MCP servers. Every message for a server first
  fetches its manifest, inspects it and registers each tool under a name of its own with a policy
  from the configuration; the message is then handled with the names rewritten. The configuration
  file, the environment, the web client and the check of bracketed addresses are parameters. The
  client answers as it likes at every moment: a moment is given by the requests posted before, or,
  for the call of a registered tool, by the handlers invoked before.
\<close>

section \<open>Addresses\<close>

text \<open>\<^verbatim>\<open>urlparse\<close>: scheme, network location and fragment.\<close>

record url =
  ul_scheme :: string
  ul_netloc :: string
  ul_fragment :: string

definition scheme_char :: "char \<Rightarrow> bool" where
  "scheme_char c \<longleftrightarrow> is_alnum c \<or> c \<in> {CHR ''+'', CHR ''-'', CHR ''.''}"

definition before :: "string \<Rightarrow> string \<Rightarrow> string" where
  "before stops s = takeWhile (\<lambda>c. c \<notin> set stops) s"

definition after :: "char \<Rightarrow> string \<Rightarrow> string" where
  "after c s = drop 1 (dropWhile (\<lambda>d. d \<noteq> c) s)"

definition split_scheme :: "string \<Rightarrow> string \<times> string" where
  "split_scheme s = (let p = before '':'' s in
     if p \<noteq> s \<and> p \<noteq> [] \<and> is_alnum (hd p) \<and> \<not> is_digit (hd p) \<and> list_all scheme_char p then (map fold_char p, after CHR '':'' s)
     else ([], s))"

definition url_parse :: "(string \<Rightarrow> bool) \<Rightarrow> string \<Rightarrow> exc + url" where
  "url_parse address_ok s0 =
     (let s = filter (\<lambda>c. (of_char c :: nat) \<notin> {9, 10, 13}) (dropWhile (\<lambda>c. (of_char c :: nat) \<le> 32) s0);
          (scheme, rest) = split_scheme s;
          netloc = (if startswith rest ''//'' then before ''/?#'' (drop 2 rest) else []);
          opens = CHR ''['' \<in> set netloc; closes = CHR '']'' \<in> set netloc
      in if opens \<noteq> closes \<or> opens \<and> \<not> address_ok netloc then Inl (ValueError ''Invalid IPv6 URL'')
         else Inr \<lparr>ul_scheme = scheme, ul_netloc = netloc, ul_fragment = after CHR ''#'' rest\<rparr>)"

definition has_userinfo :: "url \<Rightarrow> bool" where
  "has_userinfo u \<longleftrightarrow> CHR ''@'' \<in> set (ul_netloc u)"

text \<open>The parts around the last \<open>@\<close>.\<close>

definition host_part :: "url \<Rightarrow> string" where
  "host_part u = rev (before ''@'' (rev (ul_netloc u)))"

definition user_part :: "url \<Rightarrow> string" where
  "user_part u = rev (after CHR ''@'' (rev (ul_netloc u)))"

definition url_username :: "url \<Rightarrow> string option" where
  "url_username u = (if has_userinfo u then Some (before '':'' (user_part u)) else None)"

definition url_password :: "url \<Rightarrow> string option" where
  "url_password u = (if has_userinfo u \<and> CHR '':'' \<in> set (user_part u) then Some (after CHR '':'' (user_part u)) else None)"

definition url_hostname :: "url \<Rightarrow> string option" where
  "url_hostname u = (let h = host_part u;
       name = (if CHR ''['' \<in> set h then before '']'' (after CHR ''['' h) else before '':'' h);
       zone = dropWhile (\<lambda>c. c \<noteq> CHR ''%'') name
     in if name = [] then None else Some (map fold_char (before ''%'' name) @ zone))"

section \<open>Configuration\<close>

record tool_override =
  ov_sensitive :: bool
  ov_egress :: bool
  ov_risk :: "string option"
  ov_effect :: "string option"
  ov_requires_provenance :: "bool option"
  ov_category :: "string option"
  ov_blocked_taint_labels :: "string list option"
  ov_max_input_classification :: "string option"
  ov_classification_violation_action :: "string option"
  ov_dlp_action :: "string option"
  ov_max_string_length :: "int option"
  ov_max_egress_bytes :: "int option"
  ov_hourly_egress_bytes :: "int option"
  ov_blocked_argument_patterns :: "(string, string list) dict option"

datatype override_entry = OverrideNotDict | Override tool_override

record server_config =
  sc_url :: string
  sc_allowed_agents :: "string list"
  sc_required_scopes :: "string list"
  sc_protocol_version :: "string option"
  sc_bearer_token_env :: "string option"
  sc_max_response_bytes :: "int option"
  sc_risk :: "string option"
  sc_tool_overrides :: "(string, override_entry) dict"
  sc_output_trust :: "string option"
  sc_output_classification :: "string option"
  sc_output_labels :: "string list"

datatype server_entry = ServerNotDict | Server server_config

text \<open>A web answer: a transport error or error status, or a body with its length, type and JSON value.\<close>

datatype web_answer = Failed | Answered nat string "json option"

datatype moment = After_Posts nat | After_Invocations nat

text \<open>What reading the configuration file gives.\<close>

datatype config_file = Unreadable | No_Servers | Servers "(string, server_entry) dict"

record upstream_manager =
  um_file :: config_file
  um_environ :: "string \<Rightarrow> string option"
  um_address_ok :: "string \<Rightarrow> bool"
  um_client :: "moment \<Rightarrow> string \<Rightarrow> json \<Rightarrow> (string \<times> string) list \<Rightarrow> web_answer"

definition load_servers :: "upstream_manager \<Rightarrow> exc + (string, server_entry) dict" where
  "load_servers m = (case um_file m of
      Unreadable \<Rightarrow> Inl (UpstreamMCPError ''Cannot load MCP upstream configuration'')
    | No_Servers \<Rightarrow> Inl (UpstreamMCPError ''MCP configuration requires a servers object'')
    | Servers d \<Rightarrow> Inr d)"

definition server_ids :: "upstream_manager \<Rightarrow> exc + string list" where
  "server_ids m = ebind (load_servers m) (\<lambda>d. Inr (sort (map fst d)))"

definition get_server :: "upstream_manager \<Rightarrow> string \<Rightarrow> exc + server_config" where
  "get_server m server = ebind (load_servers m) (\<lambda>d. case map_of d server of
      Some (Server c) \<Rightarrow> ebind (url_parse (um_address_ok m) (sc_url c)) (\<lambda>u.
        let local_server = (ul_scheme u = ''http'' \<and> url_hostname u \<in> {Some ''127.0.0.1'', Some ''localhost''}) in
        if ul_scheme u \<noteq> ''https'' \<and> \<not> local_server then Inl (UpstreamMCPError ''MCP upstream must use HTTPS or local development HTTP'')
        else if nonempty (url_username u) \<noteq> None \<or> nonempty (url_password u) \<noteq> None \<or> ul_fragment u \<noteq> []
        then Inl (UpstreamMCPError ''MCP upstream URL is invalid'')
        else Inr c)
    | _ \<Rightarrow> Inl (UpstreamMCPError ''Unknown MCP upstream''))"

definition authorize_upstream :: "server_config \<Rightarrow> agent_principal \<Rightarrow> exc + unit" where
  "authorize_upstream c agent =
     (if pr_agent_id agent \<notin> set (sc_allowed_agents c) then Inl (UpstreamMCPError ''Agent is not authorized for MCP upstream'')
      else if \<not> set (sc_required_scopes c) \<subseteq> set (pr_scopes agent) then Inl (UpstreamMCPError ''Agent is missing MCP upstream scope'')
      else Inr ())"

section \<open>Requests\<close>

definition post_headers :: "server_config \<Rightarrow> string option \<Rightarrow> (string \<times> string) list" where
  "post_headers c token =
     [(''Content-Type'', ''application/json''), (''Accept'', ''application/json''),
      (''MCP-Protocol-Version'', opt (sc_protocol_version c) ''2025-06-18'')]
     @ (case token of None \<Rightarrow> [] | Some t \<Rightarrow> [(''Authorization'', ''Bearer '' @ t)])"

definition bearer_token :: "upstream_manager \<Rightarrow> server_config \<Rightarrow> exc + string option" where
  "bearer_token m c = (case nonempty (sc_bearer_token_env c) of
      None \<Rightarrow> Inr None
    | Some v \<Rightarrow> (case nonempty (um_environ m v) of
        None \<Rightarrow> Inl (UpstreamMCPError ''Configured MCP bearer-token environment variable is missing'')
      | Some t \<Rightarrow> Inr (Some t)))"

text \<open>The checks of an answer to a payload.\<close>

definition check_answer :: "server_config \<Rightarrow> (string, json) dict \<Rightarrow> web_answer \<Rightarrow> exc + (string, json) dict" where
  "check_answer c payload answer = (case answer of
      Failed \<Rightarrow> Inl (UpstreamMCPError ''MCP upstream request failed'')
    | Answered bytes kind body \<Rightarrow>
        if opt (sc_max_response_bytes c) 2000000 < int bytes then Inl (UpstreamMCPError ''MCP upstream response exceeds configured limit'')
        else if \<not> str_in ''application/json'' (casefold kind) then Inl (UpstreamMCPError ''MCP upstream did not return JSON'')
        else (case body of
            None \<Rightarrow> Inl (UpstreamMCPError ''MCP upstream request failed'')
          | Some j \<Rightarrow> (case as_dict j of
              None \<Rightarrow> Inl (UpstreamMCPError ''MCP upstream returned invalid JSON-RPC'')
            | Some d \<Rightarrow> if jget d ''jsonrpc'' \<noteq> JStr ''2.0'' then Inl (UpstreamMCPError ''MCP upstream returned invalid JSON-RPC'')
                else if \<not> py_eq (jget d ''id'') (jget payload ''id'') then Inl (UpstreamMCPError ''MCP upstream response id mismatch'')
                else Inr d)))"

definition ask :: "upstream_manager \<Rightarrow> server_config \<Rightarrow> moment \<Rightarrow> (string, json) dict \<Rightarrow> exc + (string, json) dict" where
  "ask m c when payload = ebind (bearer_token m c) (\<lambda>token.
     check_answer c payload (um_client m when (sc_url c) (JDict payload) (post_headers c token)))"

definition post_upstream :: "upstream_manager \<Rightarrow> server_config \<Rightarrow> (string, json) dict \<Rightarrow> ((string, json) dict) io" where
  "post_upstream m c payload = (\<lambda>w. case bearer_token m c of
      Inl e \<Rightarrow> (Inl e, w)
    | Inr token \<Rightarrow> (ask m c (After_Posts (length (wo_posted w))) payload,
        w\<lparr>wo_posted := wo_posted w @ [(sc_url c, dumps False (JDict payload), case token of None \<Rightarrow> [] | Some t \<Rightarrow> ''Bearer '' @ t)]\<rparr>))"

section \<open>Discovery\<close>

definition list_payload :: "nat \<Rightarrow> string option \<Rightarrow> (string, json) dict" where
  "list_payload page cursor =
     [(''jsonrpc'', JStr ''2.0''), (''id'', JStr (''sentinelgate-list-'' @ show_nat page)), (''method'', JStr ''tools/list'')]
     @ (case cursor of None \<Rightarrow> [] | Some c \<Rightarrow> [(''params'', JDict [(''cursor'', JStr c)])])"

definition page_tools :: "(string, json) dict \<Rightarrow> json list option" where
  "page_tools response = (case jget response ''result'' of
      JDict r \<Rightarrow> (case jget r ''tools'' of JList ts \<Rightarrow> Some ts | _ \<Rightarrow> None)
    | _ \<Rightarrow> None)"

text \<open>The next cursor: none, or a text that is not empty and not the one just used.\<close>

definition next_cursor :: "(string, json) dict \<Rightarrow> string option \<Rightarrow> exc + string option" where
  "next_cursor response cursor = (case jget response ''result'' of
      JDict r \<Rightarrow> (case jget r ''nextCursor'' of
          JNull \<Rightarrow> Inr None
        | JStr s \<Rightarrow> if s = [] \<or> cursor = Some s then Inl (UpstreamMCPError ''MCP server returned an invalid pagination cursor'') else Inr (Some s)
        | _ \<Rightarrow> Inl (UpstreamMCPError ''MCP server returned an invalid pagination cursor''))
    | _ \<Rightarrow> Inr None)"

text \<open>\<^verbatim>\<open>for page in range(20)\<close>: \<open>n\<close> pages remain; running out of them is the \<^verbatim>\<open>else\<close> of the loop.\<close>

fun discover_pages :: "upstream_manager \<Rightarrow> string \<Rightarrow> server_config \<Rightarrow> nat \<Rightarrow> nat \<Rightarrow> string option \<Rightarrow> json list \<Rightarrow> (json list) io" where
  "discover_pages m server c 0 page cursor raw = raise (UpstreamMCPError ''MCP tools/list exceeded 20 pages'')"
| "discover_pages m server c (Suc n) page cursor raw =
     andthen (post_upstream m c (list_payload page cursor)) (\<lambda>response. case page_tools response of
         None \<Rightarrow> raise (UpstreamMCPError (''MCP server '' @ server @ '' returned an invalid tools page''))
       | Some ts \<Rightarrow> if 500 < length (raw @ ts) then raise (UpstreamMCPError ''MCP server exposes more than 500 tools'')
           else andthen (lift (next_cursor response cursor)) (\<lambda>next'. case next' of
               None \<Rightarrow> ret (raw @ ts)
             | Some s \<Rightarrow> discover_pages m server c n (Suc page) (Some s) (raw @ ts)))"

text \<open>\<^verbatim>\<open>MCPToolDefinition.model_validate\<close>\<close>

definition manifest_of_json :: "json \<Rightarrow> tool_manifest option" where
  "manifest_of_json j = Option.bind (as_dict j) (\<lambda>d.
     Option.bind (Option.bind (map_of d ''name'') as_str) (\<lambda>name.
     Option.bind (as_str (dget d ''description'' (JStr []))) (\<lambda>description.
     Option.bind (as_dict (dget d ''inputSchema'' (JDict []))) (\<lambda>schema.
     Option.bind (as_dict (dget d ''annotations'' (JDict []))) (\<lambda>annotations.
       let t = \<lparr>mt_name = name, mt_description = description, mt_input_schema = schema, mt_annotations = annotations\<rparr>
       in if tool_manifest_ok t then Some t else None)))))"

definition discover :: "upstream_manager \<Rightarrow> string \<Rightarrow> server_config \<Rightarrow> (tool_manifest list) io" where
  "discover m server c = andthen (discover_pages m server c 20 0 None []) (\<lambda>raw.
     if raw = [] then raise (UpstreamMCPError (''MCP server '' @ server @ '' returned no valid tools''))
     else case collect manifest_of_json raw of
         None \<Rightarrow> raise (UpstreamMCPError ''MCP server returned an invalid manifest'')
       | Some ts \<Rightarrow> ret ts)"

section \<open>Registration\<close>

definition runtime_name :: "string \<Rightarrow> string \<Rightarrow> string" where
  "runtime_name server tool = ''mcp.'' @ server @ ''.'' @ tool"

definition no_override :: tool_override where
  "no_override = \<lparr>ov_sensitive = False, ov_egress = False, ov_risk = None, ov_effect = None, ov_requires_provenance = None,
     ov_category = None, ov_blocked_taint_labels = None, ov_max_input_classification = None,
     ov_classification_violation_action = None, ov_dlp_action = None, ov_max_string_length = None, ov_max_egress_bytes = None,
     ov_hourly_egress_bytes = None, ov_blocked_argument_patterns = None\<rparr>"

definition override_for :: "server_config \<Rightarrow> string \<Rightarrow> exc + tool_override" where
  "override_for c tool = (case map_of (sc_tool_overrides c) tool of
      None \<Rightarrow> Inr no_override
    | Some OverrideNotDict \<Rightarrow> Inl (UpstreamMCPError ''Invalid MCP tool override'')
    | Some (Override ov) \<Rightarrow> Inr ov)"

text \<open>The policy of a tool: keys that the code sets only for egress tools are absent otherwise.\<close>

definition runtime_policy :: "string \<Rightarrow> server_config \<Rightarrow> string \<Rightarrow> tool_override \<Rightarrow> tool_config" where
  "runtime_policy server c tool ov =
     (let guarded = (ov_sensitive ov \<or> ov_egress ov);
          on_egress = (\<lambda>v d. if ov_egress ov then Some (opt v d) else None)
      in \<lparr>tl_risk = Some (opt (ov_risk ov) (opt (sc_risk c) ''medium'')),
          tl_effect = Some (opt (ov_effect ov) (if guarded then ''require_approval'' else ''allow'')),
          tl_allowed_agents = sc_allowed_agents c, tl_required_scopes = sc_required_scopes c,
          tl_sensitive = ov_sensitive ov, tl_egress = ov_egress ov,
          tl_category = Some (opt (ov_category ov) ''mcp_upstream''),
          tl_requires_provenance = opt (ov_requires_provenance ov) guarded,
          tl_max_input_classification = on_egress (ov_max_input_classification ov) ''internal'',
          tl_classification_violation_action = on_egress (ov_classification_violation_action ov) ''deny'',
          tl_blocked_taint_labels = (if ov_egress ov
            then opt (ov_blocked_taint_labels ov) [''customer-data'', ''prompt-injection'', ''restricted'', ''secret''] else []),
          tl_blocked_argument_patterns = opt (ov_blocked_argument_patterns ov) [],
          tl_field_policies = Policies [],
          tl_max_string_length = ov_max_string_length ov, tl_max_egress_bytes = ov_max_egress_bytes ov,
          tl_hourly_egress_bytes = ov_hourly_egress_bytes ov, tl_dlp_action = on_egress (ov_dlp_action ov) ''deny'',
          tl_mcp_server_id = Some server, tl_mcp_tool_name = Some tool\<rparr>)"

text \<open>The handler of a registered tool: the call is sent to the server and the answer labelled.\<close>

definition call_payload :: "string \<Rightarrow> (string, json) dict \<Rightarrow> (string, json) dict" where
  "call_payload tool arguments = [(''jsonrpc'', JStr ''2.0''), (''id'', JStr ''sentinelgate-call''), (''method'', JStr ''tools/call''),
     (''params'', JDict [(''name'', JStr tool), (''arguments'', JDict arguments)])]"

definition upstream_result :: "string \<Rightarrow> server_config \<Rightarrow> string \<Rightarrow> (string, json) dict \<Rightarrow> exc + tool_result" where
  "upstream_result server c tool r =
     (case (trust_of (opt (sc_output_trust c) ''untrusted''), classification_of (opt (sc_output_classification c) ''internal'')) of
        (Some t, Some k) \<Rightarrow> Inr \<lparr>tr_output = dget r ''structuredContent'' (jget r ''content''), tr_classification = k,
            tr_labels = remdups ([''mcp_upstream'', ''mcp_server:'' @ server] @ sc_output_labels c), tr_trust = t,
            tr_sources = [''mcp:'' @ server @ '':'' @ tool]\<rparr>
      | _ \<Rightarrow> Inl (ValueError ''invalid enumeration value''))"

definition upstream_handler :: "upstream_manager \<Rightarrow> string \<Rightarrow> string \<Rightarrow> server_config \<Rightarrow> handler" where
  "upstream_handler m server tool c = (\<lambda>invoked arguments.
     ebind (ask m c (After_Invocations (length invoked)) (call_payload tool arguments)) (\<lambda>response.
     if map_of response ''error'' \<noteq> None then Inl (ToolExecutionError ''Upstream MCP tool returned an error'')
     else (case jget response ''result'' of
         JDict r \<Rightarrow> if jget r ''isError'' = JBool True then Inl (ToolExecutionError ''Upstream MCP tool failed'')
             else ebind (upstream_result server c tool r) (\<lambda>x. Inr (Labelled x))
       | _ \<Rightarrow> Inl (ToolExecutionError ''Upstream MCP tool failed''))))"

text \<open>
  One tool after the other; what was registered before a failure stays. The names map the
  server's tool names to those of the gateway.
\<close>

definition register_tool :: "upstream_manager \<Rightarrow> string \<Rightarrow> server_config \<Rightarrow> tool_manifest \<Rightarrow> gateway \<Rightarrow> (exc + unit) \<times> gateway" where
  "register_tool m server c t gw =
     (let name = runtime_name server (mt_name t) in
      case override_for c (mt_name t) of
        Inl e \<Rightarrow> (Inl e, gw)
      | Inr ov \<Rightarrow> (case register_runtime_tool (gw_policy gw) name (runtime_policy server c (mt_name t) ov) of
          Inl e \<Rightarrow> (Inl e, gw)
        | Inr p \<Rightarrow> (case register_schema (gw_schemas gw) name (upstream_handler m server (mt_name t) c) (mt_input_schema t)
              (mt_description t) (gw_registry gw) of
            Inl e \<Rightarrow> (Inl e, gw\<lparr>gw_policy := p\<rparr>)
          | Inr reg \<Rightarrow> (Inr (), gw\<lparr>gw_policy := p, gw_registry := reg\<rparr>))))"

fun register_tools :: "upstream_manager \<Rightarrow> string \<Rightarrow> server_config \<Rightarrow> tool_manifest list \<Rightarrow> (string, string) dict \<Rightarrow> gateway \<Rightarrow>
    (exc + (string, string) dict) \<times> gateway" where
  "register_tools m server c [] names gw = (Inr names, gw)"
| "register_tools m server c (t # ts) names gw = (case register_tool m server c t gw of
      (Inl e, gw') \<Rightarrow> (Inl e, gw')
    | (Inr _, gw') \<Rightarrow> register_tools m server c ts (AList.update (mt_name t) (runtime_name server (mt_name t)) names) gw')"

definition admitted_manifest :: "inspection_result \<Rightarrow> bool" where
  "admitted_manifest res \<longleftrightarrow> ir_safe res \<and> ir_accepted res \<and> list_all (\<lambda>i. ti_status i = ''trusted'') (ir_tools res)"

text \<open>The service is shared: the gateway after the operation is part of its result, also of a failure.\<close>

definition vetted_tools :: "upstream_manager \<Rightarrow> string \<Rightarrow> agent_principal \<Rightarrow> gateway \<Rightarrow> (server_config \<times> tool_manifest list) io" where
  "vetted_tools m server agent gw =
     andthen (lift (get_server m server)) (\<lambda>c. andthen (lift (authorize_upstream c agent)) (\<lambda>_.
     andthen (discover m server c) (\<lambda>tools.
     andthen (inspect_manifest (gw_env gw) server \<lparr>iq_tools = tools, iq_accept = False\<rparr>) (\<lambda>found.
     if \<not> admitted_manifest found then raise (UpstreamMCPError ''MCP manifest failed integrity enforcement'')
     else ret (c, tools)))))"

definition sync_and_register :: "upstream_manager \<Rightarrow> string \<Rightarrow> agent_principal \<Rightarrow> gateway \<Rightarrow>
    ((exc + (string, string) dict) \<times> gateway) io" where
  "sync_and_register m server agent gw = (\<lambda>w. case vetted_tools m server agent gw w of
      (Inl e, w') \<Rightarrow> (Inr (Inl e, gw), w')
    | (Inr (c, tools), w') \<Rightarrow> (Inr (register_tools m server c tools [] gw), w'))"

section \<open>Messages\<close>

definition tool_listing :: "string \<Rightarrow> (string, string) dict \<Rightarrow> json list \<Rightarrow> exc + json list" where
  "tool_listing server names available =
     (let named = map_of (rev (List.map_filter (\<lambda>j. case j of JDict d \<Rightarrow> (case map_of d ''name'' of Some (JStr n) \<Rightarrow> Some (n, d) | _ \<Rightarrow> None)
          | _ \<Rightarrow> None) available))
      in traverse (\<lambda>(original, runtime). case named runtime of
          None \<Rightarrow> Inl (KeyError runtime)
        | Some d \<Rightarrow> (let meta = (case map_of d ''_meta'' of Some (JDict m) \<Rightarrow> m | _ \<Rightarrow> []) in
            Inr (JDict (AList.update ''_meta'' (JDict (AList.update ''sentinelgate'' (JDict
              [(''upstream'', JStr server), (''runtime_name'', JStr runtime)]) meta))
              (AList.update ''name'' (JStr original) d))))) names)"

text \<open>\<^verbatim>\<open>original not in names\<close> raises for a value that cannot be hashed.\<close>

definition upstream_call :: "json \<Rightarrow> string \<Rightarrow> (string, string) dict \<Rightarrow> (string, json) dict \<Rightarrow> agent_principal \<Rightarrow> gateway \<Rightarrow> json io" where
  "upstream_call i server names payload agent gw =
     (case or_else (jget payload ''params'') (JDict []) of
        JDict params \<Rightarrow> (case jget params ''name'' of
            JStr original \<Rightarrow> (case map_of names original of
                None \<Rightarrow> ret (rpc_error i (-32602) ''Unknown upstream tool'')
              | Some runtime \<Rightarrow> handle_mcp (AList.update ''params'' (JDict (AList.update ''name'' (JStr runtime) params)) payload)
                  agent gw (Some server))
          | JList xs \<Rightarrow> raise (TypeError ''unhashable type'')
          | JDict d \<Rightarrow> raise (TypeError ''unhashable type'')
          | _ \<Rightarrow> ret (rpc_error i (-32602) ''Unknown upstream tool''))
      | _ \<Rightarrow> ret (rpc_error i (-32602) ''Unknown upstream tool''))"

definition handle_upstream_mcp :: "string \<Rightarrow> (string, json) dict \<Rightarrow> agent_principal \<Rightarrow> gateway \<Rightarrow> upstream_manager \<Rightarrow>
    ((exc + json) \<times> gateway) io" where
  "handle_upstream_mcp server payload agent gw m =
     (let i = jget payload ''id''; act = jget payload ''method'' in
      andthen (sync_and_register m server agent gw) (\<lambda>(names, gw'). case names of
        Inl (UpstreamMCPError message) \<Rightarrow> ret (Inr (rpc_error i (-32001) message), gw')
      | Inl e \<Rightarrow> ret (Inl e, gw')
      | Inr ns \<Rightarrow>
          if act = JStr ''tools/list'' then
            (case tool_listing server ns (available_tools gw' agent) of
               Inl e \<Rightarrow> ret (Inl e, gw')
             | Inr visible \<Rightarrow> ret (Inr (rpc_result i (JDict [(''tools'', JList visible)])), gw'))
          else if act = JStr ''tools/call'' then
            (\<lambda>w. apfst (\<lambda>r. Inr (r, gw')) (upstream_call i server ns payload agent gw' w))
          else (\<lambda>w. apfst (\<lambda>r. Inr (r, gw')) (handle_mcp payload agent gw' None w))))"

section \<open>Discovery is bounded\<close>

lemma post_upstream_run:
  "post_upstream m c payload w = (r, w') \<Longrightarrow> wo_store w' = wo_store w \<and> wo_invoked w' = wo_invoked w
     \<and> length (wo_posted w') \<le> Suc (length (wo_posted w))"
  by (auto simp: post_upstream_def split: sum.splits)

lemma discover_pages_run:
  "discover_pages m server c n page cursor raw w = (r, w') \<Longrightarrow> wo_store w' = wo_store w \<and> wo_invoked w' = wo_invoked w
     \<and> length (wo_posted w') \<le> length (wo_posted w) + n \<and> (\<forall>ts. r = Inr ts \<longrightarrow> length ts \<le> 500)"
proof (induction n arbitrary: page cursor raw w)
  case 0
  then show ?case by (auto simp: raise_run)
next
  case (Suc n)
  obtain x w1 where p: "post_upstream m c (list_payload page cursor) w = (x, w1)" by force
  note posted = post_upstream_run [OF p]
  show ?case
  proof (cases x)
    case (Inl e)
    then show ?thesis using Suc.prems p posted by (auto simp: andthen_def)
  next
    case (Inr response)
    then have rest: "(case page_tools response of
         None \<Rightarrow> raise (UpstreamMCPError (''MCP server '' @ server @ '' returned an invalid tools page''))
       | Some ts \<Rightarrow> if 500 < length (raw @ ts) then raise (UpstreamMCPError ''MCP server exposes more than 500 tools'')
           else andthen (lift (next_cursor response cursor)) (\<lambda>next'. case next' of
               None \<Rightarrow> ret (raw @ ts)
             | Some s \<Rightarrow> discover_pages m server c n (Suc page) (Some s) (raw @ ts))) w1 = (r, w')"
      using Suc.prems p by (simp add: andthen_def)
    show ?thesis
    proof (cases "\<exists>s ts. discover_pages m server c n (Suc page) (Some s) (raw @ ts) w1 = (r, w')")
      case True
      then show ?thesis using Suc.IH posted by fastforce
    next
      case False
      then show ?thesis using rest posted
        by (auto simp: raise_run ret_run andthen_lift split: option.splits if_splits sum.splits)
    qed
  qed
qed

lemma collect_length: "collect f xs = Some ys \<Longrightarrow> length ys = length xs"
  by (simp add: collect_Some_iff list_all2_lengthD)

lemma collect_ok: "collect manifest_of_json xs = Some ts \<Longrightarrow> list_all tool_manifest_ok ts"
  by (induction xs arbitrary: ts) (auto simp: manifest_of_json_def bind_eq_Some_conv Let_def split: option.splits if_splits)

lemma discover_run:
  assumes "discover m server c w = (r, w')"
  shows "wo_store w' = wo_store w \<and> wo_invoked w' = wo_invoked w \<and> length (wo_posted w') \<le> length (wo_posted w) + 20
    \<and> (\<forall>ts. r = Inr ts \<longrightarrow> ts \<noteq> [] \<and> length ts \<le> 500 \<and> list_all tool_manifest_ok ts)"
proof -
  obtain x w1 where x: "discover_pages m server c 20 0 None [] w = (x, w1)" by force
  have w1: "w1 = w'" "\<And>ts. r = Inr ts \<Longrightarrow> \<exists>raw. x = Inr raw \<and> raw \<noteq> [] \<and> collect manifest_of_json raw = Some ts"
    using assms x by (auto simp: discover_def andthen_def raise_run ret_run split: sum.splits if_splits option.splits)
  note d = discover_pages_run [OF x]
  have "ts \<noteq> [] \<and> length ts \<le> 500 \<and> list_all tool_manifest_ok ts" if r: "r = Inr ts" for ts
  proof -
    obtain raw where raw: "x = Inr raw" "raw \<noteq> []" "collect manifest_of_json raw = Some ts" using w1(2) [OF r] by blast
    have "length ts = length raw" using raw(3) by (rule collect_length)
    then show ?thesis using raw(2) d raw(1) collect_ok [OF raw(3)] by auto
  qed
  then show ?thesis using d w1(1) by blast
qed

text \<open>
  C37. Discovery ends after at most twenty requests, changes nothing else, and if it yields tools there
  are between one and five hundred, each with a valid definition: the manifest is one that the
  inspection accepts as a request.
\<close>

theorem discovery_bounded:
  "(case discover m server c w of (r, w') \<Rightarrow> wo_store w' = wo_store w \<and> wo_invoked w' = wo_invoked w
      \<and> length (wo_posted w') \<le> length (wo_posted w) + 20
      \<and> (case r of Inl e \<Rightarrow> True | Inr tools \<Rightarrow> inspection_request_ok \<lparr>iq_tools = tools, iq_accept = False\<rparr>))"
proof -
  obtain r w' where d: "discover m server c w = (r, w')" by force
  from discover_run [OF d] show ?thesis
    by (cases r) (simp_all add: d inspection_request_ok_def Suc_le_eq)
qed

section \<open>Only vetted tools run\<close>

definition still :: "world \<Rightarrow> world \<Rightarrow> bool" where
  "still w w' \<longleftrightarrow> wo_invoked w' = wo_invoked w"

interpretation quietly: preserving still
  by unfold_locales (auto simp: still_def)

lemma still_inspect: "quietly.keeps (inspect_manifest env server q)"
proof -
  have db: "quietly.keeps (db t)" for t :: "store \<Rightarrow> 'a \<times> store"
    by (rule quietly.keeps_db) (simp add: still_def)
  have audit: "quietly.keeps (audit env ty p)" for ty p
    by (rule quietly.keeps_audit) (simp add: still_def)
  have "quietly.keeps (baselines_present server is)" for "is"
    by (induction "is") (auto intro!: quietly.keeps_andthen)
  then show ?thesis
    unfolding inspect_manifest_def inspect_tool_def conclude_inspection_def Let_def
    by (intro quietly.keeps_andthen quietly.keeps_if quietly.keeps_each quietly.keeps_query quietly.keeps_lift quietly.keeps_tick
      quietly.keeps_ret db audit)
qed

lemma vetted_run:
  assumes "vetted_tools m server agent gw w = (r, w')"
  shows "wo_invoked w' = wo_invoked w \<and> (\<forall>c tools. r = Inr (c, tools) \<longrightarrow>
    get_server m server = Inr c \<and> authorize_upstream c agent = Inr () \<and> (\<forall>t \<in> set tools.
      pinned server (mt_name t) (wo_store w) \<in> {None, Some (manifest_digest (gw_crypto gw) t)}
      \<and> pinned server (mt_name t) (wo_store w') = Some (manifest_digest (gw_crypto gw) t)))"
proof -
  show ?thesis
  proof (cases "\<exists>c. get_server m server = Inr c \<and> authorize_upstream c agent = Inr ()")
    case False
    then show ?thesis using assms by (auto simp: vetted_tools_def andthen_lift split: sum.splits)
  next
    case True
    then obtain c where c: "get_server m server = Inr c" "authorize_upstream c agent = Inr ()" by blast
    obtain x w1 where d: "discover m server c w = (x, w1)" by force
    note dr = discover_run [OF d]
    show ?thesis
    proof (cases x)
      case (Inl e)
      then show ?thesis using assms c d dr by (auto simp: vetted_tools_def andthen_lift andthen_def [of "discover m server c"])
    next
      case (Inr tools)
      let ?q = "\<lparr>iq_tools = tools, iq_accept = False\<rparr>"
      obtain y w2 where i: "inspect_manifest (gw_env gw) server ?q w1 = (y, w2)" by force
      have w2: "wo_invoked w2 = wo_invoked w" using quietly.keepsD [OF still_inspect i] dr by (simp add: still_def)
      have run: "(case y of Inl e \<Rightarrow> (Inl e, w2) | Inr found \<Rightarrow>
          (if \<not> admitted_manifest found then raise (UpstreamMCPError ''MCP manifest failed integrity enforcement'') else ret (c, tools)) w2) = (r, w')"
        using assms c d Inr i by (simp add: vetted_tools_def andthen_def lift_run)
      have w': "w' = w2" using run by (auto simp: raise_run ret_run split: sum.splits if_splits)
      have "pinned server (mt_name t) (wo_store w) \<in> {None, Some (manifest_digest (gw_crypto gw) t)}
          \<and> pinned server (mt_name t) (wo_store w') = Some (manifest_digest (gw_crypto gw) t)"
        if r: "r = Inr (c', tools')" and t: "t \<in> set tools'" for c' tools' t
      proof -
        obtain found where f: "y = Inr found" "admitted_manifest found" "tools' = tools"
          using run r by (auto simp: raise_run ret_run split: sum.splits if_splits)
        note rep = manifest_reported [OF i [unfolded f(1)]]
        obtain k where k: "k < length tools" "t = tools ! k" using t f(3) by (auto simp: in_set_conv_nth)
        have "reported (gw_crypto gw) server ?q (wo_store w1) (wo_store w2) t (ir_tools found ! k)" "k < length (ir_tools found)"
          using rep k by (auto simp: list_all2_conv_all_nth)
        moreover have "ti_status (ir_tools found ! k) = ''trusted''"
          using f(2) calculation(2) by (simp add: admitted_manifest_def list_all_length)
        ultimately show ?thesis using dr w' by (simp add: reported_def)
      qed
      then show ?thesis using run c w' w2 by (auto simp: raise_run ret_run split: sum.splits if_splits)
    qed
  qed
qed

lemma register_tool_Inr:
  assumes "register_tool m server c t gw = (Inr u, gw')"
  shows "gw_env gw' = gw_env gw \<and> (\<exists>ov. override_for c (mt_name t) = Inr ov
    \<and> tool_config (gw_policy gw') (runtime_name server (mt_name t)) = Some (runtime_policy server c (mt_name t) ov))
    \<and> (\<forall>n cfg. tool_config (gw_policy gw) n = Some cfg \<longrightarrow> tool_config (gw_policy gw') n = Some cfg)"
  using assms by (auto simp: register_tool_def Let_def dest: register_keeps split: sum.splits)

text \<open>Every registered name is that of a tool, under the policy that the configuration gives it.\<close>

definition names_ok :: "string \<Rightarrow> server_config \<Rightarrow> tool_manifest list \<Rightarrow> (string, string) dict \<Rightarrow> gateway \<Rightarrow> bool" where
  "names_ok server c ts names gw \<longleftrightarrow> (\<forall>n x. map_of names n = Some x \<longrightarrow> x = runtime_name server n
     \<and> (\<exists>t ov. t \<in> set ts \<and> mt_name t = n \<and> override_for c n = Inr ov
       \<and> tool_config (gw_policy gw) x = Some (runtime_policy server c n ov)))"

lemma register_tools_Inr:
  "register_tools m server c ts names gw = (Inr names', gw') \<Longrightarrow> set ts \<subseteq> set all_tools \<Longrightarrow> names_ok server c all_tools names gw \<Longrightarrow>
     gw_env gw' = gw_env gw \<and> names_ok server c all_tools names' gw'"
proof (induction ts arbitrary: names gw)
  case (Cons t ts)
  obtain u gw1 where t: "register_tool m server c t gw = (Inr u, gw1)"
      "register_tools m server c ts (AList.update (mt_name t) (runtime_name server (mt_name t)) names) gw1 = (Inr names', gw')"
    using Cons.prems(1) by (auto split: prod.splits sum.splits)
  note r = register_tool_Inr [OF t(1)]
  have "names_ok server c all_tools (AList.update (mt_name t) (runtime_name server (mt_name t)) names) gw1"
    unfolding names_ok_def
  proof (intro allI impI)
    fix n x assume x: "map_of (AList.update (mt_name t) (runtime_name server (mt_name t)) names) n = Some x"
    show "x = runtime_name server n \<and> (\<exists>t ov. t \<in> set all_tools \<and> mt_name t = n \<and> override_for c n = Inr ov
       \<and> tool_config (gw_policy gw1) x = Some (runtime_policy server c n ov))"
    proof (cases "n = mt_name t")
      case True
      then show ?thesis using x r Cons.prems(2) by (auto simp: update_conv')
    next
      case False
      then have "map_of names n = Some x" using x by (simp add: update_conv')
      then show ?thesis using Cons.prems(3) r by (fastforce simp: names_ok_def)
    qed
  qed
  with Cons.IH [OF t(2)] Cons.prems(2) r show ?case by simp
qed auto

lemma upstream_call_invokes:
  assumes "upstream_call i server names payload agent gw w = (r, w')" and "wo_invoked w' \<noteq> wo_invoked w"
  shows "\<exists>n call. map_of names n = Some (tc_tool_name call) \<and> tc_mcp_server_id call = Some server
    \<and> cleared gw call agent (w\<lparr>wo_drawn := Suc (Suc (wo_drawn w))\<rparr>) \<and> ran_once gw call w w'
    \<and> \<not> claimed (tc_request_id call) (wo_store w) \<and> claimed (tc_request_id call) (wo_store w')"
proof -
  obtain params original runtime where p: "or_else (jget payload ''params'') (JDict []) = JDict params"
      "map_of names original = Some runtime"
    and h: "handle_mcp (AList.update ''params'' (JDict (AList.update ''name'' (JStr runtime) params)) payload) agent gw (Some server) w = (r, w')"
    using assms by (auto simp: upstream_call_def ret_run raise_run split: json.splits option.splits)
  let ?p = "AList.update ''name'' (JStr runtime) params" let ?w1 = "w\<lparr>wo_drawn := Suc (Suc (wo_drawn w))\<rparr>"
  have ne: "?p \<noteq> []" by (cases params) auto
  have g: "or_else (jget (AList.update ''params'' (JDict ?p) payload) ''params'') (JDict []) = JDict ?p" "jget ?p ''name'' = JStr runtime"
    using ne by (simp_all add: jget_def dget_def or_else_def update_conv')
  obtain call x where c: "tc_tool_name call = runtime" "tc_mcp_server_id call = Some server" "execute_call gw call agent ?w1 = (x, w')"
    using handle_mcp_calls [OF h] assms(2) g by auto
  have "wo_invoked w' \<noteq> wo_invoked ?w1" using assms(2) by simp
  from execute_invokes [OF c(3) this] show ?thesis using c p(2) by (auto simp: ran_once_def)
qed

lemma upstream_invokes:
  assumes "handle_upstream_mcp server payload agent gw m w = (r, w')" and "wo_invoked w' \<noteq> wo_invoked w"
  shows "\<exists>c tools t ov gw' call w1. vetted_tools m server agent gw w = (Inr (c, tools), w1)
    \<and> get_server m server = Inr c \<and> authorize_upstream c agent = Inr () \<and> t \<in> set tools
    \<and> pinned server (mt_name t) (wo_store w) \<in> {None, Some (manifest_digest (gw_crypto gw) t)}
    \<and> pinned server (mt_name t) (wo_store w1) = Some (manifest_digest (gw_crypto gw) t)
    \<and> tc_tool_name call = runtime_name server (mt_name t) \<and> tc_mcp_server_id call = Some server
    \<and> override_for c (mt_name t) = Inr ov
    \<and> tool_config (gw_policy gw') (tc_tool_name call) = Some (runtime_policy server c (mt_name t) ov)
    \<and> cleared gw' call agent (w1\<lparr>wo_drawn := Suc (Suc (wo_drawn w1))\<rparr>) \<and> ran_once gw' call w1 w'
    \<and> gw_env gw' = gw_env gw \<and> \<not> claimed (tc_request_id call) (wo_store w1) \<and> claimed (tc_request_id call) (wo_store w')"
proof -
  obtain v w1 where v: "vetted_tools m server agent gw w = (v, w1)" by force
  note vr = vetted_run [OF v]
  have inv: "wo_invoked w' \<noteq> wo_invoked w1" using assms(2) vr by simp
  obtain c tools where c: "v = Inr (c, tools)"
    using assms(1) v inv by (cases v) (auto simp: handle_upstream_mcp_def Let_def sync_and_register_def andthen_def ret_run split: exc.splits)
  obtain names gw' where reg: "register_tools m server c tools [] gw = (names, gw')" by force
  have run: "(case names of
        Inl (UpstreamMCPError message) \<Rightarrow> ret (Inr (rpc_error (jget payload ''id'') (-32001) message), gw')
      | Inl e \<Rightarrow> ret (Inl e, gw')
      | Inr ns \<Rightarrow>
          if jget payload ''method'' = JStr ''tools/list'' then
            (case tool_listing server ns (available_tools gw' agent) of
               Inl e \<Rightarrow> ret (Inl e, gw')
             | Inr visible \<Rightarrow> ret (Inr (rpc_result (jget payload ''id'') (JDict [(''tools'', JList visible)])), gw'))
          else if jget payload ''method'' = JStr ''tools/call'' then
            (\<lambda>w. apfst (\<lambda>r. Inr (r, gw')) (upstream_call (jget payload ''id'') server ns payload agent gw' w))
          else (\<lambda>w. apfst (\<lambda>r. Inr (r, gw')) (handle_mcp payload agent gw' None w))) w1 = (r, w')"
    using assms(1) v c reg by (simp add: handle_upstream_mcp_def Let_def sync_and_register_def andthen_def)
  obtain ns where ns: "names = Inr ns" using run inv by (cases names) (auto simp: ret_run split: exc.splits)
  have other: "jget payload ''method'' = JStr ''tools/call''" if "handle_mcp payload agent gw' None w1 = (q, w')" for q
    using handle_mcp_calls [OF that] inv by (auto simp: is_tools_call_def jget_def dget_def)
  obtain q where q: "upstream_call (jget payload ''id'') server ns payload agent gw' w1 = (q, w')"
    using run ns inv other by (auto simp: ret_run apfst_def map_prod_def split: if_splits sum.splits prod.splits)
  obtain n call where call: "map_of ns n = Some (tc_tool_name call)" "tc_mcp_server_id call = Some server"
      "cleared gw' call agent (w1\<lparr>wo_drawn := Suc (Suc (wo_drawn w1))\<rparr>)" "ran_once gw' call w1 w'"
      "\<not> claimed (tc_request_id call) (wo_store w1)" "claimed (tc_request_id call) (wo_store w')"
    using upstream_call_invokes [OF q inv] by blast
  have "names_ok server c tools ns gw'" and env: "gw_env gw' = gw_env gw"
    using register_tools_Inr [OF reg [unfolded ns] subset_refl] by (simp_all add: names_ok_def)
  then obtain t ov where t: "t \<in> set tools" "mt_name t = n" "tc_tool_name call = runtime_name server n"
      "tool_config (gw_policy gw') (tc_tool_name call) = Some (runtime_policy server c n ov)" "override_for c n = Inr ov"
    using call(1) unfolding names_ok_def by blast
  show ?thesis
    by (intro exI [of _ c] exI [of _ tools] exI [of _ t] exI [of _ ov] exI [of _ gw'] exI [of _ call] exI [of _ w1])
       (use t v c vr call env in auto)
qed

text \<open>
  C20. What runs through a mediated server is a vetted tool: if a message for a server invoked a handler,
  the server is configured, the agent is on its list with its scopes, and the handler is that of a
  tool of the manifest just fetched, whose definition is pinned now and was not pinned to any other
  before; the call names the server and was cleared by the gateway under the policy that the
  configuration gives the tool, and the handler ran once.
\<close>

theorem upstream_runs_vetted_tools:
  "(case handle_upstream_mcp server payload agent gw m w of (r, w') \<Rightarrow> wo_invoked w' = wo_invoked w
    \<or> (\<exists>c tools t ov gw' call w1. vetted_tools m server agent gw w = (Inr (c, tools), w1)
      \<and> get_server m server = Inr c \<and> authorize_upstream c agent = Inr () \<and> t \<in> set tools
      \<and> pinned server (mt_name t) (wo_store w) \<in> {None, Some (manifest_digest (gw_crypto gw) t)}
      \<and> pinned server (mt_name t) (wo_store w1) = Some (manifest_digest (gw_crypto gw) t)
      \<and> tc_tool_name call = runtime_name server (mt_name t) \<and> tc_mcp_server_id call = Some server
      \<and> override_for c (mt_name t) = Inr ov
      \<and> tool_config (gw_policy gw') (tc_tool_name call) = Some (runtime_policy server c (mt_name t) ov)
      \<and> cleared gw' call agent (w1\<lparr>wo_drawn := Suc (Suc (wo_drawn w1))\<rparr>) \<and> ran_once gw' call w1 w'
      \<and> gw_env gw' = gw_env gw \<and> \<not> claimed (tc_request_id call) (wo_store w1) \<and> claimed (tc_request_id call) (wo_store w')))"
proof -
  obtain r w' where run: "handle_upstream_mcp server payload agent gw m w = (r, w')" by force
  show ?thesis
  proof (cases "wo_invoked w' = wo_invoked w")
    case False
    show ?thesis unfolding run prod.case by (rule disjI2, rule upstream_invokes [OF run False])
  qed (simp add: run)
qed

text \<open>
  The labels that the policy of an egress tool blocks by default are written with hyphens, while the
  label of content with instructions is written with an underscore: by default an egress tool of a
  mediated server does not block content in which instructions were found, whatever other labels
  outside the list it has.
\<close>

theorem default_labels_miss_injection:
  "signals \<noteq> [] \<longrightarrow> ''prompt_injection'' \<in> set (with_signal [] signals)
     \<and> \<not> label_blocked (tl_blocked_taint_labels (runtime_policy server c tool (no_override\<lparr>ov_egress := True\<rparr>))) (with_signal [] signals)"
  by (auto simp: with_signal_def runtime_policy_def Let_def no_override_def label_blocked_def)

end
