(* ===== verification/Settings.thy ===== *)
theory Settings
  imports Worker
begin

text \<open>
  \<^verbatim>\<open>settings.py\<close>: the configuration of a deployment and the checks that loading it makes. Reading
  the environment is the settings library's: what it yields is the argument of \<open>get_settings\<close>, and
  the files are the parameter \<open>files\<close>. A path is a text; \<open>Path\<close> drops a leading \<^verbatim>\<open>./\<close>.
\<close>

section \<open>Fields\<close>

record settings =
  se_database_path :: string
  se_database_url :: "string option"
  se_database_pool_min_size :: int
  se_database_pool_max_size :: int
  se_worker_poll_interval_seconds :: rat
  se_worker_lease_seconds :: int
  se_worker_max_attempts :: int
  se_worker_id :: "string option"
  se_watch_enabled :: bool
  se_watch_monitor_only :: bool
  se_policy_path :: string
  se_knowledge_path :: string
  se_mcp_upstreams_path :: string
  se_evidence_path :: string
  se_enforcement_mode :: enforcement_mode
  se_github_app_id :: "string option"
  se_github_installation_id :: "int option"
  se_github_private_key_path :: "string option"
  se_github_allowed_repositories :: string
  se_approval_webhook_url :: "string option"
  se_approval_webhook_secret :: string
  se_approval_webhook_secret_file :: "string option"
  se_console_public_url :: string
  se_audit_signing_key :: string
  se_audit_signing_key_file :: "string option"
  se_token_signing_key :: string
  se_token_signing_key_file :: "string option"
  se_data_encryption_key :: string
  se_data_encryption_key_file :: "string option"
  se_admin_token :: string
  se_admin_token_file :: "string option"
  se_environment :: string
  se_issuer :: string
  se_openai_api_key :: "string option"
  se_openai_model :: string
  se_declassification_allowed_labels :: string
  se_admin_auth_mode :: string
  se_oidc_issuer :: "string option"
  se_oidc_audience :: "string option"
  se_oidc_jwks_url :: "string option"
  se_oidc_authorization_endpoint :: "string option"
  se_oidc_token_endpoint :: "string option"
  se_oidc_client_id :: "string option"
  se_oidc_client_secret :: "string option"
  se_oidc_client_secret_file :: "string option"
  se_oidc_scopes :: string
  se_oidc_role_claim :: string
  se_oidc_admin_roles :: string
  se_oidc_approver_roles :: string
  se_oidc_analyst_roles :: string
  se_oidc_viewer_roles :: string

definition default_settings :: settings where
  "default_settings = \<lparr>
     se_database_path = ''data/sentinelgate.db'',
     se_database_url = None,
     se_database_pool_min_size = 1,
     se_database_pool_max_size = 10,
     se_worker_poll_interval_seconds = 1,
     se_worker_lease_seconds = 30,
     se_worker_max_attempts = 8,
     se_worker_id = None,
     se_watch_enabled = True,
     se_watch_monitor_only = True,
     se_policy_path = ''config/policies.json'',
     se_knowledge_path = ''knowledge'',
     se_mcp_upstreams_path = ''config/mcp_upstreams.json'',
     se_evidence_path = ''evidence'',
     se_enforcement_mode = ENFORCE,
     se_github_app_id = None,
     se_github_installation_id = None,
     se_github_private_key_path = None,
     se_github_allowed_repositories = '''',
     se_approval_webhook_url = None,
     se_approval_webhook_secret = ''development-approval-webhook-key'',
     se_approval_webhook_secret_file = None,
     se_console_public_url = ''http://127.0.0.1:8000'',
     se_audit_signing_key = ''development-only-change-me'',
     se_audit_signing_key_file = None,
     se_token_signing_key = ''development-token-key-change-me'',
     se_token_signing_key_file = None,
     se_data_encryption_key = ''development-encryption-key-change-me'',
     se_data_encryption_key_file = None,
     se_admin_token = ''development-admin-token'',
     se_admin_token_file = None,
     se_environment = ''development'',
     se_issuer = ''https://sentinelgate.local'',
     se_openai_api_key = None,
     se_openai_model = ''gpt-5.6-terra'',
     se_declassification_allowed_labels = ''reviewed,false-positive'',
     se_admin_auth_mode = ''shared'',
     se_oidc_issuer = None,
     se_oidc_audience = None,
     se_oidc_jwks_url = None,
     se_oidc_authorization_endpoint = None,
     se_oidc_token_endpoint = None,
     se_oidc_client_id = None,
     se_oidc_client_secret = None,
     se_oidc_client_secret_file = None,
     se_oidc_scopes = ''openid profile email'',
     se_oidc_role_claim = ''roles'',
     se_oidc_admin_roles = ''sentinelgate-admin,administrator'',
     se_oidc_approver_roles = ''sentinelgate-approver'',
     se_oidc_analyst_roles = ''sentinelgate-analyst'',
     se_oidc_viewer_roles = ''sentinelgate-viewer''\<rparr>"

text \<open>The file system: the content of a file that can be read, and which paths are files or directories.\<close>

record files =
  fs_content :: "string \<Rightarrow> string option"
  fs_is_file :: "string \<Rightarrow> bool"
  fs_is_dir :: "string \<Rightarrow> bool"

section \<open>Secret files\<close>

text \<open>A file that cannot be read is reported by name; one that is not UTF-8 raises what the decoding raises.\<close>

definition resolve_secret :: "files \<Rightarrow> string \<Rightarrow> string option \<Rightarrow> exc + string option" where
  "resolve_secret fs field path = (case path of
      None \<Rightarrow> Inr None
    | Some p \<Rightarrow> (case fs_content fs p of
        None \<Rightarrow> Inl (RuntimeError (''Unable to read configured secret file for '' @ field))
      | Some text \<Rightarrow> if \<not> utf8 (map of_char text) then Inl (ValueError ''UnicodeDecodeError'')
          else if str_strip text = [] then Inl (RuntimeError (''Configured secret file for '' @ field @ '' is empty''))
          else Inr (Some (str_strip text))))"

definition resolve_secrets :: "files \<Rightarrow> settings \<Rightarrow> exc + settings" where
  "resolve_secrets fs s =
     ebind (resolve_secret fs ''audit_signing_key'' (se_audit_signing_key_file s)) (\<lambda>audit_key.
     ebind (resolve_secret fs ''token_signing_key'' (se_token_signing_key_file s)) (\<lambda>token_key.
     ebind (resolve_secret fs ''data_encryption_key'' (se_data_encryption_key_file s)) (\<lambda>data_key.
     ebind (resolve_secret fs ''admin_token'' (se_admin_token_file s)) (\<lambda>admin.
     ebind (resolve_secret fs ''approval_webhook_secret'' (se_approval_webhook_secret_file s)) (\<lambda>webhook.
     ebind (resolve_secret fs ''oidc_client_secret'' (se_oidc_client_secret_file s)) (\<lambda>client.
     Inr (s\<lparr>se_audit_signing_key := opt audit_key (se_audit_signing_key s),
            se_token_signing_key := opt token_key (se_token_signing_key s),
            se_data_encryption_key := opt data_key (se_data_encryption_key s),
            se_admin_token := opt admin (se_admin_token s),
            se_approval_webhook_secret := opt webhook (se_approval_webhook_secret s),
            se_oidc_client_secret := (case client of None \<Rightarrow> se_oidc_client_secret s | Some c \<Rightarrow> Some c)\<rparr>)))))))"

section \<open>Production\<close>

definition given_text :: "string option \<Rightarrow> bool" where
  "given_text v \<longleftrightarrow> nonempty v \<noteq> None"

definition is_production :: "settings \<Rightarrow> bool" where
  "is_production s \<longleftrightarrow> casefold (se_environment s) = ''production''"

definition weak_secret :: "string \<Rightarrow> bool" where
  "weak_secret k \<longleftrightarrow> length k < 32 \<or> startswith k ''development-'' \<or> startswith k ''replace-with-''"

definition configured_secrets :: "settings \<Rightarrow> string list" where
  "configured_secrets s = [se_audit_signing_key s, se_token_signing_key s, se_data_encryption_key s, se_admin_token s]"

definition browser_oidc :: "settings \<Rightarrow> string option list" where
  "browser_oidc s = [se_oidc_authorization_endpoint s, se_oidc_token_endpoint s, se_oidc_client_id s, se_oidc_client_secret s]"

definition github_values :: "settings \<Rightarrow> bool list" where
  "github_values s = [given_text (se_github_app_id s), se_github_installation_id s \<notin> {None, Some 0},
     se_github_private_key_path s \<noteq> None, str_strip (se_github_allowed_repositories s) \<noteq> []]"

definition plain_endpoint :: "string option \<Rightarrow> bool" where
  "plain_endpoint v \<longleftrightarrow> (case nonempty v of None \<Rightarrow> False | Some u \<Rightarrow> \<not> startswith u ''https://'')"

definition postgres_url :: "string option \<Rightarrow> bool" where
  "postgres_url v \<longleftrightarrow> (case nonempty v of None \<Rightarrow> False
     | Some u \<Rightarrow> startswith u ''postgresql://'' \<or> startswith u ''postgresql+psycopg://'')"

text \<open>The checks in their order, each with the message of its refusal.\<close>

definition production_checks :: "files \<Rightarrow> settings \<Rightarrow> (bool \<times> string) list" where
  "production_checks fs s =
     [(list_ex weak_secret (configured_secrets s), ''Production requires four strong, non-example secrets''),
      (\<not> distinct (configured_secrets s), ''Production secrets must be distinct''),
      (given_text (se_approval_webhook_url s) \<and> weak_secret (se_approval_webhook_secret s),
        ''Production approval webhook requires a strong secret''),
      (se_admin_auth_mode s \<notin> {''oidc'', ''hybrid''}, ''Production requires OIDC administrator authentication''),
      (\<not> list_all given_text [se_oidc_issuer s, se_oidc_audience s, se_oidc_jwks_url s],
        ''Production OIDC configuration is incomplete''),
      (list_ex given_text (browser_oidc s) \<and> \<not> list_all given_text (browser_oidc s),
        ''Browser OIDC sign-in configuration is incomplete''),
      (list_ex plain_endpoint [se_oidc_authorization_endpoint s, se_oidc_token_endpoint s],
        ''Production OIDC endpoints must use HTTPS''),
      (\<not> startswith (se_console_public_url s) ''https://'', ''Production console public URL must use HTTPS''),
      (list_ex id (github_values s) \<and> \<not> list_all id (github_values s),
        ''Production GitHub App configuration and repository allowlist must be complete''),
      (case se_github_private_key_path s of None \<Rightarrow> False | Some p \<Rightarrow> \<not> fs_is_file fs p,
        ''Production GitHub App private key file does not exist''),
      (\<not> postgres_url (se_database_url s), ''Production requires a PostgreSQL SENTINEL_DATABASE_URL''),
      (se_database_pool_min_size s < 1 \<or> se_database_pool_max_size s < se_database_pool_min_size s,
        ''Invalid production database pool sizing''),
      (se_worker_poll_interval_seconds s \<le> 0, ''Worker poll interval must be positive''),
      (se_worker_lease_seconds s < 10 \<or> se_worker_max_attempts s < 1, ''Invalid durable worker configuration''),
      (se_watch_enabled s \<and> \<not> se_watch_monitor_only s,
        ''Watch Alpha is monitor-only; automated intervention is not production-supported'')]"

definition get_settings :: "files \<Rightarrow> settings \<Rightarrow> exc + settings" where
  "get_settings fs loaded =
     ebind (resolve_secrets fs loaded) (\<lambda>s.
     if is_production s then (case find fst (production_checks fs s) of
         Some (_, message) \<Rightarrow> Inl (RuntimeError message)
       | None \<Rightarrow> Inr s)
     else Inr s)"

end
