(* ===== verification/Admin_Identity.thy ===== *)
theory Admin_Identity
  imports Settings Mcp
begin

text \<open>
  \<^verbatim>\<open>admin_identity.py\<close> and the operators of \<^verbatim>\<open>api.py\<close>: who an operator is and which roles a
  route accepts. The token library is the parameter \<open>jwt\<close>: the claims of a token that is signed by
  a key of the provider, unexpired and meant for the audience, or none. The roles of an identity are
  a list without repetitions; sets of roles are compared as sets.
\<close>

section \<open>Federated identities\<close>

record admin_identity =
  ai_subject :: string
  ai_email :: "string option"
  ai_roles :: "string list"

record oidc_verifier =
  oi_issuer :: string
  oi_audience :: string
  oi_jwks_url :: string
  oi_role_claim :: string

type_synonym jwt = "time \<Rightarrow> oidc_verifier \<Rightarrow> string \<Rightarrow> (string, json) dict option"

definition rstrip_slash :: "string \<Rightarrow> string" where
  "rstrip_slash s = rev (dropWhile (\<lambda>c. c = CHR ''/'') (rev s))"

definition new_verifier :: "string \<Rightarrow> string \<Rightarrow> string \<Rightarrow> string \<Rightarrow> oidc_verifier" where
  "new_verifier issuer audience jwks role_claim =
     \<lparr>oi_issuer = rstrip_slash issuer, oi_audience = audience, oi_jwks_url = jwks, oi_role_claim = role_claim\<rparr>"

definition claimed_roles :: "json \<Rightarrow> string list option" where
  "claimed_roles raw = (case raw of JStr s \<Rightarrow> Some [s] | JList xs \<Rightarrow> collect as_str xs | _ \<Rightarrow> None)"

definition verify_admin :: "jwt \<Rightarrow> oidc_verifier \<Rightarrow> time \<Rightarrow> string \<Rightarrow> exc + admin_identity" where
  "verify_admin jwt v now token = (case jwt now v token of
      None \<Rightarrow> Inl (AdminIdentityError ''Invalid federated administrator token'')
    | Some claims \<Rightarrow> (case claimed_roles (dget claims (oi_role_claim v) (JList [])) of
        None \<Rightarrow> Inl (AdminIdentityError ''OIDC role claim is invalid'')
      | Some roles \<Rightarrow> ebind (key_of claims ''sub'') (\<lambda>sub.
          Inr \<lparr>ai_subject = py_str sub,
               ai_email = (let e = dget claims ''email'' JNull in if falsy e then None else Some (py_str e)),
               ai_roles = remdups (map casefold roles)\<rparr>)))"

text \<open>\<^verbatim>\<open>get_admin_verifier\<close>\<close>

definition get_admin_verifier :: "settings \<Rightarrow> oidc_verifier option" where
  "get_admin_verifier s =
     (if se_admin_auth_mode s \<notin> {''oidc'', ''hybrid''} then None
      else case (nonempty (se_oidc_issuer s), nonempty (se_oidc_audience s), nonempty (se_oidc_jwks_url s)) of
        (Some i, Some a, Some j) \<Rightarrow> Some (new_verifier i a j (se_oidc_role_claim s))
      | _ \<Rightarrow> None)"

section \<open>Operators\<close>

text \<open>\<^verbatim>\<open>hmac.compare_digest\<close> of two texts raises unless both are ASCII.\<close>

definition compare_digest :: "string \<Rightarrow> string \<Rightarrow> exc + bool" where
  "compare_digest a b = (if list_all (\<lambda>c. (of_char c :: nat) < 128) (a @ b) then Inr (a = b)
     else Inl (TypeError ''comparing strings with non-ASCII characters is not supported''))"

text \<open>The scheme and the credentials of the Authorization header, when it is a bearer header.\<close>

type_synonym bearer = "(string \<times> string) option"

definition shared_administrator :: admin_identity where
  "shared_administrator = \<lparr>ai_subject = ''shared-development-administrator'', ai_email = None, ai_roles = [''administrator'']\<rparr>"

definition federated_identity :: "jwt \<Rightarrow> settings \<Rightarrow> time \<Rightarrow> string \<Rightarrow> exc + admin_identity" where
  "federated_identity jwt s now token = (case get_admin_verifier s of
      None \<Rightarrow> Inl (HTTPException 401 ''Invalid administrator token'')
    | Some v \<Rightarrow> (case verify_admin jwt v now token of
        Inl (AdminIdentityError m) \<Rightarrow> Inl (HTTPException 401 m)
      | r \<Rightarrow> r))"

definition operator_identity :: "jwt \<Rightarrow> settings \<Rightarrow> time \<Rightarrow> bearer \<Rightarrow> exc + admin_identity" where
  "operator_identity jwt s now credentials = (case credentials of
      None \<Rightarrow> Inl (HTTPException 401 ''Administrator bearer token required'')
    | Some (scheme, token) \<Rightarrow>
        if casefold scheme \<noteq> ''bearer'' then Inl (HTTPException 401 ''Administrator bearer token required'')
        else if se_admin_auth_mode s \<in> {''shared'', ''hybrid''} then
          ebind (compare_digest token (se_admin_token s)) (\<lambda>same.
            if same then Inr shared_administrator else federated_identity jwt s now token)
        else federated_identity jwt s now token)"

section \<open>Roles\<close>

datatype operator_role = Viewer | Analyst | Approver | Administrator

fun role_title :: "operator_role \<Rightarrow> string" where
  "role_title Viewer = ''Viewer''"
| "role_title Analyst = ''Analyst''"
| "role_title Approver = ''Approver''"
| "role_title Administrator = ''Administrator''"

fun role_settings :: "settings \<Rightarrow> operator_role \<Rightarrow> string list" where
  "role_settings s Viewer = [se_oidc_viewer_roles s, se_oidc_analyst_roles s, se_oidc_approver_roles s, se_oidc_admin_roles s]"
| "role_settings s Analyst = [se_oidc_analyst_roles s, se_oidc_admin_roles s]"
| "role_settings s Approver = [se_oidc_approver_roles s, se_oidc_admin_roles s]"
| "role_settings s Administrator = [se_oidc_admin_roles s]"

definition allowed_roles :: "settings \<Rightarrow> operator_role \<Rightarrow> string list" where
  "allowed_roles s minimum = remdups (map (\<lambda>r. casefold (str_strip r))
     (filter (\<lambda>r. str_strip r \<noteq> []) (concat (map (str_split CHR '','') (role_settings s minimum)))))"

definition role_allowed :: "settings \<Rightarrow> operator_role \<Rightarrow> admin_identity \<Rightarrow> bool" where
  "role_allowed s minimum who \<longleftrightarrow> ''administrator'' \<in> set (ai_roles who)
     \<or> set (ai_roles who) \<inter> set (allowed_roles s minimum) \<noteq> {}"

definition enforce_operator_role :: "settings \<Rightarrow> operator_role \<Rightarrow> admin_identity \<Rightarrow> exc + admin_identity" where
  "enforce_operator_role s minimum who =
     (if role_allowed s minimum who then Inr who else Inl (HTTPException 403 (role_title minimum @ '' role required'')))"

text \<open>\<^verbatim>\<open>require_admin\<close>, \<^verbatim>\<open>require_approver\<close>, \<^verbatim>\<open>require_analyst\<close> and \<^verbatim>\<open>require_viewer\<close>.\<close>

definition require_operator :: "jwt \<Rightarrow> settings \<Rightarrow> operator_role \<Rightarrow> time \<Rightarrow> bearer \<Rightarrow> exc + admin_identity" where
  "require_operator jwt s minimum now credentials =
     ebind (operator_identity jwt s now credentials) (enforce_operator_role s minimum)"

text \<open>The reviewer that a route records: \<^verbatim>\<open>identity.email or identity.subject\<close>.\<close>

definition reviewer_of :: "admin_identity \<Rightarrow> string" where
  "reviewer_of who = opt (nonempty (ai_email who)) (ai_subject who)"

section \<open>Operator roles\<close>

text \<open>
  The operator roles are ordered: whoever may act as an administrator may act in every role and
  whoever may act as an analyst or an approver may view; and each of these is decided as written:
  a role is allowed exactly if the identity has the role "administrator" itself or one of the roles
  configured for it, compared without case and without surrounding spaces.
\<close>

theorem operator_roles_ordered:
  "{who. role_allowed s Administrator who} \<subseteq> {who. role_allowed s r who}
   \<and> {who. role_allowed s Analyst who} \<union> {who. role_allowed s Approver who} \<subseteq> {who. role_allowed s Viewer who}
   \<and> role_allowed s r \<lparr>ai_subject = x, ai_email = y, ai_roles = roles\<rparr> =
       (''administrator'' \<in> set roles \<or> (\<exists>field entry. field \<in> set (role_settings s r) \<and> entry \<in> set (str_split CHR '','' field)
          \<and> str_strip entry \<noteq> [] \<and> casefold (str_strip entry) \<in> set roles))"
proof -
  have "set (allowed_roles s Administrator) \<subseteq> set (allowed_roles s r)" "set (allowed_roles s Analyst) \<subseteq> set (allowed_roles s Viewer)"
    "set (allowed_roles s Approver) \<subseteq> set (allowed_roles s Viewer)"
    by (cases r; auto simp: allowed_roles_def)+
  moreover have "set (allowed_roles s r) \<inter> set roles \<noteq> {} \<longleftrightarrow> (\<exists>field entry. field \<in> set (role_settings s r)
      \<and> entry \<in> set (str_split CHR '','' field) \<and> str_strip entry \<noteq> [] \<and> casefold (str_strip entry) \<in> set roles)"
    unfolding allowed_roles_def by (simp add: disjoint_iff) blast
  ultimately show ?thesis by (auto simp: role_allowed_def Int_commute)
qed


section \<open>Production\<close>

text \<open>
  What a secret of the resolved settings is: the value given in the settings when no file is
  configured for it, and otherwise the stripped text of the file, which was read and is not blank.
\<close>

definition secret_taken :: "files \<Rightarrow> string option \<Rightarrow> string option \<Rightarrow> string option \<Rightarrow> bool" where
  "secret_taken fs path given_value secret \<longleftrightarrow> (case path of None \<Rightarrow> secret = given_value
    | Some p \<Rightarrow> \<exists>text. fs_content fs p = Some text \<and> utf8 (map of_char text) \<and> str_strip text \<noteq> [] \<and> secret = Some (str_strip text))"

lemma resolved_taken:
  assumes "resolve_secret fs field path = Inr v"
  shows "secret_taken fs path (Some given_value) (Some (opt v given_value))"
    "secret_taken fs path other (case v of None \<Rightarrow> other | Some c \<Rightarrow> Some c)"
  using assms by (auto simp: resolve_secret_def secret_taken_def split: option.splits if_splits)

lemma secrets_taken:
  assumes "resolve_secrets fs loaded = Inr s"
  shows "secret_taken fs (se_audit_signing_key_file loaded) (Some (se_audit_signing_key loaded)) (Some (se_audit_signing_key s))"
    "secret_taken fs (se_token_signing_key_file loaded) (Some (se_token_signing_key loaded)) (Some (se_token_signing_key s))"
    "secret_taken fs (se_data_encryption_key_file loaded) (Some (se_data_encryption_key loaded)) (Some (se_data_encryption_key s))"
    "secret_taken fs (se_admin_token_file loaded) (Some (se_admin_token loaded)) (Some (se_admin_token s))"
    "secret_taken fs (se_approval_webhook_secret_file loaded) (Some (se_approval_webhook_secret loaded)) (Some (se_approval_webhook_secret s))"
    "secret_taken fs (se_oidc_client_secret_file loaded) (se_oidc_client_secret loaded) (se_oidc_client_secret s)"
  using assms resolved_taken by (auto simp: resolve_secrets_def ebind_Inr_iff)

text \<open>
  C35. Settings for production are hardened before the server starts: when \<open>get_settings\<close> gives
  production settings, its four secrets have at least 32 characters, no example prefix and are
  pairwise distinct, an OIDC provider can verify operators, the database is PostgreSQL, the
  console is reached by HTTPS and the watch only monitors. Each of the six secrets that a file can
  hold is the stripped text of its file, when one is configured, and otherwise as given: no
  configured file is skipped.
\<close>

theorem production_is_hardened:
  assumes "get_settings fs loaded = Inr s" and "is_production s"
  shows "(\<forall>k \<in> set (configured_secrets s). 32 \<le> length k \<and> \<not> startswith k ''development-'' \<and> \<not> startswith k ''replace-with-'')
    \<and> distinct (configured_secrets s) \<and> get_admin_verifier s \<noteq> None \<and> postgres_url (se_database_url s)
    \<and> startswith (se_console_public_url s) ''https://'' \<and> (se_watch_enabled s \<longrightarrow> se_watch_monitor_only s)
    \<and> secret_taken fs (se_audit_signing_key_file loaded) (Some (se_audit_signing_key loaded)) (Some (se_audit_signing_key s))
    \<and> secret_taken fs (se_token_signing_key_file loaded) (Some (se_token_signing_key loaded)) (Some (se_token_signing_key s))
    \<and> secret_taken fs (se_data_encryption_key_file loaded) (Some (se_data_encryption_key loaded)) (Some (se_data_encryption_key s))
    \<and> secret_taken fs (se_admin_token_file loaded) (Some (se_admin_token loaded)) (Some (se_admin_token s))
    \<and> secret_taken fs (se_approval_webhook_secret_file loaded) (Some (se_approval_webhook_secret loaded)) (Some (se_approval_webhook_secret s))
    \<and> secret_taken fs (se_oidc_client_secret_file loaded) (se_oidc_client_secret loaded) (se_oidc_client_secret s)"
proof -
  have r: "resolve_secrets fs loaded = Inr s" and c: "find fst (production_checks fs s) = None"
    using assms by (auto simp: get_settings_def ebind_Inr_iff split: if_splits option.splits)
  have all: "\<forall>c \<in> set (production_checks fs s). \<not> fst c" using c by (auto simp: find_None_iff)
  have a: "\<not> list_ex weak_secret (configured_secrets s)" "distinct (configured_secrets s)" "se_admin_auth_mode s \<in> {''oidc'', ''hybrid''}"
      "list_all given_text [se_oidc_issuer s, se_oidc_audience s, se_oidc_jwks_url s]" "postgres_url (se_database_url s)"
      "startswith (se_console_public_url s) ''https://''" "se_watch_enabled s \<longrightarrow> se_watch_monitor_only s"
    using all by (simp_all add: production_checks_def)
  have "get_admin_verifier s \<noteq> None" using a(3,4) by (auto simp: get_admin_verifier_def given_text_def)
  moreover have "\<forall>k \<in> set (configured_secrets s). 32 \<le> length k \<and> \<not> startswith k ''development-'' \<and> \<not> startswith k ''replace-with-''"
    using a(1) by (auto simp: list_ex_iff weak_secret_def not_less)
  ultimately show ?thesis using a(2,5-7) secrets_taken [OF r] by simp
qed

definition demo_production :: settings where
  "demo_production = default_settings\<lparr>se_environment := ''Production'', se_audit_signing_key := ''a'' @ replicate 40 CHR ''k'',
     se_token_signing_key := ''t'' @ replicate 40 CHR ''k'', se_data_encryption_key := ''d'' @ replicate 40 CHR ''k'',
     se_admin_token_file := Some ''/run/secrets/admin'', se_admin_auth_mode := ''oidc'', se_oidc_issuer := Some ''https://i'',
     se_oidc_audience := Some ''a'', se_oidc_jwks_url := Some ''https://i/jwks'', se_console_public_url := ''https://c'',
     se_database_url := Some ''postgresql://db''\<rparr>"

definition demo_files :: files where
  "demo_files = \<lparr>fs_content = (\<lambda>p. if p = ''/run/secrets/admin'' then Some (replicate 32 CHR ''m'' @ '' '') else None),
     fs_is_file = (\<lambda>_. False), fs_is_dir = (\<lambda>_. False)\<rparr>"

theorem production_is_hardened_witness:
  "\<exists>s. get_settings demo_files demo_production = Inr s \<and> is_production s \<and> se_admin_token s = replicate 32 CHR ''m''
     \<and> get_admin_verifier s \<noteq> None"
proof -
  let ?s = "demo_production\<lparr>se_admin_token := replicate 32 CHR ''m''\<rparr>"
  have p: "get_settings demo_files demo_production = Inr ?s" "is_production ?s" by code_simp+
  from production_is_hardened [OF p] p show ?thesis by (intro exI [of _ ?s]) simp
qed

end
