(* ===== verification/Knowledge.thy ===== *)
theory Knowledge
  imports Executor
begin

text \<open>
  The knowledge base of \<^verbatim>\<open>knowledge.py\<close>, the search behind the tool \<^verbatim>\<open>search_knowledge\<close>: reading the
  documents with their metadata, scoring them against the terms of a query, and the labelled result.
  The directory is a parameter: at each invocation either no directory or its entries in the order
  in which the code visits them, with what reading each of them gives.
\<close>

section \<open>Documents\<close>

record knowledge_document =
  kd_source :: string
  kd_title :: string
  kd_content :: string
  kd_classification :: data_classification
  kd_trust :: trust_level
  kd_labels :: "string list"

text \<open>An entry: its name, the resolved path below the root if it is inside, its size and its text if readable.\<close>

record knowledge_entry =
  ke_name :: string
  ke_symlink :: bool
  ke_inside :: "string option"
  ke_stem :: string
  ke_size :: nat
  ke_text :: "string option"

record knowledge_base =
  kb_entries :: "nat \<Rightarrow> knowledge_entry list option"
  kb_max_file_bytes :: nat

definition new_knowledge_base :: "(nat \<Rightarrow> knowledge_entry list option) \<Rightarrow> knowledge_base" where
  "new_knowledge_base entries = \<lparr>kb_entries = entries, kb_max_file_bytes = 256000\<rparr>"

text \<open>\<^verbatim>\<open>path.suffix\<close>: from the last dot of the name, unless that is its first or its last character.\<close>

definition suffix_of :: "string \<Rightarrow> string" where
  "suffix_of name = (let tail = takeWhile (\<lambda>c. c \<noteq> CHR ''.'') (rev name); rest = dropWhile (\<lambda>c. c \<noteq> CHR ''.'') (rev name)
     in if tail = [] \<or> length rest \<le> 1 then [] else ''.'' @ rev tail)"

text \<open>\<^verbatim>\<open>line.partition(":")\<close> with the separator found; later lines replace earlier ones of the same key.\<close>

definition metadata_line :: "string \<Rightarrow> (string \<times> string) option" where
  "metadata_line l = (if CHR '':'' \<in> set l
     then Some (casefold (str_strip (takeWhile (\<lambda>c. c \<noteq> CHR '':'') l)), str_strip (tl (dropWhile (\<lambda>c. c \<noteq> CHR '':'') l)))
     else None)"

definition parse_document :: "string \<Rightarrow> (string, string) dict \<times> string" where
  "parse_document raw =
     (let open' = ''---'' @ [CHR 0x0A]; close = [CHR 0x0A] @ ''---'' @ [CHR 0x0A] in
      if \<not> startswith raw open' then ([], raw)
      else case str_find (drop 4 raw) close of
        None \<Rightarrow> ([], raw)
      | Some i \<Rightarrow> (dict_of (List.map_filter metadata_line (splitlines (take i (drop 4 raw)))) [], drop (4 + i + 5) raw))"

definition declared_labels :: "(string, string) dict \<Rightarrow> string list" where
  "declared_labels metadata = remdups (map (\<lambda>l. casefold (str_strip l))
     (filter (\<lambda>l. str_strip l \<noteq> []) (str_split CHR '','' (dget metadata ''labels'' []))))"

text \<open>\<^verbatim>\<open>title()\<close>: the first letter of every run of letters is a capital.\<close>

definition is_letter :: "char \<Rightarrow> bool" where
  "is_letter c \<longleftrightarrow> is_alnum c \<and> \<not> is_digit c"

fun title_from :: "bool \<Rightarrow> string \<Rightarrow> string" where
  "title_from inside [] = []"
| "title_from inside (c # s) = (if inside then fold_char c else hd (upper [c])) # title_from (is_letter c) s"

definition default_title :: "string \<Rightarrow> string" where
  "default_title stem = title_from False (str_replace ''-'' '' '' stem)"

text \<open>Metadata that declare no valid classification, trust or labels give the strongest restrictions.\<close>

definition restrictions :: "(string, string) dict \<Rightarrow> data_classification \<times> trust_level \<times> string list" where
  "restrictions metadata =
     (let (c, t) = (case (classification_of (casefold (dget metadata ''classification'' ''internal'')),
                          trust_of (casefold (dget metadata ''trust'' ''mixed''))) of
             (Some c, Some t) \<Rightarrow> (c, t)
           | _ \<Rightarrow> (RESTRICTED, UNTRUSTED));
          labels = declared_labels metadata
      in if list_all taint_label_ok labels then (c, t, labels) else (RESTRICTED, UNTRUSTED, [''invalid_connector_metadata'']))"

definition document_of :: "knowledge_base \<Rightarrow> knowledge_entry \<Rightarrow> knowledge_document option" where
  "document_of kb e =
     (if casefold (suffix_of (ke_name e)) \<notin> {''.md'', ''.txt''} \<or> ke_symlink e then None
      else case (ke_inside e, ke_text e) of
        (Some path, Some raw) \<Rightarrow>
          if kb_max_file_bytes kb < ke_size e then None
          else let (metadata, content) = parse_document raw; (c, t, labels) = restrictions metadata
            in Some \<lparr>kd_source = path, kd_title = dget metadata ''title'' (default_title (ke_stem e)), kd_content = content,
                 kd_classification = c, kd_trust = t, kd_labels = labels\<rparr>
      | _ \<Rightarrow> None)"

definition documents :: "knowledge_base \<Rightarrow> nat \<Rightarrow> knowledge_document list" where
  "documents kb n = (case kb_entries kb n of None \<Rightarrow> [] | Some es \<Rightarrow> List.map_filter (document_of kb) es)"

section \<open>Search\<close>

text \<open>\<^verbatim>\<open>re.findall(r"[a-zA-Z0-9_-]+", query)\<close>: the runs of such characters.\<close>

definition term_char :: "char \<Rightarrow> bool" where
  "term_char c \<longleftrightarrow> is_alnum c \<or> c \<in> set ''_-''"

definition terms_of :: "string \<Rightarrow> string list" where
  "terms_of q = remdups (map casefold (filter (\<lambda>t. t \<noteq> [])
     (str_split CHR '' '' (map (\<lambda>c. if term_char c then c else CHR '' '') q))))"

text \<open>\<^verbatim>\<open>s.count(t)\<close> for a nonempty \<open>t\<close>: occurrences that do not overlap.\<close>

function count_in :: "string \<Rightarrow> string \<Rightarrow> nat" where
  "count_in t [] = 0"
| "count_in t (c # s) = (if t \<noteq> [] \<and> startswith (c # s) t then Suc (count_in t (drop (length t) (c # s))) else count_in t s)"
  by pat_completeness auto
termination by (relation "measure (\<lambda>(t, s). length s)") auto

definition score :: "string list \<Rightarrow> knowledge_document \<Rightarrow> nat" where
  "score ts d = (let haystack = casefold (kd_title d @ [CHR 0x0A] @ kd_content d) in sum_list (map (\<lambda>t. count_in t haystack) ts))"

definition selected :: "string list \<Rightarrow> knowledge_document list \<Rightarrow> knowledge_document list" where
  "selected ts ds = take 5 (sort_key (\<lambda>d. (- int (score ts d), kd_source d)) (filter (\<lambda>d. score ts d \<noteq> 0) ds))"

text \<open>\<^verbatim>\<open>split()\<close>: the words between white space. The mark of an abridged text is written in UTF-8.\<close>

definition words :: "string \<Rightarrow> string list" where
  "words s = filter (\<lambda>p. p \<noteq> []) (str_split CHR '' '' (map (\<lambda>c. if is_space c then CHR '' '' else c) s))"

definition snippet :: "string \<Rightarrow> string list \<Rightarrow> string" where
  "snippet content ts =
     (let positions = List.map_filter (str_find (casefold content)) ts;
          start = (case positions of [] \<Rightarrow> 0 | p # ps \<Rightarrow> Min (set (p # ps))) - 120
      in str_join '' '' (words (take 800 (drop start content)))
         @ (if start + 800 < length content then [CHR 0xE2, CHR 0x80, CHR 0xA6] else []))"

definition found_labels :: "knowledge_document list \<Rightarrow> string list" where
  "found_labels ds = remdups (''knowledge_base'' # concat (map (\<lambda>d. kd_labels d @ [''classification:'' @ classification_value (kd_classification d)]
     @ (if injection_signals (kd_content d) \<noteq> [] then [''prompt_injection''] else [])) ds))"

text \<open>What a search shows of a document: no more than its source, title, classification and a snippet.\<close>

definition match_json :: "string list \<Rightarrow> knowledge_document \<Rightarrow> json" where
  "match_json ts d = JDict [(''source'', JStr (kd_source d)), (''title'', JStr (kd_title d)),
     (''classification'', JStr (classification_value (kd_classification d))), (''snippet'', JStr (snippet (kd_content d) ts))]"

definition search_result :: "string \<Rightarrow> knowledge_document list \<Rightarrow> tool_result" where
  "search_result q ds = (let ts = terms_of q; found = selected ts ds in
     \<lparr>tr_output = JDict [(''query'', JStr q), (''matches'', JList (map (match_json ts) found))],
      tr_classification = highest_classification (map kd_classification found), tr_labels = found_labels found,
      tr_trust = least_trusted (map kd_trust found), tr_sources = map kd_source found\<rparr>)"

definition search_knowledge :: "knowledge_base \<Rightarrow> handler" where
  "search_knowledge kb h args = ebind (key_of args ''query'') (\<lambda>q.
     Inr (Labelled (search_result (str_strip (py_str q)) (documents kb (length h)))))"

section \<open>Properties\<close>

lemma restrictions_valid: "list_all taint_label_ok (snd (snd (restrictions m)))"
proof -
  have "taint_label_ok ''invalid_connector_metadata''" by code_simp
  then show ?thesis by (auto simp: restrictions_def Let_def split: prod.split)
qed

lemma document_labels: "document_of kb e = Some d \<Longrightarrow> \<exists>m. kd_labels d = snd (snd (restrictions m))"
proof -
  assume d: "document_of kb e = Some d"
  then obtain path raw where io: "ke_inside e = Some path" "ke_text e = Some raw"
    by (auto simp: document_of_def split: option.splits if_splits)
  obtain m content where p: "parse_document raw = (m, content)" by fastforce
  obtain c t labels where r: "restrictions m = (c, t, labels)" by (cases "restrictions m") auto
  have "kd_labels d = labels" using d io p r by (auto simp: document_of_def Let_def split: if_splits)
  then show ?thesis using r by (intro exI [of _ m]) simp
qed

lemma documents_valid: "d \<in> set (documents kb n) \<Longrightarrow> list_all taint_label_ok (kd_labels d)"
  using document_labels restrictions_valid by (fastforce simp: documents_def map_filter_def)

lemma found_valid: "\<forall>d \<in> set ds. list_all taint_label_ok (kd_labels d) \<Longrightarrow> list_all taint_label_ok (found_labels ds)"
proof -
  have "taint_label_ok ''knowledge_base''" "taint_label_ok ''prompt_injection''" by code_simp+
  moreover have "\<forall>c \<in> {PUBLIC, INTERNAL, CONFIDENTIAL, RESTRICTED}. taint_label_ok (''classification:'' @ classification_value c)" by code_simp
  then have "taint_label_ok (''classification:'' @ classification_value c)" for c by (cases c) simp_all
  ultimately show "\<forall>d \<in> set ds. list_all taint_label_ok (kd_labels d) \<Longrightarrow> list_all taint_label_ok (found_labels ds)"
    by (auto simp: found_labels_def list_all_iff split: if_splits)
qed

lemma selected_best:
  assumes "d \<in> set ds" "score ts d \<noteq> 0" "d \<notin> set (selected ts ds)" "f \<in> set (selected ts ds)"
  shows "score ts d \<le> score ts f"
proof -
  let ?k = "\<lambda>d. (- int (score ts d), kd_source d)" let ?s = "sort_key ?k (filter (\<lambda>d. score ts d \<noteq> 0) ds)"
  have "sorted (map ?k ?s)" by simp
  moreover have "d \<in> set (drop 5 ?s)"
    using assms(1-3) set_append [of "take 5 ?s" "drop 5 ?s"] by (auto simp: selected_def simp del: set_append)
  ultimately have "?k f \<le> ?k d" using assms(4)
    by (subst (asm) append_take_drop_id [symmetric, of _ 5]) (auto simp: sorted_append selected_def simp del: append_take_drop_id)
  then show ?thesis by (auto simp: less_eq_prod_def)
qed

lemma selected_props:
  "length (selected ts ds) \<le> 5" "set (selected ts ds) \<subseteq> set ds" "d \<in> set (selected ts ds) \<Longrightarrow> score ts d \<noteq> 0"
  "sorted (map (\<lambda>d. (- int (score ts d), kd_source d)) (selected ts ds))"
proof -
  let ?k = "\<lambda>d. (- int (score ts d), kd_source d)"
  have "sorted (map ?k (sort_key ?k (filter (\<lambda>d. score ts d \<noteq> 0) ds)))" by simp
  then have "sorted (take 5 (map ?k (sort_key ?k (filter (\<lambda>d. score ts d \<noteq> 0) ds))))" by (rule sorted_wrt_take)
  then show "sorted (map ?k (selected ts ds))" by (simp only: selected_def take_map)
  show "set (selected ts ds) \<subseteq> set ds" "d \<in> set (selected ts ds) \<Longrightarrow> score ts d \<noteq> 0"
    using set_take_subset by (force simp: selected_def)+
qed (simp add: selected_def)

text \<open>
  C23. A search of the knowledge base shows the best documents for its query and never loosens their
  restrictions. For the query asked, stripped of white space, it finds at most five documents, the
  ones with a nonzero score, best first and by name at equal scores, and no document left out scores
  higher. Its output is the query and, for exactly the found documents and in this order, their
  source, title, classification and snippet. The result is at least as classified and as distrusted
  as each found document, carries the labels of each, and the mark of an injection when the text of
  one has the signals of one; all its labels are valid.
\<close>

theorem search_restricts:
  assumes "search_knowledge kb h args = Inr (Labelled r)" and "key_of args ''query'' = Inr v"
    and "q = str_strip (py_str v)" and "found = selected (terms_of q) (documents kb (length h))"
  shows "length found \<le> 5 \<and> set found \<subseteq> set (documents kb (length h))
    \<and> sorted (map (\<lambda>d. (- int (score (terms_of q) d), kd_source d)) found) \<and> (\<forall>d \<in> set found. score (terms_of q) d \<noteq> 0)
    \<and> (\<forall>d \<in> set (documents kb (length h)) - set found. score (terms_of q) d \<noteq> 0 \<longrightarrow> (\<forall>f \<in> set found. score (terms_of q) d \<le> score (terms_of q) f))
    \<and> tr_output r = JDict [(''query'', JStr q), (''matches'', JList (map (match_json (terms_of q)) found))]
    \<and> tr_sources r = map kd_source found \<and> list_all taint_label_ok (tr_labels r)
    \<and> (\<forall>d \<in> set found. kd_classification d \<le> tr_classification r \<and> kd_trust d \<le> tr_trust r \<and> set (kd_labels d) \<subseteq> set (tr_labels r)
         \<and> (injection_signals (kd_content d) \<noteq> [] \<longrightarrow> ''prompt_injection'' \<in> set (tr_labels r)))"
proof -
  have r: "r = search_result q (documents kb (length h))"
    using assms(1-3) by (simp add: search_knowledge_def)
  note sub = selected_props [where ts = "terms_of q" and ds = "documents kb (length h)", folded assms(4)]
  have "list_all taint_label_ok (tr_labels r)"
    unfolding r search_result_def Let_def tool_result.select_convs assms(4) [symmetric]
    by (intro found_valid ballI documents_valid) (use sub(2) in auto)
  moreover have "\<forall>d \<in> set found. kd_classification d \<le> tr_classification r \<and> kd_trust d \<le> tr_trust r \<and> set (kd_labels d) \<subseteq> set (tr_labels r)
      \<and> (injection_signals (kd_content d) \<noteq> [] \<longrightarrow> ''prompt_injection'' \<in> set (tr_labels r))"
    by (auto simp: r search_result_def Let_def found_labels_def highest_upper least_trusted_upper assms(4))
  moreover have "tr_output r = JDict [(''query'', JStr q), (''matches'', JList (map (match_json (terms_of q)) found))]"
    "tr_sources r = map kd_source found"
    by (simp_all add: r search_result_def Let_def assms(4))
  moreover have "\<forall>d \<in> set (documents kb (length h)) - set found. score (terms_of q) d \<noteq> 0 \<longrightarrow> (\<forall>f \<in> set found. score (terms_of q) d \<le> score (terms_of q) f)"
    using selected_best unfolding assms(4) by blast
  ultimately show ?thesis using sub by blast
qed

definition demo_base :: knowledge_base where
  "demo_base = \<lparr>kb_entries = (\<lambda>_. Some
     [\<lparr>ke_name = ''a.md'', ke_symlink = False, ke_inside = Some ''a.md'', ke_stem = ''a'', ke_size = 20,
       ke_text = Some (''---'' @ [CHR 0x0A] @ ''classification: secret'' @ [CHR 0x0A] @ ''---'' @ [CHR 0x0A] @ ''backup plan'')\<rparr>,
      \<lparr>ke_name = ''b.txt'', ke_symlink = False, ke_inside = Some ''b.txt'', ke_stem = ''b'', ke_size = 5, ke_text = Some ''lunch''\<rparr>]),
     kb_max_file_bytes = 50\<rparr>"

lemma demo_selected:
  "map (\<lambda>d. (kd_source d, kd_classification d, kd_trust d, kd_labels d)) (selected (terms_of ''backup'') (documents demo_base 0))
   = [(''a.md'', RESTRICTED, UNTRUSTED, [])]"
  by code_simp

theorem search_restricts_witness:
  "\<exists>r m. search_knowledge demo_base [] [(''query'', JStr '' backup'')] = Inr (Labelled r)
     \<and> tr_output r = JDict [(''query'', JStr ''backup''), (''matches'', JList [m])] \<and> tr_sources r = [''a.md'']
     \<and> RESTRICTED \<le> tr_classification r \<and> UNTRUSTED \<le> tr_trust r \<and> list_all taint_label_ok (tr_labels r)"
proof -
  let ?r = "search_result ''backup'' (documents demo_base 0)"
  have q: "str_strip (py_str (JStr '' backup'')) = ''backup''" by code_simp
  have s: "search_knowledge demo_base [] [(''query'', JStr '' backup'')] = Inr (Labelled ?r)"
    by (simp add: search_knowledge_def key_of_def q)
  obtain d where d: "selected (terms_of ''backup'') (documents demo_base 0) = [d]" "kd_source d = ''a.md''"
      "kd_classification d = RESTRICTED" "kd_trust d = UNTRUSTED"
    using demo_selected by auto
  have k: "key_of [(''query'', JStr '' backup'')] ''query'' = Inr (JStr '' backup'')" by (simp add: key_of_def)
  have f: "[d] = selected (terms_of ''backup'') (documents demo_base (length ([] :: (string \<times> (string, json) dict) list)))" by (simp add: d(1))
  from search_restricts [OF s k q [symmetric] f] s d(2-) show ?thesis by auto
qed

end
