(* ===== verification/Url.thy ===== *)
theory Url
  imports Pystr
begin

text \<open>
  Quoting for URLs, of bytes: \<^verbatim>\<open>quote\<close> with the characters that it keeps, \<^verbatim>\<open>quote_plus\<close> and
  \<^verbatim>\<open>urlencode\<close>.
\<close>

definition url_safe :: "char \<Rightarrow> bool" where
  "url_safe c \<longleftrightarrow> is_alnum c \<or> c \<in> set ''_.-~''"

definition percent :: "char \<Rightarrow> string" where
  "percent c = (let n = of_char c :: nat; d = (\<lambda>k. if k < 10 then char_of (48 + k) else char_of (55 + k :: nat))
     in [CHR ''%'', d (n div 16), d (n mod 16)])"

definition url_quote :: "string \<Rightarrow> string \<Rightarrow> string" where
  "url_quote keep s = concat (map (\<lambda>c. if url_safe c \<or> c \<in> set keep then [c] else percent c) s)"

definition url_quote_plus :: "string \<Rightarrow> string" where
  "url_quote_plus s = concat (map (\<lambda>c. if url_safe c then [c] else if c = CHR '' '' then ''+'' else percent c) s)"

definition urlencode :: "(string \<times> string) list \<Rightarrow> string" where
  "urlencode kvs = str_join ''&'' (map (\<lambda>(k, v). url_quote_plus k @ ''='' @ url_quote_plus v) kvs)"

end
