(* ===== verification/Github_Client.thy ===== *)
theory Github_Client
  imports Executor Store_Approvals Url
begin

text \<open>
  The client of \<^verbatim>\<open>github_connector.py\<close>: the allow-list of repositories, the JSON web token of the
  app, the cache of installation tokens, and a request to the API. The client keeps its cached
  tokens, the requests sent and the readings of the clock; what the network answers, the key file
  with its signature and \<^verbatim>\<open>datetime.fromisoformat\<close> are parameters. The lemmas follow every token:
  it is sent only with requests for the repository and the permissions it was minted for.
\<close>

section \<open>Requests\<close>

record http_request =
  hq_method :: string
  hq_path :: string
  hq_headers :: "(string \<times> string) list"
  hq_json :: "json option"
  hq_params :: "(string, json) dict"

text \<open>No answer, or a status with the request id of the server and the JSON value of the body.\<close>

datatype http_answer = No_Answer | Answer nat "string option" "json option"

datatype key_file = Unloadable | Not_Rsa | Rsa_Key "string \<Rightarrow> string"

type_synonym permissions = "(string, string) dict"

record github_client =
  gc_app_id :: "string option"
  gc_installation :: "int option"
  gc_key_path :: "string option"
  gc_allowed :: "string list"
  gc_key_file :: "string \<Rightarrow> key_file"
  gc_http :: "http_request list \<Rightarrow> http_request \<Rightarrow> http_answer"
  gc_clock :: "nat \<Rightarrow> time"
  gc_read_time :: "json \<Rightarrow> time option"

record github_state =
  gs_tokens :: "(string \<times> permissions, string \<times> time) dict"
  gs_sent :: "http_request list"
  gs_ticks :: nat

definition new_github_state :: github_state where
  "new_github_state = \<lparr>gs_tokens = [], gs_sent = [], gs_ticks = 0\<rparr>"

definition allow_repositories :: "string list \<Rightarrow> string list" where
  "allow_repositories rs = map casefold (filter (\<lambda>r. r \<noteq> []) rs)"

type_synonym 'a gh = "github_state \<Rightarrow> (exc + 'a) \<times> github_state"

definition gh_ret :: "'a \<Rightarrow> 'a gh" where
  "gh_ret x = (\<lambda>s. (Inr x, s))"

definition gh_fail :: "exc \<Rightarrow> 'a gh" where
  "gh_fail e = (\<lambda>s. (Inl e, s))"

definition gh_lift :: "exc + 'a \<Rightarrow> 'a gh" where
  "gh_lift r = (\<lambda>s. (r, s))"

definition gh_then :: "'a gh \<Rightarrow> ('a \<Rightarrow> 'b gh) \<Rightarrow> 'b gh" where
  "gh_then m f = (\<lambda>s. case m s of (Inl e, s') \<Rightarrow> (Inl e, s') | (Inr x, s') \<Rightarrow> f x s')"

definition gh_now :: "github_client \<Rightarrow> time gh" where
  "gh_now c = (\<lambda>s. (Inr (gc_clock c (gs_ticks s)), s\<lparr>gs_ticks := Suc (gs_ticks s)\<rparr>))"

definition gh_send :: "github_client \<Rightarrow> http_request \<Rightarrow> http_answer gh" where
  "gh_send c q = (\<lambda>s. (Inr (gc_http c (gs_sent s) q), s\<lparr>gs_sent := gs_sent s @ [q]\<rparr>))"

section \<open>Credentials\<close>

definition GITHUB_API_VERSION :: string where
  "GITHUB_API_VERSION = ''2026-03-10''"

definition github_headers :: "string \<Rightarrow> (string \<times> string) list" where
  "github_headers token = [(''Accept'', ''application/vnd.github+json''), (''Authorization'', ''Bearer '' @ token),
     (''X-GitHub-Api-Version'', GITHUB_API_VERSION), (''User-Agent'', ''SentinelGate/0.7'')]"

definition configured :: "github_client \<Rightarrow> bool" where
  "configured c \<longleftrightarrow> nonempty (gc_app_id c) \<noteq> None \<and> gc_installation c \<notin> {None, Some 0} \<and> gc_key_path c \<noteq> None"

definition full_name :: "string \<Rightarrow> string \<Rightarrow> string" where
  "full_name owner repo = casefold (owner @ ''/'' @ repo)"

definition assert_repository :: "github_client \<Rightarrow> string \<Rightarrow> string \<Rightarrow> exc + unit" where
  "assert_repository c owner repo =
     (if gc_allowed c = [] then Inl (ToolExecutionError ''GitHub repository allowlist is empty'')
      else if full_name owner repo \<notin> set (gc_allowed c) then
        Inl (ToolExecutionError ''Repository is outside the SentinelGate allowlist'')
      else if \<not> configured c then Inl (ToolExecutionError ''GitHub App connector is not configured'')
      else Inr ())"

definition b64_json :: "(string, json) dict \<Rightarrow> string" where
  "b64_json d = encode (dumps True (JDict d))"

definition app_jwt :: "github_client \<Rightarrow> string gh" where
  "app_jwt c = (case gc_key_path c of
      None \<Rightarrow> gh_fail (ToolExecutionError ''GitHub App private key is not configured'')
    | Some path \<Rightarrow> (case gc_key_file c path of
        Unloadable \<Rightarrow> gh_fail (ToolExecutionError ''Cannot load GitHub App private key'')
      | Not_Rsa \<Rightarrow> gh_fail (ToolExecutionError ''GitHub App private key must be RSA'')
      | Rsa_Key sign \<Rightarrow> gh_then (gh_now c) (\<lambda>t.
          let now = whole_seconds t;
              signing_input = b64_json [(''alg'', JStr ''RS256''), (''typ'', JStr ''JWT'')] @ ''.''
                @ b64_json [(''iat'', JInt (now - 60)), (''exp'', JInt (now + 540)), (''iss'', jopt (gc_app_id c))]
          in gh_ret (signing_input @ ''.'' @ encode (sign signing_input)))))"

section \<open>Installation tokens\<close>

definition mint_request :: "github_client \<Rightarrow> string \<Rightarrow> string \<Rightarrow> permissions \<Rightarrow> http_request" where
  "mint_request c jwt repo permissions = \<lparr>hq_method = ''POST'',
     hq_path = ''/app/installations/'' @ (case gc_installation c of None \<Rightarrow> ''None'' | Some n \<Rightarrow> show_int n) @ ''/access_tokens'',
     hq_headers = github_headers jwt,
     hq_json = Some (JDict [(''repositories'', jstrs [repo]), (''permissions'', JDict (map (\<lambda>(k, v). (k, JStr v)) permissions))]),
     hq_params = []\<rparr>"

text \<open>
  An answer that is no JSON raises outside the handler of malformed tokens; within it every value
  that lacks the two entries, or whose expiry is no time, is a malformed token.
\<close>

definition minted :: "github_client \<Rightarrow> json option \<Rightarrow> exc + string \<times> time" where
  "minted c body = (case body of
      None \<Rightarrow> Inl (ValueError ''Expecting value'')
    | Some j \<Rightarrow> (case Option.bind (as_dict j) (\<lambda>d. Option.bind (map_of d ''token'') (\<lambda>t.
            Option.bind (Option.bind (map_of d ''expires_at'') (gc_read_time c)) (\<lambda>e. Some (py_str t, e)))) of
        None \<Rightarrow> Inl (ToolExecutionError ''GitHub returned a malformed installation token'')
      | Some r \<Rightarrow> Inr r))"

definition token_key :: "string \<Rightarrow> permissions \<Rightarrow> string \<times> permissions" where
  "token_key repo permissions = (casefold repo, sort permissions)"

definition mint :: "github_client \<Rightarrow> string \<Rightarrow> permissions \<Rightarrow> string gh" where
  "mint c repo permissions =
     gh_then (app_jwt c) (\<lambda>jwt. gh_then (gh_send c (mint_request c jwt repo permissions)) (\<lambda>answer. case answer of
       No_Answer \<Rightarrow> gh_fail (ToolExecutionError ''Could not mint GitHub installation token'')
     | Answer status _ body \<Rightarrow>
         if 400 \<le> status then gh_fail (ToolExecutionError (''GitHub installation token request returned '' @ show_nat status))
         else gh_then (gh_lift (minted c body)) (\<lambda>(token, expiry). (\<lambda>s.
           (Inr token, s\<lparr>gs_tokens := AList.update (token_key repo permissions) (token, expiry) (gs_tokens s)\<rparr>)))))"

definition installation_token :: "github_client \<Rightarrow> string \<Rightarrow> permissions \<Rightarrow> string gh" where
  "installation_token c repo permissions = (\<lambda>s.
     case map_of (gs_tokens s) (token_key repo permissions) of
       None \<Rightarrow> mint c repo permissions s
     | Some (token, expiry) \<Rightarrow> gh_then (gh_now c) (\<lambda>now.
         if now + seconds 120 < expiry then gh_ret token else mint c repo permissions) s)"

section \<open>A request\<close>

definition api_call :: "string \<Rightarrow> string \<Rightarrow> string \<Rightarrow> json option \<Rightarrow> (string, json) dict \<Rightarrow> http_request" where
  "api_call method path token body params =
     \<lparr>hq_method = method, hq_path = path, hq_headers = github_headers token, hq_json = body, hq_params = params\<rparr>"

definition api_answer :: "http_answer \<Rightarrow> exc + json" where
  "api_answer answer = (case answer of
      No_Answer \<Rightarrow> Inl (ToolExecutionError ''GitHub API request failed'')
    | Answer status request_id body \<Rightarrow>
        if 400 \<le> status then Inl (ToolExecutionError (''GitHub API returned '' @ show_nat status @ '' (request ''
          @ opt request_id ''unknown'' @ '')''))
        else (case body of None \<Rightarrow> Inl (ToolExecutionError ''GitHub API returned invalid JSON'') | Some j \<Rightarrow> Inr j))"

definition github_request :: "github_client \<Rightarrow> string \<Rightarrow> string \<Rightarrow> string \<Rightarrow> string \<Rightarrow> permissions \<Rightarrow> json option \<Rightarrow>
    (string, json) dict \<Rightarrow> json gh" where
  "github_request c method path owner repo permissions body params =
     gh_then (gh_lift (assert_repository c owner repo)) (\<lambda>_.
     gh_then (installation_token c repo permissions) (\<lambda>token.
     gh_then (gh_send c (api_call method path token body params)) (\<lambda>answer. gh_lift (api_answer answer))))"

text \<open>
  What a client meets: the key files, the network, the clock and the reading of times. A process
  makes several clients, numbered; the network may answer each of them differently.
\<close>

record github_network =
  gn_key_file :: "string \<Rightarrow> key_file"
  gn_http :: "nat \<Rightarrow> http_request list \<Rightarrow> http_request \<Rightarrow> http_answer"
  gn_clock :: "nat \<Rightarrow> nat \<Rightarrow> time"
  gn_read_time :: "json \<Rightarrow> time option"

definition new_github_client :: "github_network \<Rightarrow> nat \<Rightarrow> string option \<Rightarrow> int option \<Rightarrow> string option \<Rightarrow> string list \<Rightarrow> github_client" where
  "new_github_client net n app installation key_path repositories =
     \<lparr>gc_app_id = app, gc_installation = installation, gc_key_path = key_path, gc_allowed = allow_repositories repositories,
      gc_key_file = gn_key_file net, gc_http = gn_http net n, gc_clock = gn_clock net n, gc_read_time = gn_read_time net\<rparr>"

text \<open>\<^verbatim>\<open>verify\<close>: reading the first repository of the allow-list.\<close>

definition truthy_entry :: "(string, json) dict \<Rightarrow> string \<Rightarrow> bool" where
  "truthy_entry d k \<longleftrightarrow> \<not> falsy (jget d k)"

definition verify_github :: "github_client \<Rightarrow> json gh" where
  "verify_github c = (case sort (gc_allowed c) of
      [] \<Rightarrow> gh_fail (ToolExecutionError ''GitHub repository allowlist is empty'')
    | first # _ \<Rightarrow>
        if CHR ''/'' \<notin> set first then gh_fail (ValueError ''not enough values to unpack (expected 2, got 1)'')
        else let owner = takeWhile (\<lambda>c. c \<noteq> CHR ''/'') first; repo = tl (dropWhile (\<lambda>c. c \<noteq> CHR ''/'') first)
        in gh_then (github_request c ''GET'' (''/repos/'' @ owner @ ''/'' @ repo) owner repo [(''contents'', ''read'')] None [])
          (\<lambda>payload. case as_dict payload of
             None \<Rightarrow> gh_fail (ToolExecutionError ''GitHub verification returned malformed repository data'')
           | Some d \<Rightarrow>
               if \<not> truthy_entry d ''full_name'' then
                 gh_fail (ToolExecutionError ''GitHub verification returned malformed repository data'')
               else gh_ret (JDict [(''status'', JStr ''verified''), (''repository'', JStr (py_str (jget d ''full_name''))),
                 (''private'', JBool (truthy_entry d ''private''))])))"

end
