(* ===== verification/Github_Tools.thy ===== *)
theory Github_Tools
  imports Github_Client
begin

text \<open>
  The tools of \<^verbatim>\<open>github_connector.py\<close>: their argument models with the validators of paths, refs and
  branches, the six operations over the client of \<open>Github_Client\<close>, and their registration. An
  operation is a function of its validated arguments and of the client's state; as a handler of the
  registry it finds the state that the earlier invocations left.
\<close>

section \<open>Arguments\<close>

definition name_ok :: "string \<Rightarrow> bool" where
  "name_ok s \<longleftrightarrow> 1 \<le> length s \<and> length s \<le> 100 \<and> list_all (\<lambda>c. is_alnum c \<or> c \<in> set ''_.-'') s"

definition branch_ok :: "string \<Rightarrow> bool" where
  "branch_ok s \<longleftrightarrow> 1 \<le> length s \<and> length s \<le> 200 \<and> list_all (\<lambda>c. is_alnum c \<or> c \<in> set ''._/-'') s"

definition sha_ok :: "string \<Rightarrow> bool" where
  "sha_ok s \<longleftrightarrow> length s = 40 \<and> list_all (\<lambda>c. is_digit c \<or> c \<in> set ''abcdefABCDEF'') s"

definition validated_branch :: "string \<Rightarrow> bool" where
  "validated_branch v \<longleftrightarrow> \<not> (startswith v ''/'' \<or> str_in ''..'' v \<or> str_in ''//'' v)"

definition secret_file :: "string \<Rightarrow> bool" where
  "secret_file basename \<longleftrightarrow> basename = ''.env'' \<or> startswith basename ''.env.'' \<or> endswith basename ''.pem'' \<or> endswith basename ''.key''"

definition path_parts :: "string \<Rightarrow> string list" where
  "path_parts v = str_split CHR ''/'' (str_replace [CHR 0x5C] ''/'' v)"

definition validated_path :: "string \<Rightarrow> bool" where
  "validated_path v \<longleftrightarrow> \<not> (startswith v ''/'' \<or> startswith v [CHR 0x5C] \<or> list_ex (\<lambda>p. p \<in> {'''', ''.'', ''..''}) (path_parts v))
     \<and> \<not> secret_file (casefold (last (path_parts v)))"

definition workflow_path :: "string \<Rightarrow> bool" where
  "workflow_path v \<longleftrightarrow> startswith (casefold v) ''.github/workflows/''"

definition protected_branch :: "string \<Rightarrow> bool" where
  "protected_branch v \<longleftrightarrow> casefold v \<in> {''main'', ''master''}"

text \<open>No other fields than those of the model; a field that is left out takes its default.\<close>

definition only_fields :: "string list \<Rightarrow> (string, json) dict \<Rightarrow> bool" where
  "only_fields ks d \<longleftrightarrow> set (map fst d) \<subseteq> set ks"

definition text_field :: "(string, json) dict \<Rightarrow> string \<Rightarrow> (string \<Rightarrow> bool) \<Rightarrow> string option \<Rightarrow> string option" where
  "text_field d k ok fallback = (case map_of d k of
      None \<Rightarrow> fallback
    | Some j \<Rightarrow> (case as_str j of Some s \<Rightarrow> if ok s then Some s else None | None \<Rightarrow> None))"

definition bounded :: "nat \<Rightarrow> nat \<Rightarrow> string \<Rightarrow> bool" where
  "bounded lo hi s \<longleftrightarrow> lo \<le> length s \<and> length s \<le> hi"

definition repository_arguments :: "(string, json) dict \<Rightarrow> (string, json) dict option" where
  "repository_arguments d = (case (text_field d ''owner'' name_ok None, text_field d ''repo'' name_ok None) of
      (Some owner, Some repo) \<Rightarrow> Some [(''owner'', JStr owner), (''repo'', JStr repo)]
    | _ \<Rightarrow> None)"

definition with_fields :: "(string, json) dict option \<Rightarrow> (string \<times> json option) list \<Rightarrow> (string, json) dict option" where
  "with_fields base fs = (case (base, collect (\<lambda>(k, v). map_option (\<lambda>j. (k, j)) v) fs) of
      (Some d, Some e) \<Rightarrow> Some (d @ e)
    | _ \<Rightarrow> None)"

definition issue_number :: "(string, json) dict \<Rightarrow> json option" where
  "issue_number d = (case map_of d ''issue_number'' of Some (JInt i) \<Rightarrow> if 1 \<le> i then Some (JInt i) else None | _ \<Rightarrow> None)"

definition issue_arguments :: "(string, json) dict \<Rightarrow> (string, json) dict option" where
  "issue_arguments d = (if only_fields [''owner'', ''repo'', ''issue_number''] d
     then with_fields (repository_arguments d) [(''issue_number'', issue_number d)] else None)"

definition read_file_arguments :: "(string, json) dict \<Rightarrow> (string, json) dict option" where
  "read_file_arguments d = (if only_fields [''owner'', ''repo'', ''path'', ''ref''] d
     then with_fields (repository_arguments d)
       [(''path'', map_option JStr (text_field d ''path'' (\<lambda>p. bounded 1 500 p \<and> validated_path p) None)),
        (''ref'', map_option JStr (text_field d ''ref'' (\<lambda>r. branch_ok r \<and> validated_branch r) (Some ''main'')))] else None)"

definition comment_arguments :: "(string, json) dict \<Rightarrow> (string, json) dict option" where
  "comment_arguments d = (if only_fields [''owner'', ''repo'', ''issue_number'', ''body''] d
     then with_fields (repository_arguments d) [(''issue_number'', issue_number d),
       (''body'', map_option JStr (text_field d ''body'' (bounded 1 10000) None))] else None)"

definition create_branch_arguments :: "(string, json) dict \<Rightarrow> (string, json) dict option" where
  "create_branch_arguments d = (if only_fields [''owner'', ''repo'', ''branch'', ''from_ref''] d
     then with_fields (repository_arguments d)
       [(''branch'', map_option JStr (text_field d ''branch'' (\<lambda>b. branch_ok b \<and> validated_branch b \<and> \<not> protected_branch b) None)),
        (''from_ref'', map_option JStr (text_field d ''from_ref'' (\<lambda>b. branch_ok b \<and> validated_branch b) (Some ''main'')))] else None)"

definition draft_field :: "(string, json) dict \<Rightarrow> json option" where
  "draft_field d = (case map_of d ''draft'' of None \<Rightarrow> Some (JBool True) | Some (JBool b) \<Rightarrow> Some (JBool b) | Some _ \<Rightarrow> None)"

definition pull_request_arguments :: "(string, json) dict \<Rightarrow> (string, json) dict option" where
  "pull_request_arguments d = (if only_fields [''owner'', ''repo'', ''title'', ''body'', ''head'', ''base'', ''draft''] d
     then with_fields (repository_arguments d)
       [(''title'', map_option JStr (text_field d ''title'' (bounded 1 256) None)),
        (''body'', map_option JStr (text_field d ''body'' (bounded 0 20000) (Some ''''))),
        (''head'', map_option JStr (text_field d ''head'' (\<lambda>b. branch_ok b \<and> validated_branch b \<and> \<not> protected_branch b) None)),
        (''base'', map_option JStr (text_field d ''base'' (\<lambda>b. branch_ok b \<and> validated_branch b) (Some ''main''))),
        (''draft'', draft_field d)] else None)"

definition sha_field :: "(string, json) dict \<Rightarrow> json option" where
  "sha_field d = (case map_of d ''sha'' of None \<Rightarrow> Some JNull | Some JNull \<Rightarrow> Some JNull
     | Some (JStr s) \<Rightarrow> if sha_ok s then Some (JStr s) else None | Some _ \<Rightarrow> None)"

definition update_file_arguments :: "(string, json) dict \<Rightarrow> (string, json) dict option" where
  "update_file_arguments d = (if only_fields [''owner'', ''repo'', ''path'', ''content'', ''message'', ''branch'', ''sha''] d
     then with_fields (repository_arguments d)
       [(''path'', map_option JStr (text_field d ''path'' (\<lambda>p. bounded 1 500 p \<and> validated_path p \<and> \<not> workflow_path p) None)),
        (''content'', map_option JStr (text_field d ''content'' (bounded 0 256000) None)),
        (''message'', map_option JStr (text_field d ''message'' (bounded 1 200) None)),
        (''branch'', map_option JStr (text_field d ''branch'' (\<lambda>b. branch_ok b \<and> validated_branch b \<and> \<not> protected_branch b) None)),
        (''sha'', sha_field d)] else None)"

section \<open>Operations\<close>

text \<open>\<^verbatim>\<open>args[k]\<close> raises when the key is missing; in a text the value is formatted.\<close>

definition needing :: "string list \<Rightarrow> (string, json) dict \<Rightarrow> 'a gh \<Rightarrow> 'a gh" where
  "needing ks args m = (case find (\<lambda>k. map_of args k = None) ks of Some k \<Rightarrow> gh_fail (KeyError k) | None \<Rightarrow> m)"

abbreviation arg :: "(string, json) dict \<Rightarrow> string \<Rightarrow> string" where
  "arg args k \<equiv> py_str (jget args k)"

definition repo_path :: "(string, json) dict \<Rightarrow> string" where
  "repo_path args = ''/repos/'' @ arg args ''owner'' @ ''/'' @ arg args ''repo''"

definition source_of :: "(string, json) dict \<Rightarrow> string \<Rightarrow> string" where
  "source_of args detail = ''github:'' @ arg args ''owner'' @ ''/'' @ arg args ''repo'' @ '':'' @ detail"

text \<open>\<^verbatim>\<open>item.get(...)\<close>: the answer must be an object, and so must a part of it that is looked into.\<close>

definition object :: "json \<Rightarrow> (string, json) dict gh" where
  "object j = gh_lift (case as_dict j of None \<Rightarrow> Inl (AttributeError ''get'') | Some d \<Rightarrow> Inr d)"

definition part :: "(string, json) dict \<Rightarrow> string \<Rightarrow> (string, json) dict gh" where
  "part d k = object (or_else (jget d k) (JDict []))"

definition call_api :: "github_client \<Rightarrow> string \<Rightarrow> string \<Rightarrow> (string, json) dict \<Rightarrow> permissions \<Rightarrow> json option \<Rightarrow> (string, json) dict \<Rightarrow>
    (string, json) dict gh" where
  "call_api c method rest args permissions body params =
     gh_then (github_request c method (repo_path args @ rest) (arg args ''owner'') (arg args ''repo'') permissions body params) object"

definition written :: "json \<Rightarrow> data_classification \<Rightarrow> string list \<Rightarrow> string \<Rightarrow> tool_result" where
  "written output classification labels source =
     \<lparr>tr_output = output, tr_classification = classification, tr_labels = labels, tr_trust = TRUSTED, tr_sources = [source]\<rparr>"

definition get_issue :: "github_client \<Rightarrow> (string, json) dict \<Rightarrow> tool_result gh" where
  "get_issue c args = needing [''owner'', ''repo'', ''issue_number''] args
     (gh_then (call_api c ''GET'' (''/issues/'' @ arg args ''issue_number'') args [(''issues'', ''read'')] None []) (\<lambda>item.
      gh_then (part item ''user'') (\<lambda>user. gh_ret
        \<lparr>tr_output = JDict [(''number'', jget item ''number''), (''title'', dget item ''title'' (JStr [])),
           (''body'', JStr (take 50000 (py_str (or_else (jget item ''body'') (JStr []))))), (''state'', jget item ''state''),
           (''author'', jget user ''login''), (''url'', jget item ''html_url'')],
         tr_classification = INTERNAL, tr_labels = [''github'', ''external_content'', ''issue''], tr_trust = UNTRUSTED,
         tr_sources = [source_of args (''issue:'' @ arg args ''issue_number'')]\<rparr>)))"

text \<open>
  \<^verbatim>\<open>base64.b64decode(..., validate=True)\<close>: the standard alphabet in whole groups of four, padded at the
  end only; and \<^verbatim>\<open>decode("utf-8")\<close>, which keeps the bytes when they are well-formed.
\<close>

definition std_sextet :: "char \<Rightarrow> nat option" where
  "std_sextet c = (if c \<in> set ''-_'' then None else sextet_val c)"

definition std_decode :: "string \<Rightarrow> string option" where
  "std_decode s = (let digits = takeWhile (\<lambda>c. c \<noteq> CHR ''='') s; padding = dropWhile (\<lambda>c. c \<noteq> CHR ''='') s in
     if length s mod 4 = 0 \<and> length padding \<le> 2 \<and> list_all (\<lambda>c. c = CHR ''='') padding
     then map_option (map char_of) (Option.bind (collect std_sextet digits) b64_decode) else None)"

definition std_char :: "char \<Rightarrow> char" where
  "std_char c = (if c = CHR ''-'' then CHR ''+'' else if c = CHR ''_'' then CHR ''/'' else c)"

definition std_encode :: "string \<Rightarrow> string" where
  "std_encode s = map std_char (pad64 (encode s))"

definition file_text :: "(string, json) dict \<Rightarrow> exc + string" where
  "file_text item =
     (let unsupported = Inl (ToolExecutionError ''GitHub file is not supported UTF-8 text'') in
      case std_decode (filter (\<lambda>c. \<not> is_space c) (py_str (dget item ''content'' (JStr [])))) of
        None \<Rightarrow> unsupported
      | Some raw \<Rightarrow> if 256000 < length raw then Inl (ToolExecutionError ''GitHub file exceeds the 256 KB connector limit'')
          else if utf8 (map of_char raw) then Inr raw else unsupported)"

definition read_file :: "github_client \<Rightarrow> (string, json) dict \<Rightarrow> tool_result gh" where
  "read_file c args = needing [''owner'', ''repo'', ''path'', ''ref''] args
     (gh_then (call_api c ''GET'' (''/contents/'' @ url_quote ''/'' (arg args ''path'')) args [(''contents'', ''read'')] None
        [(''ref'', jget args ''ref'')]) (\<lambda>item.
      if jget item ''type'' \<noteq> JStr ''file'' \<or> jget item ''encoding'' \<noteq> JStr ''base64'' then
        gh_fail (ToolExecutionError ''GitHub path is not a base64-encoded file'')
      else gh_then (gh_lift (file_text item)) (\<lambda>content. gh_ret
        \<lparr>tr_output = JDict [(''path'', jget item ''path''), (''sha'', jget item ''sha''), (''ref'', jget args ''ref''), (''content'', JStr content)],
         tr_classification = INTERNAL, tr_labels = [''github'', ''source-code''], tr_trust = TRUSTED,
         tr_sources = [source_of args (arg args ''ref'' @ '':'' @ arg args ''path'')]\<rparr>)))"

definition comment_issue :: "github_client \<Rightarrow> (string, json) dict \<Rightarrow> tool_result gh" where
  "comment_issue c args = needing [''owner'', ''repo'', ''issue_number'', ''body''] args
     (gh_then (call_api c ''POST'' (''/issues/'' @ arg args ''issue_number'' @ ''/comments'') args [(''issues'', ''write'')]
        (Some (JDict [(''body'', jget args ''body'')])) []) (\<lambda>item. gh_ret
        (written (JDict [(''id'', jget item ''id''), (''url'', jget item ''html_url'')]) PUBLIC [''github'', ''write''] (source_of args ''comment''))))"

definition create_branch :: "github_client \<Rightarrow> (string, json) dict \<Rightarrow> tool_result gh" where
  "create_branch c args = needing [''owner'', ''repo'', ''from_ref''] args
     (gh_then (call_api c ''GET'' (''/git/ref/heads/'' @ url_quote [] (arg args ''from_ref'')) args [(''contents'', ''read'')] None []) (\<lambda>ref.
      gh_then (part ref ''object'') (\<lambda>target.
      if falsy (jget target ''sha'') then gh_fail (ToolExecutionError ''GitHub source branch did not return a commit SHA'')
      else needing [''branch''] args
        (gh_then (call_api c ''POST'' ''/git/refs'' args [(''contents'', ''write'')]
          (Some (JDict [(''ref'', JStr (''refs/heads/'' @ arg args ''branch'')), (''sha'', jget target ''sha'')])) []) (\<lambda>created. gh_ret
          (written (JDict [(''ref'', jget created ''ref''), (''sha'', jget target ''sha'')]) PUBLIC [''github'', ''write'']
            (source_of args (''branch:'' @ arg args ''branch''))))))))"

definition create_pull_request :: "github_client \<Rightarrow> (string, json) dict \<Rightarrow> tool_result gh" where
  "create_pull_request c args = needing [''owner'', ''repo'', ''title'', ''body'', ''head'', ''base'', ''draft''] args
     (gh_then (call_api c ''POST'' ''/pulls'' args [(''pull_requests'', ''write'')]
        (Some (JDict (map (\<lambda>k. (k, jget args k)) [''title'', ''body'', ''head'', ''base'', ''draft'']))) []) (\<lambda>item. gh_ret
        (written (JDict [(''number'', jget item ''number''), (''url'', jget item ''html_url''), (''state'', jget item ''state'')]) PUBLIC
          [''github'', ''write'', ''pull-request''] (source_of args ''pull-request''))))"

definition update_body :: "(string, json) dict \<Rightarrow> json" where
  "update_body args = JDict ([(''message'', jget args ''message''), (''content'', JStr (std_encode (arg args ''content''))),
     (''branch'', jget args ''branch'')] @ (if falsy (jget args ''sha'') then [] else [(''sha'', jget args ''sha'')]))"

definition update_file :: "github_client \<Rightarrow> (string, json) dict \<Rightarrow> tool_result gh" where
  "update_file c args = needing [''content''] args
     (if 256000 < length (arg args ''content'') then gh_fail (ToolExecutionError ''GitHub file exceeds the 256 KB connector limit'')
      else needing [''message'', ''branch'', ''owner'', ''repo'', ''path''] args
     (gh_then (call_api c ''PUT'' (''/contents/'' @ url_quote ''/'' (arg args ''path'')) args [(''contents'', ''write'')]
        (Some (update_body args)) []) (\<lambda>item.
      gh_then (part item ''commit'') (\<lambda>commit. gh_then (part item ''content'') (\<lambda>content. gh_ret
        (written (JDict [(''path'', dget content ''path'' (jget args ''path'')), (''sha'', jget content ''sha''),
            (''commit_sha'', jget commit ''sha''), (''url'', jget content ''html_url'')]) INTERNAL [''github'', ''write'', ''source-code'']
          (source_of args (arg args ''branch'' @ '':'' @ arg args ''path''))))))))"

section \<open>The tools in the registry\<close>

definition github_operation :: "string \<Rightarrow> (github_client \<Rightarrow> (string, json) dict \<Rightarrow> tool_result gh) option" where
  "github_operation name = map_of [(''github_get_issue'', get_issue), (''github_read_file'', read_file), (''github_comment_issue'', comment_issue),
     (''github_create_branch'', create_branch), (''github_create_pull_request'', create_pull_request), (''github_update_file'', update_file)] name"

text \<open>The state that the invocations so far have left; those of other tools do not touch it.\<close>

fun github_after :: "github_client \<Rightarrow> (string \<times> (string, json) dict) list \<Rightarrow> github_state" where
  "github_after c h = fold (\<lambda>(name, args) s. case github_operation name of None \<Rightarrow> s | Some f \<Rightarrow> snd (f c args s)) h new_github_state"

definition github_handler :: "github_client \<Rightarrow> (github_client \<Rightarrow> (string, json) dict \<Rightarrow> tool_result gh) \<Rightarrow> handler" where
  "github_handler c f h args = ebind (fst (f c args (github_after c h))) (\<lambda>r. Inr (Labelled r))"

definition register_github_tools :: "(string \<Rightarrow> json) \<Rightarrow> github_client \<Rightarrow> registry \<Rightarrow> exc + registry" where
  "register_github_tools schema c reg =
     (let tool = (\<lambda>name f validate model description reg. register name (github_handler c f)
            (Some \<lparr>am_validate = validate, am_schema = schema model\<rparr>) description reg) in
      ebind (tool ''github_get_issue'' get_issue issue_arguments ''GitHubIssueArguments''
        ''Read a GitHub issue. Issue text is treated as untrusted external content.'' reg) (\<lambda>r1.
      ebind (tool ''github_read_file'' read_file read_file_arguments ''GitHubReadFileArguments''
        ''Read one bounded UTF-8 file from an allowlisted GitHub repository.'' r1) (\<lambda>r2.
      ebind (tool ''github_comment_issue'' comment_issue comment_arguments ''GitHubCommentArguments''
        ''Create a GitHub issue or pull-request comment after policy approval.'' r2) (\<lambda>r3.
      ebind (tool ''github_create_branch'' create_branch create_branch_arguments ''GitHubCreateBranchArguments''
        ''Create a branch from an existing ref after policy approval.'' r3) (\<lambda>r4.
      ebind (tool ''github_create_pull_request'' create_pull_request pull_request_arguments ''GitHubCreatePullRequestArguments''
        ''Create a draft pull request after policy approval.'' r4) (\<lambda>r5.
      tool ''github_update_file'' update_file update_file_arguments ''GitHubUpdateFileArguments''
        ''Create or update one file on a non-protected branch after exact approval.'' r5))))))"

end
