(* ===== verification/Api_Auth.thy ===== *)
theory Api_Auth
  imports Admin_Identity Upstream_Mcp Knowledge Github_Tools
begin

text \<open>
  The server of \<^verbatim>\<open>api.py\<close>: what it is built from, the credentials a request carries, and the
  browser sign-in. The services are cached, so the server is one record; \<open>start_server\<close> builds it
  from the settings as the cached factories do. The policy file, the schema library, the directory of
  the knowledge base and the network of the GitHub tools are given to it.
\<close>

section \<open>The server\<close>

record server =
  sv_settings :: settings
  sv_files :: files
  sv_jwt :: jwt
  sv_signer :: signer
  sv_provenance :: prov_service
  sv_watch :: watch_service
  sv_gateway :: gateway
  sv_upstream :: upstream_manager
  sv_network :: github_network
  sv_exchange :: "nat \<Rightarrow> string \<Rightarrow> (string \<times> string) list \<Rightarrow> json option"

record host =
  ho_files :: files
  ho_jwt :: jwt
  ho_crypto :: crypto
  ho_policy :: "string \<Rightarrow> exc + policy"
  ho_schemas :: schemas
  ho_model_schema :: "string \<Rightarrow> json"
  ho_entries :: "string \<Rightarrow> nat \<Rightarrow> knowledge_entry list option"
  ho_network :: github_network
  ho_upstream :: "string \<Rightarrow> upstream_manager"
  ho_exchange :: "nat \<Rightarrow> string \<Rightarrow> (string \<times> string) list \<Rightarrow> json option"

definition get_store :: "host \<Rightarrow> settings \<Rightarrow> deployment" where
  "get_store h s = \<lparr>de_crypto = ho_crypto h, de_audit_key = se_audit_signing_key s, de_data_key = se_data_encryption_key s\<rparr>"

definition get_signer :: "settings \<Rightarrow> signer" where
  "get_signer s = \<lparr>sg_key = se_token_signing_key s, sg_issuer = se_issuer s\<rparr>"

definition get_provenance :: "settings \<Rightarrow> prov_service" where
  "get_provenance s = \<lparr>ps_signer = get_signer s, ps_ttl = 3600\<rparr>"

definition get_watch_service :: "settings \<Rightarrow> watch_service" where
  "get_watch_service s = \<lparr>wv_enabled = se_watch_enabled s, wv_monitor_only = se_watch_monitor_only s\<rparr>"

text \<open>The client of the registered tools is number 0.\<close>

definition repository_list :: "settings \<Rightarrow> string list" where
  "repository_list s = filter (\<lambda>r. r \<noteq> []) (map str_strip (str_split CHR '','' (se_github_allowed_repositories s)))"

definition get_github_client :: "github_network \<Rightarrow> nat \<Rightarrow> settings \<Rightarrow> github_client" where
  "get_github_client net n s = new_github_client net n (se_github_app_id s) (se_github_installation_id s)
     (se_github_private_key_path s) (repository_list s)"

definition get_service :: "host \<Rightarrow> settings \<Rightarrow> exc + gateway" where
  "get_service h s =
     (if length (se_data_encryption_key s) < 24 then Inl (ValueError ''Data encryption key must be at least 24 characters'') else
     ebind (demo_registry (ho_model_schema h) (search_knowledge (new_knowledge_base (ho_entries h (se_knowledge_path s))))) (\<lambda>demo.
     ebind (register_github_tools (ho_model_schema h) (get_github_client (ho_network h) 0 s) demo) (\<lambda>reg.
     ebind (ho_policy h (se_policy_path s)) (\<lambda>p.
     Inr \<lparr>gw_policy = p, gw_env = get_store h s, gw_provenance = get_provenance s, gw_registry = reg,
          gw_schemas = ho_schemas h, gw_mode = se_enforcement_mode s, gw_notifier = None,
          gw_durable = given_text (se_approval_webhook_url s), gw_max_attempts = se_worker_max_attempts s,
          gw_watch = Some (get_watch_service s)\<rparr>))))"

definition start_server :: "host \<Rightarrow> settings \<Rightarrow> exc + server" where
  "start_server h s = ebind (get_service h s) (\<lambda>gw.
     Inr \<lparr>sv_settings = s, sv_files = ho_files h, sv_jwt = ho_jwt h, sv_signer = get_signer s,
          sv_provenance = get_provenance s, sv_watch = get_watch_service s, sv_gateway = gw,
          sv_upstream = ho_upstream h (se_mcp_upstreams_path s), sv_network = ho_network h,
          sv_exchange = ho_exchange h\<rparr>)"

abbreviation sv_env :: "server \<Rightarrow> deployment" where
  "sv_env sv \<equiv> gw_env (sv_gateway sv)"

abbreviation sv_crypto :: "server \<Rightarrow> crypto" where
  "sv_crypto sv \<equiv> de_crypto (sv_env sv)"

section \<open>Credentials\<close>

definition refuse :: "int \<Rightarrow> string \<Rightarrow> 'a io" where
  "refuse status detail = raise (HTTPException status detail)"

definition operator :: "server \<Rightarrow> operator_role \<Rightarrow> bearer \<Rightarrow> admin_identity io" where
  "operator sv minimum credentials =
     andthen tick (\<lambda>now. lift (require_operator (sv_jwt sv) (sv_settings sv) minimum now credentials))"

definition token_holder :: "server \<Rightarrow> string \<Rightarrow> agent_principal io" where
  "token_holder sv token =
     andthen tick (\<lambda>now. andthen (lift (agent_principal_of (sv_crypto sv) (sv_signer sv) now token)) (\<lambda>agent.
     andthen tick (\<lambda>now. andthen (query (token_is_active now agent)) (\<lambda>active.
     if \<not> active then raise (TokenError ''Agent token is revoked or unregistered'') else ret agent))))"

definition require_agent :: "server \<Rightarrow> bearer \<Rightarrow> agent_principal io" where
  "require_agent sv credentials = (case credentials of
      None \<Rightarrow> refuse 401 ''Bearer token required''
    | Some (scheme, token) \<Rightarrow>
        if casefold scheme \<noteq> ''bearer'' then refuse 401 ''Bearer token required''
        else catching (token_holder sv token) (\<lambda>e. case e of TokenError m \<Rightarrow> refuse 401 m | _ \<Rightarrow> raise e))"

section \<open>Browser sign-in\<close>

definition browser_oidc_configured :: "settings \<Rightarrow> bool" where
  "browser_oidc_configured s = list_all given_text (browser_oidc s @ [se_oidc_issuer s, se_oidc_audience s, se_oidc_jwks_url s])"

definition encode_login_state :: "crypto \<Rightarrow> string \<Rightarrow> (string, json) dict \<Rightarrow> string" where
  "encode_login_state cr key payload = (let encoded = encode (dumps True (sort_keys (JDict payload)))
     in encoded @ ''.'' @ hmac_hex cr key encoded)"

text \<open>\<^verbatim>\<open>int(...)\<close>: of a text with a sign and groups of decimal digits; anything else raises.\<close>

definition read_int :: "string \<Rightarrow> int option" where
  "read_int s = (let t = str_strip s; u = (if startswith t ''-'' \<or> startswith t ''+'' then tl t else t) in
     if list_all (\<lambda>g. g \<noteq> [] \<and> list_all is_digit g) (str_split CHR ''_'' u)
     then Some ((if startswith t ''-'' then - 1 else 1) * int (read_nat (filter is_digit u))) else None)"

definition to_int :: "json \<Rightarrow> int option" where
  "to_int j = (case j of JStr s \<Rightarrow> read_int s | _ \<Rightarrow> int_value j)"

definition login_state_of :: "crypto \<Rightarrow> string \<Rightarrow> time \<Rightarrow> string \<Rightarrow> (string, json) dict option" where
  "login_state_of cr key now v =
     (if CHR ''.'' \<notin> set v then None
      else let encoded = takeWhile (\<lambda>c. c \<noteq> CHR ''.'') v; signature = tl (dropWhile (\<lambda>c. c \<noteq> CHR ''.'') v)
      in if compare_digest signature (hmac_hex cr key encoded) \<noteq> Inr True then None
         else (case Option.bind (urlsafe_b64decode (pad64 encoded)) loads of
            Some (JDict payload) \<Rightarrow> (case Option.bind (map_of payload ''expires_at'') to_int of
                Some e \<Rightarrow> if e < whole_seconds now then None else Some payload
              | None \<Rightarrow> None)
          | _ \<Rightarrow> None))"

definition decode_login_state :: "crypto \<Rightarrow> string \<Rightarrow> time \<Rightarrow> string \<Rightarrow> exc + (string, json) dict" where
  "decode_login_state cr key now v = (case login_state_of cr key now v of
      None \<Rightarrow> Inl (HTTPException 400 ''OIDC login state is invalid'')
    | Some payload \<Rightarrow> Inr payload)"

text \<open>A redirection with the cookie it sets; none for the one it deletes.\<close>

record redirect =
  rd_location :: string
  rd_cookie :: "string option"
  rd_secure :: bool

definition redirect_uri :: "settings \<Rightarrow> string" where
  "redirect_uri s = rstrip_slash (se_console_public_url s) @ ''/auth/callback''"

definition next_page :: "string \<Rightarrow> string" where
  "next_page path = (if \<not> startswith path ''/console'' \<or> startswith path ''//'' then ''/console'' else path)"

text \<open>The state and the verifier are drawn at random; \<^verbatim>\<open>hashlib.sha256(...).digest()\<close> is the bytes of the hex digest.\<close>

fun unhex :: "string \<Rightarrow> string" where
  "unhex (a # b # s) = (case (hex_val a, hex_val b) of (Some x, Some y) \<Rightarrow> char_of (16 * x + y) # unhex s | _ \<Rightarrow> unhex s)"
| "unhex _ = []"

definition login_query :: "settings \<Rightarrow> string \<Rightarrow> string \<Rightarrow> string" where
  "login_query s state challenge = urlencode
     [(''response_type'', ''code''), (''client_id'', opt (se_oidc_client_id s) ''None''), (''redirect_uri'', redirect_uri s),
      (''scope'', se_oidc_scopes s), (''state'', state), (''code_challenge'', challenge),
      (''code_challenge_method'', ''S256''), (''audience'', opt (se_oidc_audience s) ''None'')]"

definition oidc_login :: "server \<Rightarrow> string \<Rightarrow> redirect io" where
  "oidc_login sv next' =
     (let s = sv_settings sv in
      if \<not> browser_oidc_configured s then refuse 404 ''Browser OIDC sign-in is not configured''
      else andthen fresh_nonce (\<lambda>r1. andthen fresh_nonce (\<lambda>r2. andthen tick (\<lambda>now.
        let state = encode r1; verifier = encode r2;
            challenge = encode (unhex (sha256 (sv_crypto sv) verifier))
        in ret \<lparr>rd_location = opt (se_oidc_authorization_endpoint s) ''None'' @ ''?'' @ login_query s state challenge,
                rd_cookie = Some (encode_login_state (sv_crypto sv) (se_token_signing_key s)
                  [(''state'', JStr state), (''verifier'', JStr verifier), (''next'', JStr (next_page next')),
                   (''expires_at'', JInt (whole_seconds now + 600))]),
                rd_secure = is_production s\<rparr>))))"

text \<open>A failed request or an answer that is not JSON; of other answers than an object the key is no index.\<close>

definition token_answer :: "json option \<Rightarrow> exc + (string, json) dict" where
  "token_answer r = (case r of
      None \<Rightarrow> Inl (HTTPException 401 ''OIDC code exchange failed'')
    | Some (JDict d) \<Rightarrow> Inr d
    | Some _ \<Rightarrow> Inl (TypeError ''indices must be integers or slices, not str''))"

definition granted :: "server \<Rightarrow> string \<Rightarrow> (string \<times> admin_identity) io" where
  "granted sv token = andthen tick (\<lambda>now.
     case verify_admin (sv_jwt sv) (new_verifier (opt (se_oidc_issuer (sv_settings sv)) []) (opt (se_oidc_audience (sv_settings sv)) [])
         (opt (se_oidc_jwks_url (sv_settings sv)) []) (se_oidc_role_claim (sv_settings sv))) now token of
       Inr who \<Rightarrow> ret (token, who)
     | Inl _ \<Rightarrow> refuse 401 ''OIDC code exchange failed'')"

text \<open>The exchange of the code; its failures are one answer. The request is among those posted.\<close>

definition exchange_code :: "server \<Rightarrow> string \<Rightarrow> string \<Rightarrow> (string \<times> admin_identity) io" where
  "exchange_code sv code verifier = (\<lambda>w.
     let s = sv_settings sv; url = opt (se_oidc_token_endpoint s) ''None'';
         form = [(''grant_type'', ''authorization_code''), (''code'', code), (''redirect_uri'', redirect_uri s),
           (''client_id'', opt (se_oidc_client_id s) []), (''client_secret'', opt (se_oidc_client_secret s) []),
           (''code_verifier'', verifier)];
         w1 = w\<lparr>wo_posted := wo_posted w @ [(url, urlencode form, [])]\<rparr>
     in case ebind (token_answer (sv_exchange sv (length (wo_posted w)) url form)) (\<lambda>d. opt (map_option Inr (map_of d ''access_token''))
            (Inl (HTTPException 401 ''OIDC code exchange failed''))) of
          Inl e \<Rightarrow> (Inl e, w1)
        | Inr t \<Rightarrow> granted sv (py_str t) w1)"

definition oidc_callback :: "server \<Rightarrow> string option \<Rightarrow> string \<Rightarrow> string \<Rightarrow> redirect io" where
  "oidc_callback sv cookie code state =
     (let s = sv_settings sv in
      if \<not> browser_oidc_configured s then refuse 404 ''Browser OIDC sign-in is not configured''
      else case nonempty cookie of
        None \<Rightarrow> refuse 400 ''OIDC login state cookie is missing''
      | Some c \<Rightarrow> andthen tick (\<lambda>now. andthen (lift (decode_login_state (sv_crypto sv) (se_token_signing_key s) now c)) (\<lambda>login.
          andthen (lift (key_of login ''state'')) (\<lambda>expected.
          andthen (lift (compare_digest (py_str expected) state)) (\<lambda>same.
          if \<not> same then refuse 400 ''OIDC state does not match''
          else case map_of login ''verifier'' of
            None \<Rightarrow> refuse 401 ''OIDC code exchange failed''
          | Some v \<Rightarrow> andthen (exchange_code sv code (py_str v)) (\<lambda>(token, who).
              andthen (audit (sv_env sv) ''operator_oidc_login''
                [(''subject'', JStr (ai_subject who)), (''email'', jopt (ai_email who)), (''roles'', jstrs (sorted_set (ai_roles who)))]) (\<lambda>_.
              ret \<lparr>rd_location = py_str (dget login ''next'' (JStr ''/console'')) @ ''#access_token='' @ url_quote [] token,
                   rd_cookie = None, rd_secure = False\<rparr>)))))))"

section \<open>The login state\<close>

lemma map_of_sorted: "distinct (map fst d) \<Longrightarrow> map_of (sort_key fst d) k = map_of d k"
  for d :: "('a::linorder \<times> 'b) list"
proof -
  assume d: "distinct (map fst d)"
  then have "distinct (map fst (sort_key fst d))" by (simp add: distinct_map)
  then have "map_of (sort_key fst d) = map_of d" using d by (intro map_of_inject_set [THEN iffD2]) simp_all
  then show ?thesis by simp
qed

lemma map_of_sort_items: "map_of (sort_keys_items d) k = map_option sort_keys (map_of d k)"
  by (induction d) auto

lemma hex_ascii: "digest_ok s \<Longrightarrow> list_all (\<lambda>c. (of_char c :: nat) < 128) s"
  by (auto simp: digest_ok_def hex_lower_def list_all_iff is_digit_def Let_def)

text \<open>
  C36. The state of a browser sign-in survives the trip through its cookie: what was signed by
  \<open>encode_login_state\<close> with the token key is read back as the same entries until the second of its
  expiry has passed, and is refused with 400 from then on. For payloads of any JSON values.
\<close>

theorem login_state_roundtrip:
  assumes "\<And>s. digest_ok (hmac_hex cr key s)" and wf: "json_wf (JDict payload)" and e: "map_of payload ''expires_at'' = Some (JInt e)"
  shows "\<exists>payload'. (\<forall>k. map_of payload' k = map_option sort_keys (map_of payload k))
    \<and> decode_login_state cr key now (encode_login_state cr key payload) =
        (if e < whole_seconds now then Inl (HTTPException 400 ''OIDC login state is invalid'') else Inr payload')"
proof -
  let ?d = "sort_key fst (sort_keys_items payload)" let ?e = "encode (dumps True (JDict ?d))"
  have m: "map_of ?d k = map_option sort_keys (map_of payload k)" for k
    using wf by (subst map_of_sorted) (simp_all add: map_of_sort_items dict_wf_def)
  have "loads (dumps True (JDict ?d)) = Some (JDict ?d)"
    using loads_dumps sort_keys_wf(1) [OF wf] by (metis sort_keys.simps(2))
  moreover have "takeWhile (\<lambda>c. c \<noteq> CHR ''.'') (?e @ ''.'' @ r) = ?e" "dropWhile (\<lambda>c. c \<noteq> CHR ''.'') (?e @ ''.'' @ r) = ''.'' @ r" for r
    using encode_no_dot [of "dumps True (JDict ?d)"] by (auto simp: takeWhile_append dropWhile_append)
  moreover have "compare_digest h h = Inr True" if "h = hmac_hex cr key x" for h x
    using hex_ascii [OF assms(1)] that by (simp add: compare_digest_def list_all_iff ball_Un)
  ultimately have "decode_login_state cr key now (encode_login_state cr key payload) =
        (if e < whole_seconds now then Inl (HTTPException 400 ''OIDC login state is invalid'') else Inr ?d)"
    by (simp add: encode_login_state_def decode_login_state_def login_state_of_def Let_def urlsafe_roundtrip m e to_int_def)
  then show ?thesis using m by blast
qed

definition demo_login :: "(string, json) dict" where
  "demo_login = [(''state'', JStr ''s''), (''expires_at'', JInt 600), (''next'', JStr ''/console'')]"

theorem login_state_roundtrip_witness:
  "\<exists>payload. map_of payload ''state'' = Some (JStr ''s'') \<and> decode_login_state (demo_crypto\<lparr>hmac_hex := \<lambda>k s. replicate 64 CHR ''a''\<rparr>) ''k'' 5
     (encode_login_state (demo_crypto\<lparr>hmac_hex := \<lambda>k s. replicate 64 CHR ''a''\<rparr>) ''k'' demo_login) = Inr payload"
proof -
  have e: "map_of demo_login ''expires_at'' = Some (JInt 600)" "json_wf (JDict demo_login)"
    by (simp_all add: demo_login_def dict_wf_def)
  have "digest_ok (hmac_hex (demo_crypto\<lparr>hmac_hex := \<lambda>k s. replicate 64 CHR ''a''\<rparr>) ''k'' s)" for s
    by (simp add: digest_ok_def hex_lower_def list_all_iff)
  from login_state_roundtrip [OF this e(2,1), of 5] show ?thesis
    by (auto simp: whole_seconds_def demo_login_def)
qed

end
