(* ===== verification/Api.thy ===== *)
theory Api
  imports Api_Auth
begin

text \<open>
  The routes of \<^verbatim>\<open>api.py\<close>. A route is an operation on the server and a world: its dependencies
  run first, in their order, and a refusal is the exception \<open>HTTPException\<close> with its status. Path
  and body parameters are those the framework has validated; the \<open>limit\<close> of a listing is between one
  and five hundred.
\<close>

section \<open>Requests\<close>

record token_request =
  tq_agent_id :: string
  tq_tenant_id :: string
  tq_scopes :: "string list"
  tq_ttl :: int
  tq_owner :: string

record containment_request =
  cq_mode :: containment_mode
  cq_reason :: string
  cq_duration :: int
  cq_allowed_tools :: "string list"
  cq_incident :: "string option"

record declassification_request =
  xq_tenant_id :: string
  xq_token :: string
  xq_paths :: "string list"
  xq_remove_labels :: "string list"
  xq_reason :: string

definition scoped :: "agent_principal \<Rightarrow> string \<Rightarrow> string \<Rightarrow> unit io" where
  "scoped agent scope detail = (if scope \<in> set (pr_scopes agent) then ret () else refuse 403 detail)"

section \<open>Agents: tool calls\<close>

definition mcp_endpoint :: "server \<Rightarrow> bearer \<Rightarrow> (string, json) dict \<Rightarrow> json io" where
  "mcp_endpoint sv credentials payload =
     andthen (require_agent sv credentials) (\<lambda>agent. handle_mcp payload agent (sv_gateway sv) None)"

definition upstream_mcp_endpoint :: "server \<Rightarrow> bearer \<Rightarrow> string \<Rightarrow> (string, json) dict \<Rightarrow> ((exc + json) \<times> gateway) io" where
  "upstream_mcp_endpoint sv credentials server payload =
     andthen (require_agent sv credentials) (\<lambda>agent. handle_upstream_mcp server payload agent (sv_gateway sv) (sv_upstream sv))"

definition direct_only :: "tool_call \<Rightarrow> unit io" where
  "direct_only call = (if nonempty (tc_mcp_server_id call) \<noteq> None
     then refuse 422 ''MCP-bound tools must use /mcp/upstream/{server_id}'' else ret ())"

definition evaluate_endpoint :: "server \<Rightarrow> bearer \<Rightarrow> tool_call \<Rightarrow> policy_decision io" where
  "evaluate_endpoint sv credentials call = andthen (require_agent sv credentials) (\<lambda>agent.
     andthen (direct_only call) (\<lambda>_. evaluate_call (sv_gateway sv) call agent True))"

definition execute_endpoint :: "server \<Rightarrow> bearer \<Rightarrow> tool_call \<Rightarrow> execution_result io" where
  "execute_endpoint sv credentials call = andthen (require_agent sv credentials) (\<lambda>agent.
     andthen (direct_only call) (\<lambda>_. execute_call (sv_gateway sv) call agent))"

section \<open>Agents: provenance\<close>

definition attested_lineage :: "agent_principal \<Rightarrow> string \<Rightarrow> string list \<Rightarrow> string \<Rightarrow> string \<Rightarrow> attestation \<Rightarrow>
    (string, field_taint) dict \<Rightarrow> time \<Rightarrow> lineage_row" where
  "attested_lineage agent trace parents kind source a fs now =
     \<lparr>li_id = at_lineage_id a, li_tenant = pr_tenant_id agent, li_agent = pr_agent_id agent, li_trace = trace,
      li_request = None, li_parents = parents, li_source_type = kind, li_source_id = source,
      li_destination = ''model_context'', li_trust = at_trust a, li_classification = at_classification a,
      li_labels = at_labels a, li_digest = at_digest a, li_created = now, li_field_taint = fs\<rparr>"

definition recorded_lineage :: "agent_principal \<Rightarrow> string option \<Rightarrow> string list \<Rightarrow> string \<Rightarrow> string \<Rightarrow> attestation \<Rightarrow>
    (string, field_taint) dict \<Rightarrow> unit io" where
  "recorded_lineage agent trace parents kind source a fs = (case nonempty trace of
      None \<Rightarrow> ret ()
    | Some t \<Rightarrow> andthen tick (\<lambda>now. db (\<lambda>st. ((), record_lineage (attested_lineage agent t parents kind source a fs now) st))))"

text \<open>Attesting draws the id of the lineage record and that of the token.\<close>

definition drawing :: "(time \<Rightarrow> string \<Rightarrow> string \<Rightarrow> exc + attestation) \<Rightarrow> attestation io" where
  "drawing f = andthen fresh_id (\<lambda>lineage_id. andthen fresh_id (\<lambda>jti. andthen tick (\<lambda>now. lift (f now lineage_id jti))))"

definition trusted_scope :: "bool \<Rightarrow> string" where
  "trusted_scope t = (if t then ''provenance:attest:trusted'' else ''provenance:attest'')"

definition attest_provenance :: "server \<Rightarrow> bearer \<Rightarrow> attest_request \<Rightarrow> attestation io" where
  "attest_provenance sv credentials q =
     andthen (require_agent sv credentials) (\<lambda>agent.
     andthen (scoped agent (trusted_scope (aq_trust q = TRUSTED)) ''Missing provenance:attest scope'') (\<lambda>_.
     andthen (drawing (\<lambda>now i jti. attest (sv_crypto sv) (sv_provenance sv) now i jti q (pr_tenant_id agent))) (\<lambda>a.
     andthen (recorded_lineage agent (aq_trace_id q) [] ''input'' (aq_source_id q) a []) (\<lambda>_.
     andthen (audit (sv_env sv) ''provenance_attested''
       [(''agent_id'', JStr (pr_agent_id agent)), (''tenant_id'', JStr (pr_tenant_id agent)), (''source_id'', JStr (aq_source_id q)),
        (''content_digest'', JStr (at_digest a)), (''trust'', JStr (trust_value (at_trust a))), (''signals'', jstrs (at_signals a))]) (\<lambda>_.
     ret a)))))"

definition claims_trusted_field :: "structured_request \<Rightarrow> bool" where
  "claims_trusted_field q \<longleftrightarrow>
     list_ex (\<lambda>(_, ov). casefold (py_str (dget ov ''trust'' (JStr []))) = ''trusted'') (sr_field_overrides q)"

definition unprocessable :: "'a io \<Rightarrow> 'a io" where
  "unprocessable m = catching m (\<lambda>e. if is_value_error e then refuse 422 (exc_text e) else raise e)"

definition attest_structured_provenance :: "server \<Rightarrow> bearer \<Rightarrow> structured_request \<Rightarrow> attestation io" where
  "attest_structured_provenance sv credentials q =
     andthen (require_agent sv credentials) (\<lambda>agent.
     let scope = trusted_scope (sr_trust q = TRUSTED \<or> claims_trusted_field q) in
     andthen (scoped agent scope (''Missing '' @ scope @ '' scope'')) (\<lambda>_.
     andthen (unprocessable (drawing (\<lambda>now i jti. attest_structured (sv_crypto sv) (sv_provenance sv) now i jti q (pr_tenant_id agent)))) (\<lambda>a.
     andthen (recorded_lineage agent (sr_trace_id q) [] ''structured_input'' (sr_source_id q) a (at_field_taint a)) (\<lambda>_.
     andthen (audit (sv_env sv) ''structured_provenance_attested''
       [(''agent_id'', JStr (pr_agent_id agent)), (''tenant_id'', JStr (pr_tenant_id agent)), (''source_id'', JStr (sr_source_id q)),
        (''content_digest'', JStr (at_digest a)), (''field_count'', JInt (int (length (at_field_taint a))))]) (\<lambda>_.
     ret a)))))"

text \<open>The record of a derivation is written also for an empty trace, which the request's pattern excludes.\<close>

definition derive_structured_provenance :: "server \<Rightarrow> bearer \<Rightarrow> derive_request \<Rightarrow> attestation io" where
  "derive_structured_provenance sv credentials q =
     andthen (require_agent sv credentials) (\<lambda>agent.
     andthen (scoped agent ''provenance:derive'' ''Missing provenance:derive scope'') (\<lambda>_.
     andthen (unprocessable (drawing (\<lambda>now i jti. derive_structured (sv_crypto sv) (sv_provenance sv) now i jti q (pr_tenant_id agent)))) (\<lambda>a.
     andthen tick (\<lambda>now.
     andthen (db (\<lambda>st. ((), record_lineage (attested_lineage agent (dq_trace_id q)
         (sorted_set (filter (\<lambda>i. i \<noteq> at_lineage_id a) (concat (map (\<lambda>(_, f). ft_lineage_ids f) (at_field_taint a)))))
         (''derived_'' @ dq_mode q) (dq_source_id q) a (at_field_taint a) now) st))) (\<lambda>_.
     andthen (audit (sv_env sv) ''structured_provenance_derived''
       [(''agent_id'', JStr (pr_agent_id agent)), (''tenant_id'', JStr (pr_tenant_id agent)), (''source_id'', JStr (dq_source_id q)),
        (''mode'', JStr (dq_mode q)), (''field_count'', JInt (int (length (at_field_taint a)))), (''content_digest'', JStr (at_digest a))]) (\<lambda>_.
     ret a))))))"

section \<open>Agents: watch\<close>

definition create_watch_task_endpoint :: "server \<Rightarrow> bearer \<Rightarrow> watch_task_request \<Rightarrow> watch_task io" where
  "create_watch_task_endpoint sv credentials q =
     andthen (require_agent sv credentials) (\<lambda>agent.
     andthen (scoped agent ''watch:write'' ''Missing watch:write scope'') (\<lambda>_.
     catching (create_task (sv_env sv) agent q) (\<lambda>e. if is_value_error e then refuse 409 (exc_text e) else raise e)))"

definition ingest_watch_event :: "server \<Rightarrow> bearer \<Rightarrow> watch_event_request \<Rightarrow> (watch_event \<times> watch_finding list) io" where
  "ingest_watch_event sv credentials q =
     andthen (require_agent sv credentials) (\<lambda>agent.
     andthen (scoped agent ''watch:write'' ''Missing watch:write scope'') (\<lambda>_.
     catching (ingest (sv_env sv) (sv_watch sv) agent q) (\<lambda>e. case e of
         WatchTaskNotFound m \<Rightarrow> refuse 404 m
       | _ \<Rightarrow> if is_value_error e then refuse 422 (exc_text e) else raise e)))"

section \<open>Administrators\<close>

definition inspect_mcp_server :: "server \<Rightarrow> bearer \<Rightarrow> string \<Rightarrow> inspection_request \<Rightarrow> inspection_result io" where
  "inspect_mcp_server sv credentials server q =
     andthen (operator sv Administrator credentials) (\<lambda>_.
     if server = [] \<or> 128 < length server \<or> \<not> list_all (\<lambda>c. is_alnum c \<or> c \<in> set ''_.:-'') server
     then refuse 422 ''Invalid MCP server identifier'' else inspect_manifest (sv_env sv) server q)"

definition issue_agent_token :: "server \<Rightarrow> bearer \<Rightarrow> token_request \<Rightarrow> (string \<times> time \<times> string) io" where
  "issue_agent_token sv credentials q =
     andthen (operator sv Administrator credentials) (\<lambda>_.
     andthen fresh_id (\<lambda>jti. andthen tick (\<lambda>now.
     andthen (lift (issue_agent (sv_crypto sv) (sv_signer sv) now jti (tq_agent_id q) (tq_tenant_id q) (tq_scopes q) (tq_ttl q))) (\<lambda>(token, expires, i).
     andthen tick (\<lambda>now. andthen (lift (agent_principal_of (sv_crypto sv) (sv_signer sv) now token)) (\<lambda>agent.
     andthen tick (\<lambda>now. andthen (db_exc (\<lambda>st. ebind (register_agent_token now agent (tq_owner q) st) (\<lambda>st'. Inr ((), st')))) (\<lambda>_.
     andthen (audit (sv_env sv) ''agent_token_issued''
       [(''agent_id'', JStr (tq_agent_id q)), (''tenant_id'', JStr (tq_tenant_id q)), (''scopes'', jstrs (sorted_set (tq_scopes q))),
        (''expires_at'', JStr (isoformat expires))]) (\<lambda>_.
     ret (token, expires, i))))))))))"

definition revoke_agent :: "server \<Rightarrow> bearer \<Rightarrow> string \<Rightarrow> string \<Rightarrow> string \<Rightarrow> nat io" where
  "revoke_agent sv credentials tenant agent remark =
     andthen (operator sv Administrator credentials) (\<lambda>who.
     andthen tick (\<lambda>now.
     andthen (db (revoke_agent_tokens now tenant agent (if remark \<noteq> [] then remark else ''Administrative revocation''))) (\<lambda>n.
     andthen (audit (sv_env sv) ''agent_tokens_revoked''
       [(''tenant_id'', JStr tenant), (''agent_id'', JStr agent), (''reviewer'', JStr (reviewer_of who)), (''count'', JInt (int n))]) (\<lambda>_.
     ret n))))"

definition declassifiable :: "settings \<Rightarrow> string list \<Rightarrow> bool" where
  "declassifiable s requested \<longleftrightarrow> set requested \<subseteq> set (str_split CHR '','' (se_declassification_allowed_labels s)) - {[]}"

definition declassify_provenance :: "server \<Rightarrow> bearer \<Rightarrow> declassification_request \<Rightarrow> attestation io" where
  "declassify_provenance sv credentials q =
     andthen (operator sv Administrator credentials) (\<lambda>who.
     let requested = remdups (map casefold (xq_remove_labels q)) in
     if \<not> declassifiable (sv_settings sv) requested then refuse 403 ''Label is not declassifiable by policy''
     else andthen (catching (drawing (\<lambda>now i jti. declassify_labels (sv_crypto sv) (sv_provenance sv) now i jti (xq_token q)
              (xq_tenant_id q) (xq_paths q) requested (reviewer_of who)))
            (\<lambda>e. case e of TokenError m \<Rightarrow> refuse 422 m | _ \<Rightarrow> raise e)) (\<lambda>a.
          andthen (audit (sv_env sv) ''field_labels_declassified''
            [(''reviewer'', JStr (reviewer_of who)), (''reason'', JStr (xq_reason q)), (''paths'', jstrs (xq_paths q)),
             (''removed_labels'', jstrs (sorted_set requested)), (''lineage_id'', JStr (at_lineage_id a))]) (\<lambda>_.
          ret a)))"

text \<open>The JSON form of a time in a dumped model.\<close>

definition json_time :: "time \<Rightarrow> json" where
  "json_time t = JStr (take (length (isoformat t) - 6) (isoformat t) @ ''Z'')"

definition containment_json :: "containment_row \<Rightarrow> (string, json) dict" where
  "containment_json c =
     [(''id'', JStr (co_id c)), (''tenant_id'', JStr (co_tenant c)), (''agent_id'', JStr (co_agent c)),
      (''mode'', JStr (containment_mode_value (co_mode c))), (''reason'', JStr (co_reason c)), (''reviewer'', JStr (co_reviewer c)),
      (''allowed_tools'', jstrs (co_allowed_tools c)), (''incident_id'', jopt (co_incident c)),
      (''created_at'', json_time (co_created c)), (''expires_at'', json_time (co_expires c)),
      (''released_at'', case co_released c of None \<Rightarrow> JNull | Some t \<Rightarrow> json_time t)]"

definition contain_endpoint :: "server \<Rightarrow> bearer \<Rightarrow> string \<Rightarrow> string \<Rightarrow> containment_request \<Rightarrow> containment_row io" where
  "contain_endpoint sv credentials tenant agent q =
     andthen (operator sv Administrator credentials) (\<lambda>who.
     if cq_mode q = RESTRICT \<and> cq_allowed_tools q = [] then refuse 422 ''restrict mode requires allowed_tools''
     else andthen fresh_id (\<lambda>i. andthen tick (\<lambda>now.
       andthen (if cq_mode q = REVOKE then tick else ret now) (\<lambda>again.
       andthen (db (contain_agent now again i tenant agent (cq_mode q) (cq_reason q) (reviewer_of who) (cq_duration q) (cq_allowed_tools q)
         (cq_incident q))) (\<lambda>c.
       andthen (audit (sv_env sv) ''agent_contained'' (containment_json c)) (\<lambda>_. ret c))))))"

definition release_containment_endpoint :: "server \<Rightarrow> bearer \<Rightarrow> string \<Rightarrow> string \<Rightarrow> bool io" where
  "release_containment_endpoint sv credentials i remark =
     andthen (operator sv Administrator credentials) (\<lambda>who.
     andthen tick (\<lambda>now. andthen (db (release_containment now i)) (\<lambda>released.
     if released then andthen (audit (sv_env sv) ''containment_released''
         [(''containment_id'', JStr i), (''reviewer'', JStr (reviewer_of who)), (''note'', JStr remark)]) (\<lambda>_. ret True)
     else ret False)))"

definition release_agent_endpoint :: "server \<Rightarrow> bearer \<Rightarrow> string \<Rightarrow> string \<Rightarrow> string \<Rightarrow> bool io" where
  "release_agent_endpoint sv credentials tenant agent remark =
     andthen (operator sv Administrator credentials) (\<lambda>who.
     andthen tick (\<lambda>now. andthen (db (release_agent now tenant agent (reviewer_of who) remark)) (\<lambda>released.
     if released then andthen (audit (sv_env sv) ''agent_released''
         [(''tenant_id'', JStr tenant), (''agent_id'', JStr agent), (''reviewer'', JStr (reviewer_of who))]) (\<lambda>_. ret True)
     else ret False)))"

section \<open>Approvers\<close>

text \<open>The row is read back after the transaction, and decrypting it may raise.\<close>

definition resolved_record :: "server \<Rightarrow> string \<Rightarrow> string \<Rightarrow> string \<Rightarrow> string \<Rightarrow> approval option io" where
  "resolved_record sv i status reviewer remark =
     andthen tick (\<lambda>now. andthen (db (resolve_approval now i status reviewer remark)) (\<lambda>resolved.
     if \<not> resolved then ret None
     else andthen (query (get_approval (sv_crypto sv) (de_data_key (sv_env sv)) i)) lift))"

definition resolve_endpoint :: "server \<Rightarrow> bearer \<Rightarrow> string \<Rightarrow> string \<Rightarrow> string \<Rightarrow> string \<Rightarrow> approval io" where
  "resolve_endpoint sv credentials i status event remark =
     andthen (operator sv Approver credentials) (\<lambda>who.
     andthen (resolved_record sv i status (reviewer_of who) remark) (\<lambda>record. case record of
         None \<Rightarrow> refuse 409 ''Approval is missing, expired, or resolved''
       | Some a \<Rightarrow> andthen (audit (sv_env sv) event [(''approval_id'', JStr (av_id a)), (''reviewer'', jopt (av_reviewer a))]) (\<lambda>_. ret a)))"

definition approve :: "server \<Rightarrow> bearer \<Rightarrow> string \<Rightarrow> string \<Rightarrow> approval io" where
  "approve sv credentials i remark = resolve_endpoint sv credentials i ''approved'' ''approval_approved'' remark"

definition reject :: "server \<Rightarrow> bearer \<Rightarrow> string \<Rightarrow> string \<Rightarrow> approval io" where
  "reject sv credentials i remark = resolve_endpoint sv credentials i ''rejected'' ''approval_rejected'' remark"

definition execute_approved_endpoint :: "server \<Rightarrow> bearer \<Rightarrow> string \<Rightarrow> execution_result io" where
  "execute_approved_endpoint sv credentials i =
     andthen (operator sv Approver credentials) (\<lambda>_.
     andthen (execute_approved (sv_gateway sv) i) (\<lambda>result. case result of
         None \<Rightarrow> refuse 409 ''Approval is invalid, expired, or already consumed''
       | Some r \<Rightarrow> ret r))"

section \<open>Analysts\<close>

definition simulate_endpoint :: "server \<Rightarrow> bearer \<Rightarrow> simulation_request \<Rightarrow> policy_decision list io" where
  "simulate_endpoint sv credentials q = andthen (operator sv Analyst credentials) (\<lambda>_. simulate (sv_gateway sv) q)"

fun replay_refused :: "exc \<Rightarrow> bool" where
  "replay_refused (PolicyConfigurationError m) = True"
| "replay_refused (StorageIntegrityError m) = True"
| "replay_refused e = is_value_error e"

definition replay_endpoint :: "server \<Rightarrow> bearer \<Rightarrow> policy option \<Rightarrow> nat \<Rightarrow> replay_result io" where
  "replay_endpoint sv credentials other limit = andthen (operator sv Analyst credentials) (\<lambda>_.
     catching (replay_policy (sv_gateway sv) other limit)
       (\<lambda>e. if replay_refused e then refuse 422 (exc_text e) else raise e))"

definition update_incident_endpoint :: "server \<Rightarrow> bearer \<Rightarrow> string \<Rightarrow> string \<Rightarrow> string \<Rightarrow> incident_row io" where
  "update_incident_endpoint sv credentials i status remark =
     andthen (operator sv Analyst credentials) (\<lambda>who.
     andthen tick (\<lambda>now. andthen tick (\<lambda>audited. andthen fresh_id (\<lambda>j.
     andthen (db (update_incident (sv_crypto sv) (de_audit_key (sv_env sv)) now audited j i status (reviewer_of who) remark)) (\<lambda>row.
     case row of None \<Rightarrow> refuse 404 ''Incident not found'' | Some r \<Rightarrow> ret r)))))"

definition update_finding_endpoint :: "server \<Rightarrow> bearer \<Rightarrow> string \<Rightarrow> string \<Rightarrow> string \<Rightarrow> watch_finding io" where
  "update_finding_endpoint sv credentials i status remark =
     andthen (operator sv Analyst credentials) (\<lambda>who.
     andthen tick (\<lambda>now. andthen (db (update_watch_finding now i status remark (reviewer_of who))) (\<lambda>finding. case finding of
         None \<Rightarrow> refuse 404 ''Watch finding not found''
       | Some f \<Rightarrow> andthen (audit (sv_env sv) ''watch_finding_status_changed''
           [(''finding_id'', JStr i), (''status'', JStr status), (''reviewer'', JStr (reviewer_of who)), (''note'', JStr remark)]) (\<lambda>_.
           ret f))))"

end
