(* ===== verification/Telemetry.thy ===== *)
theory Telemetry
  imports Settings Mcp
begin

text \<open>
  \<^verbatim>\<open>telemetry.py\<close>: the counters of the requests that the process has served, and its health numbers.
  A \<^verbatim>\<open>Counter\<close> is a dictionary in insertion order in which an absent key counts zero; latencies are
  rationals, and so are the numbers that the Prometheus text rounds.
\<close>

section \<open>Counters\<close>

definition LATENCY_BUCKETS :: "rat list" where
  "LATENCY_BUCKETS = [5 / 1000, 1 / 100, 25 / 1000, 5 / 100, 1 / 10, 25 / 100, 5 / 10, 1, 25 / 10, 5]"

record runtime_telemetry =
  te_started :: rat
  te_requests :: "(string \<times> string \<times> int, nat) dict"
  te_buckets :: "(string \<times> string \<times> rat, nat) dict"
  te_count :: "(string \<times> string, nat) dict"
  te_sum :: "(string \<times> string, rat) dict"

definition new_telemetry :: "rat \<Rightarrow> runtime_telemetry" where
  "new_telemetry now = \<lparr>te_started = now, te_requests = [], te_buckets = [], te_count = [], te_sum = []\<rparr>"

definition add_to :: "'k \<Rightarrow> 'v::comm_monoid_add \<Rightarrow> ('k, 'v) dict \<Rightarrow> ('k, 'v) dict" where
  "add_to k n d = AList.update k (dget d k 0 + n) d"

definition observe :: "string \<Rightarrow> string \<Rightarrow> int \<Rightarrow> rat \<Rightarrow> runtime_telemetry \<Rightarrow> runtime_telemetry" where
  "observe act route status elapsed t =
     t\<lparr>te_requests := add_to (act, route, status) 1 (te_requests t),
       te_count := add_to (act, route) 1 (te_count t),
       te_sum := add_to (act, route) elapsed (te_sum t),
       te_buckets := fold (\<lambda>b. if elapsed \<le> b then add_to (act, route, b) 1 else id) LATENCY_BUCKETS (te_buckets t)\<rparr>"

record telemetry_snapshot =
  ts_uptime :: rat
  ts_requests :: nat
  ts_errors :: nat

text \<open>\<^verbatim>\<open>round(x, 3)\<close>, to even.\<close>

definition round_half_even :: "rat \<Rightarrow> int" where
  "round_half_even x = (let f = \<lfloor>x\<rfloor>; d = x - of_int f
     in if d < 1 / 2 then f else if 1 / 2 < d then f + 1 else if even f then f else f + 1)"

definition snapshot :: "rat \<Rightarrow> runtime_telemetry \<Rightarrow> telemetry_snapshot" where
  "snapshot now t =
     \<lparr>ts_uptime = of_int (round_half_even ((now - te_started t) * 1000)) / 1000,
      ts_requests = sum_list (map snd (te_requests t)),
      ts_errors = sum_list (map snd (filter (\<lambda>((_, _, status), _). 500 \<le> status) (te_requests t)))\<rparr>"

section \<open>Exposition\<close>

text \<open>\<^verbatim>\<open>f'{x:.kf}'\<close>\<close>

definition fixed :: "nat \<Rightarrow> rat \<Rightarrow> string" where
  "fixed k x = (let n = round_half_even (abs x * 10 ^ k); m = nat n
     in (if x < 0 then ''-'' else []) @ show_nat (m div 10 ^ k) @ ''.'' @ pad k (m mod 10 ^ k))"

definition bucket_text :: "(rat \<times> string) list" where
  "bucket_text = zip LATENCY_BUCKETS [''0.005'', ''0.01'', ''0.025'', ''0.05'', ''0.1'', ''0.25'', ''0.5'', ''1.0'', ''2.5'', ''5.0'']"

definition dq :: string where
  "dq = [CHR 0x22]"

definition route_labels :: "string \<Rightarrow> string \<Rightarrow> string" where
  "route_labels act route = ''method='' @ dq @ act @ dq @ '',route='' @ dq @ route @ dq"

definition request_line :: "(string \<times> string \<times> int) \<times> nat \<Rightarrow> string" where
  "request_line = (\<lambda>((act, route, status), n). ''sentinelgate_http_requests_total{'' @ route_labels act route @ '',status='' @ dq
     @ show_int status @ dq @ ''} '' @ show_nat n)"

definition duration_lines :: "runtime_telemetry \<Rightarrow> string \<times> string \<Rightarrow> string list" where
  "duration_lines t = (\<lambda>(act, route). let ls = route_labels act route; name = ''sentinelgate_http_request_duration_seconds'' in
     map (\<lambda>(b, text). name @ ''_bucket{'' @ ls @ '',le='' @ dq @ text @ dq @ ''} '' @ show_nat (dget (te_buckets t) (act, route, b) 0)) bucket_text
     @ [name @ ''_bucket{'' @ ls @ '',le='' @ dq @ ''+Inf'' @ dq @ ''} '' @ show_nat (dget (te_count t) (act, route) 0),
        name @ ''_sum{'' @ ls @ ''} '' @ fixed 9 (dget (te_sum t) (act, route) 0),
        name @ ''_count{'' @ ls @ ''} '' @ show_nat (dget (te_count t) (act, route) 0)])"

definition prometheus :: "rat \<Rightarrow> runtime_telemetry \<Rightarrow> string" where
  "prometheus now t = str_join [CHR 0x0A]
     ([''# HELP sentinelgate_process_uptime_seconds Process uptime.'',
       ''# TYPE sentinelgate_process_uptime_seconds gauge'',
       ''sentinelgate_process_uptime_seconds '' @ fixed 3 (now - te_started t),
       ''# HELP sentinelgate_http_requests_total HTTP requests by route and status.'',
       ''# TYPE sentinelgate_http_requests_total counter'']
      @ map request_line (sort (te_requests t))
      @ [''# HELP sentinelgate_http_request_duration_seconds Request latency.'',
         ''# TYPE sentinelgate_http_request_duration_seconds histogram'']
      @ concat (map (duration_lines t) (sort (map fst (te_count t))))) @ [CHR 0x0A]"

section \<open>The counters agree\<close>

record observation =
  os_method :: string
  os_route :: string
  os_status :: int
  os_elapsed :: rat

definition observed :: "rat \<Rightarrow> observation list \<Rightarrow> runtime_telemetry" where
  "observed now os = fold (\<lambda>x. observe (os_method x) (os_route x) (os_status x) (os_elapsed x)) os (new_telemetry now)"

definition same_route :: "string \<Rightarrow> string \<Rightarrow> observation \<Rightarrow> bool" where
  "same_route act route x \<longleftrightarrow> os_method x = act \<and> os_route x = route"

lemma dget_add: "dget (add_to k n d) j 0 = (if j = k then dget d k 0 + n else dget d j 0)"
  by (simp add: add_to_def dget_def update_conv')

lemma wf_add: "dict_wf d \<Longrightarrow> dict_wf (add_to k n d)"
  by (simp add: add_to_def dict_wf_update)

lemma dget_bucket:
  "distinct bs \<Longrightarrow> dget (fold (\<lambda>b. if e \<le> b then add_to (a, r, b) (1::nat) else id) bs d) (a', r', c) 0 =
     dget d (a', r', c) 0 + (if a' = a \<and> r' = r \<and> c \<in> set bs \<and> e \<le> c then 1 else 0)"
  by (induction bs arbitrary: d) (auto simp: dget_add)

lemma buckets_distinct: "distinct LATENCY_BUCKETS"
  by (simp add: LATENCY_BUCKETS_def)

lemma observed_snoc:
  "observed now (os @ [x]) = observe (os_method x) (os_route x) (os_status x) (os_elapsed x) (observed now os)"
  by (simp add: observed_def)

text \<open>Each counter is the number of the observations it stands for.\<close>

lemma counters_exact:
  "dget (te_count (observed now os)) (a, r) 0 = length (filter (same_route a r) os)
   \<and> dget (te_requests (observed now os)) (a, r, s) 0 = length (filter (\<lambda>x. same_route a r x \<and> os_status x = s) os)
   \<and> dget (te_sum (observed now os)) (a, r) 0 = sum_list (map os_elapsed (filter (same_route a r) os))
   \<and> (b \<in> set LATENCY_BUCKETS \<longrightarrow> dget (te_buckets (observed now os)) (a, r, b) 0 = length (filter (\<lambda>x. same_route a r x \<and> os_elapsed x \<le> b) os))"
proof (induction os rule: rev_induct)
  case Nil
  then show ?case by (simp add: observed_def new_telemetry_def dget_def)
next
  case (snoc x os)
  then show ?case
    by (auto simp: observed_snoc observe_def dget_add dget_bucket buckets_distinct same_route_def)
qed

lemma total_add: "dict_wf d \<Longrightarrow> sum_list (map snd (add_to k n d)) = sum_list (map snd d) + n"
  for n :: "'v::comm_monoid_add"
proof (induction d)
  case (Cons e d)
  obtain j v where e: "e = (j, v)" by force
  show ?case
  proof (cases "j = k")
    case True
    then show ?thesis using e by (simp add: add_to_def dget_def ac_simps)
  next
    case False
    have "add_to k n (e # d) = e # add_to k n d" using e False by (simp add: add_to_def dget_def)
    then show ?thesis using Cons e by (simp add: dict_wf_def ac_simps)
  qed
qed (simp add: add_to_def dget_def)

lemma filter_add: "dict_wf d \<Longrightarrow> (\<And>v w. Q (k, v) = Q (k, w)) \<Longrightarrow> sum_list (map snd (filter Q (add_to k n d))) =
    sum_list (map snd (filter Q d)) + (if Q (k, n) then n else 0)"
  for n :: "'v::comm_monoid_add"
proof (induction d)
  case (Cons e d)
  obtain j v where e: "e = (j, v)" by force
  show ?case
  proof (cases "j = k")
    case True
    then show ?thesis using e Cons.prems(2) [of "v + n" v] Cons.prems(2) [of n v] by (simp add: add_to_def dget_def ac_simps)
  next
    case False
    have "add_to k n (e # d) = e # add_to k n d" using e False by (simp add: add_to_def dget_def)
    then show ?thesis using Cons e by (simp add: dict_wf_def ac_simps)
  qed
qed (simp add: add_to_def dget_def)

lemma observed_Nil: "observed now [] = new_telemetry now"
  by (simp add: observed_def)

lemma observed_wf: "dict_wf (te_requests (observed now os))"
proof (induction os rule: rev_induct)
  case (snoc x os)
  then show ?case by (simp add: observed_snoc observe_def wf_add)
qed (simp add: observed_Nil new_telemetry_def dict_wf_def)

text \<open>
  The telemetry counts every request once: after any sequence of requests the snapshot has their
  number and that of the server errors, and for each route the latency histogram is consistent: the
  count is that of its requests, each bucket counts those at or below its bound, so the buckets are
  cumulative and none exceeds the count.
\<close>

theorem telemetry_counts:
  "ts_requests (snapshot later (observed now os)) = length os
   \<and> ts_errors (snapshot later (observed now os)) = length (filter (\<lambda>x. 500 \<le> os_status x) os)
   \<and> dget (te_count (observed now os)) (a, r) 0 = length (filter (same_route a r) os)
   \<and> map (\<lambda>b. dget (te_buckets (observed now os)) (a, r, b) 0) LATENCY_BUCKETS =
       map (\<lambda>b. length (filter (\<lambda>x. same_route a r x \<and> os_elapsed x \<le> b) os)) LATENCY_BUCKETS
   \<and> sorted (map (\<lambda>b. dget (te_buckets (observed now os)) (a, r, b) 0) LATENCY_BUCKETS @ [dget (te_count (observed now os)) (a, r) 0])"
proof -
  have n: "sum_list (map snd (te_requests (observed now os))) = length os"
  proof (induction os rule: rev_induct)
    case (snoc x os)
    then show ?case by (simp add: observed_snoc observe_def total_add observed_wf)
  qed (simp add: observed_Nil new_telemetry_def)
  have e: "sum_list (map snd (filter (\<lambda>((_, _, status), _). 500 \<le> status) (te_requests (observed now os)))) =
      length (filter (\<lambda>x. 500 \<le> os_status x) os)"
  proof (induction os rule: rev_induct)
    case (snoc x os)
    then show ?case
      using filter_add [OF observed_wf, of "\<lambda>((_, _, status), _). 500 \<le> status"] by (simp add: observed_snoc observe_def)
  qed (simp add: observed_Nil new_telemetry_def)
  have le: "length (filter (\<lambda>x. same_route a r x \<and> os_elapsed x \<le> b) os) \<le> length (filter (same_route a r) os)" for b
    by (induction os) auto
  have mono: "b \<le> c \<Longrightarrow> length (filter (\<lambda>x. same_route a r x \<and> os_elapsed x \<le> b) os)
      \<le> length (filter (\<lambda>x. same_route a r x \<and> os_elapsed x \<le> c) os)" for b c
    by (induction os) auto
  have m: "map (\<lambda>b. dget (te_buckets (observed now os)) (a, r, b) 0) LATENCY_BUCKETS =
       map (\<lambda>b. length (filter (\<lambda>x. same_route a r x \<and> os_elapsed x \<le> b) os)) LATENCY_BUCKETS"
    using counters_exact [of now os a r] by simp
  have "sorted LATENCY_BUCKETS" by code_simp
  then have "sorted (map (\<lambda>b. length (filter (\<lambda>x. same_route a r x \<and> os_elapsed x \<le> b) os)) LATENCY_BUCKETS)"
    by (rule sorted_map_mono) (auto intro: monoI mono simp: mono_on_def)
  then show ?thesis using n e counters_exact [of now os a r] le unfolding m by (auto simp: snapshot_def sorted_append)
qed

end
