(* ===== verification/Reporting.thy ===== *)
theory Reporting
  imports Telemetry
begin

text \<open>
  \<^verbatim>\<open>reporting.py\<close>: the evidence report over the recent audit events. A \<^verbatim>\<open>Counter\<close> is a dictionary
  in insertion order.
\<close>

definition counted :: "'k list \<Rightarrow> ('k, nat) dict" where
  "counted ks = fold (\<lambda>k. add_to k 1) ks []"

text \<open>\<^verbatim>\<open>most_common(n)\<close>: by falling count, equal counts in insertion order.\<close>

definition most_common_of :: "nat \<Rightarrow> ('k, nat) dict \<Rightarrow> ('k, nat) dict" where
  "most_common_of n d = take n (sort_key (\<lambda>(_, c). - int c) d)"

definition counter_json :: "(string, nat) dict \<Rightarrow> json" where
  "counter_json d = JDict (map (\<lambda>(k, n). (k, JInt (int n))) (sort d))"

text \<open>Iterating over a JSON value.\<close>

fun iterated :: "json \<Rightarrow> exc + json list" where
  "iterated (JList xs) = Inr xs"
| "iterated (JStr s) = Inr (map (\<lambda>c. JStr [c]) s)"
| "iterated (JDict d) = Inr (map (\<lambda>(k, _). JStr k) d)"
| "iterated _ = Inl (TypeError ''object is not iterable'')"

definition event_payload :: "json \<Rightarrow> exc + (string, json) dict" where
  "event_payload j = (case j of JDict d \<Rightarrow> Inr d | _ \<Rightarrow> Inl (AttributeError ''get''))"

definition evidence_control :: "string \<Rightarrow> string list \<Rightarrow> string \<Rightarrow> json" where
  "evidence_control name evidence status = JDict [(''control'', JStr name), (''evidence'', jstrs evidence), (''status'', JStr status)]"

definition evidence_controls :: "bool \<Rightarrow> json list" where
  "evidence_controls valid =
     [evidence_control ''Agent access is scoped and revocable'' [''registered_agents'', ''agent_token_issued'', ''agent_tokens_revoked''] ''implemented'',
      evidence_control ''Sensitive actions require deterministic policy review'' [''policy_decision'', ''approval_approved'', ''approval_rejected''] ''implemented'',
      evidence_control ''Data lineage and taint persist across tool calls'' [''tainted_traces'', ''provenance_attested''] ''implemented'',
      evidence_control ''Audit records are integrity checked'' [''audit_chain_valid''] (if valid then ''passing'' else ''failed''),
      evidence_control ''MCP tool definitions are inspected and baselined'' [''mcp_tools_baselined'', ''mcp_manifest_inspected''] ''implemented'']"

definition report_of :: "enforcement_mode \<Rightarrow> nat \<Rightarrow> (audit_row \<times> json) list \<Rightarrow> (string \<times> nat) list \<Rightarrow> bool \<Rightarrow> time \<Rightarrow> exc + json" where
  "report_of enforcement limit events counters valid now =
     (let decisions = filter (\<lambda>(r, _). au_type r = ''policy_decision'') events in
      ebind (traverse (\<lambda>(_, p). event_payload p) decisions) (\<lambda>payloads.
      ebind (traverse (\<lambda>d. iterated (dget d ''reason_codes'' (JList []))) payloads) (\<lambda>reasons.
      Inr (JDict
        [(''report'', JStr ''SentinelGate security evidence''), (''schema_version'', JStr ''1.0''),
         (''generated_at'', JStr (isoformat now)), (''product_version'', JStr ''0.11.0''),
         (''enforcement_mode'', JStr (mode_value enforcement)),
         (''scope'', JDict [(''audit_events_considered'', JInt (int (length events))), (''maximum_events'', JInt (int limit))]),
         (''integrity'', JDict [(''audit_chain_valid'', JBool valid)]),
         (''metrics'', JDict (map (\<lambda>(k, n). (k, JInt (int n))) counters)),
         (''policy_decisions'', JDict
           [(''total'', JInt (int (length decisions))),
            (''verdicts'', counter_json (counted (map (\<lambda>d. py_str (dget d ''decision'' (JStr ''unknown''))) payloads))),
            (''risk_levels'', counter_json (counted (map (\<lambda>d. py_str (dget d ''risk'' (JStr ''unknown''))) payloads))),
            (''top_reason_codes'', JList (map (\<lambda>(k, n). JDict [(''reason'', JStr k), (''count'', JInt (int n))])
               (most_common_of 10 (counted (map py_str (concat reasons))))))]),
         (''control_evidence'', JList (evidence_controls valid)),
         (''disclaimer'', JStr (''This is an operational evidence summary, not a SOC 2, ISO 27001, '' @
            ''HIPAA, GDPR, or other compliance certification.''))]))))"

definition security_evidence_report :: "deployment \<Rightarrow> settings \<Rightarrow> nat \<Rightarrow> json io" where
  "security_evidence_report env s limit =
     andthen (query (recent_audit limit)) (\<lambda>found. andthen (lift found) (\<lambda>events.
     andthen tick (\<lambda>now1. andthen tick (\<lambda>now2. andthen (query (metrics now1 now2)) (\<lambda>counters.
     andthen (query (verify_audit_chain (de_crypto env) (de_audit_key env))) (\<lambda>valid.
     andthen tick (\<lambda>now. lift (report_of (se_enforcement_mode s) limit events counters valid now))))))))"

end
