(* ===== verification/Api_Views.thy ===== *)
theory Api_Views
  imports Api Reporting
begin

text \<open>
  The routes of \<^verbatim>\<open>api.py\<close> that only read: a role is asked for, the store is read and nothing is
  written. The evidence files and the GitHub check are in \<open>Api_Extras\<close>; the HTML of the pages is not
  modelled.
\<close>

section \<open>Access\<close>

definition viewed :: "server \<Rightarrow> operator_role \<Rightarrow> bearer \<Rightarrow> 'a io \<Rightarrow> 'a io" where
  "viewed sv minimum credentials m = andthen (operator sv minimum credentials) (\<lambda>_. m)"

definition reading :: "(store \<Rightarrow> exc + 'a) \<Rightarrow> 'a io" where
  "reading q = andthen (query q) lift"

definition auth_config :: "settings \<Rightarrow> json" where
  "auth_config s = (let sso = browser_oidc_configured s in JDict
     [(''mode'', JStr (se_admin_auth_mode s)), (''federated_sign_in'', JBool (se_admin_auth_mode s \<in> {''oidc'', ''hybrid''})),
      (''development_token'', JBool (se_admin_auth_mode s \<in> {''shared'', ''hybrid''})), (''self_service_signup'', JBool False),
      (''browser_sso'', JBool sso), (''login_url'', if sso then JStr ''/auth/login'' else JNull),
      (''signup_reason'', JStr (''SentinelGate delegates operator lifecycle and MFA to the customer'' @ [CHR 0x27] @ ''s '' @
        ''identity provider instead of creating a second identity directory.''))])"

definition session :: "server \<Rightarrow> bearer \<Rightarrow> json io" where
  "session sv credentials = andthen (operator sv Viewer credentials) (\<lambda>who. ret (JDict
     [(''subject'', JStr (ai_subject who)), (''email'', jopt (ai_email who)), (''roles'', jstrs (sorted_set (ai_roles who)))]))"

section \<open>Health\<close>

definition backend :: "settings \<Rightarrow> string" where
  "backend s = (if postgres_url (se_database_url s) then ''postgresql'' else ''sqlite'')"

definition chain_valid :: "server \<Rightarrow> bool io" where
  "chain_valid sv = query (verify_audit_chain (sv_crypto sv) (de_audit_key (sv_env sv)))"

definition health :: "server \<Rightarrow> json io" where
  "health sv = andthen (chain_valid sv) (\<lambda>valid. ret (JDict
     [(''status'', JStr ''ok''), (''version'', JStr ''0.11.0''), (''enforcement_mode'', JStr (mode_value (se_enforcement_mode (sv_settings sv)))),
      (''audit_chain_valid'', JBool valid)]))"

definition ready :: "server \<Rightarrow> json io" where
  "ready sv = (let s = sv_settings sv; policy_file = fs_is_file (sv_files sv) (se_policy_path s) in
     andthen (chain_valid sv) (\<lambda>valid.
     let checks = JDict [(''database'', JStr (backend s)), (''audit_chain_valid'', JBool valid), (''policy_file'', JBool policy_file),
           (''mcp_configuration'', JBool (fs_is_file (sv_files sv) (se_mcp_upstreams_path s)))]
     in if \<not> valid \<or> \<not> policy_file
        then refuse 503 (dumps False (JDict [(''status'', JStr ''not_ready''), (''checks'', checks)]))
        else ret (JDict [(''status'', JStr ''ready''), (''checks'', checks)])))"

record setup_check =
  sk_id :: string
  sk_label :: string
  sk_status :: string
  sk_detail :: string
  sk_required :: bool

definition setup_checks :: "server \<Rightarrow> bool \<Rightarrow> (heartbeat_row \<times> string) list \<Rightarrow> setup_check list" where
  "setup_checks sv valid workers = (let s = sv_settings sv; webhook = given_text (se_approval_webhook_url s) in
     [\<lparr>sk_id = ''database'', sk_label = ''Transactional database'',
       sk_status = (if backend s = ''postgresql'' then ''passing'' else ''review''), sk_detail = backend s, sk_required = True\<rparr>,
      \<lparr>sk_id = ''audit'', sk_label = ''Audit chain'', sk_status = (if valid then ''passing'' else ''blocked''),
       sk_detail = (if valid then ''HMAC chain verified'' else ''Integrity failure''), sk_required = True\<rparr>,
      \<lparr>sk_id = ''policy'', sk_label = ''Policy loaded'',
       sk_status = (if fs_is_file (sv_files sv) (se_policy_path s) then ''passing'' else ''blocked''),
       sk_detail = se_policy_path s, sk_required = True\<rparr>,
      \<lparr>sk_id = ''identity'', sk_label = ''Operator identity'',
       sk_status = (if se_admin_auth_mode s \<in> {''oidc'', ''hybrid''} then ''passing'' else ''review''),
       sk_detail = se_admin_auth_mode s, sk_required = True\<rparr>,
      \<lparr>sk_id = ''notifications'', sk_label = ''Approval delivery'',
       sk_status = (if webhook \<and> list_ex (\<lambda>(_, status). status = ''online'') workers then ''passing''
         else if webhook then ''review'' else ''optional''),
       sk_detail = (if webhook \<and> workers \<noteq> [] then ''durable worker online''
         else if webhook then ''webhook configured; start worker'' else ''not configured''), sk_required = False\<rparr>])"

record setup_report =
  su_environment :: string
  su_mode :: enforcement_mode
  su_checks :: "setup_check list"
  su_local :: bool
  su_production :: bool

definition setup_status :: "server \<Rightarrow> bearer \<Rightarrow> setup_report io" where
  "setup_status sv credentials = viewed sv Viewer credentials (andthen tick (\<lambda>now.
     andthen (query (worker_status now 60)) (\<lambda>workers. andthen (chain_valid sv) (\<lambda>valid.
     let s = sv_settings sv; checks = setup_checks sv valid workers
     in ret \<lparr>su_environment = se_environment s, su_mode = se_enforcement_mode s, su_checks = checks,
          su_local = list_all (\<lambda>c. sk_status c \<noteq> ''blocked'') checks,
          su_production = (is_production s \<and> list_all (\<lambda>c. sk_required c \<longrightarrow> sk_status c = ''passing'') checks)\<rparr>))))"

section \<open>Listings\<close>

definition mcp_servers :: "server \<Rightarrow> bearer \<Rightarrow> (baseline_row \<times> json) list io" where
  "mcp_servers sv credentials = viewed sv Viewer credentials (reading list_mcp_tool_baselines)"

definition agents_endpoint :: "server \<Rightarrow> bearer \<Rightarrow> string option \<Rightarrow> (agent_row \<times> nat) list io" where
  "agents_endpoint sv credentials tenant = viewed sv Viewer credentials (andthen tick (\<lambda>now. query (list_agents now tenant)))"

definition approvals_endpoint :: "server \<Rightarrow> bearer \<Rightarrow> string option \<Rightarrow> approval list io" where
  "approvals_endpoint sv credentials status = viewed sv Viewer credentials
     (reading (list_approvals (sv_crypto sv) (de_data_key (sv_env sv)) status))"

definition current_policy_endpoint :: "server \<Rightarrow> bearer \<Rightarrow> policy io" where
  "current_policy_endpoint sv credentials = viewed sv Viewer credentials (ret ((gw_policy (sv_gateway sv))\<lparr>po_runtime := []\<rparr>))"

definition allowlist :: "settings \<Rightarrow> string list" where
  "allowlist s = sorted_set (repository_list s)"

definition connector :: "string \<Rightarrow> string \<Rightarrow> string \<Rightarrow> (string, json) dict \<Rightarrow> json" where
  "connector name status act extra = JDict ([(''name'', JStr name), (''status'', JStr status), (''mode'', JStr act)] @ extra)"

definition connector_list :: "files \<Rightarrow> settings \<Rightarrow> string \<Rightarrow> string list \<Rightarrow> json list" where
  "connector_list fs s mcp_status servers =
     (let present = list_all id (github_values s);
          usable = (present \<and> (case se_github_private_key_path s of None \<Rightarrow> False | Some p \<Rightarrow> fs_is_file fs p))
      in [connector ''knowledge'' (if fs_is_dir fs (se_knowledge_path s) then ''configured'' else ''unavailable'') ''read_only'' [],
          connector ''github_app'' (if usable then ''configured'' else if present then ''invalid_private_key'' else ''not_configured'')
            ''read_write_with_approval'' [(''repository_allowlist'', jstrs (allowlist s))],
          connector ''mcp_upstreams'' mcp_status ''inline_fail_closed'' [(''servers'', jstrs servers)]])"

definition connectors :: "server \<Rightarrow> bearer \<Rightarrow> json list io" where
  "connectors sv credentials = viewed sv Viewer credentials
     (case server_ids (sv_upstream sv) of
        Inr servers \<Rightarrow> ret (connector_list (sv_files sv) (sv_settings sv)
          (if servers \<noteq> [] then ''configured'' else ''not_configured'') servers)
      | Inl (UpstreamMCPError m) \<Rightarrow> ret (connector_list (sv_files sv) (sv_settings sv) ''invalid_configuration'' [])
      | Inl e \<Rightarrow> raise e)"

definition incidents_endpoint :: "server \<Rightarrow> bearer \<Rightarrow> nat \<Rightarrow> incident_row list io" where
  "incidents_endpoint sv credentials limit = viewed sv Viewer credentials (query (list_incidents limit))"

definition containments_endpoint :: "server \<Rightarrow> bearer \<Rightarrow> bool \<Rightarrow> containment_row list io" where
  "containments_endpoint sv credentials active_only = viewed sv Viewer credentials
     (andthen tick (\<lambda>now. query (list_containments now active_only)))"

definition audit_endpoint :: "server \<Rightarrow> bearer \<Rightarrow> nat \<Rightarrow> (audit_row \<times> json) list io" where
  "audit_endpoint sv credentials limit = viewed sv Viewer credentials (reading (recent_audit limit))"

definition activity :: "server \<Rightarrow> bearer \<Rightarrow> nat \<Rightarrow> string option \<Rightarrow> string option \<Rightarrow> string option \<Rightarrow> action_row list io" where
  "activity sv credentials limit tenant agent trace = viewed sv Viewer credentials (query (list_activity limit tenant agent trace))"

definition watch_summary_endpoint :: "server \<Rightarrow> bearer \<Rightarrow> string option \<Rightarrow> watch_overview io" where
  "watch_summary_endpoint sv credentials tenant = viewed sv Viewer credentials (query (watch_summary tenant))"

definition watch_tasks_endpoint :: "server \<Rightarrow> bearer \<Rightarrow> nat \<Rightarrow> string option \<Rightarrow> string option \<Rightarrow> string option \<Rightarrow> watch_task list io" where
  "watch_tasks_endpoint sv credentials limit tenant agent status = viewed sv Viewer credentials
     (query (list_watch_tasks limit tenant agent status))"

definition watch_task_events :: "server \<Rightarrow> bearer \<Rightarrow> string \<Rightarrow> nat \<Rightarrow> string option \<Rightarrow> string option \<Rightarrow> watch_event list io" where
  "watch_task_events sv credentials task limit tenant agent = viewed sv Viewer credentials
     (query (list_watch_events task tenant agent limit))"

definition watch_findings_endpoint :: "server \<Rightarrow> bearer \<Rightarrow> nat \<Rightarrow> string option \<Rightarrow> string option \<Rightarrow> string option \<Rightarrow> string option \<Rightarrow>
    watch_finding list io" where
  "watch_findings_endpoint sv credentials limit tenant agent task status = viewed sv Viewer credentials
     (query (list_watch_findings limit tenant agent task status))"

definition traces :: "server \<Rightarrow> bearer \<Rightarrow> nat \<Rightarrow> trace_overview list io" where
  "traces sv credentials limit = viewed sv Viewer credentials (reading (list_trace_summaries limit))"

definition trace_lineage :: "server \<Rightarrow> bearer \<Rightarrow> string \<Rightarrow> string option \<Rightarrow> lineage_row list io" where
  "trace_lineage sv credentials trace tenant = viewed sv Viewer credentials (query (list_lineage trace tenant))"

definition counters_now :: "(string \<times> nat) list io" where
  "counters_now = andthen tick (\<lambda>now1. andthen tick (\<lambda>now2. query (metrics now1 now2)))"

definition metrics_endpoint :: "server \<Rightarrow> bearer \<Rightarrow> (string \<times> nat) list io" where
  "metrics_endpoint sv credentials = viewed sv Viewer credentials counters_now"

record system_report =
  sy_environment :: string
  sy_mode :: enforcement_mode
  sy_backend :: string
  sy_valid :: bool
  sy_runtime :: telemetry_snapshot
  sy_workers :: "(heartbeat_row \<times> string) list"
  sy_pending :: nat
  sy_dead :: nat
  sy_jobs :: "job_view list"

text \<open>The telemetry of the process is an argument, read at the time of the call.\<close>

definition system_status :: "server \<Rightarrow> runtime_telemetry \<Rightarrow> bearer \<Rightarrow> system_report io" where
  "system_status sv telemetry credentials = viewed sv Viewer credentials
     (andthen counters_now (\<lambda>counters. andthen (chain_valid sv) (\<lambda>valid.
      andthen tick (\<lambda>t. andthen tick (\<lambda>now. andthen (query (worker_status now 60)) (\<lambda>workers. andthen (query (list_outbox 20)) (\<lambda>jobs.
      let s = sv_settings sv in ret \<lparr>sy_environment = se_environment s, sy_mode = se_enforcement_mode s, sy_backend = backend s,
        sy_valid = valid, sy_runtime = snapshot (of_int t / 1000000) telemetry, sy_workers = workers,
        sy_pending = dget counters ''notification_jobs_pending'' 0, sy_dead = dget counters ''notification_jobs_dead'' 0,
        sy_jobs = jobs\<rparr>)))))))"

definition work_jobs :: "server \<Rightarrow> bearer \<Rightarrow> nat \<Rightarrow> job_view list io" where
  "work_jobs sv credentials limit = viewed sv Analyst credentials (query (list_outbox limit))"

definition security_report :: "server \<Rightarrow> bearer \<Rightarrow> nat \<Rightarrow> json io" where
  "security_report sv credentials limit = viewed sv Viewer credentials
     (security_evidence_report (sv_env sv) (sv_settings sv) limit)"

definition prometheus_metrics :: "server \<Rightarrow> runtime_telemetry \<Rightarrow> bearer \<Rightarrow> string io" where
  "prometheus_metrics sv telemetry credentials = viewed sv Viewer credentials
     (andthen counters_now (\<lambda>counters. andthen tick (\<lambda>t. ret (prometheus (of_int t / 1000000) telemetry
        @ str_join [CHR 0x0A] (map (\<lambda>(k, n). ''sentinelgate_'' @ k @ '' '' @ show_nat n) counters) @ [CHR 0x0A]))))"

text \<open>\<^verbatim>\<open>csv.DictWriter\<close>: a field with a quote, a comma or a line break is quoted and its quotes are doubled.\<close>

definition csv_field :: "string \<Rightarrow> string" where
  "csv_field s = (if list_ex (\<lambda>c. c \<in> {CHR 0x22, CHR '','', CHR 0x0A, CHR 0x0D}) s
     then dq @ concat (map (\<lambda>c. if c = CHR 0x22 then [c, c] else [c]) s) @ dq else s)"

definition csv_row :: "string list \<Rightarrow> string" where
  "csv_row fs = str_join '','' (map csv_field fs) @ [CHR 0x0D, CHR 0x0A]"

text \<open>\<^verbatim>\<open>json.dumps(..., sort_keys=True)\<close> with the default separators.\<close>

fun spaced :: "json \<Rightarrow> string" and spaced_elems :: "json list \<Rightarrow> string list" and spaced_items :: "(string \<times> json) list \<Rightarrow> string list" where
  "spaced (JList xs) = ''['' @ str_join '', '' (spaced_elems xs) @ '']''"
| "spaced (JDict d) = ''{'' @ str_join '', '' (spaced_items d) @ ''}''"
| "spaced j = dumps True j"
| "spaced_elems [] = []"
| "spaced_elems (x # xs) = spaced x # spaced_elems xs"
| "spaced_items [] = []"
| "spaced_items ((k, v) # d) = (quote True k @ '': '' @ spaced v) # spaced_items d"

definition audit_csv :: "server \<Rightarrow> bearer \<Rightarrow> nat \<Rightarrow> string io" where
  "audit_csv sv credentials limit = viewed sv Viewer credentials
     (andthen (reading (recent_audit limit)) (\<lambda>events. ret (concat
        (csv_row [''id'', ''created_at'', ''event_type'', ''payload'', ''previous_hash'', ''event_hash'']
         # map (\<lambda>(r, j). csv_row [au_id r, isoformat (au_created r), au_type r, spaced (sort_keys j), au_previous r, au_hash r]) (rev events)))))"

definition CONSOLE_SECTIONS :: "string list" where
  "CONSOLE_SECTIONS = [''overview'', ''watch'', ''traces'', ''approvals'', ''agents'', ''incidents'', ''connectors'', ''mcp-security'',
     ''policy'', ''audit'', ''reports'', ''onboarding'', ''system'', ''benchmarks'', ''login'']"

text \<open>The section of the console whose page is sent.\<close>

definition console :: "string \<Rightarrow> exc + string" where
  "console section' = (if section' \<in> set CONSOLE_SECTIONS then Inr section' else Inl (HTTPException 404 ''Console page not found''))"

end
