(* ===== verification/Github_Safety.thy ===== *)
theory Github_Safety
  imports Github_Tools
begin

text \<open>
  Where the requests of the GitHub tools go and which token they carry: every request is one for an
  allow-listed repository, every call of the API carries a token that was minted for that repository
  and for the permissions of the operation, and no path leaves the repository by dot segments.
\<close>

section \<open>Paths\<close>

definition no_dots :: "string \<Rightarrow> bool" where
  "no_dots rest \<longleftrightarrow> ''..'' \<notin> set (str_split CHR ''/'' rest)"

lemma split_keeps:
  assumes "\<And>c. c \<noteq> b \<Longrightarrow> f c = c" "f b = d"
  shows "(b \<notin> set (hd (str_split d s)) \<longrightarrow> hd (str_split d (map f s)) = hd (str_split d s))
    \<and> (\<forall>p \<in> set (tl (str_split d s)). b \<notin> set p \<longrightarrow> p \<in> set (tl (str_split d (map f s))))"
proof (induction s)
  case (Cons x s)
  obtain p ps where p: "str_split d s = p # ps" by (cases "str_split d s") auto
  obtain q qs where q: "str_split d (map f s) = q # qs" by (cases "str_split d (map f s)") auto
  consider "x = d" "x \<noteq> b" | "x = b" "b \<noteq> d" | "x = d" "x = b" | "x \<noteq> d" "x \<noteq> b" by blast
  then show ?case using Cons p q assms by cases auto
qed simp

lemma split_survives:
  assumes "\<And>c. c \<noteq> b \<Longrightarrow> f c = c" "f b = d" "p \<in> set (str_split d s)" "b \<notin> set p"
  shows "p \<in> set (str_split d (map f s))"
  using split_keeps [OF assms(1,2), of s] assms(3,4)
  by (cases "str_split d s"; cases "str_split d (map f s)") auto

lemma validated_no_dots:
  assumes "validated_path v" shows "no_dots v"
  unfolding no_dots_def
proof
  assume d: "''..'' \<in> set (str_split CHR ''/'' v)"
  let ?f = "\<lambda>c. if c = CHR 0x5C then CHR ''/'' else c"
  have "str_replace [CHR 0x5C] ''/'' v = map ?f v" by (induction v) auto
  moreover have "''..'' \<in> set (str_split CHR ''/'' (map ?f v))"
    by (rule split_survives [OF _ _ d]) auto
  ultimately show False using assms by (auto simp: validated_path_def path_parts_def list_ex_iff)
qed

lemma percent_no_slash: "CHR ''/'' \<notin> set (percent c)"
proof -
  have n: "(of_char c :: nat) < 16 * 16" by simp
  have d: "(of_char c :: nat) div 16 < 16" "(of_char c :: nat) mod 16 < 16" using less_mult_imp_div_less [OF n] by simp_all
  have "CHR ''/'' \<noteq> (if k < 10 then char_of (48 + k) else char_of (55 + k :: nat))" if "k < 16" for k :: nat
  proof
    assume "CHR ''/'' = (if k < 10 then char_of (48 + k) else char_of (55 + k))"
    from arg_cong [OF this, of "of_char :: char \<Rightarrow> nat"] that show False by (simp split: if_splits)
  qed
  from this [OF d(1)] this [OF d(2)] show ?thesis by (auto simp: percent_def Let_def)
qed

lemma split_concat:
  assumes "\<And>c. c \<noteq> d \<Longrightarrow> d \<notin> set (f c)" "f d = [d]"
  shows "str_split d (concat (map f s)) = map (\<lambda>p. concat (map f p)) (str_split d s)"
proof (induction s)
  case (Cons x s)
  obtain p ps where p: "str_split d s = p # ps" by (cases "str_split d s") auto
  have pre: "d \<notin> set a \<Longrightarrow> str_split d (a @ t) = (a @ hd (str_split d t)) # tl (str_split d t)" for a t
    by (induction a) (auto split: list.splits)
  show ?case
  proof (cases "x = d")
    case False
    then show ?thesis using Cons p pre [OF assms(1) [OF False]] by simp
  qed (use Cons p assms(2) in simp)
qed simp

lemma quote_plain: "CHR ''%'' \<notin> set (url_quote keep s) \<Longrightarrow> url_quote keep s = s"
  by (induction s) (auto simp: url_quote_def percent_def Let_def split: if_splits)

lemma quote_dots: "url_quote keep s = ''..'' \<Longrightarrow> s = ''..''"
  using quote_plain [of keep s] by simp

lemma quoted_no_dots: "no_dots s \<Longrightarrow> no_dots (url_quote ''/'' s)"
proof -
  assume s: "no_dots s"
  have "str_split CHR ''/'' (url_quote ''/'' s) = map (url_quote ''/'') (str_split CHR ''/'' s)"
    unfolding url_quote_def by (rule split_concat) (auto simp: percent_no_slash)
  then show ?thesis using s quote_dots by (fastforce simp: no_dots_def)
qed

lemma no_dots_under: "CHR ''/'' \<notin> set s \<Longrightarrow> s \<noteq> ''..'' \<Longrightarrow> no_dots t \<Longrightarrow> no_dots (CHR ''/'' # s @ CHR ''/'' # t)"
  by (simp add: no_dots_def str_split_append)

lemma no_dots_last: "CHR ''/'' \<notin> set s \<Longrightarrow> s \<noteq> ''..'' \<Longrightarrow> no_dots s"
  by (simp add: no_dots_def str_split_no)

section \<open>Tokens and requests\<close>

text \<open>The token is what the network answered to an earlier request for a token with this key.\<close>

definition minted_for :: "github_client \<Rightarrow> http_request list \<Rightarrow> string \<times> permissions \<Rightarrow> string \<Rightarrow> bool" where
  "minted_for c sent key token \<longleftrightarrow> (\<exists>before jwt repo ps after status i body expiry. sent = before @ mint_request c jwt repo ps # after
     \<and> key = token_key repo ps \<and> gc_http c before (mint_request c jwt repo ps) = Answer status i body \<and> status < 400
     \<and> minted c body = Inr (token, expiry))"

lemma minted_later: "minted_for c sent key token \<Longrightarrow> minted_for c (sent @ more') key token"
  unfolding minted_for_def by (metis append.assoc append_Cons)

text \<open>A read asks for read permissions, everything else for write permissions.\<close>

definition fitting :: "string \<Rightarrow> permissions \<Rightarrow> bool" where
  "fitting method ps \<longleftrightarrow> map snd ps = (if method = ''GET'' then [''read''] else [''write''])"

text \<open>The path of the repository itself, or one below it without a parent segment.\<close>

definition in_repository :: "string \<Rightarrow> string \<Rightarrow> string \<Rightarrow> bool" where
  "in_repository owner repo path \<longleftrightarrow> (\<exists>rest. path = ''/repos/'' @ owner @ ''/'' @ repo @ rest \<and> no_dots rest
     \<and> (rest = [] \<or> hd rest = CHR ''/''))"

definition permitted :: "github_client \<Rightarrow> http_request list \<Rightarrow> http_request \<Rightarrow> bool" where
  "permitted c sent q \<longleftrightarrow> (\<exists>owner repo ps. full_name owner repo \<in> set (gc_allowed c)
     \<and> ((\<exists>jwt. q = mint_request c jwt repo ps)
        \<or> (\<exists>method path token body params. q = api_call method path token body params \<and> in_repository owner repo path
             \<and> fitting method ps \<and> minted_for c sent (token_key repo ps) token)))"

definition all_permitted :: "github_client \<Rightarrow> http_request list \<Rightarrow> bool" where
  "all_permitted c sent \<longleftrightarrow> (\<forall>before q after. sent = before @ q # after \<longrightarrow> permitted c before q)"

lemma all_permitted_Nil: "all_permitted c []"
  by (simp add: all_permitted_def)

lemma all_permitted_snoc: "all_permitted c (sent @ [q]) \<longleftrightarrow> all_permitted c sent \<and> permitted c sent q"
proof
  assume a: "all_permitted c (sent @ [q])"
  have "permitted c before r" if "sent = before @ r # after" for before r after
    using a that unfolding all_permitted_def by (metis append.assoc append_Cons)
  then show "all_permitted c sent \<and> permitted c sent q" using a by (auto simp: all_permitted_def)
next
  assume a: "all_permitted c sent \<and> permitted c sent q"
  show "all_permitted c (sent @ [q])" unfolding all_permitted_def
  proof (intro allI impI)
    fix before r after assume e: "sent @ [q] = before @ r # after"
    show "permitted c before r"
    proof (cases after rule: rev_cases)
      case Nil
      then show ?thesis using a e by simp
    next
      case (snoc as x)
      then show ?thesis using a e by (auto simp: all_permitted_def)
    qed
  qed
qed

definition github_ok :: "github_client \<Rightarrow> github_state \<Rightarrow> bool" where
  "github_ok c s \<longleftrightarrow> all_permitted c (gs_sent s)
     \<and> (\<forall>key token expiry. map_of (gs_tokens s) key = Some (token, expiry) \<longrightarrow> minted_for c (gs_sent s) key token)"

definition gh_keeps :: "github_client \<Rightarrow> 'a gh \<Rightarrow> bool" where
  "gh_keeps c m \<longleftrightarrow> (\<forall>s. github_ok c s \<longrightarrow> github_ok c (snd (m s)))"

lemma keeps_gh_ret: "gh_keeps c (gh_ret x)" and keeps_gh_fail: "gh_keeps c (gh_fail e)" and keeps_gh_lift: "gh_keeps c (gh_lift r)"
  by (simp_all add: gh_keeps_def gh_ret_def gh_fail_def gh_lift_def)

lemma keeps_gh_now: "gh_keeps c (gh_now c)"
  by (simp add: gh_keeps_def gh_now_def github_ok_def)

lemma keeps_gh_then: "gh_keeps c m \<Longrightarrow> (\<And>x. gh_keeps c (f x)) \<Longrightarrow> gh_keeps c (gh_then m f)"
  by (auto simp: gh_keeps_def gh_then_def split: prod.split sum.split)

lemma keeps_needing: "gh_keeps c m \<Longrightarrow> gh_keeps c (needing ks args m)"
  by (auto simp: needing_def keeps_gh_fail split: option.split)

lemma keeps_object: "gh_keeps c (object j)" and keeps_part: "gh_keeps c (part d k)"
  by (simp_all add: object_def part_def keeps_gh_lift)

lemma github_okD: "github_ok c s \<Longrightarrow> map_of (gs_tokens s) key = Some (token, expiry) \<Longrightarrow> minted_for c (gs_sent s) key token"
  unfolding github_ok_def by blast

lemma ok_send: "github_ok c s \<Longrightarrow> permitted c (gs_sent s) q \<Longrightarrow> github_ok c (s\<lparr>gs_sent := gs_sent s @ [q]\<rparr>)"
  by (auto simp: github_ok_def all_permitted_snoc minted_later)

lemma app_jwt_sent: "app_jwt c s = (r, s') \<Longrightarrow> gs_sent s' = gs_sent s \<and> gs_tokens s' = gs_tokens s"
  by (auto simp: app_jwt_def gh_fail_def gh_then_def gh_now_def gh_ret_def Let_def split: option.splits key_file.splits)

text \<open>A token that is returned was minted for the key, whether it comes from the cache or was minted now.\<close>

lemma mint_ok:
  assumes "github_ok c s" "full_name owner repo \<in> set (gc_allowed c)" "mint c repo ps s = (r, s')"
  shows "github_ok c s' \<and> (\<forall>token. r = Inr token \<longrightarrow> minted_for c (gs_sent s') (token_key repo ps) token)"
proof -
  obtain r1 s1 where j: "app_jwt c s = (r1, s1)" by force
  note f = app_jwt_sent [OF j]
  have ok1: "github_ok c s1" using assms(1) f by (simp add: github_ok_def)
  show ?thesis
  proof (cases r1)
    case (Inl e)
    then show ?thesis using assms(3) j ok1 by (auto simp: mint_def gh_then_def)
  next
    case (Inr jwt)
    let ?q = "mint_request c jwt repo ps"
    have p: "permitted c (gs_sent s1) ?q" using assms(2) by (auto simp: permitted_def)
    note ok2 = ok_send [OF ok1 p]
    have m: "minted_for c (gs_sent s1 @ [?q]) (token_key repo ps) token"
      if "gc_http c (gs_sent s1) ?q = Answer status i body" "\<not> 400 \<le> status" "minted c body = Inr (token, expiry)" for status i body token expiry
      unfolding minted_for_def using that by (intro exI [of _ "gs_sent s1"]) fastforce
    show ?thesis
    proof (cases "gc_http c (gs_sent s1) ?q")
      case (Answer status i body)
      then show ?thesis using assms(3) j Inr ok2 m [OF Answer]
        by (auto simp: mint_def gh_then_def gh_send_def gh_fail_def gh_lift_def github_ok_def update_conv' split: if_splits sum.splits)
    qed (use assms(3) j Inr ok2 in \<open>auto simp: mint_def gh_then_def gh_send_def gh_fail_def\<close>)
  qed
qed

lemma installation_ok:
  assumes "github_ok c s" "full_name owner repo \<in> set (gc_allowed c)" "installation_token c repo ps s = (r, s')"
  shows "github_ok c s' \<and> (\<forall>token. r = Inr token \<longrightarrow> minted_for c (gs_sent s') (token_key repo ps) token)"
proof (cases "map_of (gs_tokens s) (token_key repo ps)")
  case None
  then show ?thesis using assms mint_ok by (simp add: installation_token_def)
next
  case (Some te)
  obtain token expiry where te: "te = (token, expiry)" by force
  let ?s = "s\<lparr>gs_ticks := Suc (gs_ticks s)\<rparr>"
  have ok: "github_ok c ?s" "minted_for c (gs_sent ?s) (token_key repo ps) token"
    using assms(1) github_okD [OF assms(1)] Some te by (simp_all add: github_ok_def)
  then show ?thesis using assms(2,3) Some te mint_ok [OF ok(1) assms(2)]
    by (auto simp: installation_token_def gh_then_def gh_now_def gh_ret_def split: if_splits)
qed

lemma gh_then_run: "m s = (r, s') \<Longrightarrow> gh_then m f s = (case r of Inl e \<Rightarrow> (Inl e, s') | Inr x \<Rightarrow> f x s')"
  by (simp add: gh_then_def)

lemma sent_run: "gh_then (gh_send c q) f s = f (gc_http c (gs_sent s) q) (s\<lparr>gs_sent := gs_sent s @ [q]\<rparr>)"
  by (simp add: gh_then_def gh_send_def)

lemma request_ok:
  assumes "fitting act ps" "in_repository owner repo path"
  shows "gh_keeps c (github_request c act path owner repo ps body params)"
  unfolding gh_keeps_def
proof (intro allI impI)
  fix s assume s: "github_ok c s"
  obtain r s1 where i: "installation_token c repo ps s = (r, s1)" by force
  have run: "github_request c act path owner repo ps body params s = (case assert_repository c owner repo of
      Inl e \<Rightarrow> (Inl e, s)
    | Inr _ \<Rightarrow> (case r of Inl e \<Rightarrow> (Inl e, s1)
        | Inr token \<Rightarrow> (api_answer (gc_http c (gs_sent s1) (api_call act path token body params)),
            s1\<lparr>gs_sent := gs_sent s1 @ [api_call act path token body params]\<rparr>)))"
    unfolding github_request_def gh_then_run [of "gh_lift (assert_repository c owner repo)" s, OF gh_lift_def [THEN fun_cong]]
      gh_then_run [of "installation_token c repo ps", OF i] sent_run
    by (simp only: gh_lift_def)
  show "github_ok c (snd (github_request c act path owner repo ps body params s))"
  proof (cases "assert_repository c owner repo")
    case (Inr u)
    then have a: "full_name owner repo \<in> set (gc_allowed c)" by (auto simp: assert_repository_def split: if_splits)
    note ok = installation_ok [OF s a i]
    show ?thesis
    proof (cases r)
      case (Inr token)
      then have "minted_for c (gs_sent s1) (token_key repo ps) token" using ok by simp
      then have "permitted c (gs_sent s1) (api_call act path token body params)" unfolding permitted_def
        by (intro exI [of _ owner] exI [of _ repo] exI [of _ ps] conjI a disjI2 exI [of _ act] exI [of _ path] exI [of _ token]
            exI [of _ body] exI [of _ params] refl assms)
      from ok_send [OF ok [THEN conjunct1] this] show ?thesis
        using \<open>assert_repository c owner repo = Inr u\<close> Inr by (simp add: run)
    qed (use \<open>assert_repository c owner repo = Inr u\<close> ok in \<open>simp add: run\<close>)
  qed (use s in \<open>simp add: run\<close>)
qed

section \<open>The operations\<close>

lemma in_repository_under: "no_dots rest \<Longrightarrow> hd rest = CHR ''/'' \<Longrightarrow> in_repository (arg args ''owner'') (arg args ''repo'') (repo_path args @ rest)"
  by (simp add: in_repository_def repo_path_def)

lemma keeps_call: "fitting method ps \<Longrightarrow> no_dots rest \<Longrightarrow> hd rest = CHR ''/'' \<Longrightarrow> gh_keeps c (call_api c method rest args ps body params)"
  unfolding call_api_def by (intro keeps_gh_then request_ok in_repository_under keeps_object)

lemmas gh_rules = keeps_gh_then keeps_call keeps_needing keeps_part keeps_gh_ret keeps_gh_fail keeps_gh_lift

lemma fitting_simps [simp]: "fitting ''GET'' [(k, ''read'')]" "fitting ''POST'' [(k, ''write'')]" "fitting ''PUT'' [(k, ''write'')]"
  by (simp_all add: fitting_def)

text \<open>What the validators leave of the arguments.\<close>

lemma with_fields_Some: "with_fields b fs = Some args \<Longrightarrow> \<exists>d e. b = Some d \<and> collect (\<lambda>(k, v). map_option (\<lambda>j. (k, j)) v) fs = Some e \<and> args = d @ e"
  by (auto simp: with_fields_def split: option.splits)

lemma text_field_Some: "text_field d k ok fallback = Some v \<Longrightarrow> ok v \<or> fallback = Some v"
  by (auto simp: text_field_def split: option.splits if_splits)

lemma repository_keys: "repository_arguments d = Some b \<Longrightarrow> \<exists>owner repo. b = [(''owner'', JStr owner), (''repo'', JStr repo)] \<and> name_ok owner \<and> name_ok repo"
  by (auto simp: repository_arguments_def split: option.splits dest!: text_field_Some)

lemma issue_dots:
  assumes "issue_arguments d = Some args \<or> comment_arguments d = Some args"
  shows "no_dots (''/issues/'' @ arg args ''issue_number'') \<and> no_dots (''/issues/'' @ arg args ''issue_number'' @ ''/comments'')"
proof -
  obtain i where i: "jget args ''issue_number'' = JInt i" "1 \<le> i"
    using assms by (auto simp: issue_arguments_def comment_arguments_def issue_number_def jget_def dget_def
        dest!: with_fields_Some repository_keys split: if_splits option.splits json.splits)
  have "set (show_int i) \<subseteq> Collect is_digit" using i(2) show_nat_digits by (auto simp: show_int_def)
  then have n: "CHR ''/'' \<notin> set (arg args ''issue_number'')" "arg args ''issue_number'' \<noteq> ''..''"
    using i by (auto simp: py_str_def is_digit_def)
  have "no_dots ''comments''" by code_simp
  then show ?thesis using n str_split_append [of "CHR ''/''" "''issues''"] str_split_append [OF n(1)]
    by (simp add: no_dots_def str_split_no)
qed

lemma contents_dots: "validated_path p \<Longrightarrow> no_dots (''/contents/'' @ url_quote ''/'' p)"
  using quoted_no_dots [OF validated_no_dots] str_split_append [of "CHR ''/''" "''contents''"] by (simp add: no_dots_def)

lemma quoted_no_slash: "CHR ''/'' \<notin> set (url_quote [] r)"
proof -
  have "\<not> url_safe CHR ''/''" by (simp add: url_safe_def is_alnum_def)
  then show ?thesis using percent_no_slash by (auto simp: url_quote_def)
qed

lemma ref_dots: "validated_branch r \<Longrightarrow> no_dots (''/git/ref/heads/'' @ url_quote [] r)"
proof -
  assume v: "validated_branch r"
  have "str_in ''..'' ''..''" by code_simp
  then have "r \<noteq> ''..''" using v by (auto simp: validated_branch_def)
  then have "url_quote [] r \<noteq> ''..''" using quote_dots by blast
  then show ?thesis using str_split_no [OF quoted_no_slash] by (simp add: no_dots_def)
qed

lemma path_argument:
  assumes "read_file_arguments d = Some args \<or> update_file_arguments d = Some args" shows "validated_path (arg args ''path'')"
  using assms by (auto simp: read_file_arguments_def update_file_arguments_def jget_def dget_def py_str_def
      dest!: with_fields_Some repository_keys text_field_Some split: if_splits option.splits)

lemma update_argument:
  assumes "update_file_arguments d = Some args"
  shows "validated_path (arg args ''path'') \<and> \<not> workflow_path (arg args ''path'') \<and> validated_branch (arg args ''branch'')
    \<and> \<not> protected_branch (arg args ''branch'') \<and> length (arg args ''content'') \<le> 256000"
  using assms
  by (auto simp: update_file_arguments_def jget_def dget_def py_str_def bounded_def
      dest!: with_fields_Some repository_keys text_field_Some split: if_splits option.splits)

lemma from_ref_argument: "create_branch_arguments d = Some args \<Longrightarrow> validated_branch (arg args ''from_ref'')"
proof -
  have "validated_branch ''main''" by code_simp
  moreover assume "create_branch_arguments d = Some args"
  ultimately show ?thesis by (auto simp: create_branch_arguments_def jget_def dget_def py_str_def
      dest!: with_fields_Some repository_keys text_field_Some split: if_splits option.splits)
qed

text \<open>The model of each tool, as registered.\<close>

definition github_model :: "string \<Rightarrow> ((string, json) dict \<Rightarrow> (string, json) dict option) option" where
  "github_model name = map_of [(''github_get_issue'', issue_arguments), (''github_read_file'', read_file_arguments),
     (''github_comment_issue'', comment_arguments), (''github_create_branch'', create_branch_arguments),
     (''github_create_pull_request'', pull_request_arguments), (''github_update_file'', update_file_arguments)] name"

lemma operation_keeps:
  assumes "github_operation name = Some f" "github_model name = Some m" "m d = Some args"
  shows "gh_keeps c (f c args)"
proof -
  have fixed: "no_dots ''/git/refs''" "no_dots ''/pulls''" by code_simp+
  consider "f = get_issue" "issue_arguments d = Some args" | "f = read_file" "read_file_arguments d = Some args"
    | "f = comment_issue" "comment_arguments d = Some args" | "f = create_branch" "create_branch_arguments d = Some args"
    | "f = create_pull_request" | "f = update_file" "update_file_arguments d = Some args"
    using assms by (auto simp: github_operation_def github_model_def split: if_splits)
  then show ?thesis
  proof cases
    case 1
    then show ?thesis using issue_dots [of d args] by (auto simp: get_issue_def intro!: gh_rules)
  next
    case 2
    then show ?thesis using contents_dots [OF path_argument [of d args]] by (auto simp: read_file_def intro!: gh_rules)
  next
    case 3
    then show ?thesis using issue_dots [of d args] by (auto simp: comment_issue_def intro!: gh_rules)
  next
    case 4
    then show ?thesis using ref_dots [OF from_ref_argument] fixed by (auto simp: create_branch_def intro!: gh_rules)
  next
    case 5
    then show ?thesis using fixed by (auto simp: create_pull_request_def intro!: gh_rules)
  next
    case 6
    then show ?thesis using contents_dots [OF path_argument [of d args]] by (auto simp: update_file_def intro!: gh_rules)
  qed
qed

lemma history_ok:
  assumes "\<forall>(name, args) \<in> set h. github_operation name \<noteq> None \<longrightarrow> (\<exists>m d. github_model name = Some m \<and> m d = Some args)"
  shows "github_ok c (github_after c h)"
  using assms
proof (induction h rule: rev_induct)
  case Nil
  show ?case by (simp add: github_ok_def all_permitted_Nil new_github_state_def)
next
  case (snoc x h)
  obtain name args where x: "x = (name, args)" by force
  show ?case
  proof (cases "github_operation name")
    case (Some f)
    then obtain m d where "github_model name = Some m" "m d = Some args" using snoc.prems x by auto
    from operation_keeps [OF Some this] show ?thesis using snoc x Some by (simp add: gh_keeps_def)
  qed (use snoc x in simp)
qed

lemma registered_model:
  assumes "register_github_tools schema c base = Inr reg" "github_operation name \<noteq> None"
  shows "\<exists>t m. map_of reg name = Some t \<and> rt_model t = Some m \<and> github_model name = Some (am_validate m)"
  using assms
  by (auto simp: register_github_tools_def ebind_Inr_iff register_def update_conv' github_operation_def github_model_def Let_def
      split: if_splits)

section \<open>Properties\<close>

lemma verify_keeps: "gh_keeps c (verify_github c)"
proof -
  have "in_repository owner repo (''/repos/'' @ owner @ ''/'' @ repo)" for owner repo
    by (simp add: in_repository_def no_dots_def)
  then show ?thesis unfolding verify_github_def Let_def
    by (auto intro!: gh_rules request_ok split: list.split option.split)
qed

lemma github_ok_new: "github_ok c new_github_state"
  by (simp add: github_ok_def all_permitted_Nil new_github_state_def)

text \<open>
  C21. The GitHub tools stay within the allow-list: after any invocations with arguments that the
  registry accepted, whatever the network answered, each request the client sent is either one for an
  installation token of an allow-listed repository, or a call of the API below
  \<^verbatim>\<open>/repos/<owner>/<repo>\<close> of an allow-listed repository, without a segment \<^verbatim>\<open>..\<close>, that carries a token
  which GitHub issued before for a repository of that name with read permission (for a GET) or with
  write permission (for the rest). So does the check of the connector.
\<close>

theorem github_stays_in_repositories:
  assumes "register_github_tools schema c base = Inr reg"
    and "\<forall>(name, args) \<in> set h. \<exists>d. validate_arguments js reg name d = Inr args"
  shows "all_permitted c (gs_sent (github_after c h)) \<and> all_permitted c (gs_sent (snd (verify_github c new_github_state)))"
proof -
  have "\<exists>m d. github_model name = Some m \<and> m d = Some args" if i: "(name, args) \<in> set h" "github_operation name \<noteq> None" for name args
  proof -
    obtain t m where t: "map_of reg name = Some t" "rt_model t = Some m" "github_model name = Some (am_validate m)"
      using registered_model [OF assms(1) i(2)] by blast
    obtain d where "validate_arguments js reg name d = Inr args" using assms(2) i(1) by blast
    then show ?thesis using t by (auto simp: validate_arguments_def Let_def split: option.splits)
  qed
  then have "github_ok c (github_after c h)" by (intro history_ok) auto
  moreover have "github_ok c (snd (verify_github c new_github_state))"
    using verify_keeps [of c] github_ok_new [of c] by (simp add: gh_keeps_def)
  ultimately show ?thesis by (simp add: github_ok_def)
qed

definition demo_client :: github_client where
  "demo_client = \<lparr>gc_app_id = Some ''app'', gc_installation = Some 7, gc_key_path = Some ''key.pem'',
     gc_allowed = allow_repositories [''Acme/App''], gc_key_file = (\<lambda>_. Rsa_Key (\<lambda>s. ''s'')),
     gc_http = (\<lambda>sent q. if hq_path q = ''/app/installations/7/access_tokens''
       then Answer 201 None (Some (JDict [(''token'', JStr (''t'' @ show_nat (length sent))), (''expires_at'', JInt 3600)]))
       else Answer 200 None (Some (JDict [(''object'', JDict [(''sha'', JStr ''c0ffee'')])]))),
     gc_clock = (\<lambda>n. 1000000 * int n), gc_read_time = (\<lambda>j. case j of JInt i \<Rightarrow> Some (seconds i) | _ \<Rightarrow> None)\<rparr>"

definition demo_branch :: "(string, json) dict" where
  "demo_branch = [(''owner'', JStr ''acme''), (''repo'', JStr ''app''), (''branch'', JStr ''feature/x'')]"

definition branch_once :: "(string \<times> (string, json) dict) list" where
  "branch_once = [(''github_create_branch'', demo_branch @ [(''from_ref'', JStr ''main'')])]"

lemma branch_once_after:
  "github_after demo_client branch_once = snd (create_branch demo_client (demo_branch @ [(''from_ref'', JStr ''main'')]) new_github_state)"
  by (simp add: branch_once_def github_operation_def)

text \<open>The invocation needs a token for reading and one for writing.\<close>

theorem github_stays_in_repositories_witness:
  "all_permitted demo_client (gs_sent (github_after demo_client branch_once))
     \<and> map (\<lambda>q. (hq_path q, if hq_path q = ''/app/installations/7/access_tokens'' then None else map_of (hq_headers q) ''Authorization''))
           (gs_sent (github_after demo_client branch_once)) =
         [(''/app/installations/7/access_tokens'', None), (''/repos/acme/app/git/ref/heads/main'', Some ''Bearer t0''),
          (''/app/installations/7/access_tokens'', None), (''/repos/acme/app/git/refs'', Some ''Bearer t2'')]"
proof
  let ?js = "\<lparr>js_check = (\<lambda>_. True), js_accepts = (\<lambda>_ _. True)\<rparr>"
  obtain reg where r: "register_github_tools (\<lambda>_. JNull) demo_client [] = Inr reg"
    by (auto simp: register_github_tools_def register_def update_conv' Let_def)
  have m: "create_branch_arguments demo_branch = Some (demo_branch @ [(''from_ref'', JStr ''main'')])" by code_simp
  obtain t v where t: "map_of reg ''github_create_branch'' = Some t" "rt_model t = Some v" "am_validate v = create_branch_arguments"
    using registered_model [OF r, of "''github_create_branch''"] by (auto simp: github_operation_def github_model_def)
  then have "validate_arguments ?js reg ''github_create_branch'' demo_branch = Inr (demo_branch @ [(''from_ref'', JStr ''main'')])"
    using m by (simp add: validate_arguments_def)
  then show "all_permitted demo_client (gs_sent (github_after demo_client branch_once))"
    by (intro github_stays_in_repositories [OF r, of _ ?js, THEN conjunct1]) (auto simp: branch_once_def)
qed (unfold branch_once_after, code_simp)

text \<open>
  Arguments that the model of \<^verbatim>\<open>github_update_file\<close> accepts name a file that is neither a secret
  nor a workflow on a branch that is not protected: no segment of the path is empty or a dot segment,
  also when backslashes separate them, its last one is no environment file and no key, the path does
  not begin with the directory of the workflows, and the branch is neither main nor master, in any
  case of letters.
\<close>

theorem writes_avoid_protected:
  assumes "update_file_arguments d = Some args"
  shows "list_all (\<lambda>p. p \<notin> {[], ''.'', ''..''}) (path_parts (arg args ''path''))
    \<and> \<not> secret_file (casefold (last (path_parts (arg args ''path'')))) \<and> \<not> workflow_path (arg args ''path'')
    \<and> \<not> protected_branch (arg args ''branch'') \<and> \<not> str_in ''..'' (arg args ''branch'') \<and> length (arg args ''content'') \<le> 256000"
  using update_argument [OF assms] by (simp add: validated_path_def validated_branch_def list_all_iff list_ex_iff)

text \<open>The comparison with the directory of the workflows is made before backslashes are read as separators.\<close>

definition backslash_workflow :: "(string, json) dict" where
  "backslash_workflow = [(''owner'', JStr ''acme''), (''repo'', JStr ''app''), (''path'', JStr (''.github'' @ [CHR 0x5C] @ ''workflows'' @ [CHR 0x5C] @ ''d.yml'')),
     (''content'', JStr ''x''), (''message'', JStr ''m''), (''branch'', JStr ''feature'')]"

theorem writes_avoid_protected_witness:
  "\<exists>args. update_file_arguments backslash_workflow = Some args \<and> path_parts (arg args ''path'') = [''.github'', ''workflows'', ''d.yml'']
     \<and> \<not> workflow_path (arg args ''path'')"
proof -
  let ?args = "backslash_workflow @ [(''sha'', JNull)]"
  let ?p = "''.github'' @ [CHR 0x5C] @ ''workflows'' @ [CHR 0x5C] @ ''d.yml''"
  have ok: "name_ok ''acme''" "name_ok ''app''" "validated_path ?p" "\<not> workflow_path ?p" "branch_ok ''feature''" "validated_branch ''feature''"
    "\<not> protected_branch ''feature''" by code_simp+
  have u: "update_file_arguments backslash_workflow = Some ?args"
    using ok by (simp add: update_file_arguments_def with_fields_def repository_arguments_def text_field_def backslash_workflow_def
        bounded_def only_fields_def sha_field_def)
  have "path_parts (arg ?args ''path'') = [''.github'', ''workflows'', ''d.yml'']" by code_simp
  then show ?thesis using u writes_avoid_protected [OF u] by blast
qed

end
