(* ===== verification/Api_Requests.thy ===== *)
theory Api_Requests
  imports Api_Extras
begin

text \<open>
  A request to the server of \<open>Api\<close>, \<open>Api_Views\<close> and \<open>Api_Extras\<close>, every route but those of the static
  pages, and serving it: the answer (a value or an
  exception), the server after it (only the mediation of an MCP server changes it, by registering
  tools) and the world after it, also when it failed. The bodies of the answers are those of the
  routes; here only their status counts.
\<close>

datatype api_view =
    Get_Session | Get_Setup_Status | Get_Mcp_Servers | Get_Agents "string option" | Get_Approvals "string option"
  | Get_Policy | Get_Connectors | Get_Incidents nat | Get_Containments bool | Get_Audit nat
  | Get_Activity nat "string option" "string option" "string option"
  | Get_Watch_Summary "string option" | Get_Watch_Tasks nat "string option" "string option" "string option"
  | Get_Watch_Events string nat "string option" "string option"
  | Get_Watch_Findings nat "string option" "string option" "string option" "string option"
  | Get_Traces nat | Get_Lineage string "string option" | Get_Metrics | Get_System runtime_telemetry | Get_Jobs nat
  | Get_Report nat | Get_Audit_Csv nat | Get_Prometheus runtime_telemetry | Get_Benchmarks

datatype api_request =
    Post_Mcp bearer "(string, json) dict"
  | Post_Upstream bearer string "(string, json) dict"
  | Post_Evaluate bearer tool_call
  | Post_Execute bearer tool_call
  | Post_Attest bearer attest_request
  | Post_Attest_Structured bearer structured_request
  | Post_Derive bearer derive_request
  | Post_Watch_Task bearer watch_task_request
  | Post_Watch_Event bearer watch_event_request
  | Post_Inspect bearer string inspection_request
  | Post_Token bearer token_request
  | Post_Revoke bearer string string string
  | Post_Declassify bearer declassification_request
  | Post_Contain bearer string string containment_request
  | Post_Release_Containment bearer string string
  | Post_Release_Agent bearer string string string
  | Post_Approve bearer string string
  | Post_Reject bearer string string
  | Post_Execute_Approval bearer string
  | Post_Simulate bearer simulation_request
  | Post_Replay bearer "policy option" nat
  | Post_Incident bearer string string string
  | Post_Finding bearer string string string
  | Post_Verify_Github bearer
  | Get_Auth_Config
  | Get_Login string
  | Get_Callback "string option" string string
  | Get_Health
  | Get_Ready
  | Get_View bearer api_view

definition status_only :: "'a io \<Rightarrow> unit io" where
  "status_only m = andthen m (\<lambda>_. ret ())"

fun show_view :: "server \<Rightarrow> bearer \<Rightarrow> api_view \<Rightarrow> unit io" where
  "show_view sv b Get_Session = status_only (session sv b)"
| "show_view sv b Get_Setup_Status = status_only (setup_status sv b)"
| "show_view sv b Get_Mcp_Servers = status_only (mcp_servers sv b)"
| "show_view sv b (Get_Agents tenant) = status_only (agents_endpoint sv b tenant)"
| "show_view sv b (Get_Approvals status) = status_only (approvals_endpoint sv b status)"
| "show_view sv b Get_Policy = status_only (current_policy_endpoint sv b)"
| "show_view sv b Get_Connectors = status_only (connectors sv b)"
| "show_view sv b (Get_Incidents limit) = status_only (incidents_endpoint sv b limit)"
| "show_view sv b (Get_Containments active) = status_only (containments_endpoint sv b active)"
| "show_view sv b (Get_Audit limit) = status_only (audit_endpoint sv b limit)"
| "show_view sv b (Get_Activity limit tenant agent trace) = status_only (activity sv b limit tenant agent trace)"
| "show_view sv b (Get_Watch_Summary tenant) = status_only (watch_summary_endpoint sv b tenant)"
| "show_view sv b (Get_Watch_Tasks limit tenant agent status) = status_only (watch_tasks_endpoint sv b limit tenant agent status)"
| "show_view sv b (Get_Watch_Events task limit tenant agent) = status_only (watch_task_events sv b task limit tenant agent)"
| "show_view sv b (Get_Watch_Findings limit tenant agent task status) =
     status_only (watch_findings_endpoint sv b limit tenant agent task status)"
| "show_view sv b (Get_Traces limit) = status_only (traces sv b limit)"
| "show_view sv b (Get_Lineage trace tenant) = status_only (trace_lineage sv b trace tenant)"
| "show_view sv b Get_Metrics = status_only (metrics_endpoint sv b)"
| "show_view sv b (Get_System telemetry) = status_only (system_status sv telemetry b)"
| "show_view sv b (Get_Jobs limit) = status_only (work_jobs sv b limit)"
| "show_view sv b (Get_Report limit) = status_only (security_report sv b limit)"
| "show_view sv b (Get_Audit_Csv limit) = status_only (audit_csv sv b limit)"
| "show_view sv b (Get_Prometheus telemetry) = status_only (prometheus_metrics sv telemetry b)"
| "show_view sv b Get_Benchmarks = status_only (benchmark_evidence sv b)"

fun respond :: "server \<Rightarrow> api_request \<Rightarrow> unit io" where
  "respond sv (Post_Mcp b payload) = status_only (mcp_endpoint sv b payload)"
| "respond sv (Post_Upstream b server payload) = status_only (upstream_mcp_endpoint sv b server payload)"
| "respond sv (Post_Evaluate b call) = status_only (evaluate_endpoint sv b call)"
| "respond sv (Post_Execute b call) = status_only (execute_endpoint sv b call)"
| "respond sv (Post_Attest b q) = status_only (attest_provenance sv b q)"
| "respond sv (Post_Attest_Structured b q) = status_only (attest_structured_provenance sv b q)"
| "respond sv (Post_Derive b q) = status_only (derive_structured_provenance sv b q)"
| "respond sv (Post_Watch_Task b q) = status_only (create_watch_task_endpoint sv b q)"
| "respond sv (Post_Watch_Event b q) = status_only (ingest_watch_event sv b q)"
| "respond sv (Post_Inspect b server q) = status_only (inspect_mcp_server sv b server q)"
| "respond sv (Post_Token b q) = status_only (issue_agent_token sv b q)"
| "respond sv (Post_Revoke b tenant agent remark) = status_only (revoke_agent sv b tenant agent remark)"
| "respond sv (Post_Declassify b q) = status_only (declassify_provenance sv b q)"
| "respond sv (Post_Contain b tenant agent q) = status_only (contain_endpoint sv b tenant agent q)"
| "respond sv (Post_Release_Containment b i remark) = status_only (release_containment_endpoint sv b i remark)"
| "respond sv (Post_Release_Agent b tenant agent remark) = status_only (release_agent_endpoint sv b tenant agent remark)"
| "respond sv (Post_Approve b i remark) = status_only (approve sv b i remark)"
| "respond sv (Post_Reject b i remark) = status_only (reject sv b i remark)"
| "respond sv (Post_Execute_Approval b i) = status_only (execute_approved_endpoint sv b i)"
| "respond sv (Post_Simulate b q) = status_only (simulate_endpoint sv b q)"
| "respond sv (Post_Replay b other limit) = status_only (replay_endpoint sv b other limit)"
| "respond sv (Post_Incident b i status remark) = status_only (update_incident_endpoint sv b i status remark)"
| "respond sv (Post_Finding b i status remark) = status_only (update_finding_endpoint sv b i status remark)"
| "respond sv (Post_Verify_Github b) = status_only (verify_github_connector sv b)"
| "respond sv Get_Auth_Config = status_only (ret (auth_config (sv_settings sv)))"
| "respond sv (Get_Login page) = status_only (oidc_login sv page)"
| "respond sv (Get_Callback cookie code state) = status_only (oidc_callback sv cookie code state)"
| "respond sv Get_Health = status_only (health sv)"
| "respond sv Get_Ready = status_only (ready sv)"
| "respond sv (Get_View b v) = show_view sv b v"

text \<open>The server after a request: the tools that a mediation registered stay registered.\<close>

fun server_after :: "server \<Rightarrow> api_request \<Rightarrow> world \<Rightarrow> server" where
  "server_after sv (Post_Upstream b server payload) w = (case upstream_mcp_endpoint sv b server payload w of
      (Inr (_, gw), _) \<Rightarrow> sv\<lparr>sv_gateway := gw\<rparr>
    | _ \<Rightarrow> sv)"
| "server_after sv q w = sv"

definition serve :: "api_request \<Rightarrow> server \<times> world \<Rightarrow> server \<times> world" where
  "serve q = (\<lambda>(sv, w). (server_after sv q w, snd (respond sv q w)))"

abbreviation serve_all :: "api_request list \<Rightarrow> server \<times> world \<Rightarrow> server \<times> world" where
  "serve_all qs x \<equiv> fold serve qs x"

section \<open>Who may make a request\<close>

datatype access = Anyone | Agent_Token bearer | Operator_Role operator_role bearer

fun access_of :: "api_request \<Rightarrow> access" where
  "access_of (Post_Mcp b payload) = Agent_Token b"
| "access_of (Post_Upstream b server payload) = Agent_Token b"
| "access_of (Post_Evaluate b call) = Agent_Token b"
| "access_of (Post_Execute b call) = Agent_Token b"
| "access_of (Post_Attest b q) = Agent_Token b"
| "access_of (Post_Attest_Structured b q) = Agent_Token b"
| "access_of (Post_Derive b q) = Agent_Token b"
| "access_of (Post_Watch_Task b q) = Agent_Token b"
| "access_of (Post_Watch_Event b q) = Agent_Token b"
| "access_of (Post_Inspect b server q) = Operator_Role Administrator b"
| "access_of (Post_Token b q) = Operator_Role Administrator b"
| "access_of (Post_Revoke b tenant agent remark) = Operator_Role Administrator b"
| "access_of (Post_Declassify b q) = Operator_Role Administrator b"
| "access_of (Post_Contain b tenant agent q) = Operator_Role Administrator b"
| "access_of (Post_Release_Containment b i remark) = Operator_Role Administrator b"
| "access_of (Post_Release_Agent b tenant agent remark) = Operator_Role Administrator b"
| "access_of (Post_Approve b i remark) = Operator_Role Approver b"
| "access_of (Post_Reject b i remark) = Operator_Role Approver b"
| "access_of (Post_Execute_Approval b i) = Operator_Role Approver b"
| "access_of (Post_Simulate b q) = Operator_Role Analyst b"
| "access_of (Post_Replay b other limit) = Operator_Role Analyst b"
| "access_of (Post_Incident b i status remark) = Operator_Role Analyst b"
| "access_of (Post_Finding b i status remark) = Operator_Role Analyst b"
| "access_of (Post_Verify_Github b) = Operator_Role Administrator b"
| "access_of Get_Auth_Config = Anyone"
| "access_of (Get_Login page) = Anyone"
| "access_of (Get_Callback cookie code state) = Anyone"
| "access_of Get_Health = Anyone"
| "access_of Get_Ready = Anyone"
| "access_of (Get_View b (Get_Jobs limit)) = Operator_Role Analyst b"
| "access_of (Get_View b v) = Operator_Role Viewer b"

text \<open>The credentials are accepted at the start of the request.\<close>

definition agent_admitted :: "server \<Rightarrow> bearer \<Rightarrow> world \<Rightarrow> agent_principal \<Rightarrow> bool" where
  "agent_admitted sv b w agent \<longleftrightarrow> (\<exists>scheme token. b = Some (scheme, token) \<and> casefold scheme = ''bearer''
     \<and> agent_principal_of (sv_crypto sv) (sv_signer sv) (wo_clock w (wo_ticks w)) token = Inr agent
     \<and> token_is_active (wo_clock w (Suc (wo_ticks w))) agent (wo_store w))"

definition operator_admitted :: "server \<Rightarrow> operator_role \<Rightarrow> bearer \<Rightarrow> world \<Rightarrow> admin_identity \<Rightarrow> bool" where
  "operator_admitted sv minimum b w who \<longleftrightarrow>
     operator_identity (sv_jwt sv) (sv_settings sv) (wo_clock w (wo_ticks w)) b = Inr who \<and> role_allowed (sv_settings sv) minimum who"

definition admitted_to :: "server \<Rightarrow> access \<Rightarrow> world \<Rightarrow> bool" where
  "admitted_to sv a w \<longleftrightarrow> (case a of Anyone \<Rightarrow> True | Agent_Token b \<Rightarrow> \<exists>agent. agent_admitted sv b w agent
     | Operator_Role r b \<Rightarrow> \<exists>who. operator_admitted sv r b w who)"

lemma require_agent_cases:
  "(\<exists>agent. agent_admitted sv b w agent \<and> require_agent sv b w = (Inr agent, w\<lparr>wo_ticks := Suc (Suc (wo_ticks w))\<rparr>))
   \<or> (\<forall>agent. \<not> agent_admitted sv b w agent) \<and> (\<exists>e n. require_agent sv b w = (Inl e, w\<lparr>wo_ticks := n\<rparr>))"
  unfolding require_agent_def
  by (auto simp: agent_admitted_def token_holder_def catching_def andthen_tick andthen_query andthen_def [of "lift x" for x] lift_run
    refuse_def raise_run ret_run split: option.split sum.split exc.split) (metis world.surjective world.update_convs(3))+

lemma operator_cases:
  "(\<exists>who. operator_admitted sv r b w who \<and> operator sv r b w = (Inr who, w\<lparr>wo_ticks := Suc (wo_ticks w)\<rparr>))
   \<or> (\<forall>who. \<not> operator_admitted sv r b w who) \<and> (\<exists>e. operator sv r b w = (Inl e, w\<lparr>wo_ticks := Suc (wo_ticks w)\<rparr>))"
  by (cases "operator_identity (sv_jwt sv) (sv_settings sv) (wo_clock w (wo_ticks w)) b")
     (auto simp: operator_def operator_admitted_def andthen_tick lift_run require_operator_def enforce_operator_role_def)

end
