(* ===== verification/Api_Steps.thy ===== *)
theory Api_Steps
  imports Api_Requests
begin

text \<open>
  What requests do to the store, as step relations on top of that of the gateway: the steps of a
  request with an agent's token (\<open>agent_step\<close>) and those of any request (\<open>api_step\<close>). Each route is
  proved once to be a sequence of steps, in a locale for the routes that invoke no tool and in one
  for those that may; the interpretations give the facts that the properties of the server rest on.
\<close>

section \<open>Steps\<close>

inductive agent_step :: "deployment \<Rightarrow> store \<Rightarrow> store \<Rightarrow> bool" for env where
  Called: "gateway_step env st st' \<Longrightarrow> agent_step env st st'"
| Inspected: "agent_step env st (record_mcp_tool_observation now server tool digest status fs st)"
| Pinned: "agent_step env st (upsert_mcp_tool_baseline now server tool digest json status st)"

text \<open>The controls that only an operator exercises, and those that a request may exercise.\<close>

datatype control =
    Registers | Revokes string string | Contains string string | Lifts string | Releases string string
  | Resolves string string | Reviews

fun controls :: "api_request \<Rightarrow> control \<Rightarrow> bool" where
  "controls (Post_Token b q) c = (c = Registers)"
| "controls (Post_Revoke b tenant agent remark) c = (c = Revokes tenant agent)"
| "controls (Post_Contain b tenant agent q) c = (c = Contains tenant agent)"
| "controls (Post_Release_Containment b i remark) c = (c = Lifts i)"
| "controls (Post_Release_Agent b tenant agent remark) c = (c = Releases tenant agent)"
| "controls (Post_Approve b i remark) c = (c = Resolves i ''approved'')"
| "controls (Post_Reject b i remark) c = (c = Resolves i ''rejected'')"
| "controls (Post_Incident b i status remark) c = (c = Reviews)"
| "controls (Post_Finding b i status remark) c = (c = Reviews)"
| "controls _ c = False"

inductive api_step :: "deployment \<Rightarrow> (control \<Rightarrow> bool) \<Rightarrow> store \<Rightarrow> store \<Rightarrow> bool" for env may where
  By_Agent: "agent_step env st st' \<Longrightarrow> api_step env may st st'"
| Registered: "may Registers \<Longrightarrow> register_agent_token now agent owner st = Inr st' \<Longrightarrow> api_step env may st st'"
| Revoked: "may (Revokes tenant agent) \<Longrightarrow> api_step env may st (snd (revoke_agent_tokens now tenant agent reason st))"
| Contained: "may (Contains tenant agent) \<Longrightarrow>
    api_step env may st (snd (contain_agent now again i tenant agent mode reason reviewer duration tools incident st))"
| Lifted: "may (Lifts i) \<Longrightarrow> api_step env may st (snd (release_containment now i st))"
| Released: "may (Releases tenant agent) \<Longrightarrow> api_step env may st (snd (release_agent now tenant agent reviewer remark st))"
| Resolved: "may (Resolves i status) \<Longrightarrow> status = ''approved'' \<or> status = ''rejected'' \<Longrightarrow>
    api_step env may st (snd (resolve_approval now i status reviewer remark st))"
| Incident_Set: "may Reviews \<Longrightarrow>
    api_step env may st (snd (update_incident (de_crypto env) (de_audit_key env) now audited j i status reviewer remark st))"
| Finding_Set: "may Reviews \<Longrightarrow> api_step env may st (snd (update_watch_finding now i status remark reviewer st))"

inductive_cases agent_stepE: "agent_step env st st'"
inductive_cases api_stepE: "api_step env may st st'"

section \<open>Routes of agents without an invocation\<close>

locale calm_api = gateway_relation +
  assumes inspected: "agent_step env (wo_store w) st \<Longrightarrow> rel w (w\<lparr>wo_store := st\<rparr>)"
begin

lemma keeps_refuse: "keeps (refuse status detail)"
  by (simp add: refuse_def)

lemma keeps_inspected: "(\<And>st. agent_step env st (t st)) \<Longrightarrow> keeps (db (\<lambda>st. (u, t st)))"
  by (rule keeps_db) (simp add: inspected)

lemmas api_rules = run_rules keeps_refuse keeps_inspected [OF Inspected] keeps_inspected [OF Pinned]

lemma keeps_operator: "keeps (operator sv minimum b)"
  unfolding operator_def by (intro api_rules)

lemma keeps_holder: "keeps (token_holder sv token)"
  unfolding token_holder_def by (intro api_rules)

lemma keeps_agent: "keeps (require_agent sv b)"
  unfolding require_agent_def by (intro api_rules keeps_catching keeps_holder) (auto split: exc.split intro: keeps_refuse)

lemma keeps_scoped: "keeps (scoped agent scope detail)"
  unfolding scoped_def by (intro api_rules)

lemma keeps_drawing: "keeps (drawing f)"
  unfolding drawing_def by (intro api_rules)

lemma keeps_lineage: "keeps (recorded_lineage agent trace parents kind source a fs)"
  unfolding recorded_lineage_def by (intro api_rules)

lemma keeps_unprocessable: "keeps m \<Longrightarrow> keeps (unprocessable m)"
  unfolding unprocessable_def by (intro keeps_catching api_rules)

lemma keeps_attest: "gw_env (sv_gateway sv) = env \<Longrightarrow> keeps (attest_provenance sv b q)"
  unfolding attest_provenance_def by (simp only:) (intro api_rules keeps_agent keeps_scoped keeps_drawing keeps_lineage)

lemma keeps_attest_structured: "gw_env (sv_gateway sv) = env \<Longrightarrow> keeps (attest_structured_provenance sv b q)"
  unfolding attest_structured_provenance_def Let_def
  by (simp only:) (intro api_rules keeps_agent keeps_scoped keeps_unprocessable keeps_drawing keeps_lineage)

lemma keeps_derive: "gw_env (sv_gateway sv) = env \<Longrightarrow> keeps (derive_structured_provenance sv b q)"
  unfolding derive_structured_provenance_def
  by (simp only:) (intro api_rules keeps_agent keeps_scoped keeps_unprocessable keeps_drawing)

lemma keeps_watch_task: "gw_env (sv_gateway sv) = env \<Longrightarrow> keeps (create_watch_task_endpoint sv b q)"
  unfolding create_watch_task_endpoint_def
  by (simp only:) (intro api_rules keeps_agent keeps_scoped keeps_catching watch.keeps_create_task)

lemma keeps_watch_event: "gw_env (sv_gateway sv) = env \<Longrightarrow> keeps (ingest_watch_event sv b q)"
  unfolding ingest_watch_event_def
  by (simp only:) (intro api_rules keeps_agent keeps_scoped keeps_catching watch.keeps_ingest, auto split: exc.split intro: keeps_refuse)

lemma keeps_evaluate_endpoint: "gw_env (sv_gateway sv) = env \<Longrightarrow> keeps (evaluate_endpoint sv b call)"
  unfolding evaluate_endpoint_def direct_only_def by (intro api_rules keeps_agent keeps_evaluate)

section \<open>Inspections\<close>

lemma keeps_present: "keeps (baselines_present server is)"
  by (induction "is") (auto intro!: keeps_andthen)

lemma keeps_inspect: "keeps (inspect_manifest env server q)"
  unfolding inspect_manifest_def inspect_tool_def conclude_inspection_def Let_def
  by (intro api_rules keeps_each keeps_present)

lemma keeps_inspect_server: "gw_env (sv_gateway sv) = env \<Longrightarrow> keeps (inspect_mcp_server sv b server q)"
  unfolding inspect_mcp_server_def by (simp only:) (intro api_rules keeps_operator keeps_inspect)

section \<open>Views\<close>

lemma keeps_viewed: "keeps m \<Longrightarrow> keeps (viewed sv minimum b m)"
  unfolding viewed_def by (intro keeps_andthen keeps_operator)

lemma keeps_reading: "keeps (reading q)"
  unfolding reading_def by (intro api_rules)

lemma keeps_status: "keeps m \<Longrightarrow> keeps (status_only m)"
  unfolding status_only_def by (intro api_rules)

lemma keeps_counters: "keeps counters_now"
  unfolding counters_now_def by (intro api_rules)

lemma keeps_valid: "keeps (chain_valid sv)"
  unfolding chain_valid_def by (intro api_rules)

lemmas view_rules = keeps_viewed keeps_reading keeps_status keeps_counters keeps_valid keeps_operator api_rules

lemma keeps_connectors: "keeps (connectors sv b)"
  unfolding connectors_def by (intro keeps_viewed) (auto split: sum.split exc.split)

lemma keeps_verify: "keeps (verify_github_connector sv b)"
  unfolding verify_github_connector_def
  by (intro keeps_viewed) (auto simp: keeps_def refuse_def raise_run rel_refl split: sum.split exc.split)

lemma keeps_view: "keeps (show_view sv b v)"
  by (cases v; simp only: show_view.simps session_def setup_status_def mcp_servers_def agents_endpoint_def approvals_endpoint_def
    current_policy_endpoint_def incidents_endpoint_def containments_endpoint_def audit_endpoint_def activity_def
    watch_summary_endpoint_def watch_tasks_endpoint_def watch_task_events_def watch_findings_endpoint_def traces_def trace_lineage_def
    metrics_endpoint_def system_status_def work_jobs_def security_report_def security_evidence_report_def audit_csv_def
    prometheus_metrics_def benchmark_evidence_def Let_def) (intro view_rules keeps_connectors)+

section \<open>Sign-in\<close>

lemma keeps_exchange: "keeps (exchange_code sv code verifier)"
proof -
  have g: "keeps (granted sv t)" for t
    unfolding granted_def by (intro api_rules) (auto split: sum.split intro: keeps_refuse)
  have "rel w (snd (granted sv t (w\<lparr>wo_posted := wo_posted w @ ps\<rparr>)))" for w t ps
    using rel_trans [OF posted, of w ps] g [of t] unfolding keeps_def by blast
  then show ?thesis by (auto simp: keeps_def exchange_code_def Let_def posted split: sum.split)
qed

lemma keeps_login: "keeps (oidc_login sv page)"
  unfolding oidc_login_def Let_def by (intro api_rules)

lemma keeps_callback: "gw_env (sv_gateway sv) = env \<Longrightarrow> keeps (oidc_callback sv cookie code state)"
  unfolding oidc_callback_def Let_def by (simp only:) (intro api_rules keeps_exchange)

lemma keeps_health: "keeps (health sv)" and keeps_ready: "keeps (ready sv)"
  unfolding health_def ready_def Let_def by (intro view_rules)+

lemma keeps_simulate_endpoint: "gw_env (sv_gateway sv) = env \<Longrightarrow> keeps (simulate_endpoint sv b q)"
  unfolding simulate_endpoint_def by (intro api_rules keeps_operator keeps_simulate)

lemma keeps_replay_endpoint: "keeps (replay_endpoint sv b other limit)"
  unfolding replay_endpoint_def by (intro api_rules keeps_operator keeps_catching keeps_replay)

end

section \<open>Routes of operators\<close>

locale operator_api = calm_api +
  fixes may :: "control \<Rightarrow> bool"
  assumes changed: "api_step env may (wo_store w) st \<Longrightarrow> rel w (w\<lparr>wo_store := st\<rparr>)"
begin

lemma keeps_changed: "(\<And>st. api_step env may st (snd (t st))) \<Longrightarrow> keeps (db t)"
  by (rule keeps_db) (simp add: changed)

lemma keeps_registered: "may Registers \<Longrightarrow> keeps (db_exc (\<lambda>st. ebind (register_agent_token now agent owner st) (\<lambda>st'. Inr ((), st'))))"
  by (rule keeps_db_exc) (auto simp: ebind_Inr_iff intro!: changed Registered)

lemmas operator_rules = keeps_operator api_rules

lemma keeps_issue: "gw_env (sv_gateway sv) = env \<Longrightarrow> may Registers \<Longrightarrow> keeps (issue_agent_token sv b q)"
  unfolding issue_agent_token_def by (simp only:) (intro keeps_registered operator_rules)

lemma keeps_revoke: "gw_env (sv_gateway sv) = env \<Longrightarrow> may (Revokes tenant agent) \<Longrightarrow> keeps (revoke_agent sv b tenant agent remark)"
  unfolding revoke_agent_def by (simp only:) (intro operator_rules keeps_changed [OF Revoked])

lemma keeps_declassify: "gw_env (sv_gateway sv) = env \<Longrightarrow> keeps (declassify_provenance sv b q)"
  unfolding declassify_provenance_def Let_def
  by (simp only:) (intro operator_rules keeps_catching keeps_drawing, auto split: exc.split intro: keeps_refuse)

lemma keeps_contain: "gw_env (sv_gateway sv) = env \<Longrightarrow> may (Contains tenant agent) \<Longrightarrow> keeps (contain_endpoint sv b tenant agent q)"
  unfolding contain_endpoint_def by (simp only:) (intro operator_rules keeps_changed [OF Contained])

lemma keeps_release_containment: "gw_env (sv_gateway sv) = env \<Longrightarrow> may (Lifts i) \<Longrightarrow> keeps (release_containment_endpoint sv b i remark)"
  unfolding release_containment_endpoint_def by (simp only:) (intro operator_rules keeps_changed [OF Lifted])

lemma keeps_release_agent:
  "gw_env (sv_gateway sv) = env \<Longrightarrow> may (Releases tenant agent) \<Longrightarrow> keeps (release_agent_endpoint sv b tenant agent remark)"
  unfolding release_agent_endpoint_def by (simp only:) (intro operator_rules keeps_changed [OF Released])

lemma keeps_resolve: "gw_env (sv_gateway sv) = env \<Longrightarrow> may (Resolves i status) \<Longrightarrow> status = ''approved'' \<or> status = ''rejected'' \<Longrightarrow>
    keeps (resolve_endpoint sv b i status event remark)"
  unfolding resolve_endpoint_def resolved_record_def by (simp only:) (intro operator_rules keeps_changed [OF Resolved])

lemma keeps_approve: "gw_env (sv_gateway sv) = env \<Longrightarrow> may (Resolves i ''approved'') \<Longrightarrow> keeps (approve sv b i remark)"
  and keeps_reject: "gw_env (sv_gateway sv) = env \<Longrightarrow> may (Resolves i ''rejected'') \<Longrightarrow> keeps (reject sv b i remark)"
  unfolding approve_def reject_def by (simp_all add: keeps_resolve)

lemma keeps_incident: "gw_env (sv_gateway sv) = env \<Longrightarrow> may Reviews \<Longrightarrow> keeps (update_incident_endpoint sv b i status remark)"
  unfolding update_incident_endpoint_def by (simp only:) (intro operator_rules keeps_changed [OF Incident_Set])

lemma keeps_finding: "gw_env (sv_gateway sv) = env \<Longrightarrow> may Reviews \<Longrightarrow> keeps (update_finding_endpoint sv b i status remark)"
  unfolding update_finding_endpoint_def by (simp only:) (intro operator_rules keeps_changed [OF Finding_Set])

end

section \<open>Routes that may invoke a tool\<close>

lemma register_tools_env: "gw_env (snd (register_tools m server c ts names gw)) = gw_env gw"
proof (induction ts arbitrary: names gw)
  case (Cons t ts)
  have "gw_env (snd (register_tool m server c t gw)) = gw_env gw"
    by (auto simp: register_tool_def Let_def split: sum.split)
  then show ?case using Cons by (auto split: prod.split sum.split)
qed simp

lemma synced_env: "sync_and_register m server agent gw w = (Inr (names, gw'), w') \<Longrightarrow> gw_env gw' = gw_env gw"
  using register_tools_env [of m server] by (auto simp: sync_and_register_def split: prod.splits sum.splits) (metis snd_conv)

locale agent_api = calm_api rel env + gateway_run rel env for rel env
begin

lemma keeps_mcp: "gw_env gw = env \<Longrightarrow> keeps (handle_mcp payload agent gw server)"
  unfolding handle_mcp_def Let_def tools_call_def
  by (auto split: option.split json.split intro!: keeps_andthen keeps_execute)

lemma keeps_posted: "keeps (post_upstream m c payload)"
  by (auto simp: keeps_def post_upstream_def posted rel_refl split: sum.split)

lemma keeps_pages: "keeps (discover_pages m server c n page cursor raw)"
proof (induction n arbitrary: page cursor raw)
  case (Suc n)
  show ?case unfolding discover_pages.simps by (intro api_rules keeps_posted Suc)
qed simp

lemma keeps_vetted: "gw_env gw = env \<Longrightarrow> keeps (vetted_tools m server agent gw)"
  unfolding vetted_tools_def discover_def by (simp only:) (intro api_rules keeps_pages keeps_inspect)

lemma keeps_synced: "gw_env gw = env \<Longrightarrow> keeps (sync_and_register m server agent gw)"
proof -
  assume "gw_env gw = env"
  then have "rel w (snd (vetted_tools m server agent gw w))" for w using keeps_vetted by (simp add: keeps_def)
  then show ?thesis unfolding keeps_def sync_and_register_def by (auto split: prod.split sum.split) (metis snd_conv)+
qed

lemma keeps_upstream_call: "gw_env gw = env \<Longrightarrow> keeps (upstream_call i server names payload agent gw)"
  unfolding upstream_call_def by (auto split: json.split option.split intro!: keeps_mcp)

lemma keeps_apfst: "keeps m \<Longrightarrow> keeps (\<lambda>w. apfst f (m w))"
  by (simp add: keeps_def snd_apfst)

lemma keeps_upstream: "gw_env gw = env \<Longrightarrow> keeps (handle_upstream_mcp server payload agent gw m)"
proof -
  assume env: "gw_env gw = env"
  have "rel w (snd (handle_upstream_mcp server payload agent gw m w))" for w
  proof -
    obtain r w1 where s: "sync_and_register m server agent gw w = (r, w1)" by force
    have w1: "rel w w1" using keepsD [OF keeps_synced [OF env] s] .
    show ?thesis
    proof (cases r)
      case (Inl e)
      then show ?thesis using s w1 by (simp add: handle_upstream_mcp_def Let_def andthen_def)
    next
      case (Inr p)
      obtain names gw' where p: "p = (names, gw')" by force
      have e': "gw_env gw' = env" using synced_env [of m server agent gw w names gw' w1] s Inr p env by simp
      have "keeps (\<lambda>w. apfst f (upstream_call i server ns payload agent gw' w))" "keeps (\<lambda>w. apfst f (handle_mcp payload agent gw' None w))" for f i ns
        using keeps_apfst keeps_upstream_call [OF e'] keeps_mcp [OF e'] by blast+
      then show ?thesis using s w1 Inr p
        by (auto simp: handle_upstream_mcp_def Let_def andthen_def keeps_def ret_run split: sum.split exc.split intro: rel_trans)
    qed
  qed
  then show ?thesis by (simp add: keeps_def)
qed

lemma keeps_mcp_endpoint: "gw_env (sv_gateway sv) = env \<Longrightarrow> keeps (mcp_endpoint sv b payload)"
  unfolding mcp_endpoint_def by (intro keeps_andthen keeps_agent keeps_mcp)

lemma keeps_upstream_endpoint: "gw_env (sv_gateway sv) = env \<Longrightarrow> keeps (upstream_mcp_endpoint sv b server payload)"
  unfolding upstream_mcp_endpoint_def by (intro keeps_andthen keeps_agent keeps_upstream)

lemma keeps_execute_endpoint: "gw_env (sv_gateway sv) = env \<Longrightarrow> keeps (execute_endpoint sv b call)"
  unfolding execute_endpoint_def direct_only_def by (intro api_rules keeps_agent keeps_execute)

lemma keeps_execute_approved: "gw_env (sv_gateway sv) = env \<Longrightarrow> keeps (execute_approved_endpoint sv b i)"
  unfolding execute_approved_endpoint_def by (intro api_rules keeps_operator keeps_approved)

end

section \<open>Requests are sequences of steps\<close>

definition served :: "deployment \<Rightarrow> (control \<Rightarrow> bool) \<Rightarrow> world \<Rightarrow> world \<Rightarrow> bool" where
  "served env may w w' \<longleftrightarrow> (api_step env may)\<^sup>*\<^sup>* (wo_store w) (wo_store w')"

definition served_calmly :: "deployment \<Rightarrow> (control \<Rightarrow> bool) \<Rightarrow> world \<Rightarrow> world \<Rightarrow> bool" where
  "served_calmly env may w w' \<longleftrightarrow> served env may w w' \<and> wo_invoked w' = wo_invoked w"

interpretation calmly: operator_api "served_calmly env may" env may for env may
  by unfold_locales (auto simp: served_calmly_def served_def intro: By_Agent Called rtranclp_trans)

interpretation served: agent_api "served env may" env for env may
  by unfold_locales (auto simp: served_def intro: By_Agent Called rtranclp_trans)

fun may_invoke :: "api_request \<Rightarrow> bool" where
  "may_invoke (Post_Mcp b payload) = True"
| "may_invoke (Post_Upstream b server payload) = True"
| "may_invoke (Post_Execute b call) = True"
| "may_invoke (Post_Execute_Approval b i) = True"
| "may_invoke q = False"

lemma respond_calmly:
  assumes "gw_env (sv_gateway sv) = env" "\<not> may_invoke q"
  shows "served_calmly env (controls q) w (snd (respond sv q w))"
proof -
  have "calmly.keeps env (controls q) (respond sv q)"
    using assms
    by (cases q) (auto intro!: calmly.keeps_status calmly.keeps_view calmly.keeps_evaluate_endpoint calmly.keeps_attest
      calmly.keeps_attest_structured calmly.keeps_derive calmly.keeps_watch_task calmly.keeps_watch_event calmly.keeps_inspect_server
      calmly.keeps_issue calmly.keeps_revoke calmly.keeps_declassify calmly.keeps_contain calmly.keeps_release_containment
      calmly.keeps_release_agent calmly.keeps_approve calmly.keeps_reject calmly.keeps_simulate_endpoint calmly.keeps_replay_endpoint
      calmly.keeps_incident calmly.keeps_finding calmly.keeps_login calmly.keeps_callback calmly.keeps_health calmly.keeps_ready
      calmly.keeps_verify)
  then show ?thesis by (simp add: calmly.keeps_def)
qed

lemma respond_served:
  assumes "gw_env (sv_gateway sv) = env"
  shows "served env (controls q) w (snd (respond sv q w))"
proof (cases "may_invoke q")
  case True
  have "served.keeps env (controls q) (respond sv q)"
    using assms True
    by (cases q) (auto intro!: served.keeps_status served.keeps_mcp_endpoint served.keeps_upstream_endpoint served.keeps_execute_endpoint
      served.keeps_execute_approved)
  then show ?thesis by (simp add: served.keeps_def)
next
  case False
  then show ?thesis using respond_calmly [OF assms False] by (simp add: served_calmly_def)
qed

lemma handled_env: "handle_upstream_mcp server payload agent gw m w = (Inr (r, gw'), w') \<Longrightarrow> gw_env gw' = gw_env gw"
  by (auto simp: handle_upstream_mcp_def Let_def andthen_def ret_run apfst_def map_prod_def dest: synced_env
    split: prod.splits sum.splits exc.splits if_splits)

lemma server_after_env: "gw_env (sv_gateway (server_after sv q w)) = gw_env (sv_gateway sv)"
  by (cases "(sv, q, w)" rule: server_after.cases)
     (auto simp: upstream_mcp_endpoint_def andthen_def dest: handled_env split: prod.split sum.split)

lemma server_after_same: "server_after sv q w = sv\<lparr>sv_gateway := sv_gateway (server_after sv q w)\<rparr>"
  by (cases "(sv, q, w)" rule: server_after.cases) (auto split: prod.split sum.split)

text \<open>The keys, the settings and the token key of the server stay the same over all requests.\<close>

lemma serve_all_same:
  "serve_all qs (sv, w) = (sv', w') \<Longrightarrow> sv' = sv\<lparr>sv_gateway := sv_gateway sv'\<rparr> \<and> gw_env (sv_gateway sv') = gw_env (sv_gateway sv)"
proof (induction qs arbitrary: sv w)
  case (Cons q qs)
  have "serve_all qs (server_after sv q w, snd (respond sv q w)) = (sv', w')" using Cons.prems by (simp add: serve_def [of q])
  from Cons.IH [OF this] show ?case using server_after_same [of sv q w] server_after_env [of sv q w]
    by (metis (no_types, lifting) server.surjective server.update_convs(7))
qed simp

end
