(* ===== verification/Lifecycle.thy ===== *)
theory Lifecycle
  imports Api_Steps
begin

text \<open>
  What the server promises of approvals, executions, quarantines and tokens, as an abstract machine
  without tables, clocks and encryption; \<open>lifecycle_of\<close> reads its state off a store. Every step
  that a request makes on the store is a step of the machine or leaves its state as it was: the
  server refines the machine.
\<close>

section \<open>The machine\<close>

record lifecycle =
  lc_approvals :: "string \<Rightarrow> string option"
  lc_started :: "string set"
  lc_held :: "(string \<times> string) set"
  lc_revoked :: "string set"

inductive lifecycle_step :: "(control \<Rightarrow> bool) \<Rightarrow> lifecycle \<Rightarrow> lifecycle \<Rightarrow> bool" for may where
  Ask: "lc_approvals l i = None \<Longrightarrow> lifecycle_step may l (l\<lparr>lc_approvals := (lc_approvals l)(i \<mapsto> ''pending'')\<rparr>)"
| Decide: "may (Resolves i d) \<Longrightarrow> d = ''approved'' \<or> d = ''rejected'' \<Longrightarrow> lc_approvals l i = Some ''pending'' \<Longrightarrow>
    lifecycle_step may l (l\<lparr>lc_approvals := (lc_approvals l)(i \<mapsto> d)\<rparr>)"
| Consume: "lc_approvals l i = Some ''approved'' \<Longrightarrow> lifecycle_step may l (l\<lparr>lc_approvals := (lc_approvals l)(i \<mapsto> ''consumed'')\<rparr>)"
| Start: "r \<notin> lc_started l \<Longrightarrow> lifecycle_step may l (l\<lparr>lc_started := insert r (lc_started l)\<rparr>)"
| Hold: "lifecycle_step may l (l\<lparr>lc_held := insert (tenant, agent) (lc_held l)\<rparr>)"
| Free: "may (Releases tenant agent) \<Longrightarrow> lifecycle_step may l (l\<lparr>lc_held := lc_held l - {(tenant, agent)}\<rparr>)"
| Withdraw: "may (Revokes tenant agent) \<or> may (Contains tenant agent) \<Longrightarrow> lc_revoked l \<subseteq> ts \<Longrightarrow>
    lifecycle_step may l (l\<lparr>lc_revoked := ts\<rparr>)"

inductive_cases lifecycle_stepE: "lifecycle_step may l l'"

definition lifecycle_of :: "store \<Rightarrow> lifecycle" where
  "lifecycle_of st = \<lparr>lc_approvals = (\<lambda>i. status_of i st), lc_started = {r. claimed r st},
     lc_held = {(t, a). held t a st}, lc_revoked = {i. revoked_token i st}\<rparr>"

section \<open>Reading the state\<close>

text \<open>The tables that the machine speaks of.\<close>

definition same_tables :: "store \<Rightarrow> store \<Rightarrow> bool" where
  "same_tables st st' \<longleftrightarrow> approvals st' = approvals st \<and> executions st' = executions st \<and> quarantines st' = quarantines st
     \<and> agent_tokens st' = agent_tokens st"

lemma lifecycle_same: "same_tables st st' \<Longrightarrow> lifecycle_of st' = lifecycle_of st"
  by (simp add: same_tables_def lifecycle_of_def status_of_def claimed_def held_def revoked_token_def)

lemma view_same: "protected_view st' = protected_view st \<Longrightarrow> same_tables st st'"
proof -
  assume v: "protected_view st' = protected_view st"
  show ?thesis using arg_cong [OF v, of approvals] arg_cong [OF v, of executions] arg_cong [OF v, of quarantines]
      arg_cong [OF v, of agent_tokens] by (simp add: protected_view_def same_tables_def)
qed

lemma held_quarantine: "held t a (quarantine now again i tenant agent reason st) \<longleftrightarrow> held t a st \<or> t = tenant \<and> a = agent"
proof
  assume h: "held t a (quarantine now again i tenant agent reason st)"
  then obtain q where q: "q \<in> set (quarantines (quarantine now again i tenant agent reason st))" "quarantine_open t a q"
    by (auto simp: held_iff)
  then show "held t a st \<or> t = tenant \<and> a = agent"
    by (auto simp: quarantine_rows upsert_def set_update_where held_iff quarantine_open_def split: if_splits)
qed (auto intro: quarantine_keeps quarantine_holds)

lemma held_release: "held t a (snd (release_agent now tenant agent reviewer remark st)) \<longleftrightarrow> held t a st \<and> (t, a) \<noteq> (tenant, agent)"
proof
  assume h: "held t a (snd (release_agent now tenant agent reviewer remark st))"
  then obtain q where q: "q \<in> set (quarantines (snd (release_agent now tenant agent reviewer remark st)))" "quarantine_open t a q"
    by (auto simp: held_iff)
  then show "held t a st \<and> (t, a) \<noteq> (tenant, agent)"
    by (auto simp: release_agent_def set_update_where held_iff quarantine_open_def split: if_splits)
qed (auto intro: release_other)

lemma quarantine_frame: "approvals (quarantine now again i t a r st) = approvals st" "executions (quarantine now again i t a r st) = executions st"
  by (simp_all add: quarantine_def contain_agent_def Let_def)

lemma revoke_frame:
  "approvals (snd (revoke_agent_tokens now t a r st)) = approvals st" "executions (snd (revoke_agent_tokens now t a r st)) = executions st"
  "quarantines (snd (revoke_agent_tokens now t a r st)) = quarantines st"
  by (simp_all add: revoke_agent_tokens_def Let_def)

lemma contain_frame:
  "approvals (snd (contain_agent now again i t a m r rv d ts inc st)) = approvals st"
  "executions (snd (contain_agent now again i t a m r rv d ts inc st)) = executions st"
  "quarantines (snd (contain_agent now again i t a m r rv d ts inc st)) = quarantines st"
  by (simp_all add: contain_agent_def Let_def revoke_frame)

lemma claim_started: "claim_execution now r digest st = (b, st') \<Longrightarrow>
    claimed j st' = (claimed j st \<or> b \<and> j = r) \<and> (b \<longrightarrow> \<not> claimed r st) \<and> approvals st' = approvals st
     \<and> quarantines st' = quarantines st \<and> agent_tokens st' = agent_tokens st"
  by (auto simp: claim_execution_def claimed_def list_ex_iff split: if_splits)

section \<open>The simulation\<close>

abbreviation simulated :: "(control \<Rightarrow> bool) \<Rightarrow> store \<Rightarrow> store \<Rightarrow> bool" where
  "simulated may st st' \<equiv> (lifecycle_step may)\<^sup>=\<^sup>= (lifecycle_of st) (lifecycle_of st')"

lemma simulated_same: "same_tables st st' \<Longrightarrow> simulated may st st'"
  by (simp add: lifecycle_same)

lemma simulatedI: "lifecycle_of st' = l \<Longrightarrow> lifecycle_step may (lifecycle_of st) l \<Longrightarrow> simulated may st st'"
  by simp

lemma status_map:
  assumes "\<And>j. status_of j st' = (if j = i then Some d else status_of j st)" and "executions st' = executions st"
    "quarantines st' = quarantines st" "agent_tokens st' = agent_tokens st"
  shows "lifecycle_of st' = lifecycle_of st\<lparr>lc_approvals := (lc_approvals (lifecycle_of st))(i \<mapsto> d)\<rparr>"
  using assms by (auto simp: lifecycle_of_def fun_eq_iff claimed_def held_def revoked_token_def)

lemma gateway_simulated: "gateway_step env st st' \<Longrightarrow> simulated may st st'"
proof (induction rule: gateway_step.induct)
  case (Audited st now i ty payload)
  show ?case by (rule simulated_same) (simp add: append_audit_def Let_def same_tables_def)
next
  case (Watched now agent q st t st')
  then show ?case by (intro simulated_same) (auto simp: create_watch_task_def Let_def same_tables_def split: option.splits if_splits)
next
  case (Observed now i agent e st v st')
  then show ?case by (intro simulated_same) (auto simp: record_watch_event_def Let_def same_tables_def split: option.splits if_splits)
next
  case (Alarmed now f st g st')
  then show ?case by (intro simulated_same) (auto simp: upsert_watch_finding_def same_tables_def split: option.splits if_splits)
next
  case (Reported now i tenant a trace severity summary st j st')
  then show ?case by (intro simulated_same) (auto simp: upsert_incident_def Let_def same_tables_def split: option.splits if_splits)
next
  case (Quarantined st now again i tenant a reason)
  have "lifecycle_of (quarantine now again i tenant a reason st) = lifecycle_of st\<lparr>lc_held := insert (tenant, a) (lc_held (lifecycle_of st))\<rparr>"
    by (auto simp: lifecycle_of_def held_quarantine status_of_def claimed_def revoked_token_def quarantine_frame)
  then show ?case by (rule simulatedI) (rule Hold)
next
  case (Requested cr key nonce i now call digest agent ttl st st')
  have "executions st' = executions st" "quarantines st' = quarantines st" "agent_tokens st' = agent_tokens st"
    using Requested by (auto simp: create_approval_def split: if_splits)
  then have "lifecycle_of st' = lifecycle_of st\<lparr>lc_approvals := (lc_approvals (lifecycle_of st))(i \<mapsto> ''pending'')\<rparr>"
    using status_map create_status [OF Requested] by blast
  moreover have "lc_approvals (lifecycle_of st) i = None" using created_absent [OF Requested] by (simp add: lifecycle_of_def)
  ultimately show ?case by (intro simulatedI) (auto intro: Ask)
next
  case (Queued now i kind dedup payload m st j st')
  then show ?case by (intro simulated_same) (auto simp: enqueue_outbox_def same_tables_def split: option.splits if_splits)
next
  case (Snapped cr key nonce i now snapshot st st')
  then show ?case by (intro simulated_same) (auto simp: record_policy_snapshot_def ebind_Inr_iff same_tables_def)
next
  case (Claimed st now request digest)
  obtain b st' where c: "claim_execution now request digest st = (b, st')" by force
  note cs = claim_started [OF c]
  show ?case
  proof (cases b)
    case True
    have "lifecycle_of st' = lifecycle_of st\<lparr>lc_started := insert request (lc_started (lifecycle_of st))\<rparr>"
      using cs True by (auto simp: lifecycle_of_def status_of_def held_def revoked_token_def)
    moreover have "request \<notin> lc_started (lifecycle_of st)" using cs True by (simp add: lifecycle_of_def)
    ultimately show ?thesis unfolding c snd_conv by (intro simulatedI) (auto intro: Start)
  next
    case False
    then have "lifecycle_of st' = lifecycle_of st" using cs by (auto simp: lifecycle_of_def status_of_def held_def revoked_token_def)
    then show ?thesis by (simp add: c)
  qed
next
  case (Finished st now request status)
  have "lifecycle_of (finish_execution now request status st) = lifecycle_of st"
    by (simp add: lifecycle_of_def claimed_ids del: set_map) (simp add: finish_execution_def status_of_def held_def revoked_token_def)
  then show ?case by simp
next
  case (Consumed st now i)
  obtain b st' where c: "consume_approval now i st = (b, st')" by force
  have f: "executions st' = executions st" "quarantines st' = quarantines st" "agent_tokens st' = agent_tokens st"
    using c by (auto simp: consume_approval_def split: option.splits if_splits)
  show ?case
  proof (cases b)
    case True
    have "lifecycle_of st' = lifecycle_of st\<lparr>lc_approvals := (lc_approvals (lifecycle_of st))(i \<mapsto> ''consumed'')\<rparr>"
      using status_map [OF _ f] consume_status [OF c] True by auto
    moreover have "lc_approvals (lifecycle_of st) i = Some ''approved''" using consume_status [OF c] True by (simp add: lifecycle_of_def)
    ultimately show ?thesis unfolding c snd_conv by (intro simulatedI) (auto intro: Consume)
  next
    case False
    then have "lifecycle_of st' = lifecycle_of st"
      using consume_status [OF c] f by (auto simp: lifecycle_of_def claimed_def held_def revoked_token_def)
    then show ?thesis by (simp add: c)
  qed
qed (rule simulated_same, simp add: same_tables_def rate_allowed_def reserve_egress_def record_action_def record_violation_def
  record_lineage_def Let_def)+

lemma agent_simulated: "agent_step env st st' \<Longrightarrow> simulated may st st'"
proof (induction rule: agent_step.induct)
  case (Called st st')
  then show ?case by (rule gateway_simulated)
next
  case (Inspected st now server tool digest status fs)
  show ?case by (rule simulated_same) (simp add: same_tables_def record_mcp_tool_observation_def)
next
  case (Pinned st now server tool digest json status)
  show ?case by (rule simulated_same) (simp add: same_tables_def upsert_mcp_tool_baseline_def)
qed

lemma withdrawn:
  assumes "may (Revokes t a) \<or> may (Contains t a)" "\<And>i. revoked_token i st \<Longrightarrow> revoked_token i st'"
    "approvals st' = approvals st" "executions st' = executions st" "quarantines st' = quarantines st"
  shows "simulated may st st'"
proof (rule simulatedI)
  show "lifecycle_of st' = lifecycle_of st\<lparr>lc_revoked := {i. revoked_token i st'}\<rparr>"
    using assms(3-5) by (simp add: lifecycle_of_def status_of_def claimed_def held_def)
  show "lifecycle_step may (lifecycle_of st) (lifecycle_of st\<lparr>lc_revoked := {i. revoked_token i st'}\<rparr>)"
    using assms(1,2) by (intro Withdraw) (auto simp: lifecycle_of_def)
qed

lemma api_simulated: "api_step env may st st' \<Longrightarrow> simulated may st st'"
proof (induction rule: api_step.induct)
  case (By_Agent st st')
  then show ?case by (rule agent_simulated)
next
  case (Registered now agent owner st st')
  then have t: "approvals st' = approvals st" "executions st' = executions st" "quarantines st' = quarantines st"
    by (auto simp: register_agent_token_def split: if_splits)
  obtain row where "agent_tokens st' = agent_tokens st @ [row]" "tk_revoked row = None"
    using Registered by (auto simp: register_agent_token_def split: if_splits)
  then have "revoked_token i st' = revoked_token i st" for i by (auto simp: revoked_token_def)
  then have "lifecycle_of st' = lifecycle_of st" using t by (simp add: lifecycle_of_def status_of_def claimed_def held_def)
  then show ?case by simp
next
  case (Revoked tenant agent st now reason)
  then show ?case by (intro withdrawn) (auto simp: revoke_frame intro: revoke_keeps)
next
  case (Contained tenant agent st now again i mode reason reviewer duration tools incident)
  then show ?case by (intro withdrawn) (auto simp: contain_frame intro: move_revoked Contain)
next
  case (Lifted i st now)
  show ?case by (rule simulated_same) (simp add: release_containment_def Let_def same_tables_def)
next
  case (Released tenant agent st now reviewer remark)
  have "lifecycle_of (snd (release_agent now tenant agent reviewer remark st)) =
      lifecycle_of st\<lparr>lc_held := lc_held (lifecycle_of st) - {(tenant, agent)}\<rparr>"
    by (auto simp: lifecycle_of_def held_release) (simp_all add: release_agent_def status_of_def claimed_def revoked_token_def)
  then show ?case using Released by (intro simulatedI) (auto intro: Free)
next
  case (Resolved i status st now reviewer remark)
  obtain b st' where c: "resolve_approval now i status reviewer remark st = (b, st')" by force
  have f: "executions st' = executions st" "quarantines st' = quarantines st" "agent_tokens st' = agent_tokens st"
    using c by (auto simp: resolve_approval_def split: option.splits if_splits)
  show ?case
  proof (cases b)
    case True
    have "lifecycle_of st' = lifecycle_of st\<lparr>lc_approvals := (lc_approvals (lifecycle_of st))(i \<mapsto> status)\<rparr>"
      using status_map [OF _ f] resolve_status [OF c] True by auto
    moreover have "lc_approvals (lifecycle_of st) i = Some ''pending''" using resolve_status [OF c] True by (simp add: lifecycle_of_def)
    ultimately show ?thesis using Resolved unfolding c snd_conv by (intro simulatedI) (auto intro: Decide)
  next
    case False
    then have "lifecycle_of st' = lifecycle_of st"
      using resolve_status [OF c] f by (auto simp: lifecycle_of_def claimed_def held_def revoked_token_def)
    then show ?thesis by (simp add: c)
  qed
next
  case (Incident_Set st now audited j i status reviewer remark)
  show ?case by (rule simulated_same) (simp add: update_incident_def append_audit_def Let_def same_tables_def)
next
  case (Finding_Set st now i status remark reviewer)
  show ?case by (rule simulated_same) (simp add: update_watch_finding_def Let_def same_tables_def)
qed

lemma steps_simulated: "(api_step env may)\<^sup>*\<^sup>* st st' \<Longrightarrow> (lifecycle_step may)\<^sup>*\<^sup>* (lifecycle_of st) (lifecycle_of st')"
proof (induction rule: rtranclp_induct)
  case (step y z)
  then show ?case using api_simulated [OF step.hyps(2)] by auto
qed simp

section \<open>What the machine guarantees\<close>

definition machine_kept :: "(control \<Rightarrow> bool) \<Rightarrow> lifecycle \<Rightarrow> lifecycle \<Rightarrow> bool" where
  "machine_kept may l l' \<longleftrightarrow> lc_started l \<subseteq> lc_started l' \<and> lc_revoked l \<subseteq> lc_revoked l'
     \<and> (\<forall>t a. (t, a) \<in> lc_held l \<longrightarrow> \<not> may (Releases t a) \<longrightarrow> (t, a) \<in> lc_held l')
     \<and> (\<forall>i. final_status (lc_approvals l i) \<longrightarrow> lc_approvals l' i = lc_approvals l i)
     \<and> (\<forall>i. lc_approvals l' i = Some ''approved'' \<longrightarrow> lc_approvals l i = Some ''approved'' \<or> may (Resolves i ''approved''))"

lemma machine_refl: "machine_kept may l l"
  by (simp add: machine_kept_def)

lemma machine_trans: "machine_kept may a b \<Longrightarrow> machine_kept may b c \<Longrightarrow> machine_kept may a c"
  unfolding machine_kept_def by (intro conjI) (blast, blast, blast, metis, blast)

lemma machine_keeps: "lifecycle_step may l l' \<Longrightarrow> machine_kept may l l'"
  by (induction rule: lifecycle_step.induct) (auto simp: final_status_def machine_kept_def)

lemma machine_runs_keep: "(lifecycle_step may)\<^sup>*\<^sup>* l l' \<Longrightarrow> machine_kept may l l'"
  by (induction rule: rtranclp_induct) (auto intro: machine_refl machine_trans machine_keeps)

end
