(* ===== verification/Api_Safety.thy ===== *)
theory Api_Safety
  imports Lifecycle
begin

text \<open>
  What a request can and cannot do: one without valid credentials has no effect, one that runs a
  tool was admitted and cleared, and every request keeps the invariants that the steps keep.
\<close>

section \<open>Refused requests\<close>

definition refused_outright :: "'a io \<Rightarrow> world \<Rightarrow> bool" where
  "refused_outright m w \<longleftrightarrow> (\<exists>e n. m w = (Inl e, w\<lparr>wo_ticks := n\<rparr>))"

lemma agent_refused:
  assumes "\<forall>agent. \<not> agent_admitted sv b w agent" shows "refused_outright (status_only (andthen (require_agent sv b) f)) w"
  using require_agent_cases [of sv b w] assms by (auto simp: refused_outright_def status_only_def andthen_def)

lemma operator_refused:
  assumes "\<forall>who. \<not> operator_admitted sv r b w who" shows "refused_outright (status_only (andthen (operator sv r b) f)) w"
  using operator_cases [of sv r b w] assms by (auto simp: refused_outright_def status_only_def andthen_def)

lemma view_refused:
  assumes "\<not> admitted_to sv (access_of (Get_View b v)) w" shows "refused_outright (show_view sv b v) w"
  using assms
  by (cases v) (simp_all add: admitted_to_def session_def setup_status_def mcp_servers_def agents_endpoint_def approvals_endpoint_def
    current_policy_endpoint_def incidents_endpoint_def containments_endpoint_def audit_endpoint_def activity_def connectors_def
    watch_summary_endpoint_def watch_tasks_endpoint_def watch_task_events_def watch_findings_endpoint_def traces_def trace_lineage_def
    metrics_endpoint_def system_status_def work_jobs_def security_report_def audit_csv_def prometheus_metrics_def
    benchmark_evidence_def viewed_def
    operator_refused del: andthen_ret)

lemmas route_defs = mcp_endpoint_def upstream_mcp_endpoint_def evaluate_endpoint_def execute_endpoint_def attest_provenance_def
  attest_structured_provenance_def derive_structured_provenance_def create_watch_task_endpoint_def ingest_watch_event_def
  inspect_mcp_server_def issue_agent_token_def revoke_agent_def declassify_provenance_def contain_endpoint_def
  release_containment_endpoint_def release_agent_endpoint_def approve_def reject_def resolve_endpoint_def
  execute_approved_endpoint_def simulate_endpoint_def replay_endpoint_def update_incident_endpoint_def update_finding_endpoint_def
  verify_github_connector_def viewed_def

lemma respond_refused:
  assumes "\<not> admitted_to sv (access_of q) w" shows "refused_outright (respond sv q) w"
proof (cases "\<exists>b v. q = Get_View b v")
  case True
  then show ?thesis using assms view_refused by auto
next
  case False
  then show ?thesis using assms
    by (cases q) (auto simp: route_defs admitted_to_def agent_refused operator_refused)
qed

lemma server_refused:
  assumes "\<not> admitted_to sv (access_of q) w" shows "server_after sv q w = sv"
proof (cases q)
  case (Post_Upstream b server payload)
  then show ?thesis using require_agent_cases [of sv b w] assms
    by (auto simp: admitted_to_def upstream_mcp_endpoint_def andthen_def)
qed simp_all

section \<open>Invariants of the steps\<close>

lemma agent_tokens_kept: "agent_step env st st' \<Longrightarrow> agent_tokens st' = agent_tokens st"
proof (induction rule: agent_step.induct)
  case (Called st st')
  then show ?case using step_kept [OF Called] by (simp add: protections_kept_def)
qed (simp_all add: record_mcp_tool_observation_def upsert_mcp_tool_baseline_def)

lemma api_tokens_wf: "api_step env may st st' \<Longrightarrow> tokens_wf st \<Longrightarrow> tokens_wf st'"
proof (induction rule: api_step.induct)
  case (By_Agent st st')
  then show ?case using agent_tokens_kept [OF By_Agent(1)] by (simp add: tokens_wf_def)
next
  case (Registered now agent owner st st')
  then show ?case using move_tokens_wf [OF Register] by blast
next
  case (Revoked tenant agent st now reason)
  then show ?case using move_tokens_wf [OF Revoke] by blast
next
  case (Contained tenant agent st now again i mode reason reviewer duration tools incident)
  then show ?case using move_tokens_wf [OF Contain] by blast
next
  case (Lifted i st now)
  then show ?case using move_tokens_wf [OF Uncontain] by blast
next
  case (Released tenant agent st now reviewer remark)
  then show ?case using move_tokens_wf [OF Release] by blast
next
  case (Resolved i status st now reviewer remark)
  then show ?case by (auto simp: tokens_wf_def resolve_approval_def split: option.split)
next
  case (Incident_Set st now audited j i status reviewer remark)
  then show ?case by (simp add: tokens_wf_def update_incident_def append_audit_def Let_def)
next
  case (Finding_Set st now i status remark reviewer)
  then show ?case by (simp add: tokens_wf_def update_watch_finding_def Let_def)
qed

lemma agent_audit_wf:
  "agent_step env st st' \<Longrightarrow> audit_wf (de_crypto env) (de_audit_key env) st \<Longrightarrow> audit_wf (de_crypto env) (de_audit_key env) st'"
proof (induction rule: agent_step.induct)
  case (Called st st')
  then show ?case by (rule step_audit_wf)
qed (auto elim!: audit_wf_cong [THEN iffD1, rotated] simp: record_mcp_tool_observation_def upsert_mcp_tool_baseline_def)

lemma api_audit_wf:
  "api_step env may st st' \<Longrightarrow> audit_wf (de_crypto env) (de_audit_key env) st \<Longrightarrow> audit_wf (de_crypto env) (de_audit_key env) st'"
proof (induction rule: api_step.induct)
  case (By_Agent st st')
  then show ?case by (rule agent_audit_wf)
next
  case (Incident_Set st now audited j i status reviewer remark)
  let ?st1 = "st\<lparr>incidents := update_where (\<lambda>r. in_id r = i) (\<lambda>r. r\<lparr>in_status := status, in_last_seen := now\<rparr>) (incidents st)\<rparr>"
  have "audit_wf (de_crypto env) (de_audit_key env) ?st1" using Incident_Set(2) by (simp add: audit_wf_def)
  then show ?case by (simp add: update_incident_def Let_def append_audit_wf)
qed (auto simp: audit_wf_def register_agent_token_def revoke_agent_tokens_def contain_agent_def release_containment_def release_agent_def
  resolve_approval_def update_watch_finding_def Let_def split: if_splits option.splits)

lemma served_audit:
  assumes "served env may w w'" "audit_wf (de_crypto env) (de_audit_key env) (wo_store w)"
  shows "audit_wf (de_crypto env) (de_audit_key env) (wo_store w')"
  using assms(1) unfolding served_def by (induction rule: rtranclp_induct) (use assms(2) api_audit_wf in auto)

lemma served_tokens:
  assumes "served env may w w'" "tokens_wf (wo_store w)" shows "tokens_wf (wo_store w')"
  using assms(1) unfolding served_def by (induction rule: rtranclp_induct) (use assms(2) api_tokens_wf in auto)

lemma served_machine: "served env may w w' \<Longrightarrow> machine_kept may (lifecycle_of (wo_store w)) (lifecycle_of (wo_store w'))"
  by (simp add: served_def steps_simulated machine_runs_keep)

lemma served_revoked: "served env may w w' \<Longrightarrow> revoked_token i (wo_store w) \<Longrightarrow> revoked_token i (wo_store w')"
  using served_machine by (fastforce simp: machine_kept_def lifecycle_of_def)

lemma served_claimed: "served env may w w' \<Longrightarrow> claimed i (wo_store w) \<Longrightarrow> claimed i (wo_store w')"
  using served_machine by (fastforce simp: machine_kept_def lifecycle_of_def)

lemma served_held: "served env may w w' \<Longrightarrow> \<not> may (Releases t a) \<Longrightarrow> held t a (wo_store w) \<Longrightarrow> held t a (wo_store w')"
  using served_machine by (fastforce simp: machine_kept_def lifecycle_of_def)

lemma served_approved: "served env may w w' \<Longrightarrow> status_of i (wo_store w') = Some ''approved'' \<Longrightarrow>
    status_of i (wo_store w) = Some ''approved'' \<or> may (Resolves i ''approved'')"
  using served_machine by (fastforce simp: machine_kept_def lifecycle_of_def)

section \<open>Requests that run a tool\<close>

definition ran_for :: "server \<Rightarrow> gateway \<Rightarrow> tool_call \<Rightarrow> agent_principal \<Rightarrow> world \<Rightarrow> world \<Rightarrow> bool" where
  "ran_for sv gw call agent w w' \<longleftrightarrow> gw_env gw = sv_env sv
     \<and> (\<exists>w1. served (sv_env sv) (\<lambda>_. False) w w1 \<and> wo_invoked w1 = wo_invoked w \<and> cleared gw call agent w1 \<and> ran_once gw call w1 w')
     \<and> \<not> claimed (tc_request_id call) (wo_store w) \<and> claimed (tc_request_id call) (wo_store w')"

lemma served_frame: "wo_store w' = wo_store w \<Longrightarrow> served env may w w'"
  by (simp add: served_def)

lemma status_only_run: "m w = (r, w') \<Longrightarrow> snd (status_only m w) = w'"
  by (cases r) (simp_all add: status_only_def andthen_def ret_run)

lemma agent_route:
  assumes "wo_invoked (snd (status_only (andthen (require_agent sv b) f) w)) \<noteq> wo_invoked w"
  shows "\<exists>agent r w'. agent_admitted sv b w agent \<and> f agent (w\<lparr>wo_ticks := Suc (Suc (wo_ticks w))\<rparr>) = (r, w')
    \<and> snd (status_only (andthen (require_agent sv b) f) w) = w'"
proof -
  from assms agent_refused [of sv b w f] obtain agent where a: "agent_admitted sv b w agent"
    "require_agent sv b w = (Inr agent, w\<lparr>wo_ticks := Suc (Suc (wo_ticks w))\<rparr>)"
    using require_agent_cases [of sv b w] by (fastforce simp: refused_outright_def)
  obtain r w' where f: "f agent (w\<lparr>wo_ticks := Suc (Suc (wo_ticks w))\<rparr>) = (r, w')" by force
  have "andthen (require_agent sv b) f w = (r, w')" using a(2) f by (simp add: andthen_def)
  from status_only_run [of "andthen (require_agent sv b) f", OF this] a(1) f show ?thesis by blast
qed

lemma call_ran:
  assumes "execute_call gw call agent w1 = (r, w')" "wo_invoked w' \<noteq> wo_invoked w" "gw_env gw = sv_env sv"
    "wo_store w1 = wo_store w" "wo_invoked w1 = wo_invoked w"
  shows "ran_for sv gw call agent w w'"
proof -
  have "wo_invoked w' \<noteq> wo_invoked w1" using assms by simp
  note e = execute_invokes [OF assms(1) this]
  show ?thesis unfolding ran_for_def
    by (intro conjI exI [of _ w1]) (use e assms(3-5) served_frame in auto)
qed

lemma upstream_ran:
  assumes "handle_upstream_mcp server payload agent gw m w1 = (r, w')" "wo_invoked w' \<noteq> wo_invoked w" "gw_env gw = sv_env sv"
    "wo_store w1 = wo_store w" "wo_invoked w1 = wo_invoked w"
  shows "\<exists>gw' call. ran_for sv gw' call agent w w'"
proof -
  have "wo_invoked w' \<noteq> wo_invoked w1" using assms by simp
  from upstream_invokes [OF assms(1) this] obtain c tools gw' call w2 where u:
    "vetted_tools m server agent gw w1 = (Inr (c, tools), w2)" "cleared gw' call agent (w2\<lparr>wo_drawn := Suc (Suc (wo_drawn w2))\<rparr>)"
    "ran_once gw' call w2 w'" "\<not> claimed (tc_request_id call) (wo_store w2)" "claimed (tc_request_id call) (wo_store w')"
    "gw_env gw' = gw_env gw"
    by blast
  have "served (sv_env sv) (\<lambda>_. False) w1 w2"
    using served.keepsD [OF served.keeps_vetted u(1)] assms(3) by simp
  then have s: "served (sv_env sv) (\<lambda>_. False) w (w2\<lparr>wo_drawn := Suc (Suc (wo_drawn w2))\<rparr>)"
    using assms(4) by (simp add: served_def)
  have "wo_invoked w2 = wo_invoked w1" using vetted_run [OF u(1)] by simp
  then have "ran_for sv gw' call agent w w'" unfolding ran_for_def
    by (intro conjI exI [of _ "w2\<lparr>wo_drawn := Suc (Suc (wo_drawn w2))\<rparr>"])
       (use u assms(3,5) s served_claimed [OF s] in \<open>auto simp: ran_once_def\<close>)
  then show ?thesis by blast
qed

definition approval_ran :: "server \<Rightarrow> string \<Rightarrow> world \<Rightarrow> world \<Rightarrow> bool" where
  "approval_ran sv i w w' \<longleftrightarrow> (\<exists>a w1. wo_store w1 = wo_store w \<and> wo_invoked w1 = wo_invoked w \<and> approval_current (sv_gateway sv) i a w1
     \<and> status_of i (wo_store w') = Some ''consumed'' \<and> \<not> claimed (tc_request_id (av_request a)) (wo_store w)
     \<and> claimed (tc_request_id (av_request a)) (wo_store w') \<and> ran_once (sv_gateway sv) (av_request a) w1 w')"

lemma approval_route:
  assumes "wo_invoked (snd (respond sv (Post_Execute_Approval b i) w)) \<noteq> wo_invoked w"
  shows "(\<exists>who. operator_admitted sv Approver b w who) \<and> approval_ran sv i w (snd (respond sv (Post_Execute_Approval b i) w))"
proof -
  let ?w1 = "w\<lparr>wo_ticks := Suc (wo_ticks w)\<rparr>"
  have "\<not> refused_outright (respond sv (Post_Execute_Approval b i)) w"
    using assms by (auto simp: refused_outright_def)
  then obtain who where who: "operator_admitted sv Approver b w who" "operator sv Approver b w = (Inr who, ?w1)"
    using operator_refused [of sv Approver b w] operator_cases [of sv Approver b w] by (auto simp: execute_approved_endpoint_def)
  obtain r w' where e: "execute_approved (sv_gateway sv) i ?w1 = (r, w')" by force
  have w': "snd (respond sv (Post_Execute_Approval b i) w) = w'"
    using who(2) e by (cases r) (auto simp: status_only_def execute_approved_endpoint_def andthen_def refuse_def raise_run ret_run split: option.split)
  have "wo_invoked w' \<noteq> wo_invoked ?w1" using assms w' by simp
  from approved_invokes [OF e this] obtain a where a: "approval_current (sv_gateway sv) i a ?w1"
      "status_of i (wo_store w') = Some ''consumed''" "\<not> claimed (tc_request_id (av_request a)) (wo_store w)"
      "claimed (tc_request_id (av_request a)) (wo_store w')" "ran_once (sv_gateway sv) (av_request a) ?w1 w'"
    by auto
  have "approval_ran sv i w w'" unfolding approval_ran_def by (intro exI [of _ a] exI [of _ ?w1]) (use a in auto)
  then show ?thesis using who(1) w' by blast
qed

lemma respond_invokes:
  assumes i: "wo_invoked (snd (respond sv q w)) \<noteq> wo_invoked w"
  shows "(\<exists>b agent gw call. access_of q = Agent_Token b \<and> agent_admitted sv b w agent \<and> ran_for sv gw call agent w (snd (respond sv q w)))
    \<or> (\<exists>b j who. q = Post_Execute_Approval b j \<and> operator_admitted sv Approver b w who \<and> approval_ran sv j w (snd (respond sv q w)))"
proof -
  have "may_invoke q" using respond_calmly [OF refl, of q sv w] i by (auto simp: served_calmly_def)
  let ?w1 = "w\<lparr>wo_ticks := Suc (Suc (wo_ticks w))\<rparr>"
  show ?thesis
  proof (cases q)
    case (Post_Mcp b payload)
    obtain agent r w' where a: "agent_admitted sv b w agent" "handle_mcp payload agent (sv_gateway sv) None ?w1 = (r, w')"
        "snd (respond sv q w) = w'"
      using agent_route [OF i [unfolded Post_Mcp respond.simps mcp_endpoint_def]] by (auto simp: Post_Mcp mcp_endpoint_def)
    have inv: "wo_invoked w' \<noteq> wo_invoked ?w1" using i a(3) by simp
    obtain call w2 x where c: "execute_call (sv_gateway sv) call agent w2 = (x, w')" "wo_store w2 = wo_store w" "wo_invoked w2 = wo_invoked w"
      using handle_mcp_calls [OF a(2)] inv by auto
    have "ran_for sv (sv_gateway sv) call agent w w'" using call_ran [OF c(1) _ refl c(2,3)] inv by simp
    then show ?thesis using a Post_Mcp by auto
  next
    case (Post_Upstream b server payload)
    obtain agent r w' where a: "agent_admitted sv b w agent"
        "handle_upstream_mcp server payload agent (sv_gateway sv) (sv_upstream sv) ?w1 = (r, w')" "snd (respond sv q w) = w'"
      using agent_route [OF i [unfolded Post_Upstream respond.simps upstream_mcp_endpoint_def]]
      by (auto simp: Post_Upstream upstream_mcp_endpoint_def)
    have "wo_invoked w' \<noteq> wo_invoked w" using i a(3) by simp
    from upstream_ran [OF a(2) this refl] a Post_Upstream show ?thesis by auto
  next
    case (Post_Execute b call)
    obtain agent r w' where a: "agent_admitted sv b w agent" "andthen (direct_only call) (\<lambda>_. execute_call (sv_gateway sv) call agent) ?w1 = (r, w')"
        "snd (respond sv q w) = w'"
      using agent_route [OF i [unfolded Post_Execute respond.simps execute_endpoint_def]] by (auto simp: Post_Execute execute_endpoint_def)
    have inv: "wo_invoked w' \<noteq> wo_invoked w" using i a(3) by simp
    have "execute_call (sv_gateway sv) call agent ?w1 = (r, w')"
      using a(2) inv by (auto simp: direct_only_def refuse_def andthen_def raise_run ret_run split: if_splits)
    from call_ran [OF this inv refl] a Post_Execute show ?thesis by auto
  next
    case (Post_Execute_Approval b j)
    show ?thesis using approval_route [OF i [unfolded Post_Execute_Approval]] unfolding Post_Execute_Approval by blast
  qed (use \<open>may_invoke q\<close> in simp_all)
qed

lemma respond_counts:
  assumes "wo_invoked (snd (respond sv q w)) \<noteq> wo_invoked w"
  shows "\<exists>r. \<not> claimed r (wo_store w) \<and> claimed r (wo_store (snd (respond sv q w)))
    \<and> length (wo_invoked (snd (respond sv q w))) = Suc (length (wo_invoked w))"
  using respond_invokes [OF assms] by (fastforce simp: ran_for_def approval_ran_def ran_once_def)

section \<open>Sequences of requests\<close>

lemma serve_all_Cons: "serve_all (q # qs) (sv, w) = serve_all qs (server_after sv q w, snd (respond sv q w))"
  by (simp add: serve_def [of q])

definition request_controls :: "api_request list \<Rightarrow> control \<Rightarrow> bool" where
  "request_controls qs c \<longleftrightarrow> list_ex (\<lambda>q. controls q c) qs"

lemma served_mono: "served env may w w' \<Longrightarrow> (\<And>c. may c \<Longrightarrow> wider c) \<Longrightarrow> served env wider w w'"
proof -
  assume s: "served env may w w'" and m: "\<And>c. may c \<Longrightarrow> wider c"
  have "api_step env wider st st'" if "api_step env may st st'" for st st'
    using that by (induction rule: api_step.induct) (auto intro: api_step.intros m)
  then have "api_step env may \<le> api_step env wider" by blast
  from rtranclp_mono [OF this] s show ?thesis by (auto simp: served_def)
qed

lemma serve_all_served:
  "serve_all qs (sv, w) = (sv', w') \<Longrightarrow> served (sv_env sv) (request_controls qs) w w'"
proof (induction qs arbitrary: sv w)
  case (Cons q qs)
  let ?w1 = "snd (respond sv q w)"
  have "served (sv_env sv) (request_controls (q # qs)) w ?w1"
    by (rule served_mono [OF respond_served [OF refl]]) (simp add: request_controls_def)
  moreover have "served (sv_env sv) (request_controls (q # qs)) ?w1 w'"
    by (rule served_mono, rule Cons.IH [of "server_after sv q w" ?w1, unfolded server_after_env])
       (use Cons.prems in \<open>simp_all add: serve_def [of q] request_controls_def\<close>)
  ultimately show ?case by (meson rtranclp_trans served_def)
qed (simp add: served_def)

lemma serve_all_counts:
  "serve_all qs (sv, w) = (sv', w') \<Longrightarrow> \<exists>rs. distinct rs \<and> length (wo_invoked w') = length (wo_invoked w) + length rs
     \<and> set rs \<subseteq> {r. \<not> claimed r (wo_store w) \<and> claimed r (wo_store w')}"
proof (induction qs arbitrary: sv w)
  case (Cons q qs)
  let ?w1 = "snd (respond sv q w)"
  have rest: "serve_all qs (server_after sv q w, ?w1) = (sv', w')" using Cons.prems by (simp add: serve_def [of q])
  obtain rs where rs: "distinct rs" "length (wo_invoked w') = length (wo_invoked ?w1) + length rs"
      "set rs \<subseteq> {r. \<not> claimed r (wo_store ?w1) \<and> claimed r (wo_store w')}"
    using Cons.IH [OF rest] by blast
  have first: "claimed r (wo_store w) \<Longrightarrow> claimed r (wo_store ?w1)" for r using served_claimed respond_served [OF refl] by blast
  have later: "claimed r (wo_store ?w1) \<Longrightarrow> claimed r (wo_store w')" for r using served_claimed serve_all_served [OF rest] by blast
  show ?case
  proof (cases "wo_invoked ?w1 = wo_invoked w")
    case True
    then show ?thesis using rs first by (intro exI [of _ rs]) auto
  next
    case False
    obtain r where "\<not> claimed r (wo_store w)" "claimed r (wo_store ?w1)" "length (wo_invoked ?w1) = Suc (length (wo_invoked w))"
      using respond_counts [OF False] by blast
    then show ?thesis using rs first later by (intro exI [of _ "r # rs"]) auto
  qed
qed auto

end
