(* ===== verification/Api_Tokens.thy ===== *)
theory Api_Tokens
  imports Api_Safety
begin

text \<open>
  The life of an agent's token, from its issue by an administrator over its acceptance to its
  revocation: the lemmas behind the properties of tokens in \<open>Api_Properties\<close>.
\<close>

section \<open>Reading a token\<close>

text \<open>What a token says does not depend on when it is read; only whether it is accepted does.\<close>

lemma checked_payload: "check_payload sg now a payload = Inr d \<Longrightarrow> payload = JDict d"
  by (cases payload) (auto simp: check_payload_def split: if_splits option.splits)

lemma principal_unique:
  assumes "agent_principal_of cr sg now token = Inr p" "agent_principal_of cr sg later token = Inr p'" shows "p' = p"
proof -
  obtain d d' where d: "decode cr sg now token ''sentinelgate-agent'' = Inr d" "decode cr sg later token ''sentinelgate-agent'' = Inr d'"
    using assms unfolding agent_principal_of_def ebind_Inr_iff by blast
  then have "d' = d" by (auto simp: decode_def ebind_Inr_iff dest!: checked_payload)
  then show ?thesis using assms d by (simp add: agent_principal_of_def)
qed

lemma admitted_token:
  assumes "agent_admitted sv b w p" obtains t where "t \<in> set (agent_tokens (wo_store w))" "tk_id t = pr_token_id p"
    "tk_tenant t = pr_tenant_id p" "tk_agent t = pr_agent_id p"
proof -
  obtain now where a: "token_is_active now p (wo_store w)" using assms by (auto simp: agent_admitted_def)
  obtain t where "select_one (token_row_of p) (agent_tokens (wo_store w)) = Some t"
    using a by (auto simp: token_is_active_def split: option.splits)
  from select_one_Some [OF this] show ?thesis using that by (auto simp: token_row_of_def)
qed

lemma revoke_answered:
  assumes "operator_admitted sv Administrator b w who"
  shows "agent_tokens (wo_store (snd (respond sv (Post_Revoke b tenant agent remark) w))) =
      agent_tokens (snd (revoke_agent_tokens (wo_clock w (Suc (wo_ticks w))) tenant agent (if remark \<noteq> [] then remark else ''Administrative revocation'') (wo_store w)))"
proof -
  have "operator sv Administrator b w = (Inr who, w\<lparr>wo_ticks := Suc (wo_ticks w)\<rparr>)"
    using operator_cases [of sv Administrator b w] assms by (auto simp: operator_admitted_def)
  then show ?thesis
    by (simp add: status_only_def revoke_agent_def andthen_assoc andthen_Inr andthen_tick andthen_db andthen_audit ret_run append_audit_def Let_def)
qed

section \<open>Issuing a token\<close>

lemma whole_le: "seconds n \<le> later \<longleftrightarrow> n \<le> whole_seconds later"
  unfolding seconds_def whole_seconds_def by linarith

lemma issued_principal:
  assumes "issue_agent cr sg now jti agent tenant scopes ttl = Inr (token, expires, i)"
  shows "agent_principal_of cr sg later token = (if expires \<le> later then Inl (TokenError ''Token expired'')
      else Inr \<lparr>pr_agent_id = agent, pr_tenant_id = tenant, pr_scopes = sorted_set scopes, pr_token_id = jti, pr_expires_at = expires\<rparr>)
    \<and> i = jti \<and> expires = seconds (whole_seconds now + ttl)"
proof -
  let ?c = "[(''tenant_id'', JStr tenant), (''scopes'', jstrs (sorted_set scopes))]"
  have ok: "claims_ok ?c" by (simp add: claims_ok_def dict_wf_def reserved_claims_def jstrs_def)
  obtain e d where i: "issue cr sg now jti agent ''sentinelgate-agent'' ttl ?c = Inr (token, e)"
      "decode cr sg now token ''sentinelgate-agent'' = Inr d" "expires = e" "Inr i = (case map_of d ''jti'' of Some v \<Rightarrow> Inr (py_str v) | None \<Rightarrow> Inl (KeyError ''jti''))"
    using assms unfolding issue_agent_def by (auto simp: ebind_Inr_iff key_of_def split: option.splits)
  have e: "e = seconds (whole_seconds now + ttl)" using i(1) issue_ok [OF ok] by auto
  note d = decode_issued [OF ok i(1)]
  have "i = jti" using i(2,4) d [of now "''sentinelgate-agent''"] by (auto simp: Identity.payload_of_def py_str_def split: if_splits)
  moreover have "as_strs (jstrs (sorted_set scopes)) = Some (sorted_set scopes)" by simp
  ultimately show ?thesis using e i(3)
    by (simp add: agent_principal_of_def d whole_le Identity.payload_of_def key_of_def py_str_def)
qed

lemma select_upserted:
  assumes "\<And>r. P (f r) = P r" "P new"
  shows "\<exists>a. select_one P (upsert P new f rows) = Some a \<and> (a = new \<or> (\<exists>r. a = f r))"
proof (cases "select_one P rows")
  case None
  then have "\<not> list_ex P rows" by (simp add: select_one_None list_ex_iff)
  then show ?thesis using None assms(2) by (simp add: upsert_def select_one_snoc)
next
  case (Some r)
  then have "list_ex P rows" using select_one_Some by (fastforce simp: list_ex_iff)
  moreover have "select_one P (update_where P f rows) = Some (f r)"
    using Some assms(1) by (induction rows) (auto simp: select_one_def update_where_def split: if_splits)
  ultimately show ?thesis by (auto simp: upsert_def)
qed

lemma registered_active:
  assumes "register_agent_token now p owner st = Inr st'"
  shows "token_is_active later p st' \<longleftrightarrow> later < pr_expires_at p"
proof -
  let ?row = "\<lparr>tk_id = pr_token_id p, tk_tenant = pr_tenant_id p, tk_agent = pr_agent_id p, tk_expires = pr_expires_at p,
     tk_revoked = None, tk_reason = None\<rparr>"
  have r: "\<forall>t \<in> set (agent_tokens st). tk_id t \<noteq> pr_token_id p" "agent_tokens st' = agent_tokens st @ [?row]"
    using assms(1) by (auto simp: register_agent_token_def list_ex_iff split: if_splits)
  have "select_one (token_row_of p) (agent_tokens st) = None" using r(1) by (simp add: select_one_None token_row_of_def)
  then have t: "select_one (token_row_of p) (agent_tokens st') = Some ?row"
    by (simp add: r(2) select_one_snoc token_row_of_def)
  obtain new f where u: "agents st' = upsert (\<lambda>a. ag_tenant a = pr_tenant_id p \<and> ag_agent a = pr_agent_id p) new f (agents st)"
      "ag_status new = ''active''" "\<And>a. ag_status (f a) = ''active'' \<and> ag_tenant (f a) = ag_tenant a \<and> ag_agent (f a) = ag_agent a"
      "ag_tenant new = pr_tenant_id p" "ag_agent new = pr_agent_id p"
    using assms(1) by (auto simp: register_agent_token_def split: if_splits)
  have "\<exists>a. select_one (\<lambda>a. ag_tenant a = pr_tenant_id p \<and> ag_agent a = pr_agent_id p) (agents st') = Some a \<and> (a = new \<or> (\<exists>r. a = f r))"
    unfolding u(1) by (rule select_upserted) (simp_all add: u)
  then show ?thesis using u(2,3) by (auto simp: token_is_active_def t)
qed

lemma audit_agents: "audit env ty payload w = (r, w') \<Longrightarrow>
    agent_tokens (wo_store w') = agent_tokens (wo_store w) \<and> agents (wo_store w') = agents (wo_store w)"
  using andthen_audit [of env ty payload ret w]
  by (auto simp: ret_run andthen_def append_audit_def Let_def split: prod.splits sum.splits)

lemma db_exc_unit: "db_exc (\<lambda>st. ebind (t st) (\<lambda>st'. Inr ((), st'))) w = (Inr x, w') \<longleftrightarrow> (\<exists>st'. t (wo_store w) = Inr st' \<and> w' = w\<lparr>wo_store := st'\<rparr>)"
  by (cases "t (wo_store w)") (auto simp: db_exc_def)

lemma issued_admits:
  assumes "issue_agent_token sv admin q w = (Inr (token, expires, i), w')"
  shows "\<exists>p. pr_agent_id p = tq_agent_id q \<and> pr_tenant_id p = tq_tenant_id q \<and> set (pr_scopes p) = set (tq_scopes q)
    \<and> agent_admitted sv (Some (''Bearer'', token)) w' p = (wo_clock w' (wo_ticks w') < expires \<and> wo_clock w' (Suc (wo_ticks w')) < expires)"
proof -
  obtain now jti later p n st st' where
    i: "issue_agent (sv_crypto sv) (sv_signer sv) now jti (tq_agent_id q) (tq_tenant_id q) (tq_scopes q) (tq_ttl q) = Inr (token, expires, i)"
    and p: "agent_principal_of (sv_crypto sv) (sv_signer sv) later token = Inr p"
    and r: "register_agent_token n p (tq_owner q) st = Inr st'"
    and w1: "\<exists>ty payload x w1. audit (sv_env sv) ty payload w1 = (Inr x, w') \<and> wo_store w1 = st'"
    using assms unfolding issue_agent_token_def
    by (auto simp: andthen_Inr_iff db_exc_unit tick_def fresh_id_def lift_run ret_run split: prod.splits) force
  then have w': "agent_tokens (wo_store w') = agent_tokens st'" "agents (wo_store w') = agents st'" by (auto dest: audit_agents)
  note pp = issued_principal [OF i]
  have p': "p = \<lparr>pr_agent_id = tq_agent_id q, pr_tenant_id = tq_tenant_id q, pr_scopes = sorted_set (tq_scopes q), pr_token_id = i, pr_expires_at = expires\<rparr>"
    using p pp [of later] by (auto split: if_splits)
  have "token_is_active later p (wo_store w') = token_is_active later p st'" for later unfolding token_is_active_def w' ..
  moreover have "token_is_active later p st' = (later < expires)" for later using registered_active [OF r] p' by simp
  moreover have "casefold ''Bearer'' = ''bearer''" by code_simp
  ultimately show ?thesis using pp p' by (intro exI [of _ p]) (auto simp: agent_admitted_def)
qed

lemma andthen_register: "andthen (db_exc (\<lambda>st. ebind (t st) (\<lambda>st'. Inr ((), st')))) f w =
    (case t (wo_store w) of Inl e \<Rightarrow> (Inl e, w) | Inr st' \<Rightarrow> f () (w\<lparr>wo_store := st'\<rparr>))"
  by (simp add: andthen_def db_exc_def split: sum.split)

lemma issue_succeeds:
  assumes o: "operator_admitted sv Administrator admin w who" and t: "\<forall>t \<in> set (agent_tokens (wo_store w)). tk_id t \<noteq> wo_ids w (wo_drawn w)"
    and e: "wo_clock w (Suc (Suc (wo_ticks w))) < seconds (whole_seconds (wo_clock w (Suc (wo_ticks w))) + tq_ttl q)" "0 < tq_ttl q"
  shows "\<exists>token w'. issue_agent_token sv admin q w =
      (Inr (token, seconds (whole_seconds (wo_clock w (Suc (wo_ticks w))) + tq_ttl q), wo_ids w (wo_drawn w)), w')
    \<and> wo_clock w' = wo_clock w \<and> wo_ticks w' = wo_ticks w + 5"
proof -
  let ?now = "wo_clock w (Suc (wo_ticks w))" and ?jti = "wo_ids w (wo_drawn w)"
  let ?c = "[(''tenant_id'', JStr (tq_tenant_id q)), (''scopes'', jstrs (sorted_set (tq_scopes q)))]"
  have op: "operator sv Administrator admin w = (Inr who, w\<lparr>wo_ticks := Suc (wo_ticks w)\<rparr>)"
    using operator_cases [of sv Administrator admin w] o by (auto simp: operator_admitted_def)
  have ok: "claims_ok ?c" by (simp add: claims_ok_def dict_wf_def reserved_claims_def jstrs_def)
  obtain token where i: "issue (sv_crypto sv) (sv_signer sv) ?now ?jti (tq_agent_id q) ''sentinelgate-agent'' (tq_ttl q) ?c =
      Inr (token, seconds (whole_seconds ?now + tq_ttl q))" using issue_ok [OF ok] by auto
  have ia: "issue_agent (sv_crypto sv) (sv_signer sv) ?now ?jti (tq_agent_id q) (tq_tenant_id q) (tq_scopes q) (tq_ttl q) =
      Inr (token, seconds (whole_seconds ?now + tq_ttl q), ?jti)"
    using e(2) by (simp add: issue_agent_def i decode_issued [OF ok i] key_of_def Identity.payload_of_def py_str_def)
  note p = issued_principal [OF ia, of "wo_clock w (Suc (Suc (wo_ticks w)))"]
  show ?thesis using e(1) p t
    by (simp add: issue_agent_token_def andthen_Inr [of "operator sv Administrator admin", OF op] andthen_id andthen_tick andthen_lift ia)
       (simp add: andthen_register register_agent_token_def list_ex_iff andthen_audit ret_run)
qed

end
