(* ===== verification/Api_Properties.thy ===== *)
theory Api_Properties
  imports Api_Tokens Gateway_Properties
begin

text \<open>
  What the server of \<open>Api\<close> guarantees, for one request and for any sequence of requests with any
  credentials: requests without credentials do nothing, tools run only for those who may run them,
  controls change only by the hand of an operator with the role, and the server refines the machine
  of \<open>Lifecycle\<close>. Each property is applied at a concrete server.
\<close>

section \<open>The controls that a sequence of requests exercises\<close>

text \<open>Only the requests that were admitted when they came.\<close>

fun exercised :: "api_request list \<Rightarrow> server \<Rightarrow> world \<Rightarrow> control \<Rightarrow> bool" where
  "exercised [] sv w c \<longleftrightarrow> False"
| "exercised (q # qs) sv w c \<longleftrightarrow> admitted_to sv (access_of q) w \<and> controls q c
     \<or> exercised qs (server_after sv q w) (snd (respond sv q w)) c"

lemma respond_served_admitted:
  "served (sv_env sv) (\<lambda>c. admitted_to sv (access_of q) w \<and> controls q c) w (snd (respond sv q w))"
proof (cases "admitted_to sv (access_of q) w")
  case True
  then show ?thesis using served_mono [OF respond_served [OF refl]] by simp
next
  case False
  then show ?thesis using respond_refused [OF False] by (auto simp: refused_outright_def served_def)
qed

lemma serve_all_exercised: "served (sv_env sv) (exercised qs sv w) w (snd (serve_all qs (sv, w)))"
proof (induction qs arbitrary: sv w)
  case (Cons q qs)
  let ?w1 = "snd (respond sv q w)"
  have "served (sv_env sv) (exercised (q # qs) sv w) w ?w1"
    by (rule served_mono [OF respond_served_admitted]) simp
  moreover have "served (sv_env sv) (exercised (q # qs) sv w) ?w1 (snd (serve_all (q # qs) (sv, w)))"
    unfolding serve_all_Cons by (rule served_mono [OF Cons.IH [of "server_after sv q w", unfolded server_after_env]]) simp
  ultimately show ?case by (meson rtranclp_trans served_def)
qed (simp add: served_def)

lemma exercised_by:
  "exercised qs sv w c \<Longrightarrow> \<exists>before q after. qs = before @ q # after \<and> controls q c
     \<and> (case serve_all before (sv, w) of (sv', w') \<Rightarrow> admitted_to sv' (access_of q) w')"
proof (induction qs arbitrary: sv w)
  case (Cons q qs)
  show ?case
  proof (cases "admitted_to sv (access_of q) w \<and> controls q c")
    case True
    then show ?thesis by (intro exI [of _ "[]"] exI [of _ q] exI [of _ qs]) simp
  next
    case False
    then obtain before r after where "qs = before @ r # after" "controls r c"
        "case serve_all before (server_after sv q w, snd (respond sv q w)) of (sv', w') \<Rightarrow> admitted_to sv' (access_of r) w'"
      using Cons by fastforce
    then show ?thesis by (intro exI [of _ "q # before"] exI [of _ r] exI [of _ after]) (simp add: serve_def [of q])
  qed
qed simp

lemma approves: "controls q (Resolves i ''approved'') \<Longrightarrow> \<exists>b remark. q = Post_Approve b i remark"
  by (cases q) auto

lemma releases: "controls q (Releases t a) \<Longrightarrow> \<exists>b remark. q = Post_Release_Agent b t a remark"
  by (cases q) auto

section \<open>A server\<close>

definition demo_signer :: signer where
  "demo_signer = \<lparr>sg_key = ''k'', sg_issuer = ''i''\<rparr>"

definition demo_server :: server where
  "demo_server = \<lparr>sv_settings = default_settings, sv_files = \<lparr>fs_content = (\<lambda>_. None), fs_is_file = (\<lambda>_. False), fs_is_dir = (\<lambda>_. False)\<rparr>,
     sv_jwt = (\<lambda>_ _ _. None), sv_signer = demo_signer, sv_provenance = demo_service,
     sv_watch = \<lparr>wv_enabled = True, wv_monitor_only = True\<rparr>, sv_gateway = demo_gateway,
     sv_upstream = \<lparr>um_file = No_Servers, um_environ = (\<lambda>_. None), um_address_ok = (\<lambda>_. False), um_client = (\<lambda>_ _ _ _. Failed)\<rparr>,
     sv_network = \<lparr>gn_key_file = (\<lambda>_. Unloadable), gn_http = (\<lambda>_ _ _. No_Answer), gn_clock = (\<lambda>_ _. 0), gn_read_time = (\<lambda>_. None)\<rparr>,
     sv_exchange = (\<lambda>_ _ _. None)\<rparr>"

definition demo_bearer :: "string \<Rightarrow> bearer" where
  "demo_bearer token = Some (''Bearer'', token)"

lemma demo_administrator: "operator_admitted demo_server r (demo_bearer ''development-admin-token'') w shared_administrator"
proof -
  have "operator_identity (\<lambda>_ _ _. None) default_settings now (demo_bearer ''development-admin-token'') = Inr shared_administrator" for now
    by code_simp
  then show ?thesis by (simp add: operator_admitted_def demo_server_def role_allowed_def shared_administrator_def)
qed

section \<open>Who may make a request\<close>

text \<open>
  C6. A request without valid credentials does nothing: it ends in an exception, the store, the
  executed tools and the messages sent are as before (only the clock was read), and no tool gets
  registered. For every route but the four static pages, which ask for no credentials.
\<close>

theorem refused_requests_change_nothing:
  assumes "\<not> admitted_to sv (access_of q) w"
  shows "\<exists>e n. respond sv q w = (Inl e, w\<lparr>wo_ticks := n\<rparr>) \<and> server_after sv q w = sv"
  using respond_refused [OF assms] server_refused [OF assms] by (auto simp: refused_outright_def)

theorem refused_requests_change_nothing_witness:
  "\<exists>e n. respond demo_server (Post_Approve (demo_bearer ''guess'') ''ap'' []) demo_world = (Inl e, demo_world\<lparr>wo_ticks := n\<rparr>)
     \<and> server_after demo_server (Post_Approve (demo_bearer ''guess'') ''ap'' []) demo_world = demo_server"
proof (rule refused_requests_change_nothing)
  have "operator_identity (\<lambda>_ _ _. None) default_settings now (demo_bearer ''guess'') = Inl (HTTPException 401 ''Invalid administrator token'')" for now
    by code_simp
  then show "\<not> admitted_to demo_server (access_of (Post_Approve (demo_bearer ''guess'') ''ap'' [])) demo_world"
    by (simp add: admitted_to_def operator_admitted_def demo_server_def)
qed


text \<open>
  C7. No request is executed twice, whatever sequence of requests the server answers: the executed
  calls are as many as distinct request ids that were not claimed before and are claimed after.
\<close>

theorem no_request_runs_twice:
  "\<exists>ids. distinct ids \<and> length (wo_invoked (snd (serve_all qs (sv, w)))) = length (wo_invoked w) + length ids
     \<and> set ids \<subseteq> {i. \<not> claimed i (wo_store w) \<and> claimed i (wo_store (snd (serve_all qs (sv, w))))}"
  using serve_all_counts [OF prod.collapse [symmetric]] by simp

text \<open>The agent for whom a request ran a tool: the holder of the token it bears, or the agent of the approval that it executes.\<close>

definition tool_ran_for :: "server \<Rightarrow> api_request \<Rightarrow> world \<Rightarrow> string \<Rightarrow> string \<Rightarrow> bool" where
  "tool_ran_for sv q w tenant agent \<longleftrightarrow>
     (\<exists>b p gw call. access_of q = Agent_Token b \<and> agent_admitted sv b w p \<and> ran_for sv gw call p w (snd (respond sv q w))
        \<and> pr_tenant_id p = tenant \<and> pr_agent_id p = agent)
   \<or> (\<exists>b i who a w1. q = Post_Execute_Approval b i \<and> operator_admitted sv Approver b w who \<and> wo_store w1 = wo_store w
        \<and> approval_current (sv_gateway sv) i a w1 \<and> ran_once (sv_gateway sv) (av_request a) w1 (snd (respond sv q w))
        \<and> av_tenant a = tenant \<and> av_agent a = agent)"

lemma invoked_for:
  assumes "wo_invoked (snd (respond sv q w)) \<noteq> wo_invoked w" shows "\<exists>t a. tool_ran_for sv q w t a"
  using respond_invokes [OF assms]
proof (elim disjE exE conjE)
  fix b p gw call
  assume "access_of q = Agent_Token b" "agent_admitted sv b w p" "ran_for sv gw call p w (snd (respond sv q w))"
  then show ?thesis unfolding tool_ran_for_def by metis
next
  fix b i who
  assume q: "q = Post_Execute_Approval b i" "operator_admitted sv Approver b w who" "approval_ran sv i w (snd (respond sv q w))"
  then obtain a w1 where "wo_store w1 = wo_store w" "approval_current (sv_gateway sv) i a w1"
      "ran_once (sv_gateway sv) (av_request a) w1 (snd (respond sv q w))" unfolding approval_ran_def by metis
  then show ?thesis unfolding tool_ran_for_def using q(1,2) by metis
qed

lemma held_runs_nothing:
  assumes h: "held tenant agent (wo_store w)" and r: "tool_ran_for sv q w t a" shows "(t, a) \<noteq> (tenant, agent)"
  using r unfolding tool_ran_for_def
proof (elim disjE exE conjE)
  fix b p gw call
  assume "ran_for sv gw call p w (snd (respond sv q w))" and p: "pr_tenant_id p = t" "pr_agent_id p = a"
  then obtain w1 where w1: "served (sv_env sv) (\<lambda>_. False) w w1" "cleared gw call p w1" by (auto simp: ran_for_def)
  have "held tenant agent (wo_store w1)" using served_held [OF w1(1) _ h] by simp
  then show ?thesis using w1(2) p held_quarantined by (auto simp: cleared_def)
next
  fix b i who d w1
  assume "wo_store w1 = wo_store w" "approval_current (sv_gateway sv) i d w1" "av_tenant d = t" "av_agent d = a"
  then show ?thesis using h held_quarantined by (auto simp: approval_current_def)
qed

lemma held_or_released:
  assumes "held tenant agent (wo_store w)"
  shows "held tenant agent (wo_store (snd (serve_all qs (sv, w))))
    \<or> (\<exists>before b remark after. qs = before @ Post_Release_Agent b tenant agent remark # after
        \<and> (case serve_all before (sv, w) of (sv', w') \<Rightarrow> \<exists>who. operator_admitted sv' Administrator b w' who))"
proof (cases "exercised qs sv w (Releases tenant agent)")
  case True
  then show ?thesis using exercised_by [OF True] by (fastforce dest!: releases simp: admitted_to_def)
next
  case False
  then show ?thesis using served_held [OF serve_all_exercised False assms] by simp
qed

section \<open>Refinement\<close>

text \<open>
  C2. The server refines the life cycle of requests: whatever requests it answers, what its store
  shows of approvals, started executions, quarantines and revoked tokens changes only by steps of
  the abstract machine, and the steps that need an operator (deciding an approval, releasing a
  quarantine, withdrawing tokens) are taken only for requests whose operator was admitted.
\<close>

theorem requests_refine_lifecycle:
  "(lifecycle_step (exercised qs sv w))\<^sup>*\<^sup>* (lifecycle_of (wo_store w)) (lifecycle_of (wo_store (snd (serve_all qs (sv, w)))))"
  by (rule steps_simulated [OF serve_all_exercised [unfolded served_def]])

text \<open>
  C11. The audit log stays a verifiable chain under any sequence of requests, with any credentials:
  if its times increase and it verifies before, it does so after each of them.
\<close>

theorem requests_keep_audit_chain:
  assumes "audit_wf (sv_crypto sv) (de_audit_key (sv_env sv)) (wo_store w)"
  shows "audit_wf (sv_crypto sv) (de_audit_key (sv_env sv)) (wo_store (snd (serve_all qs (sv, w))))"
  by (rule served_audit [OF serve_all_exercised assms])

theorem requests_keep_audit_chain_witness:
  "audit_wf (sv_crypto demo_server) (de_audit_key (sv_env demo_server)) (wo_store (snd (serve_all [Post_Approve (demo_bearer ''guess'') ''ap'' [], Get_Health] (demo_server, demo_world))))"
  by (rule requests_keep_audit_chain) (simp add: demo_world_def audit_wf_def empty_store_def verify_audit_chain_def)

section \<open>Operators\<close>

text \<open>
  C10. Only an administrator releases an agent: after any sequence of requests an agent that was
  quarantined still is, or the sequence has a release of that agent that came when its administrator
  was admitted. (The rows of the automatic quarantine, which do not expire; a containment in mode
  quarantine lapses with its time.)
\<close>

theorem quarantine_outlasts_requests:
  assumes "held tenant agent (wo_store w)"
  shows "held tenant agent (wo_store (snd (serve_all qs (sv, w))))
    \<or> (\<exists>before b remark after. qs = before @ Post_Release_Agent b tenant agent remark # after
        \<and> (case serve_all before (sv, w) of (sv', w') \<Rightarrow> \<exists>who. operator_admitted sv' Administrator b w' who))"
  using assms by (rule held_or_released)

lemma guess_refused: "\<not> operator_admitted demo_server r (demo_bearer ''guess'') w who"
proof -
  have "operator_identity (\<lambda>_ _ _. None) default_settings now (demo_bearer ''guess'') = Inl (HTTPException 401 ''Invalid administrator token'')" for now
    by code_simp
  then show ?thesis by (simp add: operator_admitted_def demo_server_def)
qed

definition held_world :: world where
  "held_world = demo_world\<lparr>wo_store := quarantine 0 0 ''q'' ''acme'' ''a1'' ''r'' empty_store\<rparr>"

theorem quarantine_outlasts_requests_witness:
  "held ''acme'' ''a1'' (wo_store (snd (serve_all [Post_Release_Agent (demo_bearer ''guess'') ''acme'' ''a1'' [], Get_Health] (demo_server, held_world))))"
proof -
  have "held ''acme'' ''a1'' (wo_store held_world)" by (simp add: held_world_def quarantine_holds)
  from quarantine_outlasts_requests [OF this, of "[Post_Release_Agent (demo_bearer ''guess'') ''acme'' ''a1'' [], Get_Health]" demo_server]
  show ?thesis by (auto simp: Cons_eq_append_conv guess_refused)
qed

text \<open>
  C14. A quarantined agent runs nothing: from an automatic quarantine on, whatever requests the server
  answers, each request that runs a tool runs it for another agent, the holder of its token or the
  agent of the approval it executes, so not even an approval given before or after the quarantine
  runs for the quarantined one; until a release of the agent came when its administrator was
  admitted.
\<close>

theorem quarantined_agent_runs_nothing:
  assumes "held tenant agent (wo_store w)" and "serve_all qs (sv, w) = (sv', w')"
    and "wo_invoked (snd (respond sv' q w')) \<noteq> wo_invoked w'"
  shows "(\<exists>t a. tool_ran_for sv' q w' t a) \<and> (\<forall>t a. tool_ran_for sv' q w' t a \<longrightarrow> (t, a) \<noteq> (tenant, agent))
    \<or> (\<exists>before b remark after. qs = before @ Post_Release_Agent b tenant agent remark # after
        \<and> (case serve_all before (sv, w) of (sv', w') \<Rightarrow> \<exists>who. operator_admitted sv' Administrator b w' who))"
  using held_or_released [OF assms(1), of qs sv] invoked_for [OF assms(3)] held_runs_nothing [of tenant agent w'] assms(2)
  by fastforce

text \<open>A world with an approval for one agent and a quarantine of another.\<close>

definition other_held_world :: world where
  "other_held_world = (approval_world [])\<lparr>wo_store := quarantine 0 0 ''q'' ''acme'' ''a2'' ''r'' (wo_store (approval_world []))\<rparr>"

lemma other_held_runs:
  "wo_invoked (snd (respond demo_server (Post_Execute_Approval (demo_bearer ''development-admin-token'') ''ap'') other_held_world))
    \<noteq> wo_invoked other_held_world"
proof -
  let ?w = "other_held_world\<lparr>wo_ticks := Suc (wo_ticks other_held_world)\<rparr>"
  have st: "approvals (wo_store ?w) = [demo_approved]" "executions (wo_store ?w) = []" "lineage_events (wo_store ?w) = []"
      "wo_clock ?w = wo_clock demo_world" "wo_ticks ?w \<le> 1"
    by (simp_all add: other_held_world_def approval_world_def empty_store_def demo_world_def quarantine_def contain_agent_def Let_def)
  have "\<not> is_quarantined n ''acme'' ''a1'' (wo_store ?w)" for n
    by (simp add: other_held_world_def approval_world_def empty_store_def demo_world_def quarantine_def contain_agent_def Let_def is_quarantined_def
      active_containment_def newest_first_def upsert_def quarantine_open_def)
  from approval_runs_in [OF st(1-3) this st(4,5)]
  obtain r w' where e: "execute_approved demo_gateway ''ap'' ?w = (r, w')" "wo_invoked w' = wo_invoked ?w @ [(''note'', [])]" by blast
  have "operator demo_server Approver (demo_bearer ''development-admin-token'') other_held_world = (Inr shared_administrator, ?w)"
    using operator_cases [of demo_server Approver "demo_bearer ''development-admin-token''" other_held_world]
      demo_administrator [of Approver other_held_world] by (auto simp: operator_admitted_def)
  then have "snd (respond demo_server (Post_Execute_Approval (demo_bearer ''development-admin-token'') ''ap'') other_held_world) = w'"
    using e by (cases r) (auto simp: status_only_def execute_approved_endpoint_def andthen_def refuse_def raise_run ret_run demo_server_def
      split: option.split)
  then show ?thesis using e(2) by simp
qed

theorem quarantined_agent_runs_nothing_witness:
  "\<exists>t a. tool_ran_for demo_server (Post_Execute_Approval (demo_bearer ''development-admin-token'') ''ap'') other_held_world t a
     \<and> (t, a) \<noteq> (''acme'', ''a2'')"
proof -
  have h: "held ''acme'' ''a2'' (wo_store other_held_world)" by (simp add: other_held_world_def quarantine_holds)
  have "serve_all [] (demo_server, other_held_world) = (demo_server, other_held_world)" by simp
  from quarantined_agent_runs_nothing [OF h this other_held_runs] show ?thesis by blast
qed

text \<open>An admitted approver's decision on a pending approval that has not expired is recorded.\<close>

lemma approve_approves:
  assumes o: "operator_admitted sv Approver b w who"
    and r: "resolve_approval (wo_clock w (Suc (wo_ticks w))) i ''approved'' (reviewer_of who) remark (wo_store w) = (True, st)"
  shows "status_of i (wo_store (snd (respond sv (Post_Approve b i remark) w))) = Some ''approved''"
proof -
  have "status_of i st = Some ''approved''" using resolve_status [OF r, of i] by simp
  moreover have "operator sv Approver b w = (Inr who, w\<lparr>wo_ticks := Suc (wo_ticks w)\<rparr>)"
    using operator_cases [of sv Approver b w] o by (auto simp: operator_admitted_def)
  ultimately show ?thesis
    by (simp add: status_only_def approve_def resolve_endpoint_def resolved_record_def andthen_assoc andthen_Inr andthen_tick andthen_db
        andthen_query andthen_lift andthen_audit r refuse_def andthen_def [of "raise e" for e] raise_run ret_run
        split: sum.split option.split)
      (simp add: status_of_def append_audit_def Let_def)
qed

text \<open>
  C9. Only an approver approves: an approval that is approved after a sequence of requests was
  approved before, or the sequence has an approval of it that came when its approver was admitted.
\<close>

theorem approvals_need_approver:
  assumes "status_of i (wo_store (snd (serve_all qs (sv, w)))) = Some ''approved''"
  shows "status_of i (wo_store w) = Some ''approved''
    \<or> (\<exists>before b remark after. qs = before @ Post_Approve b i remark # after
        \<and> (case serve_all before (sv, w) of (sv', w') \<Rightarrow> \<exists>who. operator_admitted sv' Approver b w' who))"
  using served_approved [OF serve_all_exercised assms]
proof (elim disjE)
  assume e: "exercised qs sv w (Resolves i ''approved'')"
  then show ?thesis using exercised_by [OF e] by (fastforce dest!: approves simp: admitted_to_def)
qed simp

definition pending_world :: world where
  "pending_world = demo_world\<lparr>wo_store := empty_store\<lparr>approvals := [demo_approved\<lparr>ap_status := ''pending''\<rparr>]\<rparr>\<rparr>"

theorem approvals_need_approver_witness:
  "\<exists>before b remark after. [Post_Approve (demo_bearer ''development-admin-token'') ''ap'' []] = before @ Post_Approve b ''ap'' remark # after
     \<and> (case serve_all before (demo_server, pending_world) of (sv', w') \<Rightarrow> \<exists>who. operator_admitted sv' Approver b w' who)"
proof -
  let ?qs = "[Post_Approve (demo_bearer ''development-admin-token'') ''ap'' []]"
  have before: "status_of ''ap'' (wo_store pending_world) = Some ''pending''"
    by (simp add: pending_world_def status_of_def demo_approved_def select_one_def new_approval_def)
  have "status_of ''ap'' (wo_store (snd (serve_all ?qs (demo_server, pending_world)))) = Some ''approved''"
    using approve_approves [OF demo_administrator, of pending_world "''ap''" "[]"]
    by (simp add: serve_def pending_world_def demo_world_def resolve_approval_def select_one_def demo_approved_def new_approval_def
        resolvable_def seconds_def empty_store_def)
  from approvals_need_approver [OF this] before show ?thesis by auto
qed

section \<open>Tokens\<close>

definition demo_token_request :: token_request where
  "demo_token_request = \<lparr>tq_agent_id = ''a1'', tq_tenant_id = ''acme'', tq_scopes = [''mail''], tq_ttl = 3600, tq_owner = ''owner''\<rparr>"

lemma demo_issue:
  "\<exists>token w'. issue_agent_token demo_server (demo_bearer ''development-admin-token'') demo_token_request demo_world = (Inr (token, 3601000000, ''id0''), w')
     \<and> wo_clock w' = wo_clock demo_world \<and> wo_ticks w' = 5"
proof -
  have c: "wo_clock demo_world = (\<lambda>n. 1000000 * int n)" "wo_ticks demo_world = 0" "agent_tokens (wo_store demo_world) = []"
    "tq_ttl demo_token_request = 3600" "wo_drawn demo_world = 0"
    by (simp_all add: demo_world_def empty_store_def demo_token_request_def)
  have "wo_ids demo_world 0 = ''id0''" by code_simp
  then show ?thesis using issue_succeeds [OF demo_administrator, of demo_world demo_token_request]
    by (simp add: c seconds_def whole_seconds_def)
qed



text \<open>
  C8. An agent whose tokens an administrator revoked is locked out at once and for good: a bearer
  that was accepted before the revocation is accepted by no request after it, at any later time,
  whatever requests the server answered in between, new registrations of the agent included.
\<close>

theorem revoked_agent_locked_out:
  assumes "tokens_wf (wo_store w)" and "agent_admitted sv b w p" and "operator_admitted sv Administrator admin w who"
    and "serve_all (Post_Revoke admin (pr_tenant_id p) (pr_agent_id p) remark # qs) (sv, w) = (sv', w')"
  shows "\<not> admitted_to sv' (Agent_Token b) w'"
proof -
  let ?q = "Post_Revoke admin (pr_tenant_id p) (pr_agent_id p) remark"
  let ?w1 = "snd (respond sv ?q w)"
  obtain t where t: "t \<in> set (agent_tokens (wo_store w))" "tk_id t = pr_token_id p" "tk_tenant t = pr_tenant_id p" "tk_agent t = pr_agent_id p"
    using admitted_token [OF assms(2)] by blast
  have "revoked_token (pr_token_id p) (wo_store ?w1)"
    using revoke_revokes [OF t(1,3,4)] revoke_answered [OF assms(3)] t(2) by (simp add: revoked_token_def)
  moreover have "tokens_wf (wo_store ?w1)" using served_tokens [OF respond_served [OF refl] assms(1)] .
  moreover have later: "served (sv_env sv) (request_controls qs) ?w1 w'"
    using serve_all_served [OF assms(4) [unfolded serve_all_Cons]] by (simp add: server_after_env)
  ultimately have off: "revoked_token (pr_token_id p) (wo_store w')" "tokens_wf (wo_store w')"
    using served_revoked served_tokens by blast+
  have same: "sv_crypto sv' = sv_crypto sv" "sv_signer sv' = sv_signer sv"
    using serve_all_same [OF assms(4)] by (simp, metis server.select_convs(4) server.surjective server.update_convs(7))
  have "p' = p" if "agent_admitted sv' b w' p'" for p'
    using that assms(2) principal_unique same by (auto simp: agent_admitted_def)
  moreover have "\<not> agent_admitted sv' b w' p" using revoked_inactive [OF off(2,1)] by (auto simp: agent_admitted_def)
  ultimately show ?thesis by (auto simp: admitted_to_def)
qed

theorem revoked_agent_locked_out_witness:
  "\<exists>token w p sv' w'. agent_admitted demo_server (demo_bearer token) w p
     \<and> serve_all [Post_Revoke (demo_bearer ''development-admin-token'') (pr_tenant_id p) (pr_agent_id p) [],
         Post_Token (demo_bearer ''development-admin-token'') demo_token_request] (demo_server, w) = (sv', w')
     \<and> \<not> admitted_to sv' (Agent_Token (demo_bearer token)) w'"
proof -
  obtain token w where i: "issue_agent_token demo_server (demo_bearer ''development-admin-token'') demo_token_request demo_world
      = (Inr (token, 3601000000, ''id0''), w)" "wo_clock w = wo_clock demo_world" "wo_ticks w = 5" using demo_issue by blast
  from issued_admits [OF i(1)] i obtain p where p: "agent_admitted demo_server (demo_bearer token) w p"
    by (auto simp: demo_world_def demo_bearer_def)
  have "tokens_wf (wo_store demo_world)" by (simp add: demo_world_def tokens_wf_def empty_store_def)
  from served_tokens [OF respond_served [OF refl] this, of demo_server "Post_Token (demo_bearer ''development-admin-token'') demo_token_request"]
  have wf: "tokens_wf (wo_store w)" using i(1) by (simp add: status_only_def andthen_def ret_run)
  show ?thesis using revoked_agent_locked_out [OF wf p demo_administrator prod.collapse [symmetric]] p
    by (intro exI [of _ token] exI [of _ w] exI [of _ p]) (metis prod.collapse)
qed

end
