(* ===== verification/Policy_File.thy ===== *)
theory Policy_File
  imports Policy Wire
begin

text \<open>
  The policy document of \<^verbatim>\<open>policy.py\<close>: reading it, validating it and the record that \<open>Policy\<close>
  evaluates, with the document that the repository ships in \<^verbatim>\<open>config/policies.json\<close>. The engine keeps
  the JSON document and converts each entry where it uses it; the decoder does so once, and gives
  \<open>None\<close> for documents with an entry of a type that the engine has no use for.
\<close>

section \<open>Entries\<close>

definition text_at :: "(string, json) dict \<Rightarrow> string \<Rightarrow> string option" where
  "text_at d k = map_option py_str (map_of d k)"

text \<open>An entry that is tested for its truth before it is read as a text.\<close>

definition truthy_text :: "(string, json) dict \<Rightarrow> string \<Rightarrow> string option" where
  "truthy_text d k = (if falsy (jget d k) then None else text_at d k)"

definition flag :: "(string, json) dict \<Rightarrow> string \<Rightarrow> bool" where
  "flag d k \<longleftrightarrow> \<not> falsy (jget d k)"

definition texts_at :: "(string, json) dict \<Rightarrow> string \<Rightarrow> string list option" where
  "texts_at d k = as_strs (dget d k (JList []))"

fun as_int :: "json \<Rightarrow> int option" where
  "as_int (JInt i) = Some i"
| "as_int _ = None"

definition int_at :: "(string, json) dict \<Rightarrow> string \<Rightarrow> int option option" where
  "int_at d k = (case map_of d k of None \<Rightarrow> Some None | Some j \<Rightarrow> map_option Some (as_int j))"

definition rule_of_json :: "json \<Rightarrow> rule_entry option" where
  "rule_of_json j = (case as_dict j of
      None \<Rightarrow> Some RuleNotDict
    | Some d \<Rightarrow> map_option (\<lambda>labels. Rule
        \<lparr>rl_requires_provenance = map_option (\<lambda>v. \<not> falsy v) (map_of d ''requires_provenance''),
         rl_blocked_labels = labels, rl_action = text_at d ''action'', rl_deny_untrusted = flag d ''deny_untrusted'',
         rl_max_classification = truthy_text d ''max_classification''\<rparr>) (texts_at d ''blocked_labels''))"

definition field_policies_of_json :: "json \<Rightarrow> field_policies option" where
  "field_policies_of_json j = (case as_dict j of
      None \<Rightarrow> Some PoliciesNotDict
    | Some d \<Rightarrow> map_option Policies (collect (\<lambda>(k, r). map_option (Pair k) (rule_of_json r)) d))"

definition patterns_of_json :: "json \<Rightarrow> (string, string list) dict option" where
  "patterns_of_json j = Option.bind (as_dict j) (collect (\<lambda>(k, v). map_option (Pair k) (as_strs v)))"

definition tool_of_json :: "json \<Rightarrow> tool_entry option" where
  "tool_of_json j = (case as_dict j of
      None \<Rightarrow> Some ToolNotDict
    | Some d \<Rightarrow> (case (texts_at d ''allowed_agents'', texts_at d ''required_scopes'', texts_at d ''blocked_taint_labels'',
          patterns_of_json (dget d ''blocked_argument_patterns'' (JDict [])),
          field_policies_of_json (dget d ''field_policies'' (JDict [])),
          int_at d ''max_string_length'', int_at d ''max_egress_bytes'', int_at d ''hourly_egress_bytes'') of
        (Some agents, Some scopes, Some labels, Some patterns, Some frules, Some len, Some single, Some hourly) \<Rightarrow> Some (Tool
          \<lparr>tl_risk = text_at d ''risk'', tl_effect = text_at d ''effect'', tl_allowed_agents = agents,
           tl_required_scopes = scopes, tl_sensitive = flag d ''sensitive'', tl_egress = flag d ''egress'',
           tl_category = text_at d ''category'', tl_requires_provenance = flag d ''requires_provenance'',
           tl_max_input_classification = truthy_text d ''max_input_classification'',
           tl_classification_violation_action = text_at d ''classification_violation_action'',
           tl_blocked_taint_labels = labels, tl_blocked_argument_patterns = patterns, tl_field_policies = frules,
           tl_max_string_length = len, tl_max_egress_bytes = single, tl_hourly_egress_bytes = hourly,
           tl_dlp_action = text_at d ''dlp_action'', tl_mcp_server_id = truthy_text d ''mcp_server_id'',
           tl_mcp_tool_name = text_at d ''mcp_tool_name''\<rparr>)
      | _ \<Rightarrow> None))"

definition defaults_of_json :: "json \<Rightarrow> policy_defaults option" where
  "defaults_of_json j = Option.bind (as_dict j) (\<lambda>d.
     case (int_at d ''max_string_length'', int_at d ''requests_per_minute'', int_at d ''approval_ttl_seconds'',
           int_at d ''quarantine_threshold'', int_at d ''quarantine_window_seconds'', int_at d ''max_egress_bytes'',
           int_at d ''hourly_egress_bytes'', int_at d ''cross_trace_taint_window_seconds'', int_at d ''mcp_observation_ttl_seconds'') of
       (Some len, Some rate, Some ttl, Some threshold, Some window, Some single, Some hourly, Some cross, Some mcp) \<Rightarrow> Some
         \<lparr>df_max_string_length = len, df_requests_per_minute = rate, df_approval_ttl = ttl, df_quarantine_threshold = threshold,
          df_quarantine_window = window, df_max_egress_bytes = single, df_hourly_egress_bytes = hourly,
          df_cross_trace_window = cross, df_mcp_observation_ttl = mcp\<rparr>
     | _ \<Rightarrow> None)"

section \<open>Documents\<close>

definition policy_of_json :: "json \<Rightarrow> policy option" where
  "policy_of_json j = Option.bind (as_dict j) (\<lambda>d. Option.bind (as_dict (jget d ''tools'')) (\<lambda>tools.
     case (defaults_of_json (dget d ''defaults'' (JDict [])), collect (\<lambda>(k, t). map_option (Pair k) (tool_of_json t)) tools) of
       (Some defs, Some entries) \<Rightarrow> Some \<lparr>po_version = py_str (jget d ''version''), po_defaults = defs, po_tools = entries, po_runtime = []\<rparr>
     | _ \<Rightarrow> None))"

definition document_error :: "json \<Rightarrow> exc option" where
  "document_error j = (case as_dict j of
      None \<Rightarrow> Some (PolicyConfigurationError ''Policy must be an object'')
    | Some d \<Rightarrow> (case as_dict (jget d ''tools'') of
        None \<Rightarrow> Some (PolicyConfigurationError ''Policy requires version and tools'')
      | Some tools \<Rightarrow>
          if falsy (jget d ''version'') then Some (PolicyConfigurationError ''Policy requires version and tools'')
          else if 500 < length tools then Some (PolicyConfigurationError ''Policy contains too many tools'') else None))"

text \<open>\<^verbatim>\<open>_load\<close>, of the content of the file if it can be read.\<close>

definition load_policy :: "string option \<Rightarrow> (exc + policy) option" where
  "load_policy content = (case Option.bind content loads of
      None \<Rightarrow> Some (Inl (PolicyConfigurationError ''Cannot load policy''))
    | Some j \<Rightarrow> (case document_error j of Some e \<Rightarrow> Some (Inl e) | None \<Rightarrow> map_option Inr (policy_of_json j)))"

definition from_mapping :: "json \<Rightarrow> (exc + policy) option" where
  "from_mapping j =
     (if 1000000 < int (length (dumps True j)) then Some (Inl (PolicyConfigurationError ''Replay policy exceeds 1 MB''))
      else case document_error j of Some e \<Rightarrow> Some (Inl e) | None \<Rightarrow> map_option Inr (policy_of_json j))"

section \<open>The shipped document\<close>

definition shipped_tools :: "(string, json) dict" where
  "shipped_tools =
     [(''search_knowledge'', JDict [(''risk'', JStr ''low''), (''effect'', JStr ''allow''), (''allowed_agents'', jstrs
       [''research-agent'']), (''required_scopes'', jstrs [''tools:search'']), (''sensitive'', JBool False),
       (''egress'', JBool False), (''category'', JStr ''knowledge_read'')]),
      (''send_email'', JDict [(''risk'', JStr ''high''), (''effect'', JStr ''require_approval''), (''allowed_agents'', jstrs
       [''research-agent'']), (''required_scopes'', jstrs [''tools:email:send'']), (''sensitive'', JBool True),
       (''requires_provenance'', JBool True), (''egress'', JBool True), (''category'', JStr ''egress''),
       (''max_input_classification'', JStr ''internal''), (''classification_violation_action'', JStr ''deny''),
       (''blocked_taint_labels'', jstrs [''prompt_injection'', ''secret'', ''customer-data'', ''restricted'']),
       (''field_policies'', JDict [(''/body'', JDict [(''requires_provenance'', JBool True), (''blocked_labels'',
       jstrs [''prompt_injection'', ''secret'', ''customer-data'', ''restricted'']), (''max_classification'', JStr
       ''internal''), (''deny_untrusted'', JBool True), (''action'', JStr ''deny'')])]), (''max_egress_bytes'', JInt
       50000), (''hourly_egress_bytes'', JInt 250000), (''dlp_action'', JStr ''deny''),
       (''blocked_argument_patterns'', JDict [(''to'', jstrs [''*@public-mail.invalid''])])]),
      (''read_customer_record'', JDict [(''risk'', JStr ''high''), (''effect'', JStr ''require_approval''),
       (''allowed_agents'', jstrs [''support-agent'']), (''required_scopes'', jstrs [''tools:customer:read'']),
       (''sensitive'', JBool True), (''requires_provenance'', JBool True), (''egress'', JBool False), (''category'',
       JStr ''sensitive_read'')]),
      (''github_get_issue'', JDict [(''risk'', JStr ''low''), (''effect'', JStr ''allow''), (''allowed_agents'', jstrs
       [''research-agent'', ''coding-agent'']), (''required_scopes'', jstrs [''tools:github:issues:read'']),
       (''sensitive'', JBool False), (''egress'', JBool False), (''category'', JStr ''external_read'')]),
      (''github_read_file'', JDict [(''risk'', JStr ''medium''), (''effect'', JStr ''allow''), (''allowed_agents'', jstrs
       [''research-agent'', ''coding-agent'']), (''required_scopes'', jstrs [''tools:github:contents:read'']),
       (''sensitive'', JBool False), (''egress'', JBool False), (''category'', JStr ''source_read''),
       (''blocked_argument_patterns'', JDict [(''path'', jstrs [''.env'', ''.env.*'', ''*.pem'', ''*.key'',
       ''**/*.pem'', ''**/*.key''])])]),
      (''github_comment_issue'', JDict [(''risk'', JStr ''high''), (''effect'', JStr ''require_approval''),
       (''allowed_agents'', jstrs [''research-agent'', ''coding-agent'']), (''required_scopes'', jstrs
       [''tools:github:issues:write'']), (''sensitive'', JBool True), (''requires_provenance'', JBool True),
       (''egress'', JBool True), (''category'', JStr ''github_write''), (''max_input_classification'', JStr
       ''internal''), (''classification_violation_action'', JStr ''deny''), (''blocked_taint_labels'', jstrs
       [''prompt_injection'', ''secret'', ''customer-data'', ''restricted'']), (''dlp_action'', JStr ''deny'')]),
      (''github_create_branch'', JDict [(''risk'', JStr ''high''), (''effect'', JStr ''require_approval''),
       (''allowed_agents'', jstrs [''coding-agent'']), (''required_scopes'', jstrs [''tools:github:contents:write'']),
       (''sensitive'', JBool True), (''requires_provenance'', JBool True), (''egress'', JBool False), (''category'',
       JStr ''github_write''), (''blocked_taint_labels'', jstrs [''prompt_injection'', ''secret'', ''customer-data'',
       ''restricted'']), (''blocked_argument_patterns'', JDict [(''branch'', jstrs [''main'', ''master'']),
       (''from_ref'', jstrs [''refs/*''])])]),
      (''github_create_pull_request'', JDict [(''risk'', JStr ''high''), (''effect'', JStr ''require_approval''),
       (''allowed_agents'', jstrs [''coding-agent'']), (''required_scopes'', jstrs
       [''tools:github:pull_requests:write'']), (''sensitive'', JBool True), (''requires_provenance'', JBool True),
       (''egress'', JBool True), (''category'', JStr ''github_write''), (''max_input_classification'', JStr
       ''internal''), (''classification_violation_action'', JStr ''deny''), (''blocked_taint_labels'', jstrs
       [''prompt_injection'', ''secret'', ''customer-data'', ''restricted'']), (''dlp_action'', JStr ''deny''),
       (''max_string_length'', JInt 20000)]),
      (''github_update_file'', JDict [(''risk'', JStr ''critical''), (''effect'', JStr ''require_approval''),
       (''allowed_agents'', jstrs [''coding-agent'']), (''required_scopes'', jstrs [''tools:github:contents:write'']),
       (''sensitive'', JBool True), (''requires_provenance'', JBool True), (''egress'', JBool True), (''category'',
       JStr ''github_write''), (''max_input_classification'', JStr ''internal''),
       (''classification_violation_action'', JStr ''deny''), (''blocked_taint_labels'', jstrs [''prompt_injection'',
       ''secret'', ''customer-data'', ''restricted'']), (''dlp_action'', JStr ''deny''), (''max_string_length'', JInt
       256000), (''blocked_argument_patterns'', JDict [(''branch'', jstrs [''main'', ''master'']), (''path'', jstrs
       [''.env'', ''.env.*'', ''*.pem'', ''*.key'', ''**/*.pem'', ''**/*.key'', ''.github/workflows/*''])])]),
      (''delete_record'', JDict [(''risk'', JStr ''critical''), (''effect'', JStr ''deny''), (''allowed_agents'', jstrs []),
       (''required_scopes'', jstrs [''tools:record:delete'']), (''sensitive'', JBool True), (''requires_provenance'',
       JBool True), (''egress'', JBool False), (''category'', JStr ''destructive'')])]"

definition shipped_document :: json where
  "shipped_document = JDict
     [(''version'', JStr ''2026-09-21.7''),
      (''defaults'', JDict [(''unknown_tool'', JStr ''deny''), (''untrusted_to_sensitive'', JStr ''deny''),
       (''max_string_length'', JInt 10000), (''requests_per_minute'', JInt 60), (''approval_ttl_seconds'', JInt 900),
       (''quarantine_threshold'', JInt 5), (''quarantine_window_seconds'', JInt 300), (''max_egress_bytes'', JInt
       100000), (''hourly_egress_bytes'', JInt 1000000), (''cross_trace_taint_window_seconds'', JInt 900),
       (''mcp_observation_ttl_seconds'', JInt 3600)]),
      (''tools'', JDict shipped_tools)]"

definition shipped_policy :: policy where
  "shipped_policy = (case policy_of_json shipped_document of Some p \<Rightarrow> p | None \<Rightarrow> \<lparr>po_version = [], po_defaults = demo_defaults, po_tools = [], po_runtime = []\<rparr>)"

lemma shipped_loads: "policy_of_json shipped_document \<noteq> None \<and> document_error shipped_document = None"
  by code_simp

end
