(* ===== verification/Client.thy ===== *)
theory Client
  imports Admin_Identity Provenance Wire
begin

text \<open>
  The SDK of \<^verbatim>\<open>client.py\<close> and the bodies that the API reads from it. The transport is a parameter: for
  every request either no answer, or a status with the JSON value of the body if it has one. The
  lemmas show that the API reads exactly the call that the application asked for, and that no failure
  of the gateway is taken for an answer.
\<close>

section \<open>The client\<close>

datatype client_answer = Unreachable | Replied nat "json option"

type_synonym transport = "string \<Rightarrow> (string \<times> string) list \<Rightarrow> string \<Rightarrow> client_answer"

record sdk_client =
  sd_base :: string
  sd_headers :: "(string \<times> string) list"
  sd_transport :: transport

definition new_client :: "string \<Rightarrow> string \<Rightarrow> transport \<Rightarrow> sdk_client" where
  "new_client base token transport =
     \<lparr>sd_base = rstrip_slash base, sd_headers = [(''Authorization'', ''Bearer '' @ token)], sd_transport = transport\<rparr>"

datatype client_error = SentinelGateError string | Uncaught exc

text \<open>
  \<^verbatim>\<open>dict(...)\<close> of a JSON value: of a list, its elements are pairs of a hashable key and a value. The
  keys are JSON values; a boolean equals its number.
\<close>

fun dict_key :: "json \<Rightarrow> json" where
  "dict_key (JBool b) = JInt (if b then 1 else 0)"
| "dict_key j = j"

definition pair_of :: "json \<Rightarrow> exc + json \<times> json" where
  "pair_of j = (case j of
      JList [k, v] \<Rightarrow> (case k of JList _ \<Rightarrow> Inl (TypeError ''unhashable type'') | JDict _ \<Rightarrow> Inl (TypeError ''unhashable type'') | _ \<Rightarrow> Inr (k, v))
    | JStr [a, b] \<Rightarrow> Inr (JStr [a], JStr [b])
    | JDict [(a, _), (b, _)] \<Rightarrow> Inr (JStr a, JStr b)
    | JList _ \<Rightarrow> Inl (ValueError ''dictionary update sequence element has the wrong length'')
    | JStr _ \<Rightarrow> Inl (ValueError ''dictionary update sequence element has the wrong length'')
    | JDict _ \<Rightarrow> Inl (ValueError ''dictionary update sequence element has the wrong length'')
    | _ \<Rightarrow> Inl (TypeError ''cannot convert dictionary update sequence element to a sequence''))"

fun put_key :: "json \<Rightarrow> json \<Rightarrow> (json \<times> json) list \<Rightarrow> (json \<times> json) list" where
  "put_key k v [] = [(k, v)]"
| "put_key k v ((k', v') # d) = (if dict_key k' = dict_key k then (k', v) # d else (k', v') # put_key k v d)"

fun pairs_of :: "json list \<Rightarrow> (json \<times> json) list \<Rightarrow> exc + (json \<times> json) list" where
  "pairs_of [] d = Inr d"
| "pairs_of (x # xs) d = ebind (pair_of x) (\<lambda>(k, v). pairs_of xs (put_key k v d))"

definition as_python_dict :: "json \<Rightarrow> exc + (json \<times> json) list" where
  "as_python_dict j = (case j of
      JDict d \<Rightarrow> Inr (map (\<lambda>(k, v). (JStr k, v)) d)
    | JList xs \<Rightarrow> pairs_of xs []
    | JStr [] \<Rightarrow> Inr []
    | JStr _ \<Rightarrow> Inl (ValueError ''dictionary update sequence element has the wrong length'')
    | _ \<Rightarrow> Inl (TypeError ''object is not iterable''))"

definition client_post :: "sdk_client \<Rightarrow> string \<Rightarrow> (string, json) dict \<Rightarrow> client_error + (json \<times> json) list" where
  "client_post c path payload =
     (let failed = SentinelGateError (''SentinelGate request failed: '' @ path) in
      case sd_transport c (sd_base c @ path) (sd_headers c) (dumps False (JDict payload)) of
        Unreachable \<Rightarrow> Inl failed
      | Replied status body \<Rightarrow>
          if status < 200 \<or> 300 \<le> status then Inl failed
          else (case body of
              None \<Rightarrow> Inl failed
            | Some j \<Rightarrow> (case as_python_dict j of
                Inr d \<Rightarrow> Inr d
              | Inl e \<Rightarrow> Inl (if is_value_error e then failed else Uncaught e))))"

section \<open>Payloads\<close>

definition some_text :: "string \<Rightarrow> string option \<Rightarrow> (string, json) dict" where
  "some_text k v = (case nonempty v of None \<Rightarrow> [] | Some s \<Rightarrow> [(k, JStr s)])"

definition attest_payload :: "string \<Rightarrow> string \<Rightarrow> string \<Rightarrow> (string, json) dict" where
  "attest_payload source content trust = [(''source_id'', JStr source), (''content'', JStr content), (''trust'', JStr trust)]"

definition client_attest :: "sdk_client \<Rightarrow> string \<Rightarrow> string \<Rightarrow> string \<Rightarrow> client_error + (json \<times> json) list" where
  "client_attest c source content trust = client_post c ''/v1/provenance/attest'' (attest_payload source content trust)"

definition structured_payload :: "string \<Rightarrow> json \<Rightarrow> string \<Rightarrow> string \<Rightarrow> string list option \<Rightarrow> string option \<Rightarrow>
    (string, (string, json) dict) dict option \<Rightarrow> (string, json) dict" where
  "structured_payload source value trust classification labels trace overrides =
     [(''source_id'', JStr source), (''value'', value), (''trust'', JStr trust), (''classification'', JStr classification),
      (''labels'', jstrs (opt labels [])), (''field_overrides'', JDict (map (\<lambda>(p, d). (p, JDict d)) (opt overrides [])))]
     @ some_text ''trace_id'' trace"

definition client_attest_structured :: "sdk_client \<Rightarrow> string \<Rightarrow> json \<Rightarrow> string \<Rightarrow> string \<Rightarrow> string list option \<Rightarrow> string option \<Rightarrow>
    (string, (string, json) dict) dict option \<Rightarrow> client_error + (json \<times> json) list" where
  "client_attest_structured c source value trust classification labels trace overrides =
     client_post c ''/v1/provenance/attest-structured'' (structured_payload source value trust classification labels trace overrides)"

record client_call =
  cc_user :: string
  cc_tool :: string
  cc_arguments :: "(string, json) dict"
  cc_tokens :: "string list option"
  cc_fields :: "(string, field_reference list) dict option"
  cc_purpose :: string
  cc_trace :: "string option"
  cc_request :: "string option"

definition call_payload :: "client_call \<Rightarrow> (string, json) dict" where
  "call_payload q =
     [(''user_id'', JStr (cc_user q)), (''tool_name'', JStr (cc_tool q)), (''arguments'', JDict (cc_arguments q)),
      (''provenance_tokens'', jstrs (opt (cc_tokens q) [])), (''field_provenance'', references_json (opt (cc_fields q) [])),
      (''purpose'', JStr (cc_purpose q))]
     @ some_text ''trace_id'' (cc_trace q) @ some_text ''request_id'' (cc_request q)"

definition client_tool_call :: "sdk_client \<Rightarrow> string \<Rightarrow> client_call \<Rightarrow> client_error + (json \<times> json) list" where
  "client_tool_call c path q = client_post c path (call_payload q)"

definition client_evaluate :: "sdk_client \<Rightarrow> client_call \<Rightarrow> client_error + (json \<times> json) list" where
  "client_evaluate c q = client_tool_call c ''/v1/evaluate'' q"

definition client_execute :: "sdk_client \<Rightarrow> client_call \<Rightarrow> client_error + (json \<times> json) list" where
  "client_execute c q = client_tool_call c ''/v1/execute'' q"

section \<open>The bodies of requests\<close>

text \<open>What the validation of the request models makes of a body: absent entries take their defaults, identifiers new ones.\<close>

definition call_of_body :: "string \<Rightarrow> string \<Rightarrow> string \<Rightarrow> tool_call option" where
  "call_of_body new_request new_trace body = Option.bind (Option.bind (loads body) as_dict) (\<lambda>d. call_of_json (JDict (d @
     [(''request_id'', JStr new_request), (''trace_id'', JStr new_trace), (''arguments'', JDict []), (''provenance_tokens'', JList []),
      (''field_provenance'', JDict []), (''purpose'', JStr []), (''task_id'', JNull), (''mcp_server_id'', JNull)])))"

definition overrides_of_json :: "json \<Rightarrow> (string, (string, json) dict) dict option" where
  "overrides_of_json j = Option.bind (as_dict j) (collect (\<lambda>(p, v). if json_pointer_ok p then map_option (Pair p) (as_dict v) else None))"

definition structured_ok_text :: "structured_request \<Rightarrow> bool" where
  "structured_ok_text q \<longleftrightarrow> 1 \<le> length (sr_source_id q) \<and> length (sr_source_id q) \<le> 256 \<and> length (sr_labels q) \<le> 50
     \<and> list_all taint_label_ok (sr_labels q) \<and> (case sr_trace_id q of None \<Rightarrow> True | Some t \<Rightarrow> ident_ok 128 t)"

definition structured_of_body :: "string \<Rightarrow> structured_request option" where
  "structured_of_body body = Option.bind (Option.bind (loads body) as_dict) (\<lambda>d.
     case (Option.bind (map_of d ''source_id'') as_str, map_of d ''value'',
           Option.bind (as_str (dget d ''trust'' (JStr ''untrusted''))) trust_of,
           Option.bind (as_str (dget d ''classification'' (JStr ''public''))) classification_of,
           as_strs (dget d ''labels'' (JList [])), as_opt_str (jget d ''trace_id''),
           overrides_of_json (dget d ''field_overrides'' (JDict []))) of
       (Some source, Some value, Some trust, Some classification, Some labels, Some trace, Some overrides) \<Rightarrow>
         (let q = \<lparr>sr_source_id = source, sr_value = value, sr_trust = trust, sr_classification = classification,
                   sr_labels = labels, sr_trace_id = trace, sr_field_overrides = overrides\<rparr>
          in if structured_ok_text q then Some q else None)
     | _ \<Rightarrow> None)"

section \<open>Properties\<close>

definition asked :: "string \<Rightarrow> string \<Rightarrow> client_call \<Rightarrow> tool_call" where
  "asked new_request new_trace q = \<lparr>tc_request_id = opt (nonempty (cc_request q)) new_request, tc_user_id = cc_user q,
     tc_tool_name = cc_tool q, tc_arguments = cc_arguments q, tc_provenance_tokens = opt (cc_tokens q) [],
     tc_field_provenance = opt (cc_fields q) [], tc_purpose = cc_purpose q, tc_trace_id = opt (nonempty (cc_trace q)) new_trace,
     tc_task_id = None, tc_mcp_server_id = None\<rparr>"

lemma call_payload_wf:
  assumes "json_wf (JDict (cc_arguments q))" "dict_wf (opt (cc_fields q) [])"
  shows "json_wf (JDict (call_payload q))"
  using assms references_json_wf [OF assms(2)]
  by (cases "nonempty (cc_request q)"; cases "nonempty (cc_trace q)") (simp_all add: call_payload_def dict_wf_def some_text_def)

lemma body_read:
  assumes "tool_call_ok (asked new_request new_trace q)"
  shows "call_of_json (JDict (call_payload q @
     [(''request_id'', JStr new_request), (''trace_id'', JStr new_trace), (''arguments'', JDict []), (''provenance_tokens'', JList []),
      (''field_provenance'', JDict []), (''purpose'', JStr []), (''task_id'', JNull), (''mcp_server_id'', JNull)]))
   = Some (asked new_request new_trace q)"
proof -
  have "references_of_json (references_json (opt (cc_fields q) [])) = Some (opt (cc_fields q) [])"
    using assms by (intro references_roundtrip) (simp add: tool_call_ok_def asked_def)
  then show ?thesis using assms
    by (cases "nonempty (cc_request q)"; cases "nonempty (cc_trace q)")
      (simp_all add: call_of_json_def call_payload_def some_text_def asked_def Let_def)
qed

lemma overrides_read:
  "list_all (\<lambda>(p, d). json_pointer_ok p) os \<Longrightarrow> overrides_of_json (JDict (map (\<lambda>(p, d). (p, JDict d)) os)) = Some os"
  by (auto simp: overrides_of_json_def list_all_iff intro!: collect_map)

lemma structured_payload_read:
  assumes "structured_ok_text q" "list_all (\<lambda>(p, d). json_pointer_ok p) (sr_field_overrides q)" "sr_trace_id q \<noteq> Some []"
    and "json_wf (sr_value q)" "json_wf (JDict (map (\<lambda>(p, d). (p, JDict d)) (sr_field_overrides q)))"
  shows "structured_of_body (dumps False (JDict (structured_payload (sr_source_id q) (sr_value q) (trust_value (sr_trust q))
    (classification_value (sr_classification q)) (Some (sr_labels q)) (sr_trace_id q) (Some (sr_field_overrides q))))) = Some q"
proof -
  let ?p = "structured_payload (sr_source_id q) (sr_value q) (trust_value (sr_trust q))
    (classification_value (sr_classification q)) (Some (sr_labels q)) (sr_trace_id q) (Some (sr_field_overrides q))"
  have "json_wf (JDict ?p)" using assms(4,5)
    by (cases "nonempty (sr_trace_id q)") (simp_all add: structured_payload_def dict_wf_def some_text_def)
  then have "structured_of_body (dumps False (JDict ?p)) = Option.bind (as_dict (JDict ?p)) (\<lambda>d.
     case (Option.bind (map_of d ''source_id'') as_str, map_of d ''value'',
           Option.bind (as_str (dget d ''trust'' (JStr ''untrusted''))) trust_of,
           Option.bind (as_str (dget d ''classification'' (JStr ''public''))) classification_of,
           as_strs (dget d ''labels'' (JList [])), as_opt_str (jget d ''trace_id''),
           overrides_of_json (dget d ''field_overrides'' (JDict []))) of
       (Some source, Some value, Some trust, Some classification, Some labels, Some trace, Some overrides) \<Rightarrow>
         (let q = \<lparr>sr_source_id = source, sr_value = value, sr_trust = trust, sr_classification = classification,
                   sr_labels = labels, sr_trace_id = trace, sr_field_overrides = overrides\<rparr>
          in if structured_ok_text q then Some q else None)
     | _ \<Rightarrow> None)"
    unfolding structured_of_body_def by (simp only: loads_dumps bind.simps)
  then show ?thesis using assms(1,3) overrides_read [OF assms(2)]
    by (cases q; cases "sr_trace_id q") (auto simp: structured_payload_def some_text_def nonempty_def dget_def jget_def Let_def)
qed

text \<open>No failure of the network or of the gateway is taken for an answer.\<close>

lemma client_answered:
  assumes "client_post c path payload = Inr d"
  shows "\<exists>status j. sd_transport c (sd_base c @ path) (sd_headers c) (dumps False (JDict payload)) = Replied status (Some j)
    \<and> 200 \<le> status \<and> status < 300 \<and> as_python_dict j = Inr d"
  using assms by (auto simp: client_post_def Let_def not_less not_le split: client_answer.splits if_splits option.splits sum.splits)

text \<open>
  C40. The API reads exactly the call that the application passed to the SDK: parsing the body that
  \<^verbatim>\<open>evaluate\<close> and \<^verbatim>\<open>execute\<close> send and validating it gives every field back, with new identifiers just
  where none, or an empty one, was given.
\<close>

theorem client_call_roundtrip:
  assumes "tool_call_ok (asked new_request new_trace q)" "json_wf (JDict (cc_arguments q))" "dict_wf (opt (cc_fields q) [])"
  shows "call_of_body new_request new_trace (dumps False (JDict (call_payload q))) = Some (asked new_request new_trace q)"
  unfolding call_of_body_def loads_dumps [OF call_payload_wf [OF assms(2,3)]] by (simp add: body_read [OF assms(1)] del: append.simps)

definition demo_client_call :: client_call where
  "demo_client_call = \<lparr>cc_user = ''u'', cc_tool = ''send_email'', cc_arguments = [(''to'', JStr ''a@b'')], cc_tokens = None,
     cc_fields = Some [(''/to'', [\<lparr>fr_token = replicate 20 CHR ''k'', fr_pointer = ''/a''\<rparr>])], cc_purpose = ''p'',
     cc_trace = Some [], cc_request = Some ''r7''\<rparr>"

theorem client_call_roundtrip_witness:
  "call_of_body ''n1'' ''n2'' (dumps False (JDict (call_payload demo_client_call))) = Some (asked ''n1'' ''n2'' demo_client_call)
   \<and> tc_request_id (asked ''n1'' ''n2'' demo_client_call) = ''r7'' \<and> tc_trace_id (asked ''n1'' ''n2'' demo_client_call) = ''n2''"
proof
  have "tool_call_ok (asked ''n1'' ''n2'' demo_client_call)" by code_simp
  then show "call_of_body ''n1'' ''n2'' (dumps False (JDict (call_payload demo_client_call))) = Some (asked ''n1'' ''n2'' demo_client_call)"
    by (rule client_call_roundtrip) (simp_all add: demo_client_call_def dict_wf_def)
qed (simp add: asked_def demo_client_call_def nonempty_def)

end
