(* ===== verification/Spec2Isabelle.thy ===== *)
theory Spec2Isabelle
  imports Store_Limits Store_Agents Store_Outbox Store_Incidents Store_Mcp Watch Executor Gateway_Properties Worker Upstream_Mcp
    Api_Properties Api_Extras Red_Team Client Postgres_Backup
begin

text \<open>
  SentinelGate is a gateway between AI agents and their tools. An agent, identified by a signed token,
  asks for a tool call; the gateway looks at the policy, the provenance of the arguments, the
  containment of the agent and its budgets, and runs the tool, refuses, or waits for an approval by an
  operator. Every step is written to a chained audit log. This development models the Python sources
  below \<^verbatim>\<open>src/src/sentinelgate\<close> as functions on an explicit state and proves what they promise.

  The program and its theories, from the bottom:

  \<^item> Values and text: \<open>Prelude\<close> (time, results with an error, dictionaries as association lists in
    insertion order), \<open>Pystr\<close> and \<open>Url\<close> (string functions), \<open>Json\<close> (values, \<^verbatim>\<open>json.dumps\<close>,
    \<^verbatim>\<open>json.loads\<close> and their round trip), \<open>Regex\<close> (the matcher behind the scanners).
  \<^item> Data: \<open>Models\<close> (\<^verbatim>\<open>models.py\<close>: enumerations, records, exceptions, validation), \<open>Taint\<close> (\<^verbatim>\<open>taint.py\<close>),
    \<open>Wire\<close> (the JSON forms of stored and signed records), \<open>Field_Taint\<close> (\<^verbatim>\<open>field_taint.py\<close>).
  \<^item> Services without a store: \<open>Identity\<close> (\<^verbatim>\<open>identity.py\<close>, tokens), \<open>Security\<close> (\<^verbatim>\<open>security.py\<close>, request
    hash, secret scanner, redaction), \<open>Provenance\<close> (\<^verbatim>\<open>provenance.py\<close>), \<open>Policy\<close> and \<open>Policy_File\<close>
    (\<^verbatim>\<open>policy.py\<close>, decision and document), \<open>Red_Team\<close> (\<^verbatim>\<open>redteam.py\<close>, on \<^verbatim>\<open>config/policies.json\<close>).
  \<^item> The store, \<^verbatim>\<open>storage.py\<close>: \<open>Tables\<close> has a record per row and the store as the record of all tables;
    \<open>Store_Audit\<close>, \<open>Store_Approvals\<close>, \<open>Store_Limits\<close>, \<open>Store_Agents\<close>, \<open>Store_Lineage\<close>, \<open>Store_Outbox\<close>,
    \<open>Store_Mcp\<close>, \<open>Store_Incidents\<close> and \<open>Store_Watch\<close> have its methods, one function per transaction.
  \<^item> Tools: \<open>Executor\<close> (\<^verbatim>\<open>executor.py\<close>, the registry), \<open>Knowledge\<close> (\<^verbatim>\<open>knowledge.py\<close>), \<open>Github_Client\<close>,
    \<open>Github_Tools\<close> and \<open>Github_Safety\<close> (\<^verbatim>\<open>github_connector.py\<close>).
  \<^item> The gateway: \<open>Runtime\<close> (a world of store, clock, identifiers and effects, and operations over
    several transactions), \<open>Watch_Rules\<close> and \<open>Watch\<close> (\<^verbatim>\<open>watch.py\<close>), \<open>Gateway\<close> and \<open>Gateway_Calls\<close>
    (\<^verbatim>\<open>service.py\<close>), \<open>Replay\<close> (its replay of policies), \<open>Worker\<close> (\<^verbatim>\<open>worker.py\<close> and \<^verbatim>\<open>notifications.py\<close>).
  \<^item> The MCP side: \<open>Mcp\<close> (\<^verbatim>\<open>mcp.py\<close>), \<open>Mcp_Security\<close> (\<^verbatim>\<open>mcp_security.py\<close>), \<open>Upstream_Mcp\<close>
    (\<^verbatim>\<open>upstream_mcp.py\<close>).
  \<^item> The server: \<open>Settings\<close> (\<^verbatim>\<open>settings.py\<close>), \<open>Admin_Identity\<close> (\<^verbatim>\<open>admin_identity.py\<close>), \<open>Telemetry\<close>
    (\<^verbatim>\<open>telemetry.py\<close>), \<open>Reporting\<close> (\<^verbatim>\<open>reporting.py\<close>), and \<^verbatim>\<open>api.py\<close> in \<open>Api_Auth\<close> (services, credentials,
    sign-in), \<open>Api\<close> (routes that write), \<open>Api_Views\<close> (routes that read), \<open>Api_Extras\<close> (middleware,
    connector check, evidence) and \<open>Api_Requests\<close> (the datatype of requests and serving one).
  \<^item> Around it: \<open>Client\<close> (\<^verbatim>\<open>client.py\<close>) and \<open>Postgres_Backup\<close> (\<^verbatim>\<open>postgres_backup.py\<close>).

  What the lemmas show, from the outside in:

  \<^item> For any sequence of requests with any credentials (\<open>Api_Properties\<close>): a tool runs only as a cleared
    call of an admitted agent or under a current approval that an approver executes, each request id at
    most once; a request without credentials changes nothing; approvals are resolved by approvers only;
    quarantine and revocation last, and a quarantined agent runs nothing, approved or not; the audit log stays a verifiable chain. \<open>Lifecycle\<close> states the
    server's promise as an abstract machine of approvals, executions, quarantines and tokens, and the
    server refines it step by step (\<open>Api_Steps\<close> and \<open>Gateway_Steps\<close> hold the step relations).
  \<^item> For runs of the gateway (\<open>Gateway_Safety\<close>, \<open>Gateway_Runs\<close>, \<open>Gateway_Liveness\<close>,
    \<open>Gateway_Properties\<close>): which calls run, and that a permitted call does run; simulation has no effect.
    \<open>Gateway_Demo\<close> evaluates a small gateway, at which these properties are witnessed.
  \<^item> For the policy: the engine allows exactly what the specification \<open>permits\<close> says, more sources never
    allow more once there is one, and the shipped document allows reads only and passes its adversarial
    suite.
  \<^item> For information flow: taint records form a join semilattice, the attestation of an output or a derivation
    is at least as restricted as its inputs (\<open>Provenance\<close> says which fields are, when a connector gives
    fields of its own), and digests bind values.
  \<^item> For the store: at-most-once operations share the contract of \<open>One_Shot\<close>, the budgets share a
    sliding-window contract; leases of the outbox protect their holder, and workers drain it; the counters
    of watched tasks are exact.
  \<^item> For the boundaries: the GitHub tools stay within the allow-list, a mediated MCP server cannot change a
    pinned tool unseen, searches carry the restrictions of what they show, settings for production are
    hardened, a restore drill cannot reach the source database, and what the SDK sends is what the API
    reads.

  How code becomes definitions. A class is a record of its fields and a method a function of it. A
  method of the store is a function of the store and of the time, identifier or nonce that it draws; an
  operation over several transactions is a function on \<open>world\<close> (the type \<open>io\<close>), in which an exception does
  not undo the transactions before it. An exception is the left value of a sum. Times are integers in
  microseconds, costs, durations and latencies rationals. Text is a list of eight-bit characters, ASCII
  where the code asks for classes or cases of letters; bytes are text, and UTF-8 is the identity, except
  that a file or an answer that is not UTF-8 fails as in the code (\<open>Pystr.utf8\<close>). A
  validation error of a request model is \<open>ValueError ''invalid ...''\<close>, and messages that quote the error of
  a library leave the quotation out.

  Parameters stand for what is not in the sources: hashes, HMAC and encryption (with the laws that a
  property needs as its hypotheses), the JWT library, the schema library, the handlers of tools, the
  networks of GitHub, of the MCP servers and of the webhook, the environment, files and directories, the
  PostgreSQL programs. A handler is a function of the invocations before it and of its arguments, so it
  may keep a state of its own: that of the GitHub client is the fold of its operations over them.

  Bounds and termination. Recursion is structural or has a measure. The loops of the program that are
  bounded keep their bounds: twenty pages and five hundred tools of an MCP discovery, five matches of a
  search, the windows and limits of queries. The worker's loop is a sequence of rounds with the pauses before them;
  \<open>Worker.workers_drain\<close> says how long they may take to finish every job of the outbox. The JSON parser has the length of
  the text as fuel, and its round trip shows that this is enough.

  Concurrency. A transaction of the store is atomic, and sequences of transactions in any order stand
  for concurrent clients where a property is about them; threads within one process are not modelled.

  Not modelled, and why: the pages of the console and of the public site (\<^verbatim>\<open>dashboard.py\<close>, \<^verbatim>\<open>marketing.py\<close>:
  constant HTML), the scripts that measure, demonstrate or report (\<^verbatim>\<open>benchmark.py\<close>, \<^verbatim>\<open>benchmark_suite.py\<close>,
  \<^verbatim>\<open>production_benchmark.py\<close>, \<^verbatim>\<open>evaluation.py\<close>, \<^verbatim>\<open>adversarial_evaluation.py\<close>, \<^verbatim>\<open>resilience.py\<close>,
  \<^verbatim>\<open>watch_simulator.py\<close>, \<^verbatim>\<open>openai_demo.py\<close>: floating-point statistics, threads and printing around the
  operations modelled here), the connections, the schema and the PostgreSQL adapter of the store, and the
  command lines.
\<close>

end
